(* ===== verification/Prelude.thy ===== *)
theory Prelude
  imports Complex_Main "HOL-Library.Word" "HOL-Library.Sublist"
begin

section \<open>What the components share\<close>

text \<open>
  The parts of Python the repository's code rests on: its exceptions, the effect of a method
  that may raise and that changes state either way, the operations on \<open>str\<close> and \<open>bytes\<close>
  it calls, and the JSON values a node's RPC answers. Everything else of the development
  imports this theory. A string is a list of characters, each one octet of its UTF-8 text;
  the code's own literals and patterns are ASCII.

  Collections: \<open>act_simps\<close> rewrites the effect combinators, \<open>str_simps\<close> the string
  operations, \<open>walk_simps\<close> positions on a cyclic walk.
\<close>

named_theorems act_simps \<open>rewriting of the effect combinators\<close>
named_theorems str_simps \<open>rewriting of the string operations\<close>
named_theorems walk_simps \<open>rewriting of positions on a cyclic walk\<close>

subsection \<open>Exceptions\<close>

text \<open>
  An exception is its class and a short text saying which \<open>raise\<close> it is. The texts are the
  opening words of the source's own messages, without the values interpolated into them;
  where a message is read back by other code (\<open>capability.require\<close>) it is exact.
\<close>

datatype py_error =
    ValueError string
  | TypeError string
  | RuntimeError string
  | LookupError string
  | KeyError string
  | IndexError string
  | ZeroDivisionError
  | TimeoutError string
  | TimeoutExpired
  | AssertionError string
  | ConnectionError string
  | OSError string
  | IncompleteMessageError
  | BTClibValueError string
  | MissingCapabilityError string
  | RpcError int
  | HttpError int
  | KeyboardInterrupt
  | OtherError string

type_synonym 'a result = "py_error + 'a"

definition bind_r :: "'a result \<Rightarrow> ('a \<Rightarrow> 'b result) \<Rightarrow> 'b result" where
  "bind_r m f = (case m of Inl e \<Rightarrow> Inl e | Inr x \<Rightarrow> f x)"

lemma bind_r_simps [simp, act_simps]:
  "bind_r (Inl e) f = Inl e"
  "bind_r (Inr x) f = f x"
  by (simp_all add: bind_r_def)

lemma bind_r_Inr_iff: "bind_r m f = Inr y \<longleftrightarrow> (\<exists>x. m = Inr x \<and> f x = Inr y)"
  by (cases m) auto

subsection \<open>Effects\<close>

text \<open>
  A method that reads and writes state \<open>'s\<close> and may raise: what was written before the
  raise stays written, so the new state comes back on both branches.
\<close>

type_synonym ('s, 'a) act = "'s \<Rightarrow> 'a result \<times> 's"

definition ret :: "'a \<Rightarrow> ('s, 'a) act" where
  "ret x s = (Inr x, s)"

definition raise :: "py_error \<Rightarrow> ('s, 'a) act" where
  "raise e s = (Inl e, s)"

definition bind_a :: "('s, 'a) act \<Rightarrow> ('a \<Rightarrow> ('s, 'b) act) \<Rightarrow> ('s, 'b) act" where
  "bind_a m f s = (case m s of (Inl e, t) \<Rightarrow> (Inl e, t) | (Inr x, t) \<Rightarrow> f x t)"

text \<open>\<open>try: m except ...\<close>: the handler takes the exception over, and may raise it again.\<close>

definition try_a :: "('s, 'a) act \<Rightarrow> (py_error \<Rightarrow> ('s, 'a) act) \<Rightarrow> ('s, 'a) act" where
  "try_a m h s = (case m s of (Inl e, t) \<Rightarrow> h e t | (Inr x, t) \<Rightarrow> (Inr x, t))"

text \<open>\<open>try: m finally: f\<close>: what \<open>f\<close> raises replaces what \<open>m\<close> answered.\<close>

definition finally_a :: "('s, 'a) act \<Rightarrow> ('s, unit) act \<Rightarrow> ('s, 'a) act" where
  "finally_a m f s =
     (case m s of (r, t) \<Rightarrow> (case f t of (Inl e, u) \<Rightarrow> (Inl e, u) | (Inr _, u) \<Rightarrow> (r, u)))"

definition lift_r :: "'a result \<Rightarrow> ('s, 'a) act" where
  "lift_r r s = (r, s)"

lemma act_rewrites [simp, act_simps]:
  "ret x s = (Inr x, s)"
  "raise e s = (Inl e, s)"
  "lift_r r s = (r, s)"
  by (simp_all add: ret_def raise_def lift_r_def)

lemma bind_a_cases [act_simps]:
  "m s = (Inl e, t) \<Longrightarrow> bind_a m f s = (Inl e, t)"
  "m s = (Inr x, t) \<Longrightarrow> bind_a m f s = f x t"
  by (simp_all add: bind_a_def)

lemma bind_a_ret [simp, act_simps]:
  "bind_a (ret x) f s = f x s"
  "bind_a (raise e) f s = (Inl e, s)"
  "bind_a (lift_r (Inr x)) f s = f x s"
  "bind_a (lift_r (Inl e)) f s = (Inl e, s)"
  by (simp_all add: bind_a_def)

lemma try_a_cases [act_simps]:
  "m s = (Inr x, t) \<Longrightarrow> try_a m h s = (Inr x, t)"
  "m s = (Inl e, t) \<Longrightarrow> try_a m h s = h e t"
  by (simp_all add: try_a_def)

lemma bind_a_InrD:
  assumes "bind_a m f s = (Inr y, u)"
  obtains x t where "m s = (Inr x, t)" and "f x t = (Inr y, u)"
  using assms by (auto simp: bind_a_def split: prod.splits sum.splits)

lemma bind_a_InlE:
  assumes "bind_a m f s = (Inl e, u)"
  obtains (first) "m s = (Inl e, u)"
    | (later) x t where "m s = (Inr x, t)" and "f x t = (Inl e, u)"
  using assms by (auto simp: bind_a_def split: prod.splits sum.splits)

subsection \<open>Strings\<close>

definition py_startswith :: "'a list \<Rightarrow> 'a list \<Rightarrow> bool" where
  "py_startswith s p \<longleftrightarrow> take (length p) s = p"

definition py_removeprefix :: "'a list \<Rightarrow> 'a list \<Rightarrow> 'a list" where
  "py_removeprefix s p = (if py_startswith s p then drop (length p) s else s)"

text \<open>\<open>s.lstrip(c)\<close>, and \<open>s.split(c, 1)[0]\<close>, for one character \<open>c\<close>.\<close>

definition lstrip_char :: "'a \<Rightarrow> 'a list \<Rightarrow> 'a list" where
  "lstrip_char c s = dropWhile (\<lambda>x. x = c) s"

definition before_char :: "'a \<Rightarrow> 'a list \<Rightarrow> 'a list" where
  "before_char c s = takeWhile (\<lambda>x. x \<noteq> c) s"

text \<open>\<open>needle in hay\<close>.\<close>

fun py_contains :: "'a list \<Rightarrow> 'a list \<Rightarrow> bool" where
  "py_contains needle [] = (needle = [])"
| "py_contains needle (x # xs) = (py_startswith (x # xs) needle \<or> py_contains needle xs)"

text \<open>\<open>hay.find(needle)\<close>, \<open>None\<close> for \<open>-1\<close>.\<close>

fun py_find :: "'a list \<Rightarrow> 'a list \<Rightarrow> nat option" where
  "py_find needle [] = (if needle = [] then Some 0 else None)"
| "py_find needle (x # xs) =
     (if py_startswith (x # xs) needle then Some 0 else map_option Suc (py_find needle xs))"

lemma py_startswith_iff_prefix: "py_startswith s p \<longleftrightarrow> prefix p s"
proof
  show "py_startswith s p \<Longrightarrow> prefix p s"
    unfolding py_startswith_def by (metis take_is_prefix)
qed (auto simp: py_startswith_def prefix_def)

lemma py_startswith_append [simp, str_simps]: "py_startswith (p @ s) p"
  by (simp add: py_startswith_def)

lemma py_startswith_Nil [simp, str_simps]: "py_startswith s []"
  by (simp add: py_startswith_def)

lemma py_startswith_Cons [str_simps]:
  "py_startswith (x # xs) (y # ys) \<longleftrightarrow> x = y \<and> py_startswith xs ys"
  "\<not> py_startswith [] (y # ys)"
  by (auto simp: py_startswith_def)

lemma py_removeprefix_append [simp, str_simps]: "py_removeprefix (p @ s) p = s"
  by (simp add: py_removeprefix_def)

lemma py_contains_iff_sublist: "py_contains needle hay \<longleftrightarrow> sublist needle hay"
proof (induction hay)
  case (Cons x xs)
  then show ?case by (auto simp: py_startswith_iff_prefix sublist_Cons_right)
qed simp

lemma py_find_Some_iff:
  "py_find needle hay = Some i \<longleftrightarrow>
    i + length needle \<le> length hay \<and> take (length needle) (drop i hay) = needle
    \<and> (\<forall>j < i. take (length needle) (drop j hay) \<noteq> needle)"
proof (induction hay arbitrary: i)
  case Nil
  then show ?case by (auto simp: less_Suc_eq_0_disj)
next
  case (Cons x xs)
  show ?case
  proof (cases "take (length needle) (x # xs) = needle")
    case True
    then have "length needle \<le> length (x # xs)"
      by (metis length_take min.absorb_iff1 min.commute)
    with True show ?thesis
      by (cases i) (auto simp: py_startswith_def)
  next
    case False
    then show ?thesis
      by (cases i) (auto simp: py_startswith_def Cons.IH less_Suc_eq_0_disj)
  qed
qed

lemma py_find_None_iff: "py_find needle hay = None \<longleftrightarrow> \<not> sublist needle hay"
proof (induction hay)
  case (Cons x xs)
  then show ?case by (auto simp: py_startswith_iff_prefix sublist_Cons_right)
qed simp

subsection \<open>Numbers in text\<close>

definition is_digit :: "char \<Rightarrow> bool" where
  "is_digit c \<longleftrightarrow> 48 \<le> (of_char c :: nat) \<and> (of_char c :: nat) \<le> 57"

definition digit_val :: "char \<Rightarrow> nat" where
  "digit_val c = (of_char c :: nat) - 48"

text \<open>\<open>str.isdecimal\<close>: at least one character, all of them decimal digits.\<close>

definition py_isdecimal :: "string \<Rightarrow> bool" where
  "py_isdecimal s \<longleftrightarrow> s \<noteq> [] \<and> list_all is_digit s"

definition digits_val :: "string \<Rightarrow> nat" where
  "digits_val s = foldl (\<lambda>n c. 10 * n + digit_val c) 0 s"

definition is_space :: "char \<Rightarrow> bool" where
  "is_space c \<longleftrightarrow> (of_char c :: nat) \<in> {9, 10, 11, 12, 13, 28, 29, 30, 31, 32}"

text \<open>\<open>s.strip()\<close>: white space off both ends.\<close>

definition py_strip :: "string \<Rightarrow> string" where
  "py_strip s = rev (dropWhile is_space (rev (dropWhile is_space s)))"

text \<open>Digits with single underscores between them, as \<open>int()\<close> takes them.\<close>

fun grouped_digits :: "string \<Rightarrow> bool" where
  "grouped_digits [] = False"
| "grouped_digits [c] = is_digit c"
| "grouped_digits (c # d # cs) =
     (is_digit c \<and> (if d = CHR ''_'' then grouped_digits cs else grouped_digits (d # cs)))"

text \<open>\<open>int(s)\<close>, \<open>None\<close> where it raises \<open>ValueError\<close>.\<close>

definition py_int :: "string \<Rightarrow> int option" where
  "py_int s =
     (let t = py_strip s;
          neg = py_startswith t ''-'';
          body = (if neg \<or> py_startswith t ''+'' then drop 1 t else t)
      in if grouped_digits body
         then let n = int (digits_val (filter (\<lambda>c. c \<noteq> CHR ''_'') body))
              in Some (if neg then - n else n)
         else None)"

text \<open>The decimal spelling an f-string gives a natural number.\<close>

fun dec :: "nat \<Rightarrow> string" where
  "dec n = (if n < 10 then [char_of (48 + n)] else dec (n div 10) @ [char_of (48 + n mod 10)])"

declare dec.simps [simp del]

lemma digit_val_char_of: "(d::nat) < 10 \<Longrightarrow> digit_val (char_of (48 + d)) = d"
  by (simp add: digit_val_def)

lemma is_digit_char_of: "(d::nat) < 10 \<Longrightarrow> is_digit (char_of (48 + d))"
  by (simp add: is_digit_def)

lemma digits_val_snoc: "digits_val (s @ [c]) = 10 * digits_val s + digit_val c"
  by (simp add: digits_val_def)

lemma digits_val_dec [simp, str_simps]: "digits_val (dec n) = n"
proof (induction n rule: dec.induct)
  case (1 n)
  show ?case
  proof (cases "n < 10")
    case True
    then show ?thesis
      by (subst dec.simps) (simp add: digits_val_def digit_val_char_of)
  next
    case False
    with "1.IH" show ?thesis
      by (subst dec.simps) (simp add: digits_val_snoc digit_val_char_of)
  qed
qed

lemma dec_digits: "list_all is_digit (dec n)"
proof (induction n rule: dec.induct)
  case (1 n)
  then show ?case
    by (subst dec.simps) (simp add: is_digit_char_of)
qed

lemma dec_nonempty [simp]: "dec n \<noteq> []"
  by (subst dec.simps) simp

lemma dec_isdecimal [simp, str_simps]: "py_isdecimal (dec n)"
  by (simp add: py_isdecimal_def dec_digits)

lemma dec_inject [simp, str_simps]: "dec m = dec n \<longleftrightarrow> m = n"
  by (metis digits_val_dec)

lemma is_digit_not_space: "is_digit c \<Longrightarrow> \<not> is_space c"
  by (auto simp: is_digit_def is_space_def)

lemma is_digit_neq:
  "is_digit c \<Longrightarrow> c \<noteq> CHR ''_''"
  "is_digit c \<Longrightarrow> c \<noteq> CHR ''-''"
  "is_digit c \<Longrightarrow> c \<noteq> CHR ''+''"
  "is_digit c \<Longrightarrow> c \<noteq> CHR ''.''"
  by (auto simp: is_digit_def)

lemma dropWhile_none: "list_all (\<lambda>c. \<not> P c) s \<Longrightarrow> dropWhile P s = s"
  by (cases s) auto

lemma py_strip_id: "list_all (\<lambda>c. \<not> is_space c) s \<Longrightarrow> py_strip s = s"
  unfolding py_strip_def by (simp add: dropWhile_none)

lemma grouped_digits_plain: "s \<noteq> [] \<Longrightarrow> list_all is_digit s \<Longrightarrow> grouped_digits s"
  by (induction s rule: grouped_digits.induct) (auto dest: is_digit_neq)

lemma py_int_plain:
  assumes "py_isdecimal s"
  shows "py_int s = Some (int (digits_val s))"
proof -
  have digits: "list_all is_digit s" and ne: "s \<noteq> []"
    using assms by (auto simp: py_isdecimal_def)
  have strip: "py_strip s = s"
    by (rule py_strip_id) (use digits in \<open>auto simp: list_all_iff dest: is_digit_not_space\<close>)
  obtain c cs where s: "s = c # cs" using ne by (cases s) auto
  have head: "c \<noteq> CHR ''-''" "c \<noteq> CHR ''+''"
    using digits s is_digit_neq by auto
  have plain: "filter (\<lambda>c. c \<noteq> CHR ''_'') s = s"
    using digits by (auto simp: filter_id_conv list_all_iff dest: is_digit_neq)
  show ?thesis
    unfolding py_int_def Let_def strip
    using head plain grouped_digits_plain [OF ne digits]
    by (simp add: s py_startswith_def)
qed

lemma py_int_dec [simp, str_simps]: "py_int (dec n) = Some (int n)"
  by (simp add: py_int_plain)

subsection \<open>Octets\<close>

type_synonym octet = "8 word"
type_synonym bytes = "octet list"

subsection \<open>JSON values\<close>

text \<open>
  What \<open>bitcoin_core_rpc\<close> hands back for a node's answer. \<open>isinstance(x, int)\<close> holds of
  a Python \<open>bool\<close> too, and \<open>as_int\<close> says so.
\<close>

datatype json =
    JNull
  | JBool bool
  | JInt int
  | JNum rat
  | JStr string
  | JList "json list"
  | JObj "(string \<times> json) list"

fun as_int :: "json \<Rightarrow> int option" where
  "as_int (JInt i) = Some i"
| "as_int (JBool b) = Some (if b then 1 else 0)"
| "as_int _ = None"

fun as_str :: "json \<Rightarrow> string option" where
  "as_str (JStr s) = Some s"
| "as_str _ = None"

fun as_list :: "json \<Rightarrow> json list option" where
  "as_list (JList xs) = Some xs"
| "as_list _ = None"

text \<open>\<open>x.get(key)\<close> where \<open>x\<close> is a dict, \<open>None\<close> where it is not or lacks the key.\<close>

fun json_get :: "json \<Rightarrow> string \<Rightarrow> json option" where
  "json_get (JObj kvs) k = map_of kvs k"
| "json_get _ k = None"

fun is_obj :: "json \<Rightarrow> bool" where
  "is_obj (JObj _) = True"
| "is_obj _ = False"

text \<open>Python's truth value of an answer.\<close>

fun truthy :: "json \<Rightarrow> bool" where
  "truthy JNull = False"
| "truthy (JBool b) = b"
| "truthy (JInt i) = (i \<noteq> 0)"
| "truthy (JNum q) = (q \<noteq> 0)"
| "truthy (JStr s) = (s \<noteq> [])"
| "truthy (JList xs) = (xs \<noteq> [])"
| "truthy (JObj kvs) = (kvs \<noteq> [])"

subsection \<open>Positions on a cyclic walk\<close>

lemma subseq_subset: "subseq xs ys \<Longrightarrow> set xs \<subseteq> set ys"
  by (auto elim: list_emb_set)

lemma subseq_distinct: "subseq xs ys \<Longrightarrow> distinct ys \<Longrightarrow> distinct xs"
  by (induction rule: list_emb.induct) (auto dest: subseq_subset)

lemma walk_position_inj:
  fixes n :: nat
  assumes "(a + i) mod n = (a + j) mod n" "i < n" "j < n"
  shows "i = j"
proof -
  from assms(1) have "int (a + i) mod int n = int (a + j) mod int n"
    by (metis zmod_int)
  then have "int n dvd int (a + i) - int (a + j)"
    by (simp add: mod_eq_dvd_iff)
  then have "int n dvd int i - int j" by simp
  moreover have "\<bar>int i - int j\<bar> < int n" using assms(2,3) by linarith
  ultimately have "int i - int j = 0"
    by (metis abs_of_nat dvd_imp_le_int not_le)
  then show ?thesis by simp
qed

lemma walk_step [walk_simps]:
  fixes n :: nat
  shows "((a + 1) mod n + i) mod n = (a + Suc i) mod n"
  by (simp add: mod_add_left_eq)

lemma walk_distinct:
  fixes n :: nat
  assumes "s \<le> n" "inj f"
  shows "distinct (map (\<lambda>i. f ((a + i) mod n)) [0..<s])"
proof -
  have "inj_on (\<lambda>i. f ((a + i) mod n)) (set [0..<s])"
  proof (rule inj_onI)
    fix i j
    assume ij: "i \<in> set [0..<s]" "j \<in> set [0..<s]"
      and eq: "f ((a + i) mod n) = f ((a + j) mod n)"
    have "(a + i) mod n = (a + j) mod n" by (rule injD [OF assms(2) eq])
    then show "i = j" by (rule walk_position_inj) (use ij assms(1) in simp_all)
  qed
  then show ?thesis by (simp add: distinct_map)
qed

lemma walk_covers:
  fixes n :: nat
  assumes "0 < n"
  shows "(\<lambda>i. (a + i) mod n) ` {0..<n} = {0..<n}"
proof (rule endo_inj_surj)
  show "(\<lambda>i. (a + i) mod n) ` {0..<n} \<subseteq> {0..<n}" using assms by auto
  show "inj_on (\<lambda>i. (a + i) mod n) {0..<n}"
  proof (rule inj_onI)
    fix i j
    assume ij: "i \<in> {0..<n}" "j \<in> {0..<n}" and eq: "(a + i) mod n = (a + j) mod n"
    from eq show "i = j" by (rule walk_position_inj) (use ij in simp_all)
  qed
qed simp

end
