(* ===== verification/Ports.thy ===== *)
theory Ports
  imports Prelude
begin

section \<open>Port allocation\<close>

text \<open>
  \<open>free_port\<close>, \<open>free_ports\<close>, \<open>_worker_block\<close> and \<open>_PortCursor\<close> of \<open>node.py\<close>. A Python
  \<open>range\<close> of step one is its two bounds; the environment is a map from names to text; the
  operating system's answer to a probe bind and \<open>secrets.randbelow\<close> are arguments.
  The lemmas describe one lap of the cursor as a subsequence of the positions it visits,
  and the locale \<open>port_source\<close> says what a caller of any port allocator relies on;
  the cursor and the whole process are its two interpretations.
\<close>

subsection \<open>Ranges\<close>

type_synonym block = "int \<times> int"

definition block_len :: "block \<Rightarrow> nat" where
  "block_len b = nat (snd b - fst b)"

definition block_ports :: "block \<Rightarrow> int set" where
  "block_ports b = {fst b..<snd b}"

definition block_nth :: "block \<Rightarrow> nat \<Rightarrow> int" where
  "block_nth b i = fst b + int i"

definition slice_bound :: "int \<Rightarrow> int \<Rightarrow> int" where
  "slice_bound n k = (if k < 0 then max 0 (n + k) else min k n)"

definition range_slice :: "block \<Rightarrow> int \<Rightarrow> int \<Rightarrow> block" where
  "range_slice b i j =
     (let n = int (block_len b)
      in (fst b + slice_bound n i, fst b + slice_bound n j))"

definition PORTS :: block where
  "PORTS = (26000, 32768)"

lemma block_nth_in: "i < block_len b \<Longrightarrow> block_nth b i \<in> block_ports b"
  by (auto simp: block_nth_def block_len_def block_ports_def)

lemma block_nth_inj: "inj (block_nth b)"
  by (auto simp: block_nth_def inj_def)

lemma PORTS_len [simp]: "block_len PORTS = 6768"
  by (simp add: block_len_def PORTS_def)

subsection \<open>The block a process draws from\<close>

type_synonym environ = "string \<rightharpoonup> string"

definition environ_get :: "environ \<Rightarrow> string \<Rightarrow> string \<Rightarrow> string" where
  "environ_get env k d = (case env k of Some v \<Rightarrow> v | None \<Rightarrow> d)"

definition worker_block :: "environ \<Rightarrow> block result" where
  "worker_block env =
     (let worker = py_removeprefix (environ_get env ''PYTEST_XDIST_WORKER'' '''') ''gw''
      in if \<not> py_isdecimal worker then Inr PORTS
         else case py_int (environ_get env ''PYTEST_XDIST_WORKER_COUNT'' ''1'') of
             None \<Rightarrow> Inl (ValueError ''invalid literal for int()'')
           | Some workers \<Rightarrow>
               if workers = 0 then Inl ZeroDivisionError
               else let size = int (block_len PORTS) div workers;
                        index = int (digits_val worker) mod workers
                    in Inr (range_slice PORTS (index * size) ((index + 1) * size)))"

text \<open>The environment \<open>pytest-xdist\<close> gives worker number \<open>i\<close> of \<open>n\<close>.\<close>

definition xdist_env :: "nat \<Rightarrow> nat \<Rightarrow> environ" where
  "xdist_env i n = [''PYTEST_XDIST_WORKER'' \<mapsto> ''gw'' @ dec i,
                    ''PYTEST_XDIST_WORKER_COUNT'' \<mapsto> dec n]"

lemma xdist_worker_block:
  assumes "0 < n"
  shows "worker_block (xdist_env i n) =
    Inr (26000 + int (i mod n) * int (6768 div n), 26000 + (int (i mod n) + 1) * int (6768 div n))"
proof -
  have "(i mod n + 1) * (6768 div n) \<le> n * (6768 div n)"
    using assms by (intro mult_le_mono1) (simp add: Suc_leI)
  also have "\<dots> \<le> 6768" by simp
  finally have hi: "(i mod n + 1) * (6768 div n) \<le> 6768" .
  then have lo: "(i mod n) * (6768 div n) \<le> 6768" by simp
  have "int ((i mod n + 1) * (6768 div n)) \<le> 6768" using hi by linarith
  moreover have "int ((i mod n) * (6768 div n)) \<le> 6768" using lo by linarith
  moreover have "int 6768 div int n = int (6768 div n)" "int i mod int n = int (i mod n)"
    by (simp_all only: zdiv_int zmod_int)
  moreover have "0 \<le> int (i mod n) * int (6768 div n)" by simp
  ultimately show ?thesis
    using assms py_removeprefix_append [of "''gw''" "dec i"]
    by (simp add: worker_block_def xdist_env_def environ_get_def range_slice_def PORTS_def
        block_len_def slice_bound_def Let_def min_def distrib_right not_less)
qed

subsection \<open>The cursor\<close>

record port_cursor =
  pc_block :: block
  pc_next :: nat

definition cursor_init :: "(nat \<Rightarrow> nat) \<Rightarrow> block \<Rightarrow> port_cursor result" where
  "cursor_init randbelow b =
     (if block_len b = 0 then Inl (ValueError ''upper bound must be positive'')
      else Inr \<lparr>pc_block = b, pc_next = randbelow (block_len b)\<rparr>)"

text \<open>
  One iteration of \<open>for _ in self._block\<close> per step of the recursion, the position advanced
  before the probe; \<open>bind\<close> answers whether the operating system accepted the address.
\<close>

fun take_loop ::
  "(int \<Rightarrow> 'w \<Rightarrow> bool \<times> 'w) \<Rightarrow> block \<Rightarrow> int \<Rightarrow> nat \<Rightarrow> nat \<Rightarrow> int list \<Rightarrow> 'w
    \<Rightarrow> int list \<times> nat \<times> 'w" where
  "take_loop bind b count 0 nxt ports w = (ports, nxt, w)"
| "take_loop bind b count (Suc k) nxt ports w =
     (if int (length ports) = count then (ports, nxt, w)
      else let port = block_nth b nxt;
               nxt' = (nxt + 1) mod block_len b
           in case bind port w of
                (False, w') \<Rightarrow> take_loop bind b count k nxt' ports w'
              | (True, w') \<Rightarrow> take_loop bind b count k nxt' (ports @ [port]) w')"

definition cursor_take ::
  "(int \<Rightarrow> 'w \<Rightarrow> bool \<times> 'w) \<Rightarrow> int \<Rightarrow> (port_cursor \<times> 'w, int list) act" where
  "cursor_take bind count s =
     (case take_loop bind (pc_block (fst s)) count (block_len (pc_block (fst s)))
             (pc_next (fst s)) [] (snd s) of
        (ports, nxt, w) \<Rightarrow>
          (if int (length ports) < count then Inl (RuntimeError ''ports free in'') else Inr ports,
           ((fst s)\<lparr>pc_next := nxt\<rparr>, w)))"

text \<open>How many positions of the block one call visits.\<close>

fun loop_visits ::
  "(int \<Rightarrow> 'w \<Rightarrow> bool \<times> 'w) \<Rightarrow> block \<Rightarrow> int \<Rightarrow> nat \<Rightarrow> nat \<Rightarrow> nat \<Rightarrow> 'w \<Rightarrow> nat" where
  "loop_visits bind b count 0 nxt found w = 0"
| "loop_visits bind b count (Suc k) nxt found w =
     (if int found = count then 0
      else Suc (loop_visits bind b count k ((nxt + 1) mod block_len b)
                 (if fst (bind (block_nth b nxt) w) then Suc found else found)
                 (snd (bind (block_nth b nxt) w))))"

definition cursor_visits ::
  "(int \<Rightarrow> 'w \<Rightarrow> bool \<times> 'w) \<Rightarrow> int \<Rightarrow> port_cursor \<times> 'w \<Rightarrow> nat" where
  "cursor_visits bind count s =
     loop_visits bind (pc_block (fst s)) count (block_len (pc_block (fst s)))
       (pc_next (fst s)) 0 (snd s)"

definition lap_port :: "block \<Rightarrow> nat \<Rightarrow> nat \<Rightarrow> int" where
  "lap_port b a i = block_nth b ((a + i) mod block_len b)"

definition cursor_ok :: "port_cursor \<Rightarrow> bool" where
  "cursor_ok c \<longleftrightarrow> pc_next c < block_len (pc_block c)"

lemma lap_port_in: "0 < block_len b \<Longrightarrow> lap_port b a i \<in> block_ports b"
  by (simp add: lap_port_def block_nth_in)

lemma lap_port_Suc [walk_simps]: "lap_port b ((a + 1) mod block_len b) i = lap_port b a (Suc i)"
  by (simp only: lap_port_def walk_step)

lemma lap_port_mod [walk_simps]: "lap_port b (a mod block_len b) i = lap_port b a i"
  by (simp add: lap_port_def mod_add_left_eq)

lemma lap_ports_distinct: "m \<le> block_len b \<Longrightarrow> distinct (map (lap_port b a) [0..<m])"
  unfolding lap_port_def by (rule walk_distinct [OF _ block_nth_inj])

lemma lap_ports_all: "0 < block_len b \<Longrightarrow> set (map (lap_port b a) [0..<block_len b]) = block_ports b"
proof -
  assume pos: "0 < block_len b"
  have "set (map (lap_port b a) [0..<block_len b])
      = block_nth b ` (\<lambda>i. (a + i) mod block_len b) ` {0..<block_len b}"
    by (simp add: lap_port_def image_image)
  also have "\<dots> = block_nth b ` {0..<block_len b}" by (simp only: walk_covers [OF pos])
  also have "\<dots> = block_ports b"
  proof (intro equalityI subsetI)
    fix p
    assume p: "p \<in> block_ports b"
    then have "p = block_nth b (nat (p - fst b))" "nat (p - fst b) < block_len b"
      using pos by (auto simp: block_ports_def block_nth_def block_len_def)
    then show "p \<in> block_nth b ` {0..<block_len b}" by (metis atLeastLessThan_iff imageI zero_le)
  qed (auto simp: block_nth_in)
  finally show ?thesis .
qed

text \<open>One call, as a walk: which positions it visits, what it keeps of them and where it stops.\<close>

lemma take_loop_walk:
  assumes "take_loop bind b count k nxt ports w = (ps, nxt', w')"
    and "nxt < block_len b" and "m = loop_visits bind b count k nxt (length ports) w"
  shows "\<exists>found. ps = ports @ found \<and> subseq found (map (lap_port b nxt) [0..<m])
     \<and> nxt' = (nxt + m) mod block_len b \<and> m \<le> k
     \<and> (int (length ports) \<le> count \<longrightarrow> int (length ps) \<le> count)
     \<and> (m < k \<longrightarrow> int (length ps) = count)
     \<and> (\<forall>p \<in> set found. \<exists>v. fst (bind p v))"
  using assms
proof (induction k arbitrary: nxt ports w m)
  case (Suc k)
  let ?port = "block_nth b nxt" and ?nxt = "(nxt + 1) mod block_len b"
  show ?case
  proof (cases "int (length ports) = count")
    case True
    then show ?thesis using Suc.prems by auto
  next
    case False
    obtain ok v where bind: "bind ?port w = (ok, v)" by fastforce
    let ?ports = "if ok then ports @ [?port] else ports"
    have step: "take_loop bind b count k ?nxt ?ports v = (ps, nxt', w')"
      using Suc.prems(1) False bind by (cases ok) (simp_all add: Let_def)
    have len: "length ?ports = (if ok then Suc (length ports) else length ports)" by simp
    define m' where "m' = loop_visits bind b count k ?nxt (length ?ports) v"
    have m: "m = Suc m'"
      using Suc.prems(3) False bind unfolding m'_def len by simp
    have nxt: "?nxt < block_len b" using Suc.prems(2) by simp
    from Suc.IH [OF step nxt m'_def] obtain found where IH:
      "ps = ?ports @ found" "subseq found (map (lap_port b ?nxt) [0..<m'])"
      "nxt' = (?nxt + m') mod block_len b" "m' \<le> k"
      "int (length ?ports) \<le> count \<longrightarrow> int (length ps) \<le> count"
      "m' < k \<longrightarrow> int (length ps) = count"
      "\<forall>p \<in> set found. \<exists>v. fst (bind p v)" by blast
    have visited: "map (lap_port b nxt) [0..<m] = ?port # map (lap_port b ?nxt) [0..<m']"
    proof -
      have "lap_port b nxt 0 = ?port" using Suc.prems(2) by (simp add: lap_port_def)
      then show ?thesis by (simp only: m map_upt_Suc lap_port_Suc [symmetric])
    qed
    have pos: "nxt' = (nxt + m) mod block_len b"
      by (simp only: IH(3) m) (simp add: mod_add_left_eq)
    let ?found = "if ok then ?port # found else found"
    have "ps = ports @ ?found" using IH(1) by simp
    moreover have "subseq ?found (map (lap_port b nxt) [0..<m])"
      unfolding visited using IH(2) by (cases ok) (simp_all add: list_emb_Cons)
    moreover have "\<forall>p \<in> set ?found. \<exists>v. fst (bind p v)"
      using IH(7) bind by (auto intro: exI [of _ w])
    ultimately show ?thesis
      using pos IH(4,5,6) m False by (intro exI [of _ ?found]) (auto split: if_splits)
  qed
qed auto

lemma cursor_take_walk:
  assumes "cursor_take bind count (c, w) = (Inr ps, (c', w'))" and "cursor_ok c" and "0 \<le> count"
  shows "subseq ps (map (lap_port (pc_block c) (pc_next c)) [0..<cursor_visits bind count (c, w)])"
    and "pc_next c' = (pc_next c + cursor_visits bind count (c, w)) mod block_len (pc_block c)"
    and "pc_block c' = pc_block c"
    and "cursor_visits bind count (c, w) \<le> block_len (pc_block c)"
    and "int (length ps) = count"
    and "\<forall>p \<in> set ps. \<exists>v. fst (bind p v)"
proof -
  obtain ps' nxt v where loop: "take_loop bind (pc_block c) count (block_len (pc_block c))
      (pc_next c) [] w = (ps', nxt, v)" by (metis prod_cases3)
  have res: "ps' = ps" "c' = c\<lparr>pc_next := nxt\<rparr>" "count \<le> int (length ps)"
    using assms(1) loop by (auto simp: cursor_take_def split: if_splits)
  have visits: "cursor_visits bind count (c, w) = loop_visits bind (pc_block c) count
      (block_len (pc_block c)) (pc_next c) (length []) w"
    by (simp add: cursor_visits_def)
  note walk = take_loop_walk [OF loop assms(2) [unfolded cursor_ok_def] visits]
  show "subseq ps (map (lap_port (pc_block c) (pc_next c)) [0..<cursor_visits bind count (c, w)])"
    and "pc_next c' = (pc_next c + cursor_visits bind count (c, w)) mod block_len (pc_block c)"
    and "pc_block c' = pc_block c"
    and "cursor_visits bind count (c, w) \<le> block_len (pc_block c)"
    and "int (length ps) = count"
    and "\<forall>p \<in> set ps. \<exists>v. fst (bind p v)"
    using walk res assms(3) by auto
qed

lemma cursor_take_keeps:
  assumes "cursor_take bind count s = (r, t)" and "cursor_ok (fst s)"
  shows "cursor_ok (fst t) \<and> pc_block (fst t) = pc_block (fst s)"
proof -
  obtain ps nxt v where loop: "take_loop bind (pc_block (fst s)) count (block_len (pc_block (fst s)))
      (pc_next (fst s)) [] (snd s) = (ps, nxt, v)" by (metis prod_cases3)
  note walk = take_loop_walk [OF loop assms(2) [unfolded cursor_ok_def] refl]
  have "0 < block_len (pc_block (fst s))" using assms(2) by (simp add: cursor_ok_def)
  then have "nxt < block_len (pc_block (fst s))" using walk by auto
  then show ?thesis using assms(1) loop by (auto simp: cursor_take_def cursor_ok_def)
qed

lemma cursor_take_pool:
  assumes "cursor_take bind count s = (Inr ps, t)" and "cursor_ok (fst s)"
  shows "distinct ps \<and> set ps \<subseteq> block_ports (pc_block (fst s)) \<and> (0 \<le> count \<longrightarrow> int (length ps) = count)"
proof -
  let ?b = "pc_block (fst s)"
  obtain ps' nxt v where loop: "take_loop bind ?b count (block_len ?b) (pc_next (fst s)) [] (snd s)
      = (ps', nxt, v)" by (metis prod_cases3)
  define m where "m = loop_visits bind ?b count (block_len ?b) (pc_next (fst s)) (length ([]::int list)) (snd s)"
  note walk = take_loop_walk [OF loop assms(2) [unfolded cursor_ok_def] m_def]
  have ps: "ps' = ps" "count \<le> int (length ps)"
    using assms(1) loop by (auto simp: cursor_take_def split: if_splits)
  have sub: "subseq ps (map (lap_port ?b (pc_next (fst s))) [0..<m])" and m: "m \<le> block_len ?b"
    using walk ps by auto
  have "0 < block_len ?b" using assms(2) by (simp add: cursor_ok_def)
  then have "set (map (lap_port ?b (pc_next (fst s))) [0..<m]) \<subseteq> block_ports ?b"
    by (auto intro!: lap_port_in)
  with subseq_subset [OF sub] have "set ps \<subseteq> block_ports ?b" by blast
  moreover have "distinct ps" using sub lap_ports_distinct [OF m] by (rule subseq_distinct)
  ultimately show ?thesis using walk ps by auto
qed

subsection \<open>The process's own allocator\<close>

text \<open>
  \<open>_process_cursor\<close> is cached: the state is the cursor built by the first draw that did
  not raise, beside whatever the operating system keeps.
\<close>

definition process_cursor ::
  "environ \<Rightarrow> (nat \<Rightarrow> nat) \<Rightarrow> (port_cursor option \<times> 'w, port_cursor) act" where
  "process_cursor env randbelow s =
     (case fst s of
        Some c \<Rightarrow> (Inr c, s)
      | None \<Rightarrow> (case bind_r (worker_block env) (cursor_init randbelow) of
                   Inl e \<Rightarrow> (Inl e, s)
                 | Inr c \<Rightarrow> (Inr c, (Some c, snd s))))"

definition free_ports ::
  "environ \<Rightarrow> (nat \<Rightarrow> nat) \<Rightarrow> (int \<Rightarrow> 'w \<Rightarrow> bool \<times> 'w) \<Rightarrow> int
    \<Rightarrow> (port_cursor option \<times> 'w, int list) act" where
  "free_ports env randbelow bind count =
     bind_a (process_cursor env randbelow)
       (\<lambda>c s. case cursor_take bind count (c, snd s) of (r, (c', w)) \<Rightarrow> (r, (Some c', w)))"

definition free_port ::
  "environ \<Rightarrow> (nat \<Rightarrow> nat) \<Rightarrow> (int \<Rightarrow> 'w \<Rightarrow> bool \<times> 'w)
    \<Rightarrow> (port_cursor option \<times> 'w, int) act" where
  "free_port env randbelow bind =
     bind_a (free_ports env randbelow bind 1)
       (\<lambda>ps. case ps of [] \<Rightarrow> raise (IndexError ''tuple index out of range'') | p # _ \<Rightarrow> ret p)"

definition process_pool :: "environ \<Rightarrow> int set" where
  "process_pool env = (case worker_block env of Inl e \<Rightarrow> {} | Inr b \<Rightarrow> block_ports b)"

definition process_ok :: "environ \<Rightarrow> (nat \<Rightarrow> nat) \<Rightarrow> port_cursor option \<times> 'w \<Rightarrow> bool" where
  "process_ok env randbelow s \<longleftrightarrow> (\<forall>n > 0. randbelow n < n) \<and>
     (case fst s of None \<Rightarrow> True
      | Some c \<Rightarrow> cursor_ok c \<and> worker_block env = Inr (pc_block c))"

lemma process_cursor_ok:
  assumes "process_cursor env rb s = (r, t)" and "process_ok env rb s"
  shows "process_ok env rb t"
    and "r = Inr c \<Longrightarrow> cursor_ok c \<and> worker_block env = Inr (pc_block c) \<and> fst t = Some c"
  using assms
  by (auto simp: process_cursor_def process_ok_def cursor_init_def cursor_ok_def bind_r_def
      split: option.splits sum.splits if_splits)

lemma free_ports_cases:
  assumes "free_ports env rb bind count s = (r, t)" and "process_ok env rb s"
  obtains (no_block) e where "r = Inl e" "process_ok env rb t"
    | (walk) c v c' w where "cursor_take bind count (c, v) = (r, (c', w))" "t = (Some c', w)"
        "cursor_ok c" "worker_block env = Inr (pc_block c)" "process_ok env rb t"
proof -
  obtain q u where first: "process_cursor env rb s = (q, u)" by (rule prod.exhaust)
  note ok = process_cursor_ok [OF first assms(2)]
  show thesis
  proof (cases q)
    case (Inl e)
    then show thesis
      using assms(1) first ok(1)
      by (intro no_block [of e]) (simp_all add: free_ports_def bind_a_def)
  next
    case (Inr c)
    obtain c' w where take: "cursor_take bind count (c, snd u) = (r, (c', w))" and t: "t = (Some c', w)"
      using assms(1) first Inr by (auto simp: free_ports_def bind_a_def split: prod.splits)
    have keeps: "cursor_ok c' \<and> pc_block c' = pc_block c"
      using cursor_take_keeps [OF take] ok(2) [OF Inr] by simp
    have "process_ok env rb t"
      using keeps ok(2) [OF Inr] assms(2) by (simp add: process_ok_def t)
    then show thesis using walk take t ok(2) [OF Inr] by blast
  qed
qed

subsection \<open>What a caller of an allocator relies on\<close>

text \<open>The ports handed out over a run of calls; a call that raises hands out none.\<close>

fun draws :: "(int \<Rightarrow> ('s, int list) act) \<Rightarrow> int list \<Rightarrow> 's \<Rightarrow> int list \<times> 's" where
  "draws draw [] s = ([], s)"
| "draws draw (c # cs) s =
     (case draw c s of (r, t) \<Rightarrow>
       (case draws draw cs t of (ps, u) \<Rightarrow> ((case r of Inl e \<Rightarrow> [] | Inr qs \<Rightarrow> qs) @ ps, u)))"

locale port_source =
  fixes draw :: "int \<Rightarrow> ('s, int list) act"
    and pool :: "'s \<Rightarrow> int set"
    and ok :: "'s \<Rightarrow> bool"
  assumes draw_ok: "ok s \<Longrightarrow> draw c s = (r, t) \<Longrightarrow> ok t \<and> pool t = pool s"
    and draw_pool: "ok s \<Longrightarrow> draw c s = (Inr ps, t) \<Longrightarrow> set ps \<subseteq> pool s"
    and draw_distinct: "ok s \<Longrightarrow> draw c s = (Inr ps, t) \<Longrightarrow> distinct ps"
    and draw_count: "ok s \<Longrightarrow> draw c s = (Inr ps, t) \<Longrightarrow> 0 \<le> c \<Longrightarrow> int (length ps) = c"
begin

lemma draws_keep: "ok s \<Longrightarrow> draws draw cs s = (ps, t) \<Longrightarrow> ok t \<and> pool t = pool s \<and> set ps \<subseteq> pool s"
proof (induction cs arbitrary: s ps t)
  case (Cons c cs)
  obtain r u where one: "draw c s = (r, u)" by (rule prod.exhaust)
  obtain qs v where rest: "draws draw cs u = (qs, v)" by (rule prod.exhaust)
  have u: "ok u" "pool u = pool s" using draw_ok [OF Cons.prems(1) one] by simp_all
  note IH = Cons.IH [OF u(1) rest]
  have handed: "set (case r of Inl e \<Rightarrow> [] | Inr qs \<Rightarrow> qs) \<subseteq> pool s"
    using draw_pool [OF Cons.prems(1)] one by (cases r) auto
  have "t = v" and ps: "ps = (case r of Inl e \<Rightarrow> [] | Inr qs \<Rightarrow> qs) @ qs"
    using Cons.prems(2) one rest by auto
  then show ?case using IH u(2) handed unfolding ps set_append by blast
qed simp

lemma sources_disjoint:
  assumes "ok s" and "ok s'" and "pool s \<inter> pool s' = {}"
  shows "set (fst (draws draw cs s)) \<inter> set (fst (draws draw cs' s')) = {}"
  using draws_keep [OF assms(1)] draws_keep [OF assms(2)] assms(3)
  by (metis Int_mono prod.collapse subset_empty)

end

interpretation cursor_source: port_source "cursor_take bind" "\<lambda>s. block_ports (pc_block (fst s))"
    "\<lambda>s. cursor_ok (fst s)" for bind :: "int \<Rightarrow> 'w \<Rightarrow> bool \<times> 'w"
  by unfold_locales (auto dest: cursor_take_keeps cursor_take_pool)

lemma free_ports_source: "port_source (free_ports env rb bind) (\<lambda>_. process_pool env) (process_ok env rb)"
proof
  fix s c r t
  assume ok: "process_ok env rb s" and step: "free_ports env rb bind c s = (r, t)"
  then show "process_ok env rb t \<and> process_pool env = process_pool env"
    by (auto elim: free_ports_cases simp: process_pool_def)
next
  fix s c ps t
  assume ok: "process_ok env rb s" and step: "free_ports env rb bind c s = (Inr ps, t)"
  from step ok obtain cu v c' w where walk: "cursor_take bind c (cu, v) = (Inr ps, (c', w))"
    and cu: "cursor_ok cu" "worker_block env = Inr (pc_block cu)"
    by (auto elim: free_ports_cases)
  note took = cursor_take_pool [OF walk]
  show "set ps \<subseteq> process_pool env" using took cu by (simp add: process_pool_def)
  show "distinct ps" using took cu by simp
  show "int (length ps) = c" if "0 \<le> c" using took cu that by simp
qed

interpretation process_source: port_source "free_ports env rb bind" "\<lambda>_. process_pool env"
    "process_ok env rb" for env rb and bind :: "int \<Rightarrow> 'w \<Rightarrow> bool \<times> 'w"
  by (rule free_ports_source)

text \<open>Two processes, each with its own kind of outside world.\<close>

lemma ports_of_workers_disjoint:
  assumes "process_ok env rb s" and "process_ok env' rb' s'"
    and "process_pool env \<inter> process_pool env' = {}"
  shows "set (fst (draws (free_ports env rb bind) cs s))
       \<inter> set (fst (draws (free_ports env' rb' bind') cs' s')) = {}"
proof -
  have "set (fst (draws (free_ports env rb bind) cs s)) \<subseteq> process_pool env"
    using process_source.draws_keep [OF assms(1)] by (metis prod.collapse)
  moreover have "set (fst (draws (free_ports env' rb' bind') cs' s')) \<subseteq> process_pool env'"
    using process_source.draws_keep [OF assms(2)] by (metis prod.collapse)
  ultimately show ?thesis using assms(3) by blast
qed

lemma worker_pools_disjoint:
  assumes "i < n" and "j < n" and "i \<noteq> j"
  shows "process_pool (xdist_env i n) \<inter> process_pool (xdist_env j n) = {}"
proof -
  let ?size = "int (6768 div n)"
  have pool: "process_pool (xdist_env k n) = {26000 + int k * ?size..<26000 + (int k + 1) * ?size}"
    if "k < n" for k
    using xdist_worker_block [of n k] that by (simp add: process_pool_def block_ports_def)
  have apart: "(int a + 1) * ?size \<le> int b * ?size" if "a < b" for a b
    using that by (intro mult_right_mono) simp_all
  from assms(3) consider "i < j" | "j < i" by linarith
  then show ?thesis
  proof cases
    case 1
    show ?thesis unfolding pool [OF assms(1)] pool [OF assms(2)] using apart [OF 1] by auto
  next
    case 2
    show ?thesis unfolding pool [OF assms(1)] pool [OF assms(2)] using apart [OF 2] by auto
  qed
qed

subsection \<open>Properties\<close>

lemma take_loop_static:
  assumes "nxt < block_len b" and "int (length ports) \<le> count"
  shows "fst (take_loop (\<lambda>p w. (free p, w)) b count k nxt ports w) =
    ports @ take (nat count - length ports) (filter free (map (lap_port b nxt) [0..<k]))"
  using assms
proof (induction k arbitrary: nxt ports)
  case (Suc k)
  let ?port = "block_nth b nxt" and ?nxt = "(nxt + 1) mod block_len b"
  have nxt: "?nxt < block_len b" using Suc.prems(1) by simp
  have here: "lap_port b nxt 0 = ?port" using Suc.prems(1) by (simp add: lap_port_def)
  have lap: "map (lap_port b nxt) [0..<Suc k] = ?port # map (lap_port b ?nxt) [0..<k]"
    by (simp only: map_upt_Suc here lap_port_Suc [symmetric])
  show ?case
  proof (cases "int (length ports) = count")
    case True
    then show ?thesis by auto
  next
    case False
    then have room: "int (length ports) < count" using Suc.prems(2) by simp
    show ?thesis
    proof (cases "free ?port")
      case True
      have more: "nat count - length ports = Suc (nat count - length (ports @ [?port]))"
        using room by simp
      have "int (length (ports @ [?port])) \<le> count" using room by simp
      from Suc.IH [OF nxt this] True False show ?thesis
        unfolding lap more by (simp add: Let_def)
    next
      case no: False
      from Suc.IH [OF nxt Suc.prems(2)] no False show ?thesis
        unfolding lap by (simp add: Let_def)
    qed
  qed
qed simp

text \<open>
  C19: where the set of free ports does not change during the call, \<open>take\<close> answers the
  first \<open>count\<close> free ports met on one lap of the block from the cursor's position, and
  raises exactly where the lap holds fewer than \<open>count\<close> of them.
\<close>

theorem cursor_take_functional:
  assumes "cursor_ok c" and "0 \<le> count"
  shows "fst (cursor_take (\<lambda>p w. (free p, w)) count (c, w)) =
    (let found = filter free (map (lap_port (pc_block c) (pc_next c)) [0..<block_len (pc_block c)])
     in if int (length found) < count then Inl (RuntimeError ''ports free in'')
        else Inr (take (nat count) found))"
proof -
  define found where
    "found = filter free (map (lap_port (pc_block c) (pc_next c)) [0..<block_len (pc_block c)])"
  obtain ps nxt v where loop: "take_loop (\<lambda>p w. (free p, w)) (pc_block c) count
      (block_len (pc_block c)) (pc_next c) [] w = (ps, nxt, v)" by (metis prod_cases3)
  have "ps = take (nat count) found"
    using take_loop_static [of "pc_next c" "pc_block c" "[]" count free "block_len (pc_block c)" w]
      assms loop by (simp add: cursor_ok_def found_def Let_def)
  moreover have "int (length (take (nat count) found)) < count \<longleftrightarrow> int (length found) < count"
    using assms(2) by (simp add: min_def) linarith
  ultimately show ?thesis
    unfolding cursor_take_def using loop by (simp add: Let_def flip: found_def)
qed

lemma cursor_take_functional_witness:
  "fst (cursor_take (\<lambda>p w. (odd p, w)) 2 (\<lparr>pc_block = (10, 15), pc_next = 3\<rparr>, ()))
     = Inr [13, 11]"
proof -
  let ?c = "\<lparr>pc_block = (10, 15), pc_next = 3\<rparr>"
  have "cursor_ok ?c" by code_simp
  from cursor_take_functional [OF this, of 2 odd "()"] show ?thesis
    unfolding Let_def by code_simp
qed

text \<open>
  A port is not answered twice while the walk has not come round the block: two
  calls in a row that visit at most one lap between them share no port, whatever the
  operating system answers.
\<close>

lemma cursor_takes_disjoint:
  assumes "cursor_ok c" and "0 \<le> n" and "0 \<le> m"
    and "cursor_take bind n (c, w) = (Inr ps, (c1, w1))"
    and "cursor_take bind m (c1, w1) = (Inr qs, (c2, w2))"
    and "cursor_visits bind n (c, w) + cursor_visits bind m (c1, w1) \<le> block_len (pc_block c)"
  shows "distinct (ps @ qs)"
proof -
  let ?b = "pc_block c" and ?a = "pc_next c"
  let ?v = "cursor_visits bind n (c, w)" and ?u = "cursor_visits bind m (c1, w1)"
  note one = cursor_take_walk [OF assms(4,1,2)]
  have ok: "cursor_ok c1" using cursor_take_keeps [OF assms(4)] assms(1) by simp
  note two = cursor_take_walk [OF assms(5) ok assms(3)]
  have "map (lap_port (pc_block c1) (pc_next c1)) [0..<?u] = map (lap_port ?b (?a + ?v)) [0..<?u]"
    unfolding one(2,3) by (intro map_cong refl lap_port_mod)
  also have "\<dots> = map (lap_port ?b ?a) [?v..<?v + ?u]"
  proof -
    have "map (\<lambda>i. i + ?v) [0..<?u] = [?v..<?v + ?u]" by (simp add: map_add_upt add.commute)
    then have "map (lap_port ?b ?a) [?v..<?v + ?u] = map (lap_port ?b ?a) (map (\<lambda>i. i + ?v) [0..<?u])"
      by simp
    then show ?thesis by (simp add: lap_port_def add_ac)
  qed
  finally have qs: "subseq qs (map (lap_port ?b ?a) [?v..<?v + ?u])" using two(1) by simp
  have "subseq (ps @ qs) (map (lap_port ?b ?a) [0..<?v] @ map (lap_port ?b ?a) [?v..<?v + ?u])"
    using one(1) qs by (rule list_emb_append_mono)
  moreover have "map (lap_port ?b ?a) [0..<?v] @ map (lap_port ?b ?a) [?v..<?v + ?u]
      = map (lap_port ?b ?a) [0..<?v + ?u]"
    by (simp only: upt_add_eq_append [OF le0] map_append)
  ultimately have "subseq (ps @ qs) (map (lap_port ?b ?a) [0..<?v + ?u])" by simp
  then show ?thesis using lap_ports_distinct [OF assms(6)] by (rule subseq_distinct)
qed

lemma cursor_takes_disjoint_witness:
  "distinct ([13, 14] @ [10, 12 :: int])"
proof -
  let ?c = "\<lparr>pc_block = (10, 15), pc_next = 3\<rparr>" and ?bind = "\<lambda>p (w::nat). (p \<noteq> 11, Suc w)"
  let ?d = "\<lparr>pc_block = (10, 15), pc_next = 0\<rparr>" and ?e = "\<lparr>pc_block = (10, 15), pc_next = 3\<rparr>"
  have ok: "cursor_ok ?c" by code_simp
  have one: "cursor_take ?bind 2 (?c, 0) = (Inr [13, 14], (?d, 2))" by code_simp
  have two: "cursor_take ?bind 2 (?d, 2) = (Inr [10, 12], (?e, 5))" by code_simp
  have lap: "cursor_visits ?bind 2 (?c, 0) + cursor_visits ?bind 2 (?d, 2) \<le> block_len (pc_block ?c)"
    by code_simp
  show ?thesis by (rule cursor_takes_disjoint [OF ok _ _ one two lap]) simp_all
qed



end
