(* ===== verification/Options.thy ===== *)
theory Options
  imports Prelude
begin

section \<open>Which extra arguments an adapter refuses\<close>

text \<open>
  \<open>_option_name\<close>, \<open>_canonical_option_name\<close>, \<open>_reserved_option_names\<close> and
  \<open>_check_extra_args\<close> of \<open>node.py\<close>. The lemmas say what each spelling of an option reads
  as; the two properties state the check as a conflict between pairs of tokens and as
  independence of the spelling.
\<close>

definition CHAIN_SELECTORS :: "string set" where
  "CHAIN_SELECTORS = {''chain'', ''regtest'', ''testnet'', ''testnet4'', ''signet''}"

definition option_name :: "string \<Rightarrow> string option" where
  "option_name token =
     (if \<not> py_startswith token ''-'' then None
      else let name = before_char (CHR ''='') (lstrip_char (CHR ''-'') token)
           in if name = [] then None else Some name)"

definition canonical_option_name :: "string \<Rightarrow> string" where
  "canonical_option_name name =
     (if py_startswith name ''no'' \<and> length ''no'' < length name
      then drop (length ''no'') name else name)"

definition reserved_option_names :: "string list \<Rightarrow> string set" where
  "reserved_option_names command =
     (let reserved = set (map canonical_option_name (List.map_filter option_name command))
      in if reserved \<inter> CHAIN_SELECTORS \<noteq> {} then reserved \<union> CHAIN_SELECTORS else reserved)"

fun check_args_loop :: "string set \<Rightarrow> string list \<Rightarrow> unit result" where
  "check_args_loop reserved [] = Inr ()"
| "check_args_loop reserved (arg # args) =
     (case option_name arg of
        None \<Rightarrow> check_args_loop reserved args
      | Some name \<Rightarrow>
          if canonical_option_name name \<in> reserved
          then Inl (ValueError ''extra_args reuses'')
          else check_args_loop reserved args)"

definition check_extra_args :: "string list \<Rightarrow> string list \<Rightarrow> unit result" where
  "check_extra_args command extra_args =
     check_args_loop (reserved_option_names command) extra_args"

subsection \<open>What a token names\<close>

text \<open>The knob a token sets, its negation folded onto it.\<close>

definition knob :: "string \<Rightarrow> string option" where
  "knob token = map_option canonical_option_name (option_name token)"

lemma knob_Some_iff:
  "knob token = Some k \<longleftrightarrow> (\<exists>n. option_name token = Some n \<and> canonical_option_name n = k)"
  by (auto simp: knob_def)

lemma reserved_iff:
  "k \<in> reserved_option_names command \<longleftrightarrow>
    (\<exists>c \<in> set command. knob c = Some k)
    \<or> k \<in> CHAIN_SELECTORS \<and> (\<exists>c \<in> set command. \<exists>s \<in> CHAIN_SELECTORS. knob c = Some s)"
proof -
  have names: "set (map canonical_option_name (List.map_filter option_name command))
      = {k. \<exists>c \<in> set command. knob c = Some k}"
    by (fastforce simp: List.map_filter_def knob_Some_iff image_iff)
  show ?thesis
    unfolding reserved_option_names_def Let_def names by auto
qed

lemma check_args_loop_eq:
  "check_args_loop reserved args =
    (if \<exists>a \<in> set args. \<exists>k. knob a = Some k \<and> k \<in> reserved
     then Inl (ValueError ''extra_args reuses'') else Inr ())"
  by (induction args) (auto simp: knob_def split: option.splits)

text \<open>The spellings of an option: one or more dashes, a negation or none, a value or none.\<close>

definition spelled :: "nat \<Rightarrow> bool \<Rightarrow> string \<Rightarrow> string option \<Rightarrow> string" where
  "spelled dashes negated opt val =
     replicate dashes (CHR ''-'') @ (if negated then ''no'' else '''') @ opt
       @ (case val of None \<Rightarrow> '''' | Some v \<Rightarrow> CHR ''='' # v)"

definition plain_option :: "string \<Rightarrow> bool" where
  "plain_option opt \<longleftrightarrow> opt \<noteq> [] \<and> hd opt \<noteq> CHR ''-'' \<and> CHR ''='' \<notin> set opt
     \<and> canonical_option_name opt = opt"

lemma lstrip_dashes: "hd s \<noteq> c \<Longrightarrow> s \<noteq> [] \<Longrightarrow> lstrip_char c (replicate n c @ s) = s"
  by (induction n) (auto simp: lstrip_char_def neq_Nil_conv)

lemma before_char_append:
  "c \<notin> set s \<Longrightarrow> before_char c (s @ (case v of None \<Rightarrow> [] | Some w \<Rightarrow> c # w)) = s"
  unfolding before_char_def by (induction s) (auto split: option.split)

lemma canonical_negated: "opt \<noteq> [] \<Longrightarrow> canonical_option_name (''no'' @ opt) = opt"
  by (simp add: canonical_option_name_def py_startswith_def)

lemma knob_spelled:
  assumes "plain_option opt" and "0 < dashes"
  shows "knob (spelled dashes negated opt val) = Some opt"
proof -
  let ?name = "(if negated then ''no'' else '''') @ opt"
  let ?tail = "case val of None \<Rightarrow> '''' | Some v \<Rightarrow> CHR ''='' # v"
  have opt: "opt \<noteq> []" "hd opt \<noteq> CHR ''-''" "CHR ''='' \<notin> set opt" "canonical_option_name opt = opt"
    using assms(1) by (auto simp: plain_option_def)
  have dash: "py_startswith (spelled dashes negated opt val) ''-''"
    using assms(2) by (cases dashes) (auto simp: spelled_def py_startswith_def)
  have "hd (?name @ ?tail) \<noteq> CHR ''-''" "?name @ ?tail \<noteq> []"
    using opt by (auto simp: hd_append)
  from lstrip_dashes [OF this, of dashes]
  have strip: "lstrip_char (CHR ''-'') (spelled dashes negated opt val) = ?name @ ?tail"
    by (simp add: spelled_def)
  have "CHR ''='' \<notin> set ?name" using opt(3) by auto
  then have "before_char (CHR ''='') (?name @ ?tail) = ?name" by (rule before_char_append)
  moreover have "?name \<noteq> []" using opt(1) by simp
  ultimately have "option_name (spelled dashes negated opt val) = Some ?name"
    using dash strip by (simp add: option_name_def Let_def)
  moreover have "canonical_option_name ?name = opt"
    using opt canonical_negated by (cases negated) simp_all
  ultimately show ?thesis by (simp add: knob_def)
qed

subsection \<open>Properties\<close>


text \<open>
  No spelling gets past the check: an option the command names, however it spells it,
  is refused however the caller spells it -- any number of dashes, negated or not, with or
  without a value -- and wherever it stands among the extra arguments.
\<close>

lemma every_spelling_refused:
  assumes "plain_option opt" and "0 < d" and "0 < e"
    and "spelled d neg opt v \<in> set command" and "spelled e neg' opt v' \<in> set extra"
  shows "check_extra_args command extra = Inl (ValueError ''extra_args reuses'')"
proof -
  have "opt \<in> reserved_option_names command"
    unfolding reserved_iff using assms(4) knob_spelled [OF assms(1,2)] by blast
  then show ?thesis
    using assms(5) knob_spelled [OF assms(1,3)]
    by (auto simp: check_extra_args_def check_args_loop_eq)
qed

lemma every_spelling_refused_witness:
  "check_extra_args [''bitcoind'', ''-regtest'', ''-datadir=/tmp/a'', ''-server=1'']
     [''-blocksdir=/b'', ''--noserver''] = Inl (ValueError ''extra_args reuses'')"
proof (rule every_spelling_refused [where opt = "''server''" and d = 1 and e = 2])
  show "plain_option ''server''" by code_simp
  show "spelled 1 False ''server'' (Some ''1'')
      \<in> set [''bitcoind'', ''-regtest'', ''-datadir=/tmp/a'', ''-server=1'']" by code_simp
  show "spelled 2 True ''server'' None \<in> set [''-blocksdir=/b'', ''--noserver'']" by code_simp
qed simp_all

end
