(* ===== verification/Timeouts.thy ===== *)
theory Timeouts
  imports Prelude
begin

section \<open>The timeout factor\<close>

text \<open>
  \<open>timeout_factor.py\<close>: the multiplier every default wait goes through. A Python float is
  an exact rational here: rounding, overflow and the non-finite values are not modelled.
  \<open>py_float\<close> reads the decimal grammar of \<open>float()\<close>.
\<close>

definition RPC_TIMEOUT :: rat where
  "RPC_TIMEOUT = 60"

definition NO_TIMEOUT_FACTOR :: rat where
  "NO_TIMEOUT_FACTOR = 999"

text \<open>Sign, digits with an optional fraction, optional exponent; white space around it.\<close>

definition split_sign :: "string \<Rightarrow> bool \<times> string" where
  "split_sign s = (if py_startswith s ''-'' then (True, drop 1 s)
                   else if py_startswith s ''+'' then (False, drop 1 s) else (False, s))"

definition ten_power :: "int \<Rightarrow> rat" where
  "ten_power e = (if 0 \<le> e then 10 ^ nat e else 1 / 10 ^ nat (- e))"

definition py_float :: "string \<Rightarrow> rat option" where
  "py_float s =
     (let (neg, t) = split_sign (py_strip s);
          whole = takeWhile is_digit t;
          t1 = drop (length whole) t;
          frac = (if py_startswith t1 ''.'' then takeWhile is_digit (drop 1 t1) else []);
          t2 = (if py_startswith t1 ''.'' then drop (1 + length frac) t1 else t1);
          (eneg, ed) = split_sign (drop 1 t2);
          m = of_nat (digits_val (whole @ frac)) * ten_power (- int (length frac));
          signed = (if neg then - m else m)
      in if whole = [] \<and> frac = [] then None
         else if t2 = [] then Some signed
         else if (py_startswith t2 ''e'' \<or> py_startswith t2 ''E'') \<and> py_isdecimal ed
              then Some (signed * ten_power (if eneg then - int (digits_val ed) else int (digits_val ed)))
         else None)"

definition factor_from_option :: "string \<Rightarrow> rat result" where
  "factor_from_option value =
     (case py_float value of
        None \<Rightarrow> Inl (ValueError ''could not convert string to float'')
      | Some factor \<Rightarrow> Inr (if factor = 0 then NO_TIMEOUT_FACTOR else factor))"

text \<open>The process's own \<open>_Factor\<close> object: its one attribute.\<close>

record factor_state =
  factor_value :: rat

definition initial_factor :: factor_state where
  "initial_factor = \<lparr>factor_value = 1\<rparr>"

definition set_factor :: "rat \<Rightarrow> factor_state \<Rightarrow> factor_state" where
  "set_factor factor st = st\<lparr>factor_value := factor\<rparr>"

definition scaled :: "factor_state \<Rightarrow> rat \<Rightarrow> rat" where
  "scaled st seconds = seconds * factor_value st"

text \<open>\<open>int(q)\<close> of a float drops the fraction; \<open>//\<close> rounds down.\<close>

definition py_trunc :: "rat \<Rightarrow> int" where
  "py_trunc q = (if 0 \<le> q then \<lfloor>q\<rfloor> else \<lceil>q\<rceil>)"

definition rpc_client_timeout :: "factor_state \<Rightarrow> int" where
  "rpc_client_timeout st = py_trunc (scaled st RPC_TIMEOUT) div 2"

subsection \<open>Properties\<close>

lemma floor_half: "\<lfloor>q\<rfloor> div 2 = \<lfloor>q / 2\<rfloor>" for q :: rat
proof -
  let ?n = "\<lfloor>q\<rfloor>"
  have "2 * (?n div 2) \<le> ?n" "?n + 1 \<le> 2 * (?n div 2) + 2" by linarith+
  then have "of_int (2 * (?n div 2)) \<le> (of_int ?n :: rat)"
    "(of_int (?n + 1) :: rat) \<le> of_int (2 * (?n div 2) + 2)" by (simp_all only: of_int_le_iff)
  moreover have "of_int ?n \<le> q" "q < of_int ?n + 1" by linarith+
  ultimately have "of_int (?n div 2) \<le> q / 2" "q / 2 < of_int (?n div 2) + 1"
    unfolding of_int_mult of_int_add of_int_numeral of_int_1 by linarith+
  then show ?thesis by (rule floor_unique [symmetric])
qed

lemma scaled_default [simp]: "scaled initial_factor seconds = seconds"
  by (simp add: scaled_def initial_factor_def)

lemma scaled_set_factor [simp]: "scaled (set_factor f st) seconds = seconds * f"
  by (simp add: scaled_def set_factor_def)

lemma factor_from_option_nonzero: "factor_from_option v = Inr f \<Longrightarrow> f \<noteq> 0"
  by (auto simp: factor_from_option_def NO_TIMEOUT_FACTOR_def split: option.splits if_splits)

text \<open>
  Every number \<open>--timeout-factor\<close> takes is a factor other than 0, and the bound on one
  RPC call is then thirty times it, rounded down, for a positive factor: at least one
  second exactly from a factor of 1/30 on.
\<close>

lemma rpc_client_timeout_of_option:
  assumes "factor_from_option v = Inr f" and "0 \<le> f"
  shows "0 < f \<and> rpc_client_timeout (set_factor f st) = \<lfloor>30 * f\<rfloor>
    \<and> (1 \<le> rpc_client_timeout (set_factor f st) \<longleftrightarrow> 1 / 30 \<le> f)"
proof -
  have pos: "0 < f" using assms factor_from_option_nonzero by fastforce
  have "rpc_client_timeout (set_factor f st) = \<lfloor>60 * f\<rfloor> div 2"
    using pos by (simp add: rpc_client_timeout_def py_trunc_def RPC_TIMEOUT_def)
  also have "\<dots> = \<lfloor>30 * f\<rfloor>" by (simp add: floor_half)
  finally have eq: "rpc_client_timeout (set_factor f st) = \<lfloor>30 * f\<rfloor>" .
  moreover have "1 \<le> \<lfloor>30 * f\<rfloor> \<longleftrightarrow> 1 / 30 \<le> f" by (simp add: le_floor_iff) linarith
  ultimately show ?thesis using pos by simp
qed

lemma rpc_client_timeout_of_option_witness:
  "rpc_client_timeout (set_factor (999 :: rat) initial_factor) = 29970"
proof -
  have "factor_from_option '' 0.0 '' = Inr 999" by code_simp
  from rpc_client_timeout_of_option [OF this, of initial_factor] show ?thesis by simp
qed

text \<open>A negative factor is kept as given, and makes the client's bound negative, not 0.\<close>

lemma rpc_client_timeout_negative:
  "factor_from_option ''-1'' = Inr (- 1) \<and> rpc_client_timeout (set_factor (- 1) st) = - 30"
proof
  show "factor_from_option ''-1'' = Inr (- 1)" by code_simp
  show "rpc_client_timeout (set_factor (- 1) st) = - 30"
    by (simp add: rpc_client_timeout_def py_trunc_def RPC_TIMEOUT_def)
qed

end
