(* ===== verification/Waiting.thy ===== *)
theory Waiting
  imports Prelude Timeouts
begin

section \<open>Waiting on the outside world\<close>

text \<open>
  The polling loops: \<open>wait_until\<close> of \<open>node.py\<close>, the loop shape every other wait of that
  file repeats, and \<open>assert_debug_log\<close> of \<open>debug_log.py\<close>.

  The outside world is a type \<open>'w\<close> nothing is known of, beside a clock. What the world does
  is the record \<open>outside\<close>: sleeping and calling a node's RPC, each answering with how long it
  took. \<open>time.monotonic\<close> never goes back and \<open>time.sleep(d)\<close> takes at least \<open>d\<close>, which is
  how \<open>outside_call\<close> and \<open>sleep\<close> move the clock; everything else is the world's own choice.

  A loop that may run for ever is a \<open>partial_function\<close> whose \<open>None\<close> is not returning, and
  \<open>returns\<close> says that it does. \<open>timely\<close> is the contract of a loop's body; the locale
  \<open>polling\<close> proves from it what every such loop guarantees.
\<close>

named_theorems timely_intros \<open>actions that never turn the clock back\<close>
named_theorems returns_intros \<open>loops that come to an end\<close>

subsection \<open>The clock and the world\<close>

record 'w timed =
  clock :: rat
  world :: 'w

record 'w outside =
  o_sleep :: "rat \<Rightarrow> 'w \<Rightarrow> rat \<times> 'w"
  o_rpc :: "nat \<Rightarrow> string \<Rightarrow> json list \<Rightarrow> 'w \<Rightarrow> json result \<times> rat \<times> 'w"

definition outside_call :: "('w \<Rightarrow> 'a result \<times> rat \<times> 'w) \<Rightarrow> ('w timed, 'a) act" where
  "outside_call f s =
     (case f (world s) of (r, d, w) \<Rightarrow> (r, \<lparr>clock = clock s + max 0 d, world = w\<rparr>))"

definition sleep :: "('w, 'z) outside_scheme \<Rightarrow> rat \<Rightarrow> 'w timed \<Rightarrow> 'w timed" where
  "sleep os d s =
     (case o_sleep os d (world s) of (late, w) \<Rightarrow> \<lparr>clock = clock s + d + max 0 late, world = w\<rparr>)"

definition rpc_call ::
  "('w, 'z) outside_scheme \<Rightarrow> nat \<Rightarrow> string \<Rightarrow> json list \<Rightarrow> ('w timed, json) act" where
  "rpc_call os node method params = outside_call (o_rpc os node method params)"

definition timely :: "('w timed, 'a) act \<Rightarrow> bool" where
  "timely m \<longleftrightarrow> (\<forall>s. clock s \<le> clock (snd (m s)))"

lemma timelyD: "timely m \<Longrightarrow> m s = (r, t) \<Longrightarrow> clock s \<le> clock t"
  by (metis snd_conv timely_def)

lemma timely_outside [timely_intros]: "timely (outside_call f)"
  by (auto simp: timely_def outside_call_def split: prod.splits)

lemma timely_rpc [timely_intros]: "timely (rpc_call os node method params)"
  unfolding rpc_call_def by (rule timely_outside)

lemma timely_pure [timely_intros]: "timely (ret x)" "timely (raise e)" "timely (lift_r r)"
  by (simp_all add: timely_def)

lemma timely_bind [timely_intros]:
  assumes "timely m" and "\<And>x. timely (f x)"
  shows "timely (bind_a m f)"
proof (unfold timely_def, rule allI)
  fix s
  obtain r t where m: "m s = (r, t)" by (rule prod.exhaust)
  have "clock s \<le> clock t" using assms(1) m by (rule timelyD)
  also have "clock t \<le> clock (snd (bind_a m f s))"
    using assms(2) m by (cases r) (auto simp: bind_a_def timely_def)
  finally show "clock s \<le> clock (snd (bind_a m f s))" .
qed

lemma timely_try [timely_intros]:
  assumes "timely m" and "\<And>e. timely (h e)"
  shows "timely (try_a m h)"
proof (unfold timely_def, rule allI)
  fix s
  obtain r t where m: "m s = (r, t)" by (rule prod.exhaust)
  have "clock s \<le> clock t" using assms(1) m by (rule timelyD)
  also have "clock t \<le> clock (snd (try_a m h s))"
    using assms(2) m by (cases r) (auto simp: try_a_def timely_def)
  finally show "clock s \<le> clock (snd (try_a m h s))" .
qed

lemma timely_if [timely_intros]: "timely m \<Longrightarrow> timely n \<Longrightarrow> timely (if b then m else n)"
  by simp

lemma sleep_clock: "clock s + d \<le> clock (sleep os d s)"
  by (auto simp: sleep_def split: prod.splits)

subsection \<open>Loops that may not end\<close>

type_synonym ('s, 'a) loop = "'s \<Rightarrow> ('a result \<times> 's) option"

definition once :: "('s, 'a) act \<Rightarrow> ('s, 'a) loop" where
  "once m s = Some (m s)"

definition bind_l :: "('s, 'a) loop \<Rightarrow> ('a \<Rightarrow> ('s, 'b) loop) \<Rightarrow> ('s, 'b) loop" where
  "bind_l m f s =
     (case m s of None \<Rightarrow> None | Some (Inl e, t) \<Rightarrow> Some (Inl e, t) | Some (Inr x, t) \<Rightarrow> f x t)"

definition returns :: "('s, 'a) loop \<Rightarrow> bool" where
  "returns m \<longleftrightarrow> (\<forall>s. \<exists>r t. m s = Some (r, t))"

lemma returns_once [returns_intros]: "returns (once m)"
  by (simp add: returns_def once_def)

lemma returns_bind [returns_intros]: "returns m \<Longrightarrow> (\<And>x. returns (f x)) \<Longrightarrow> returns (bind_l m f)"
  unfolding returns_def bind_l_def by (metis (mono_tags, lifting) case_prod_conv obj_sumE
      old.sum.simps(5,6) option.simps(5))

lemma bind_l_InrD:
  assumes "bind_l m f s = Some (Inr y, u)"
  obtains x t where "m s = Some (Inr x, t)" and "f x t = Some (Inr y, u)"
  using assms by (auto simp: bind_l_def split: option.splits prod.splits sum.splits)

lemma bind_l_simps [act_simps]:
  "m s = Some (Inr x, t) \<Longrightarrow> bind_l m f s = f x t"
  "m s = Some (Inl e, t) \<Longrightarrow> bind_l m f s = Some (Inl e, t)"
  by (simp_all add: bind_l_def)

lemma once_simps [simp, act_simps]: "once m s = Some (m s)"
  by (simp add: once_def)

subsection \<open>The polling loop\<close>

text \<open>
  \<open>while time.monotonic() < deadline: ... time.sleep(0.1)\<close>: the body answers \<open>Some\<close> to
  return, \<open>None\<close> to go round again, or raises; \<open>Inr None\<close> is the loop run out.
\<close>

partial_function (option) poll ::
  "('w, 'z) outside_scheme \<Rightarrow> ('w timed, 'a option) act \<Rightarrow> rat \<Rightarrow> ('w timed, 'a option) loop" where
  [code]: "poll os body deadline s =
     (if clock s < deadline
      then case body s of
             (Inl e, t) \<Rightarrow> Some (Inl e, t)
           | (Inr (Some x), t) \<Rightarrow> Some (Inr (Some x), t)
           | (Inr None, t) \<Rightarrow> poll os body deadline (sleep os (1 / 10) t)
      else Some (Inr None, s))"

definition poll_or_timeout ::
  "('w, 'z) outside_scheme \<Rightarrow> ('w timed, 'a option) act \<Rightarrow> rat \<Rightarrow> ('w timed, 'a) loop" where
  "poll_or_timeout os body deadline =
     bind_l (poll os body deadline)
       (\<lambda>r. once (case r of Some x \<Rightarrow> ret x | None \<Rightarrow> raise (TimeoutError ''within the wait'')))"

text \<open>The states in which the loop's condition is read, and how many bodies ran before each.\<close>

inductive polled ::
  "('w, 'z) outside_scheme \<Rightarrow> ('w timed, 'a option) act \<Rightarrow> rat \<Rightarrow> 'w timed \<Rightarrow> nat \<Rightarrow> 'w timed \<Rightarrow> bool"
  for os body deadline s where
  start: "polled os body deadline s 0 s"
| again: "polled os body deadline s n u \<Longrightarrow> clock u < deadline \<Longrightarrow> body u = (Inr None, v)
    \<Longrightarrow> polled os body deadline s (Suc n) (sleep os (1 / 10) v)"

lemma polled_first:
  assumes "polled os body deadline (sleep os (1 / 10) v) n u"
    and "clock s < deadline" and "body s = (Inr None, v)"
  shows "polled os body deadline s (Suc n) u"
  using assms(1)
proof induction
  case start
  from polled.again [of os body deadline s 0 s v, OF polled.start assms(2,3)] show ?case .
qed (blast intro: polled.again)

lemma polled_clock:
  assumes "polled os body deadline s n u" and "timely body"
  shows "clock s + of_nat n / 10 \<le> clock u"
  using assms(1)
proof induction
  case (again n u v)
  have "clock u \<le> clock v" using assms(2) again.hyps(3) by (rule timelyD)
  moreover have "clock v + 1 / 10 \<le> clock (sleep os (1 / 10) v)" by (rule sleep_clock)
  ultimately show ?case using again.IH by (simp add: add_divide_distrib)
qed simp

lemma poll_result:
  assumes "poll os body deadline s = Some y"
  shows "\<exists>n u. polled os body deadline s n u \<and>
     (if clock u < deadline then body u = y \<and> fst y \<noteq> Inr None else y = (Inr None, u))"
proof (induction rule: poll.raw_induct [OF _ assms])
  case (1 poll os body deadline s y)
  show ?case
  proof (cases "clock s < deadline")
    case False
    then have "y = (Inr None, s)" using 1(2) by simp
    then show ?thesis using False polled.start by fastforce
  next
    case True
    obtain q v where body: "body s = (q, v)" by (rule prod.exhaust)
    show ?thesis
    proof (cases "q = Inr None")
      case False
      then have "y = (q, v)" using 1(2) True body by (auto split: sum.splits option.splits)
      then show ?thesis using True False body polled.start by fastforce
    next
      case again: True
      then have "poll os body deadline (sleep os (1 / 10) v) = Some y" using 1(2) True body by simp
      from 1(1) [OF this] show ?thesis using polled_first [OF _ True] body again by blast
    qed
  qed
qed

text \<open>Induction on the time left: every round costs at least a tenth of a second.\<close>

lemma clock_induct:
  assumes "\<And>s. (\<And>t. clock s < deadline \<Longrightarrow> clock s + 1 / 10 \<le> clock t \<Longrightarrow> P t) \<Longrightarrow> P s"
  shows "P (s :: 'w timed)"
proof (induction "nat \<lceil>10 * (deadline - clock s)\<rceil>" arbitrary: s rule: less_induct)
  case less
  show ?case
  proof (rule assms)
    fix t :: "'w timed"
    assume early: "clock s < deadline" and "clock s + 1 / 10 \<le> clock t"
    then have "10 * (deadline - clock t) \<le> 10 * (deadline - clock s) - 1" by simp
    then have "\<lceil>10 * (deadline - clock t)\<rceil> \<le> \<lceil>10 * (deadline - clock s)\<rceil> - 1"
      by (metis ceiling_diff_one ceiling_mono)
    moreover have "0 < \<lceil>10 * (deadline - clock s)\<rceil>" using early by simp
    ultimately have "nat \<lceil>10 * (deadline - clock t)\<rceil> < nat \<lceil>10 * (deadline - clock s)\<rceil>"
      by linarith
    then show "P t" by (rule less)
  qed
qed

lemma next_round:
  assumes "timely m" and "m s = (r, t)"
  shows "clock s + 1 / 10 \<le> clock (sleep os (1 / 10) t)"
  using timelyD [OF assms] sleep_clock [of t "1 / 10" os] by linarith

lemma poll_returns:
  assumes "timely body"
  shows "\<exists>r t. poll os body deadline s = Some (r, t)"
proof (induction s rule: clock_induct [of deadline])
  case (1 s)
  obtain q v where body: "body s = (q, v)" by (rule prod.exhaust)
  show ?case
  proof (cases "clock s < deadline \<and> q = Inr None")
    case True
    from 1 [OF _ next_round [OF assms body, of os]] True show ?thesis
      using body by (subst poll.simps) simp
  next
    case False
    then show ?thesis using body
      by (subst poll.simps) (auto split: sum.splits option.splits)
  qed
qed

text \<open>What a loop whose body never turns the clock back guarantees.\<close>

locale polling =
  fixes os :: "('w, 'z) outside_scheme" and body :: "('w timed, 'a option) act"
  assumes body_timely: "timely body"
begin

lemma comes_back: "returns (poll_or_timeout os body deadline)"
  using poll_returns [OF body_timely, of os deadline]
  unfolding poll_or_timeout_def by (intro returns_intros) (simp add: returns_def)

lemma comes_back_at: "\<exists>r t. poll_or_timeout os body deadline s = Some (r, t)"
  using comes_back unfolding returns_def by blast

lemma outcome:
  assumes "poll_or_timeout os body deadline s = Some (r, t)"
  shows "\<exists>n u. polled os body deadline s n u \<and> clock s + of_nat n / 10 \<le> clock u \<and>
    (if clock u < deadline
     then case r of Inl e \<Rightarrow> body u = (Inl e, t) | Inr x \<Rightarrow> body u = (Inr (Some x), t)
     else r = Inl (TimeoutError ''within the wait'') \<and> t = u)"
proof -
  from assms obtain q v where poll: "poll os body deadline s = Some (q, v)"
    by (auto simp: poll_or_timeout_def bind_l_def split: option.splits)
  from poll_result [OF this] obtain n u where walk: "polled os body deadline s n u"
    and stop: "if clock u < deadline then body u = (q, v) \<and> q \<noteq> Inr None else q = Inr None \<and> v = u"
    unfolding fst_conv prod.inject by blast
  have "clock s + of_nat n / 10 \<le> clock u" using polled_clock [OF walk body_timely] .
  moreover have "if clock u < deadline
     then case r of Inl e \<Rightarrow> body u = (Inl e, t) | Inr x \<Rightarrow> body u = (Inr (Some x), t)
     else r = Inl (TimeoutError ''within the wait'') \<and> t = u"
    using assms poll stop
    by (auto simp: poll_or_timeout_def bind_l_def split: sum.splits option.splits if_splits)
  ultimately show ?thesis using walk by blast
qed

lemma success:
  assumes "poll_or_timeout os body deadline s = Some (Inr x, t)"
  obtains n u where "polled os body deadline s n u" and "clock u < deadline"
    and "clock s + of_nat n / 10 < deadline" and "body u = (Inr (Some x), t)"
  using outcome [OF assms] by (fastforce split: if_splits)

end

lemma poll_or_timeout_immediate:
  assumes "clock s < deadline" and "body s = (Inr (Some x), t)"
  shows "poll_or_timeout os body deadline s = Some (Inr x, t)"
  using assms by (simp add: poll_or_timeout_def bind_l_def poll.simps)

text \<open>What the body and the sleep keep, the loop keeps.\<close>

lemma poll_or_timeout_keeps:
  assumes "poll_or_timeout os body deadline s = Some (r, t)" and "P s"
    and body: "\<And>u q v. P u \<Longrightarrow> body u = (q, v) \<Longrightarrow> P v"
    and nap: "\<And>u. P u \<Longrightarrow> P (sleep os (1 / 10) u)"
  shows "P t"
proof -
  from assms(1) obtain q where poll: "poll os body deadline s = Some (q, t)"
    by (auto simp: poll_or_timeout_def bind_l_def split: option.splits sum.splits)
  have walk: "P u" if "polled os body deadline s n u" for n u
    using that by induction (use assms(2) body nap in blast)+
  from poll_result [OF poll] obtain n u where "polled os body deadline s n u"
    and "if clock u < deadline then body u = (q, t) \<and> fst (q, t) \<noteq> Inr None else (q, t) = (Inr None, u)"
    by blast
  then show ?thesis using walk [of n u] body [of u q t] by (cases "clock u < deadline") simp_all
qed

subsection \<open>wait_until\<close>

definition until_body :: "('w timed, bool) act \<Rightarrow> ('w timed, unit option) act" where
  "until_body predicate = bind_a predicate (\<lambda>b. ret (if b then Some () else None))"

definition wait_until ::
  "('w, 'z) outside_scheme \<Rightarrow> factor_state \<Rightarrow> ('w timed, bool) act \<Rightarrow> rat \<Rightarrow> ('w timed, unit) loop" where
  "wait_until os st predicate timeout s =
     poll_or_timeout os (until_body predicate) (clock s + scaled st timeout) s"

lemma until_body_timely [timely_intros]: "timely p \<Longrightarrow> timely (until_body p)"
  unfolding until_body_def by (intro timely_intros)

lemma until_body_cases:
  "until_body p u = (r, t) \<longleftrightarrow>
    (case r of Inl e \<Rightarrow> p u = (Inl e, t) | Inr x \<Rightarrow> p u = (Inr (x \<noteq> None), t))"
proof (cases r)
  case (Inl e)
  then show ?thesis by (cases "p u") (auto simp: until_body_def bind_a_def split: sum.splits)
next
  case (Inr x)
  then show ?thesis
    by (cases "p u"; cases x) (auto simp: until_body_def bind_a_def split: sum.splits)
qed

text \<open>The predicates a caller polls are made of calls into the world.\<close>

interpretation until_world: polling os "until_body (outside_call f)" for os f
  by unfold_locales (intro timely_intros)

text \<open>
  C12: \<open>wait_until\<close> always comes back. It evaluates the predicate at least a tenth of a second
  apart, returns as soon as one evaluation made before the deadline is true, lets an
  exception of the predicate through, and raises \<open>TimeoutError\<close> only once the deadline has
  passed with every evaluation false.
\<close>

theorem wait_until_outcome:
  fixes f :: "'w \<Rightarrow> bool result \<times> rat \<times> 'w" and s :: "'w timed"
  shows "let p = outside_call f; deadline = clock s + scaled st timeout in
    \<exists>r t n u. wait_until os st p timeout s = Some (r, t)
    \<and> polled os (until_body p) deadline s n u \<and> clock s + of_nat n / 10 \<le> clock u
    \<and> (if clock u < deadline
       then (case r of Inl e \<Rightarrow> p u = (Inl e, t) | Inr _ \<Rightarrow> p u = (Inr True, t))
       else r = Inl (TimeoutError ''within the wait'') \<and> t = u)"
proof -
  define p where "p = outside_call f"
  define deadline where "deadline = clock s + scaled st timeout"
  obtain r t where comes: "wait_until os st p timeout s = Some (r, t)"
    using until_world.comes_back [of os f deadline]
    unfolding wait_until_def p_def deadline_def returns_def by blast
  from until_world.outcome [OF comes [unfolded wait_until_def p_def]] obtain n u where
    "polled os (until_body p) deadline s n u" "clock s + of_nat n / 10 \<le> clock u"
    and stop: "if clock u < deadline
      then case r of Inl e \<Rightarrow> until_body p u = (Inl e, t) | Inr x \<Rightarrow> until_body p u = (Inr (Some x), t)
      else r = Inl (TimeoutError ''within the wait'') \<and> t = u"
    unfolding p_def deadline_def by blast
  moreover have "if clock u < deadline
       then (case r of Inl e \<Rightarrow> p u = (Inl e, t) | Inr _ \<Rightarrow> p u = (Inr True, t))
       else r = Inl (TimeoutError ''within the wait'') \<and> t = u"
    using stop by (auto simp: until_body_cases split: sum.splits if_splits)
  ultimately show ?thesis using comes unfolding Let_def p_def deadline_def by blast
qed

subsection \<open>assert_debug_log\<close>

text \<open>
  The log file is its octets, each a character (the text the code looks for is ASCII, so
  decoding does not change what is found); \<open>read_log\<close> answers \<open>None\<close> where there is no file.
\<close>

partial_function (option) debug_log_loop ::
  "('w, 'z) outside_scheme \<Rightarrow> ('w \<Rightarrow> string option result \<times> rat \<times> 'w) \<Rightarrow> nat
    \<Rightarrow> string list \<Rightarrow> string list \<Rightarrow> rat \<Rightarrow> ('w timed, unit) loop" where
  [code]: "debug_log_loop os read_log start expected unexpected deadline s =
     (case outside_call read_log s of
        (Inl e, t) \<Rightarrow> Some (Inl e, t)
      | (Inr None, t) \<Rightarrow> Some (Inl (OSError ''No such file or directory''), t)
      | (Inr (Some content), t) \<Rightarrow>
          (let appended = drop start content;
               remaining = filter (\<lambda>x. \<not> py_contains x appended) expected
           in if list_ex (\<lambda>x. py_contains x appended) unexpected
              then Some (Inl (AssertionError ''found in the log''), t)
              else if remaining = [] then Some (Inr (), t)
              else if deadline \<le> clock t then Some (Inl (AssertionError ''not found in the log''), t)
              else debug_log_loop os read_log start expected unexpected deadline
                     (sleep os (1 / 10) t)))"

definition log_size :: "('w \<Rightarrow> string option result \<times> rat \<times> 'w) \<Rightarrow> ('w timed, nat) act" where
  "log_size read_log =
     bind_a (outside_call read_log) (\<lambda>c. ret (case c of None \<Rightarrow> 0 | Some content \<Rightarrow> length content))"

text \<open>The \<open>with\<close> block is an action: an exception of its own is raised with no wait.\<close>

definition assert_debug_log ::
  "('w, 'z) outside_scheme \<Rightarrow> factor_state \<Rightarrow> ('w \<Rightarrow> string option result \<times> rat \<times> 'w)
    \<Rightarrow> string list \<Rightarrow> string list \<Rightarrow> rat \<Rightarrow> ('w timed, unit) act \<Rightarrow> ('w timed, unit) loop" where
  "assert_debug_log os st read_log expected unexpected timeout block =
     bind_l (once (log_size read_log))
       (\<lambda>start. bind_l (once block)
         (\<lambda>_ s. debug_log_loop os read_log start expected unexpected (clock s + scaled st timeout) s))"

text \<open>What one read of the log says.\<close>

definition log_verdict :: "string list \<Rightarrow> string list \<Rightarrow> string \<Rightarrow> unit option result" where
  "log_verdict expected unexpected appended =
     (if \<exists>x \<in> set unexpected. sublist x appended then Inl (AssertionError ''found in the log'')
      else if \<forall>x \<in> set expected. sublist x appended then Inr (Some ()) else Inr None)"

text \<open>The states in which the log is read.\<close>

inductive log_reads ::
  "('w, 'z) outside_scheme \<Rightarrow> ('w \<Rightarrow> string option result \<times> rat \<times> 'w) \<Rightarrow> nat
    \<Rightarrow> string list \<Rightarrow> string list \<Rightarrow> rat \<Rightarrow> 'w timed \<Rightarrow> 'w timed \<Rightarrow> bool"
  for os read_log start expected unexpected deadline where
  first: "log_reads os read_log start expected unexpected deadline s s"
| later: "outside_call read_log s = (Inr (Some c), v) \<Longrightarrow> clock v < deadline
    \<Longrightarrow> log_verdict expected unexpected (drop start c) = Inr None
    \<Longrightarrow> log_reads os read_log start expected unexpected deadline (sleep os (1 / 10) v) u
    \<Longrightarrow> log_reads os read_log start expected unexpected deadline s u"

lemma debug_log_step:
  "debug_log_loop os read_log start expected unexpected deadline s =
     (case outside_call read_log s of
        (Inl e, t) \<Rightarrow> Some (Inl e, t)
      | (Inr None, t) \<Rightarrow> Some (Inl (OSError ''No such file or directory''), t)
      | (Inr (Some c), t) \<Rightarrow>
          (case log_verdict expected unexpected (drop start c) of
             Inl e \<Rightarrow> Some (Inl e, t)
           | Inr (Some _) \<Rightarrow> Some (Inr (), t)
           | Inr None \<Rightarrow> if deadline \<le> clock t then Some (Inl (AssertionError ''not found in the log''), t)
               else debug_log_loop os read_log start expected unexpected deadline (sleep os (1 / 10) t)))"
  by (subst debug_log_loop.simps)
    (simp add: log_verdict_def Let_def py_contains_iff_sublist list_ex_iff filter_empty_conv
      split: prod.split sum.split option.split)

lemma log_reads_step:
  "outside_call read_log s = (Inr (Some c), v) \<Longrightarrow> \<not> deadline \<le> clock v
    \<Longrightarrow> log_verdict expected unexpected (drop start c) = Inr None
    \<Longrightarrow> log_reads os read_log start expected unexpected deadline (sleep os (1 / 10) v) u
    \<Longrightarrow> log_reads os read_log start expected unexpected deadline s u"
  by (rule log_reads.later) simp_all

text \<open>How the loop ends, given its last read.\<close>

definition log_end ::
  "string list \<Rightarrow> string list \<Rightarrow> nat \<Rightarrow> rat \<Rightarrow> string option result \<times> 'w timed
    \<Rightarrow> (unit result \<times> 'w timed) option" where
  "log_end expected unexpected start deadline q =
     (case q of
        (Inl e, v) \<Rightarrow> Some (Inl e, v)
      | (Inr None, v) \<Rightarrow> Some (Inl (OSError ''No such file or directory''), v)
      | (Inr (Some c), v) \<Rightarrow>
          (case log_verdict expected unexpected (drop start c) of
             Inl e \<Rightarrow> Some (Inl e, v)
           | Inr (Some _) \<Rightarrow> Some (Inr (), v)
           | Inr None \<Rightarrow> if deadline \<le> clock v
               then Some (Inl (AssertionError ''not found in the log''), v) else None))"

lemma debug_log_outcome:
  "\<exists>r t u. debug_log_loop os read_log start expected unexpected deadline s = Some (r, t)
    \<and> log_reads os read_log start expected unexpected deadline s u
    \<and> log_end expected unexpected start deadline (outside_call read_log u) = Some (r, t)"
proof (induction s rule: clock_induct [of deadline])
  case (1 s)
  obtain q v where read: "outside_call read_log s = (q, v)" by (rule prod.exhaust)
  show ?case
  proof (cases "log_end expected unexpected start deadline (q, v)")
    case (Some rt)
    moreover have "debug_log_loop os read_log start expected unexpected deadline s = Some rt"
      using Some read
      by (subst debug_log_step) (auto simp: log_end_def split: sum.splits option.splits if_splits)
    ultimately show ?thesis using read log_reads.first by (metis prod.collapse)
  next
    case None
    then obtain c where c: "q = Inr (Some c)" and late: "\<not> deadline \<le> clock v"
      and verdict: "log_verdict expected unexpected (drop start c) = Inr None"
      by (auto simp: log_end_def split: sum.splits option.splits if_splits)
    have step: "debug_log_loop os read_log start expected unexpected deadline s
        = debug_log_loop os read_log start expected unexpected deadline (sleep os (1 / 10) v)"
      using read c late verdict by (subst debug_log_step) simp
    have "clock s \<le> clock v" using timelyD [OF timely_outside read] .
    then have early: "clock s < deadline" using late by simp
    from 1 [OF early next_round [OF timely_outside read]] show ?thesis
      unfolding step using log_reads_step [OF read [unfolded c] late verdict] by blast
  qed
qed

lemma log_end_verdict:
  assumes "log_end expected unexpected start deadline (Inr (Some c), v) = Some (r, t)"
  shows "(r = Inr () \<longleftrightarrow> (\<forall>x \<in> set expected. sublist x (drop start c))
                      \<and> (\<forall>x \<in> set unexpected. \<not> sublist x (drop start c)))
    \<and> (r = Inl (AssertionError ''found in the log'') \<longleftrightarrow> (\<exists>x \<in> set unexpected. sublist x (drop start c)))
    \<and> (r = Inl (AssertionError ''not found in the log'') \<longrightarrow> deadline \<le> clock v)"
proof (cases "\<exists>x \<in> set unexpected. sublist x (drop start c)")
  case True
  then show ?thesis using assms by (auto simp: log_end_def log_verdict_def)
next
  case False
  then show ?thesis
    using assms by (cases "\<forall>x \<in> set expected. sublist x (drop start c)")
      (auto simp: log_end_def log_verdict_def split: if_splits)
qed

text \<open>
  C21: once the block has run, \<open>assert_debug_log\<close> always comes back, and the last read it made
  decides: it passes only if what that read shows past the size at entry contains every
  expected substring and no unexpected one, fails at once on an unexpected one, and fails for
  a missing one only on a read made at or past the deadline.
\<close>

theorem assert_debug_log_outcome:
  assumes "log_size read_log s = (Inr start, s1)" and "block s1 = (Inr (), s2)"
  shows "\<exists>r t u. assert_debug_log os st read_log expected unexpected timeout block s = Some (r, t)
    \<and> log_reads os read_log start expected unexpected (clock s2 + scaled st timeout) s2 u
    \<and> (case outside_call read_log u of
         (Inl e, v) \<Rightarrow> r = Inl e
       | (Inr None, v) \<Rightarrow> r = Inl (OSError ''No such file or directory'')
       | (Inr (Some c), v) \<Rightarrow>
           (r = Inr () \<longleftrightarrow> (\<forall>x \<in> set expected. sublist x (drop start c))
                        \<and> (\<forall>x \<in> set unexpected. \<not> sublist x (drop start c)))
         \<and> (r = Inl (AssertionError ''found in the log'') \<longleftrightarrow> (\<exists>x \<in> set unexpected. sublist x (drop start c)))
         \<and> (r = Inl (AssertionError ''not found in the log'') \<longrightarrow> clock s2 + scaled st timeout \<le> clock v))"
proof -
  obtain r t u where loop: "debug_log_loop os read_log start expected unexpected
        (clock s2 + scaled st timeout) s2 = Some (r, t)"
      "log_reads os read_log start expected unexpected (clock s2 + scaled st timeout) s2 u"
    and last: "log_end expected unexpected start (clock s2 + scaled st timeout)
        (outside_call read_log u) = Some (r, t)"
    using debug_log_outcome by metis
  have "assert_debug_log os st read_log expected unexpected timeout block s = Some (r, t)"
    using assms loop(1) by (simp add: assert_debug_log_def bind_l_def)
  moreover have "case outside_call read_log u of
         (Inl e, v) \<Rightarrow> r = Inl e
       | (Inr None, v) \<Rightarrow> r = Inl (OSError ''No such file or directory'')
       | (Inr (Some c), v) \<Rightarrow>
           (r = Inr () \<longleftrightarrow> (\<forall>x \<in> set expected. sublist x (drop start c))
                        \<and> (\<forall>x \<in> set unexpected. \<not> sublist x (drop start c)))
         \<and> (r = Inl (AssertionError ''found in the log'') \<longleftrightarrow> (\<exists>x \<in> set unexpected. sublist x (drop start c)))
         \<and> (r = Inl (AssertionError ''not found in the log'') \<longrightarrow> clock s2 + scaled st timeout \<le> clock v)"
  proof -
    obtain q v where read: "outside_call read_log u = (q, v)" by (rule prod.exhaust)
    consider e where "q = Inl e" | "q = Inr None" | c where "q = Inr (Some c)"
      by (metis obj_sumE option.exhaust)
    then show ?thesis
    proof cases
      case 3
      show ?thesis using log_end_verdict [OF last [unfolded read 3]] by (simp add: read 3)
    qed (use last read in \<open>simp_all add: log_end_def\<close>)
  qed
  ultimately show ?thesis using loop(2) by (intro exI conjI)
qed

text \<open>A log that gains its line on the third read.\<close>

definition slow_log :: "nat \<Rightarrow> string option result \<times> rat \<times> nat" where
  "slow_log n = (Inr (Some (if n < 3 then ''a'' else ''ab'')), 0, Suc n)"

definition idle_outside :: "nat outside" where
  "idle_outside = \<lparr>o_sleep = (\<lambda>d n. (0, n)), o_rpc = (\<lambda>node m ps n. (Inr JNull, 0, n))\<rparr>"

lemma assert_debug_log_outcome_witness:
  "assert_debug_log idle_outside initial_factor slow_log [''b''] [''c''] 1 (ret ()) \<lparr>clock = 0, world = 0\<rparr>
     = Some (Inr (), \<lparr>clock = 1 / 5, world = 4\<rparr>)
   \<and> (\<exists>r t u. assert_debug_log idle_outside initial_factor slow_log [''b''] [''c''] 1 (ret ())
          \<lparr>clock = 0, world = 0\<rparr> = Some (r, t)
        \<and> log_reads idle_outside slow_log 1 [''b''] [''c''] 1 \<lparr>clock = 0, world = 1\<rparr> u)"
proof
  show "assert_debug_log idle_outside initial_factor slow_log [''b''] [''c''] 1 (ret ()) \<lparr>clock = 0, world = 0\<rparr>
     = Some (Inr (), \<lparr>clock = 1 / 5, world = 4\<rparr>)" by code_simp
  have "log_size slow_log \<lparr>clock = 0, world = 0\<rparr> = (Inr 1, \<lparr>clock = 0, world = 1\<rparr>)" by code_simp
  from assert_debug_log_outcome [OF this, of "ret ()" _ idle_outside initial_factor "[''b'']" "[''c'']" 1]
  show "\<exists>r t u. assert_debug_log idle_outside initial_factor slow_log [''b''] [''c''] 1 (ret ())
          \<lparr>clock = 0, world = 0\<rparr> = Some (r, t)
        \<and> log_reads idle_outside slow_log 1 [''b''] [''c''] 1 \<lparr>clock = 0, world = 1\<rparr> u"
    by auto
qed

end
