(* ===== verification/Capabilities.thy ===== *)
theory Capabilities
  imports Prelude "HOL-Library.Char_ord" "HOL-Library.List_Lexorder"
begin

section \<open>The capabilities a node can declare\<close>

text \<open>
  The \<open>Capability\<close> enumeration of \<open>capability.py\<close>: its members, the value of each, the lookup
  of a member by value and the order of the values, which is the order of every report.
\<close>

subsection \<open>The enumeration\<close>

datatype (plugins only:) capability =
    MINE | CONNECT | DISCONNECT | BAN
  | RAW_MESSAGE | BLK_FILES | DEBUG_LOG | UA_COMMENT
  | CLOCK | RPC_AUTH_CONFIG | RPC_AUTH_NEGATION | TEST_ACTIVATION_HEIGHT
  | V2TRANSPORT | DATACARRIER | PERMIT_BARE_MULTISIG | DUST_RELAY_FEE
  | BYTES_PER_SIGOP | LIMIT_CLUSTER_COUNT | LIMIT_CLUSTER_SIZE | MAXMEMPOOL
  | DESCRIPTOR_ACTIVITY | BLOCK_STATS | FASTPRUNE | INBOUND_EVICTION
  | BLOCK_FILTER_INDEX | VALIDATE_ADDRESS | TYPED_OUTBOUND | RPC_WORK_QUEUE
  | BLOCKS_ONLY | BLOCK_FROM_PEER | ACCEPT_NON_STANDARD | SUSPEND_NETWORK
  | DESCRIPTOR_INFO | PEER_TIMEOUT | MEMPOOL_EXPIRY | SIGN_RAW_TRANSACTION
  | INVALIDATE_BLOCK | REINDEX_AFTER_FAILURE | GENERATE | SCAN_UTXO_SET
  | PROXY | PROXY_PER_NETWORK | CJDNS | I2P_SAM
  | ONLYNET | NODE_WALLET | TX_RECONCILIATION | PEER_BLOOM_FILTERS
  | REINDEX | CAPTURE_MESSAGES | BLOCKS_XOR | ORPHANAGE
  | BLOCK_PROPOSAL | DNS_SEED | ADDRESS_FETCH | KNOWN_ADDRESSES
  | EXTERNAL_IP | PRIVATE_BROADCAST | STARTUP_NOTIFY | DUMP_UTXO_SET
  | LOAD_BLOCK | LISTEN_ADDRESS | MAX_TIP_AGE | PEER_BLOCK_FILTERS
  | RPC_INFO | MIN_RELAY_TX_FEE | CLUSTER_LINEARIZATION | MINIMUM_CHAIN_WORK
  | MEMPOOL_GRAPH | ALERT_NOTIFY | PACKAGE_ACCEPTANCE | BLOCK_NOTIFY
  | SHUTDOWN_NOTIFY | SETTINGS_FILE | PRECIOUS_BLOCK | SIGN_MESSAGE_WITH_PRIVKEY
  | ESTIMATE_SMART_FEE | CHAIN_TIPS | ASSUME_VALID | INCREMENTAL_RELAY_FEE
  | PEER_PERMISSIONS | CLUSTER_REPLACEMENT | BLOCKS_DIR | INCLUDE_CONF
  | UTXO_SET_INFO | MEMPOOL_ENTRY | ADDRESS_TABLES

primrec cap_value :: "capability \<Rightarrow> string" where
  "cap_value MINE = ''mine''"
| "cap_value CONNECT = ''connect''"
| "cap_value DISCONNECT = ''disconnect''"
| "cap_value BAN = ''ban''"
| "cap_value RAW_MESSAGE = ''raw_message''"
| "cap_value BLK_FILES = ''blk_files''"
| "cap_value DEBUG_LOG = ''debug_log''"
| "cap_value UA_COMMENT = ''ua_comment''"
| "cap_value CLOCK = ''clock''"
| "cap_value RPC_AUTH_CONFIG = ''rpc_auth_config''"
| "cap_value RPC_AUTH_NEGATION = ''rpc_auth_negation''"
| "cap_value TEST_ACTIVATION_HEIGHT = ''test_activation_height''"
| "cap_value V2TRANSPORT = ''v2transport''"
| "cap_value DATACARRIER = ''datacarrier''"
| "cap_value PERMIT_BARE_MULTISIG = ''permit_bare_multisig''"
| "cap_value DUST_RELAY_FEE = ''dust_relay_fee''"
| "cap_value BYTES_PER_SIGOP = ''bytes_per_sigop''"
| "cap_value LIMIT_CLUSTER_COUNT = ''limit_cluster_count''"
| "cap_value LIMIT_CLUSTER_SIZE = ''limit_cluster_size''"
| "cap_value MAXMEMPOOL = ''maxmempool''"
| "cap_value DESCRIPTOR_ACTIVITY = ''descriptor_activity''"
| "cap_value BLOCK_STATS = ''block_stats''"
| "cap_value FASTPRUNE = ''fastprune''"
| "cap_value INBOUND_EVICTION = ''inbound_eviction''"
| "cap_value BLOCK_FILTER_INDEX = ''block_filter_index''"
| "cap_value VALIDATE_ADDRESS = ''validate_address''"
| "cap_value TYPED_OUTBOUND = ''typed_outbound''"
| "cap_value RPC_WORK_QUEUE = ''rpc_work_queue''"
| "cap_value BLOCKS_ONLY = ''blocks_only''"
| "cap_value BLOCK_FROM_PEER = ''block_from_peer''"
| "cap_value ACCEPT_NON_STANDARD = ''accept_non_standard''"
| "cap_value SUSPEND_NETWORK = ''suspend_network''"
| "cap_value DESCRIPTOR_INFO = ''descriptor_info''"
| "cap_value PEER_TIMEOUT = ''peer_timeout''"
| "cap_value MEMPOOL_EXPIRY = ''mempool_expiry''"
| "cap_value SIGN_RAW_TRANSACTION = ''sign_raw_transaction''"
| "cap_value INVALIDATE_BLOCK = ''invalidate_block''"
| "cap_value REINDEX_AFTER_FAILURE = ''reindex_after_failure''"
| "cap_value GENERATE = ''generate''"
| "cap_value SCAN_UTXO_SET = ''scan_utxo_set''"
| "cap_value PROXY = ''proxy''"
| "cap_value PROXY_PER_NETWORK = ''proxy_per_network''"
| "cap_value CJDNS = ''cjdns''"
| "cap_value I2P_SAM = ''i2p_sam''"
| "cap_value ONLYNET = ''onlynet''"
| "cap_value NODE_WALLET = ''node_wallet''"
| "cap_value TX_RECONCILIATION = ''tx_reconciliation''"
| "cap_value PEER_BLOOM_FILTERS = ''peer_bloom_filters''"
| "cap_value REINDEX = ''reindex''"
| "cap_value CAPTURE_MESSAGES = ''capture_messages''"
| "cap_value BLOCKS_XOR = ''blocks_xor''"
| "cap_value ORPHANAGE = ''orphanage''"
| "cap_value BLOCK_PROPOSAL = ''block_proposal''"
| "cap_value DNS_SEED = ''dns_seed''"
| "cap_value ADDRESS_FETCH = ''address_fetch''"
| "cap_value KNOWN_ADDRESSES = ''known_addresses''"
| "cap_value EXTERNAL_IP = ''external_ip''"
| "cap_value PRIVATE_BROADCAST = ''private_broadcast''"
| "cap_value STARTUP_NOTIFY = ''startup_notify''"
| "cap_value DUMP_UTXO_SET = ''dump_utxo_set''"
| "cap_value LOAD_BLOCK = ''load_block''"
| "cap_value LISTEN_ADDRESS = ''listen_address''"
| "cap_value MAX_TIP_AGE = ''max_tip_age''"
| "cap_value PEER_BLOCK_FILTERS = ''peer_block_filters''"
| "cap_value RPC_INFO = ''rpc_info''"
| "cap_value MIN_RELAY_TX_FEE = ''min_relay_tx_fee''"
| "cap_value CLUSTER_LINEARIZATION = ''cluster_linearization''"
| "cap_value MINIMUM_CHAIN_WORK = ''minimum_chain_work''"
| "cap_value MEMPOOL_GRAPH = ''mempool_graph''"
| "cap_value ALERT_NOTIFY = ''alert_notify''"
| "cap_value PACKAGE_ACCEPTANCE = ''package_acceptance''"
| "cap_value BLOCK_NOTIFY = ''block_notify''"
| "cap_value SHUTDOWN_NOTIFY = ''shutdown_notify''"
| "cap_value SETTINGS_FILE = ''settings_file''"
| "cap_value PRECIOUS_BLOCK = ''precious_block''"
| "cap_value SIGN_MESSAGE_WITH_PRIVKEY = ''sign_message_with_privkey''"
| "cap_value ESTIMATE_SMART_FEE = ''estimate_smart_fee''"
| "cap_value CHAIN_TIPS = ''chain_tips''"
| "cap_value ASSUME_VALID = ''assume_valid''"
| "cap_value INCREMENTAL_RELAY_FEE = ''incremental_relay_fee''"
| "cap_value PEER_PERMISSIONS = ''peer_permissions''"
| "cap_value CLUSTER_REPLACEMENT = ''cluster_replacement''"
| "cap_value BLOCKS_DIR = ''blocks_dir''"
| "cap_value INCLUDE_CONF = ''include_conf''"
| "cap_value UTXO_SET_INFO = ''utxo_set_info''"
| "cap_value MEMPOOL_ENTRY = ''mempool_entry''"
| "cap_value ADDRESS_TABLES = ''address_tables''"

text \<open>The members in the order the class lists them, which is how it iterates.\<close>

definition all_capabilities :: "capability list" where
  "all_capabilities =
    [MINE, CONNECT, DISCONNECT, BAN,
     RAW_MESSAGE, BLK_FILES, DEBUG_LOG, UA_COMMENT,
     CLOCK, RPC_AUTH_CONFIG, RPC_AUTH_NEGATION, TEST_ACTIVATION_HEIGHT,
     V2TRANSPORT, DATACARRIER, PERMIT_BARE_MULTISIG, DUST_RELAY_FEE,
     BYTES_PER_SIGOP, LIMIT_CLUSTER_COUNT, LIMIT_CLUSTER_SIZE, MAXMEMPOOL,
     DESCRIPTOR_ACTIVITY, BLOCK_STATS, FASTPRUNE, INBOUND_EVICTION,
     BLOCK_FILTER_INDEX, VALIDATE_ADDRESS, TYPED_OUTBOUND, RPC_WORK_QUEUE,
     BLOCKS_ONLY, BLOCK_FROM_PEER, ACCEPT_NON_STANDARD, SUSPEND_NETWORK,
     DESCRIPTOR_INFO, PEER_TIMEOUT, MEMPOOL_EXPIRY, SIGN_RAW_TRANSACTION,
     INVALIDATE_BLOCK, REINDEX_AFTER_FAILURE, GENERATE, SCAN_UTXO_SET,
     PROXY, PROXY_PER_NETWORK, CJDNS, I2P_SAM,
     ONLYNET, NODE_WALLET, TX_RECONCILIATION, PEER_BLOOM_FILTERS,
     REINDEX, CAPTURE_MESSAGES, BLOCKS_XOR, ORPHANAGE,
     BLOCK_PROPOSAL, DNS_SEED, ADDRESS_FETCH, KNOWN_ADDRESSES,
     EXTERNAL_IP, PRIVATE_BROADCAST, STARTUP_NOTIFY, DUMP_UTXO_SET,
     LOAD_BLOCK, LISTEN_ADDRESS, MAX_TIP_AGE, PEER_BLOCK_FILTERS,
     RPC_INFO, MIN_RELAY_TX_FEE, CLUSTER_LINEARIZATION, MINIMUM_CHAIN_WORK,
     MEMPOOL_GRAPH, ALERT_NOTIFY, PACKAGE_ACCEPTANCE, BLOCK_NOTIFY,
     SHUTDOWN_NOTIFY, SETTINGS_FILE, PRECIOUS_BLOCK, SIGN_MESSAGE_WITH_PRIVKEY,
     ESTIMATE_SMART_FEE, CHAIN_TIPS, ASSUME_VALID, INCREMENTAL_RELAY_FEE,
     PEER_PERMISSIONS, CLUSTER_REPLACEMENT, BLOCKS_DIR, INCLUDE_CONF,
     UTXO_SET_INFO, MEMPOOL_ENTRY, ADDRESS_TABLES]"

text \<open>\<open>Capability(value)\<close>, \<open>None\<close> where it raises.\<close>

definition capability_of :: "string \<Rightarrow> capability option" where
  "capability_of v = List.find (\<lambda>c. cap_value c = v) all_capabilities"

lemma all_capabilities_complete [simp]: "c \<in> set all_capabilities"
  by (cases c) (simp_all add: all_capabilities_def)

lemma all_cap_values:
  "map cap_value all_capabilities =
     [''mine'', ''connect'', ''disconnect'', ''ban'',
      ''raw_message'', ''blk_files'', ''debug_log'', ''ua_comment'',
      ''clock'', ''rpc_auth_config'', ''rpc_auth_negation'', ''test_activation_height'',
      ''v2transport'', ''datacarrier'', ''permit_bare_multisig'', ''dust_relay_fee'',
      ''bytes_per_sigop'', ''limit_cluster_count'', ''limit_cluster_size'', ''maxmempool'',
      ''descriptor_activity'', ''block_stats'', ''fastprune'', ''inbound_eviction'',
      ''block_filter_index'', ''validate_address'', ''typed_outbound'', ''rpc_work_queue'',
      ''blocks_only'', ''block_from_peer'', ''accept_non_standard'', ''suspend_network'',
      ''descriptor_info'', ''peer_timeout'', ''mempool_expiry'', ''sign_raw_transaction'',
      ''invalidate_block'', ''reindex_after_failure'', ''generate'', ''scan_utxo_set'',
      ''proxy'', ''proxy_per_network'', ''cjdns'', ''i2p_sam'',
      ''onlynet'', ''node_wallet'', ''tx_reconciliation'', ''peer_bloom_filters'',
      ''reindex'', ''capture_messages'', ''blocks_xor'', ''orphanage'',
      ''block_proposal'', ''dns_seed'', ''address_fetch'', ''known_addresses'',
      ''external_ip'', ''private_broadcast'', ''startup_notify'', ''dump_utxo_set'',
      ''load_block'', ''listen_address'', ''max_tip_age'', ''peer_block_filters'',
      ''rpc_info'', ''min_relay_tx_fee'', ''cluster_linearization'', ''minimum_chain_work'',
      ''mempool_graph'', ''alert_notify'', ''package_acceptance'', ''block_notify'',
      ''shutdown_notify'', ''settings_file'', ''precious_block'', ''sign_message_with_privkey'',
      ''estimate_smart_fee'', ''chain_tips'', ''assume_valid'', ''incremental_relay_fee'',
      ''peer_permissions'', ''cluster_replacement'', ''blocks_dir'', ''include_conf'',
      ''utxo_set_info'', ''mempool_entry'', ''address_tables'']"
  by (simp add: all_capabilities_def)

lemma cap_values_distinct: "distinct (map cap_value all_capabilities)"
  unfolding all_cap_values by code_simp

lemma cap_value_inj: "inj cap_value"
  using cap_values_distinct by (auto simp: distinct_map inj_on_def)

lemma cap_value_eq [simp]: "cap_value c = cap_value d \<longleftrightarrow> c = d"
  using cap_value_inj by (simp add: inj_eq)

lemma capability_of_value [simp]: "capability_of (cap_value c) = Some c"
proof -
  have "find (\<lambda>d. cap_value d = cap_value c) xs = (if c \<in> set xs then Some c else None)" for xs
    by (induction xs) auto
  then show ?thesis by (simp add: capability_of_def)
qed

lemma capability_of_Some: "capability_of v = Some c \<longleftrightarrow> v = cap_value c"
proof
  assume "capability_of v = Some c"
  then show "v = cap_value c" by (auto simp: capability_of_def find_Some_iff)
qed simp

text \<open>Two members are the same exactly where their values are.\<close>

instantiation capability :: equal
begin

definition equal_capability :: "capability \<Rightarrow> capability \<Rightarrow> bool" where
  "equal_capability c d \<longleftrightarrow> cap_value c = cap_value d"

instance by standard (simp add: equal_capability_def)

end

text \<open>Capabilities are ordered by their values, as the report lists them.\<close>

instantiation capability :: linorder
begin

definition less_eq_capability :: "capability \<Rightarrow> capability \<Rightarrow> bool" where
  "less_eq_capability c d \<longleftrightarrow> cap_value c \<le> cap_value d"

definition less_capability :: "capability \<Rightarrow> capability \<Rightarrow> bool" where
  "less_capability c d \<longleftrightarrow> cap_value c < cap_value d"

instance
proof
  fix x y z :: capability
  show "x < y \<longleftrightarrow> x \<le> y \<and> \<not> y \<le> x"
    unfolding less_eq_capability_def less_capability_def by (rule less_le_not_le)
  show "x \<le> x" unfolding less_eq_capability_def by simp
  show "x \<le> z" if "x \<le> y" "y \<le> z" using that unfolding less_eq_capability_def by (rule order_trans)
  show "x = y" if "x \<le> y" "y \<le> x"
    using antisym [of "cap_value x" "cap_value y"] that unfolding less_eq_capability_def by simp
  show "x \<le> y \<or> y \<le> x" unfolding less_eq_capability_def by (rule linear)
qed

end

end
