(* ===== verification/Skip_Tally.thy ===== *)
theory Skip_Tally
  imports Capabilities "HOL-Library.AList" "HOL-Library.Multiset"
begin

section \<open>The tally of skips, and the check that reads it back\<close>

text \<open>
  \<open>SkipCounts\<close> and \<open>require\<close> of \<open>capability.py\<close>, and \<open>.github/scripts/check_node_ran.py\<close>, which
  recognises a skip by \<open>require\<close>'s message. A \<open>Counter\<close> is the association list of its items
  in insertion order. The lemmas turn a tally into the multiset of the capabilities recorded
  in it; the locale \<open>skip_tally\<close> is what a session relies on, whichever process recorded what.
\<close>

subsection \<open>The tally\<close>

text \<open>\<open>str\<close> of an integer.\<close>

definition py_str_int :: "int \<Rightarrow> string" where
  "py_str_int n = (if n < 0 then CHR ''-'' # dec (nat (- n)) else dec (nat n))"

definition py_join :: "string \<Rightarrow> string list \<Rightarrow> string" where
  "py_join sep xs = concat (case xs of [] \<Rightarrow> [] | y # ys \<Rightarrow> y # map (\<lambda>z. sep @ z) ys)"

record skip_counts =
  sc_counts :: "(capability \<times> int) list"

definition skip_counts_init :: skip_counts where
  "skip_counts_init = \<lparr>sc_counts = []\<rparr>"

text \<open>\<open>self._counts[c] += n\<close>: a key a \<open>Counter\<close> lacks counts as 0.\<close>

definition counter_get :: "(capability \<times> int) list \<Rightarrow> capability \<Rightarrow> int" where
  "counter_get kvs c = (case map_of kvs c of None \<Rightarrow> 0 | Some n \<Rightarrow> n)"

definition counter_add :: "capability \<Rightarrow> int \<Rightarrow> skip_counts \<Rightarrow> skip_counts" where
  "counter_add c n st =
     st\<lparr>sc_counts := AList.update c (counter_get (sc_counts st) c + n) (sc_counts st)\<rparr>"

definition skip_record :: "capability \<Rightarrow> skip_counts \<Rightarrow> skip_counts" where
  "skip_record c st = counter_add c 1 st"

definition skip_iter :: "skip_counts \<Rightarrow> (capability \<times> int) list" where
  "skip_iter st = sort_key (\<lambda>p. cap_value (fst p)) (sc_counts st)"

definition skip_report :: "skip_counts \<Rightarrow> string" where
  "skip_report st =
     (let report_lines = map (\<lambda>(c, n). cap_value c @ '': '' @ py_str_int n) (skip_iter st)
      in if report_lines = [] then ''skips per capability: no test asked for one this run''
         else ''skips per capability:'' @ [CHR 0x0A] @ py_join [CHR 0x0A] report_lines)"

definition as_mapping :: "skip_counts \<Rightarrow> (string \<times> int) list" where
  "as_mapping st = map (\<lambda>(c, n). (cap_value c, n)) (skip_iter st)"

fun add_mapping :: "(string \<times> int) list \<Rightarrow> (skip_counts, unit) act" where
  "add_mapping [] st = (Inr (), st)"
| "add_mapping ((v, n) # kvs) st =
     (case capability_of v of
        None \<Rightarrow> (Inl (ValueError ''is not a valid Capability''), st)
      | Some c \<Rightarrow> add_mapping kvs (counter_add c n st))"

definition require ::
  "capability \<Rightarrow> capability set \<Rightarrow> (skip_counts, unit) act" where
  "require c capabilities st =
     (if c \<notin> capabilities
      then (Inl (MissingCapabilityError (''node does not declare '' @ cap_value c)), skip_record c st)
      else (Inr (), st))"

subsection \<open>What a tally holds\<close>

definition tally_ok :: "skip_counts \<Rightarrow> bool" where
  "tally_ok st \<longleftrightarrow> distinct (map fst (sc_counts st)) \<and> list_all (\<lambda>p. 0 < snd p) (sc_counts st)"

definition tally :: "skip_counts \<Rightarrow> capability multiset" where
  "tally st = sum_list (map (\<lambda>(c, n). replicate_mset (nat n) c) (sc_counts st))"

lemma counter_get_update:
  "counter_get (AList.update c v kvs) d = (if d = c then v else counter_get kvs d)"
  by (simp add: counter_get_def update_conv')

lemma counter_get_in:
  assumes "distinct (map fst kvs)"
  shows "(c, n) \<in> set kvs \<longleftrightarrow> map_of kvs c = Some n"
  using assms by (simp add: map_of_eq_Some_iff)

lemma tally_ok_get: "tally_ok st \<Longrightarrow> 0 \<le> counter_get (sc_counts st) c"
  by (auto simp: tally_ok_def counter_get_def list_all_iff dest: map_of_SomeD split: option.split)

lemma tally_ok_items:
  assumes "tally_ok st"
  shows "(c, n) \<in> set (sc_counts st) \<longleftrightarrow> 0 < n \<and> counter_get (sc_counts st) c = n"
proof -
  have dist: "distinct (map fst (sc_counts st))" and pos: "list_all (\<lambda>p. 0 < snd p) (sc_counts st)"
    using assms by (simp_all add: tally_ok_def)
  show ?thesis
  proof (cases "map_of (sc_counts st) c")
    case None
    then show ?thesis by (simp add: counter_get_in [OF dist] counter_get_def)
  next
    case (Some m)
    then have "(c, m) \<in> set (sc_counts st)" by (rule map_of_SomeD)
    then have "0 < m" using pos by (auto simp: list_all_iff)
    then show ?thesis using Some by (auto simp: counter_get_in [OF dist] counter_get_def)
  qed
qed

lemma tally_ok_add:
  assumes "tally_ok st" and "0 < n"
  shows "tally_ok (counter_add c n st)"
proof -
  let ?kvs = "sc_counts st" and ?v = "counter_get (sc_counts st) c + n"
  have dist: "distinct (map fst (AList.update c ?v ?kvs))"
    using assms(1) by (simp add: tally_ok_def distinct_update)
  have "0 < m" if "(d, m) \<in> set (AList.update c ?v ?kvs)" for d m
  proof -
    have "map_of (AList.update c ?v ?kvs) d = Some m" using that counter_get_in [OF dist] by blast
    then have "m = ?v \<or> map_of ?kvs d = Some m" by (simp add: update_conv' split: if_splits)
    then show ?thesis
      using assms tally_ok_get [OF assms(1), of c]
      by (auto simp: tally_ok_def list_all_iff dest!: map_of_SomeD)
  qed
  then show ?thesis using dist by (auto simp: counter_add_def tally_ok_def list_all_iff)
qed

lemma count_tally:
  assumes "tally_ok st"
  shows "count (tally st) c = nat (counter_get (sc_counts st) c)"
proof -
  have "count (sum_list (map (\<lambda>(c, n). replicate_mset (nat n) c) kvs)) c = nat (counter_get kvs c)"
    if "distinct (map fst kvs)" for kvs
    using that
  proof (induction kvs)
    case (Cons p kvs)
    obtain d n where p: "p = (d, n)" by fastforce
    have "map_of kvs d = None" using Cons.prems p by (simp add: map_of_eq_None_iff)
    then have "counter_get kvs d = 0" by (simp add: counter_get_def)
    then show ?case using Cons p by (auto simp: counter_get_def)
  qed (simp add: counter_get_def)
  then show ?thesis using assms by (simp add: tally_def tally_ok_def)
qed

lemma tally_add:
  assumes "tally_ok st" and "0 < n"
  shows "tally (counter_add c n st) = tally st + replicate_mset (nat n) c"
proof (rule multiset_eqI)
  fix d
  show "count (tally (counter_add c n st)) d = count (tally st + replicate_mset (nat n) c) d"
    using count_tally [OF tally_ok_add [OF assms, of c], of d] count_tally [OF assms(1), of d]
      tally_ok_get [OF assms(1), of d] assms(2)
    by (auto simp: counter_add_def counter_get_update nat_add_distrib)
qed

lemma tally_init [simp]: "tally_ok skip_counts_init" "tally skip_counts_init = {#}"
  by (simp_all add: tally_ok_def tally_def skip_counts_init_def)

text \<open>Two tallies of the same skips are listed, and so reported, the same.\<close>

lemma skip_iter_unique:
  assumes "tally_ok st" and "tally_ok st'" and "tally st = tally st'"
  shows "skip_iter st = skip_iter st'"
proof -
  let ?key = "\<lambda>p :: capability \<times> int. cap_value (fst p)"
  have "counter_get (sc_counts st) c = counter_get (sc_counts st') c" for c
    using count_tally [OF assms(1), of c] count_tally [OF assms(2), of c] assms(3)
      tally_ok_get [OF assms(1), of c] tally_ok_get [OF assms(2), of c] by (simp add: nat_eq_iff)
  then have "set (sc_counts st) = set (sc_counts st')"
    by (auto simp: tally_ok_items [OF assms(1)] tally_ok_items [OF assms(2)])
  then have items: "set (skip_iter st) = set (sc_counts st')" "set (skip_iter st') = set (sc_counts st')"
    by (simp_all add: skip_iter_def)
  have dist: "distinct (map ?key (skip_iter s))" if "tally_ok s" for s
  proof -
    have "distinct (map fst (sc_counts s))" using that by (simp add: tally_ok_def)
    then have "distinct (map cap_value (map fst (sc_counts s)))"
      by (subst distinct_map) (use cap_value_inj in \<open>auto intro: inj_on_subset\<close>)
    moreover have "mset (map ?key (skip_iter s)) = mset (map cap_value (map fst (sc_counts s)))"
      by (simp add: skip_iter_def multiset.map_comp comp_def)
    ultimately show ?thesis by (metis mset_eq_imp_distinct_iff)
  qed
  have "inj_on ?key (set (skip_iter st) \<union> set (skip_iter st'))"
  proof (rule inj_onI)
    fix p q
    assume "p \<in> set (skip_iter st) \<union> set (skip_iter st')" "q \<in> set (skip_iter st) \<union> set (skip_iter st')"
      and "?key p = ?key q"
    then show "p = q"
      unfolding items by (cases p; cases q) (auto simp: tally_ok_items [OF assms(2)])
  qed
  then show ?thesis
    by (rule map_sorted_distinct_set_unique)
      (use dist assms items in \<open>simp_all add: skip_iter_def del: set_sort\<close>)
qed

subsection \<open>Merging tallies\<close>

text \<open>What the controller does with the mapping a worker sent it.\<close>

definition skip_merge :: "skip_counts \<Rightarrow> skip_counts \<Rightarrow> skip_counts" where
  "skip_merge st w = snd (add_mapping (as_mapping w) st)"

lemma add_mapping_items:
  "add_mapping (map (\<lambda>(c, n). (cap_value c, n)) items) st
     = (Inr (), fold (\<lambda>(c, n). counter_add c n) items st)"
  by (induction items arbitrary: st) auto

lemma add_mapping_total: "fst (add_mapping (as_mapping w) st) = Inr ()"
  by (simp add: as_mapping_def add_mapping_items)

lemma fold_counter_add:
  assumes "tally_ok st" and "list_all (\<lambda>p. 0 < snd p) items"
  shows "tally_ok (fold (\<lambda>(c, n). counter_add c n) items st)
    \<and> tally (fold (\<lambda>(c, n). counter_add c n) items st)
        = tally st + sum_list (map (\<lambda>(c, n). replicate_mset (nat n) c) items)"
  using assms
proof (induction items arbitrary: st)
  case (Cons p items)
  obtain c n where p: "p = (c, n)" by fastforce
  have n: "0 < n" using Cons.prems(2) p by simp
  show ?case
    using Cons.IH [OF tally_ok_add [OF Cons.prems(1) n, of c]] Cons.prems(2)
      tally_add [OF Cons.prems(1) n, of c]
    by (simp add: p union_assoc)
qed simp

lemma sum_list_mset:
  fixes f :: "'a \<Rightarrow> 'b :: comm_monoid_add"
  shows "sum_list (map f xs) = \<Sum>\<^sub># (image_mset f (mset xs))"
  by (induction xs) simp_all

lemma skip_merge_tally:
  assumes "tally_ok st" and "tally_ok w"
  shows "tally_ok (skip_merge st w) \<and> tally (skip_merge st w) = tally st + tally w"
proof -
  have "list_all (\<lambda>p. 0 < snd p) (skip_iter w)"
    using assms(2) by (simp add: tally_ok_def skip_iter_def list_all_iff)
  from fold_counter_add [OF assms(1) this] show ?thesis
    by (simp add: skip_merge_def as_mapping_def add_mapping_items tally_def skip_iter_def sum_list_mset)
qed

lemma skip_record_tally:
  assumes "tally_ok st"
  shows "tally_ok (skip_record c st) \<and> tally (skip_record c st) = add_mset c (tally st)"
  using tally_ok_add [OF assms, of 1 c] tally_add [OF assms, of 1 c]
  by (simp add: skip_record_def)

text \<open>
  The interface: one tally per process, merged into the controller's, holds what was recorded
  anywhere.
\<close>

locale skip_tally =
  fixes start :: 's and note_skip :: "'c \<Rightarrow> 's \<Rightarrow> 's" and merge :: "'s \<Rightarrow> 's \<Rightarrow> 's"
    and held :: "'s \<Rightarrow> 'c multiset" and good :: "'s \<Rightarrow> bool"
  assumes start_held: "good start \<and> held start = {#}"
    and note_held: "good s \<Longrightarrow> good (note_skip c s) \<and> held (note_skip c s) = add_mset c (held s)"
    and merge_held: "good s \<Longrightarrow> good t \<Longrightarrow> good (merge s t) \<and> held (merge s t) = held s + held t"
begin

lemma session_held: "good s \<Longrightarrow> good (fold note_skip cs s) \<and> held (fold note_skip cs s) = held s + mset cs"
  by (induction cs arbitrary: s) (simp_all add: note_held)

lemma merged_held:
  "good s \<Longrightarrow> good (fold (\<lambda>cs t. merge t (fold note_skip cs start)) sessions s)
     \<and> held (fold (\<lambda>cs t. merge t (fold note_skip cs start)) sessions s) = held s + mset (concat sessions)"
  by (induction sessions arbitrary: s)
    (simp_all add: merge_held session_held start_held union_assoc)

end

interpretation skips: skip_tally skip_counts_init skip_record skip_merge tally tally_ok
  by unfold_locales (simp_all add: skip_record_tally skip_merge_tally)

subsection \<open>The check that the node tests ran\<close>

text \<open>
  One \<open>testcase\<close> of a JUnit report: its \<open>name\<close> attribute, and the \<open>message\<close> attribute of its
  \<open>skipped\<close> child where it has one. The XML parser is the argument that turns a report's text
  into these.
\<close>

record testcase =
  tc_name :: "string option"
  tc_skipped :: "string option option"

definition attr_or_empty :: "string option \<Rightarrow> string" where
  "attr_or_empty a = (case a of None \<Rightarrow> [] | Some v \<Rightarrow> v)"

definition capability_messages :: "string set" where
  "capability_messages =
     set (List.map_filter
       (\<lambda>c. case fst (require c {} skip_counts_init) of
              Inl (MissingCapabilityError m) \<Rightarrow> Some m | _ \<Rightarrow> None) all_capabilities)"

definition unreached :: "testcase list \<Rightarrow> nat \<times> (string \<times> string) list" where
  "unreached cases =
     (length cases,
      List.map_filter
        (\<lambda>tc. case tc_skipped tc of
                None \<Rightarrow> None
              | Some message \<Rightarrow>
                  if attr_or_empty message \<notin> capability_messages
                  then Some (attr_or_empty (tc_name tc), attr_or_empty message) else None) cases)"

text \<open>The exit code of the script, given its arguments after the program's name.\<close>

definition node_ran_main :: "(string \<Rightarrow> testcase list) \<Rightarrow> string list \<Rightarrow> nat" where
  "node_ran_main parse args =
     (case args of
        [path] \<Rightarrow> (case unreached (parse path) of
                     (found, skips) \<Rightarrow> if found = 0 \<or> skips \<noteq> [] then 1 else 0)
      | _ \<Rightarrow> 2)"

lemma require_message:
  "fst (require c {} st) = Inl (MissingCapabilityError (''node does not declare '' @ cap_value c))"
  by (simp add: require_def)

lemma capability_messages_iff:
  "m \<in> capability_messages \<longleftrightarrow> (\<exists>c. m = ''node does not declare '' @ cap_value c)"
  unfolding capability_messages_def List.map_filter_def require_message by (auto simp: image_iff)

text \<open>
  The order in which the skips of a session were recorded does not show in its report.
\<close>

lemma skip_report_order:
  assumes "mset cs = mset ds"
  shows "skip_report (fold skip_record cs skip_counts_init) = skip_report (fold skip_record ds skip_counts_init)"
proof -
  have "skip_iter (fold skip_record cs skip_counts_init) = skip_iter (fold skip_record ds skip_counts_init)"
    by (rule skip_iter_unique) (use assms in \<open>simp_all add: skips.session_held\<close>)
  then show ?thesis by (simp add: skip_report_def)
qed

subsection \<open>Properties\<close>

text \<open>
  Skips counted in separate processes and merged by the controller give the report one
  process would have given for all of them, however the tests were distributed among the
  workers; and merging never raises.
\<close>

lemma split_sessions_report:
  "skip_report (fold (\<lambda>cs st. skip_merge st (fold skip_record cs skip_counts_init)) sessions skip_counts_init)
     = skip_report (fold skip_record (concat sessions) skip_counts_init)
   \<and> fst (add_mapping (as_mapping w) st) = Inr ()"
proof
  let ?merged = "fold (\<lambda>cs st. skip_merge st (fold skip_record cs skip_counts_init)) sessions skip_counts_init"
  let ?alone = "fold skip_record (concat sessions) skip_counts_init"
  have "tally_ok ?merged" "tally_ok ?alone" "tally ?merged = tally ?alone"
    using skips.merged_held [of skip_counts_init sessions]
      skips.session_held [of skip_counts_init "concat sessions"] by simp_all
  then have "skip_iter ?merged = skip_iter ?alone" by (rule skip_iter_unique)
  then show "skip_report ?merged = skip_report ?alone" by (simp add: skip_report_def)
qed (rule add_mapping_total)


end
