(* ===== verification/Sessions.thy ===== *)
theory Sessions
  imports Prelude
begin

section \<open>One RPC session per thread\<close>

text \<open>
  \<open>_ThreadSessions\<close> of \<open>node.py\<close> (with the \<open>_ThreadEnd\<close> whose release is a thread's end), as
  the interleaving of the threads that call through it, the finalizers that retire a dead
  thread's session and the threads that close the whole transport. Each event is one step no
  other thread can observe half of: a statement of \<open>__call__\<close>, \<open>_retire\<close> or \<open>close\<close>, or the
  body of a \<open>with self._lock\<close> block. Sessions and threads are numbers; what a
  \<open>SessionTransport\<close> is relied on for is that an exchange may leave its connection open, that
  \<open>close\<close> closes it, and that the factory builds a new one each time.
\<close>

subsection \<open>State and events\<close>

text \<open>Where a thread is: in \<open>__call__\<close>, between calls, or in the finalizer of its end.\<close>

datatype thread_pc =
    Between
  | Built nat
  | Kept nat
  | Listed nat
  | Calling nat
  | Ending nat
  | Retiring nat
  | Ended
  | Crashed

record sess_state =
  ss_sessions :: "nat list"
  ss_local :: "nat \<Rightarrow> nat option"
  ss_pc :: "nat \<Rightarrow> thread_pc"
  ss_open :: "nat set"
  ss_built :: nat
  ss_closing :: "nat \<Rightarrow> nat list option"

definition sess_init :: sess_state where
  "sess_init = \<lparr>ss_sessions = [], ss_local = (\<lambda>_. None), ss_pc = (\<lambda>_. Between), ss_open = {},
                ss_built = 0, ss_closing = (\<lambda>_. None)\<rparr>"

datatype sess_event =
    CallStart nat
  | FactoryRaises nat
  | SetLocal nat
  | Append nat
  | Arm nat
  | Exchange nat bool
  | ThreadEnd nat
  | RetireRemove nat
  | RetireClose nat
  | CloseCopy nat
  | CloseOne nat
  | CloseReturn nat

definition set_pc :: "nat \<Rightarrow> thread_pc \<Rightarrow> sess_state \<Rightarrow> sess_state" where
  "set_pc t p st = st\<lparr>ss_pc := (ss_pc st)(t := p)\<rparr>"

text \<open>
  \<open>__call__\<close> is \<open>CallStart\<close> (the lookup, and the factory where there is no session yet),
  \<open>SetLocal\<close>, \<open>Append\<close>, \<open>Arm\<close> (the finalizer) and \<open>Exchange\<close>, whose flag says whether the
  connection is open afterwards. \<open>_retire\<close> is \<open>RetireRemove\<close>, whose \<open>list.remove\<close> raises
  where the session is not listed, then \<open>RetireClose\<close>. \<open>None\<close> is an event that cannot happen.
\<close>

fun sess_step :: "sess_event \<Rightarrow> sess_state \<Rightarrow> sess_state option" where
  "sess_step (CallStart t) st =
     (if ss_pc st t \<noteq> Between then None
      else case ss_local st t of
          Some s \<Rightarrow> Some (set_pc t (Calling s) st)
        | None \<Rightarrow> Some (set_pc t (Built (ss_built st)) (st\<lparr>ss_built := Suc (ss_built st)\<rparr>)))"
| "sess_step (FactoryRaises t) st =
     (if ss_pc st t = Between \<and> ss_local st t = None then Some st else None)"
| "sess_step (SetLocal t) st =
     (case ss_pc st t of
        Built s \<Rightarrow> Some (set_pc t (Kept s) (st\<lparr>ss_local := (ss_local st)(t := Some s)\<rparr>))
      | _ \<Rightarrow> None)"
| "sess_step (Append t) st =
     (case ss_pc st t of
        Kept s \<Rightarrow> Some (set_pc t (Listed s) (st\<lparr>ss_sessions := ss_sessions st @ [s]\<rparr>))
      | _ \<Rightarrow> None)"
| "sess_step (Arm t) st =
     (case ss_pc st t of Listed s \<Rightarrow> Some (set_pc t (Calling s) st) | _ \<Rightarrow> None)"
| "sess_step (Exchange t keep) st =
     (case ss_pc st t of
        Calling s \<Rightarrow> Some (set_pc t Between
          (st\<lparr>ss_open := if keep then insert s (ss_open st) else ss_open st - {s}\<rparr>))
      | _ \<Rightarrow> None)"
| "sess_step (ThreadEnd t) st =
     (if ss_pc st t \<noteq> Between then None
      else case ss_local st t of
          None \<Rightarrow> Some (set_pc t Ended st)
        | Some s \<Rightarrow> Some (set_pc t (Ending s) (st\<lparr>ss_local := (ss_local st)(t := None)\<rparr>)))"
| "sess_step (RetireRemove t) st =
     (case ss_pc st t of
        Ending s \<Rightarrow>
          if s \<in> set (ss_sessions st)
          then Some (set_pc t (Retiring s) (st\<lparr>ss_sessions := remove1 s (ss_sessions st)\<rparr>))
          else Some (set_pc t Crashed st)
      | _ \<Rightarrow> None)"
| "sess_step (RetireClose t) st =
     (case ss_pc st t of
        Retiring s \<Rightarrow> Some (set_pc t Ended (st\<lparr>ss_open := ss_open st - {s}\<rparr>))
      | _ \<Rightarrow> None)"
| "sess_step (CloseCopy c) st =
     (if ss_closing st c = None
      then Some (st\<lparr>ss_closing := (ss_closing st)(c := Some (ss_sessions st))\<rparr>) else None)"
| "sess_step (CloseOne c) st =
     (case ss_closing st c of
        Some (s # rest) \<Rightarrow>
          Some (st\<lparr>ss_open := ss_open st - {s}, ss_closing := (ss_closing st)(c := Some rest)\<rparr>)
      | _ \<Rightarrow> None)"
| "sess_step (CloseReturn c) st =
     (if ss_closing st c = Some [] then Some (st\<lparr>ss_closing := (ss_closing st)(c := None)\<rparr>) else None)"

text \<open>A run is any sequence of possible events; the states it reaches.\<close>

fun sess_run :: "sess_event list \<Rightarrow> sess_state \<Rightarrow> sess_state option" where
  "sess_run [] st = Some st"
| "sess_run (ev # evs) st = (case sess_step ev st of None \<Rightarrow> None | Some st' \<Rightarrow> sess_run evs st')"

inductive sess_reach :: "sess_state \<Rightarrow> bool" where
  init: "sess_reach sess_init"
| step: "sess_reach st \<Longrightarrow> sess_step ev st = Some st' \<Longrightarrow> sess_reach st'"

inductive_cases sess_reachE: "sess_reach st"

lemma sess_run_reach: "sess_run evs st = Some st' \<Longrightarrow> sess_reach st \<Longrightarrow> sess_reach st'"
  by (induction evs arbitrary: st) (auto split: option.splits intro: sess_reach.step)

lemma sess_run_append:
  "sess_run (evs @ evs') st = (case sess_run evs st of None \<Rightarrow> None | Some st' \<Rightarrow> sess_run evs' st')"
  by (induction evs arbitrary: st) (auto split: option.split)

subsection \<open>The invariant\<close>

text \<open>
  The session a thread holds, wherever it is; whether that session is listed; and what its
  program counter says of its \<open>threading.local\<close>.
\<close>

fun own :: "thread_pc \<Rightarrow> nat option \<Rightarrow> nat option" where
  "own Between l = l"
| "own (Built s) l = Some s"
| "own (Kept s) l = Some s"
| "own (Listed s) l = Some s"
| "own (Calling s) l = Some s"
| "own (Ending s) l = Some s"
| "own (Retiring s) l = Some s"
| "own Ended l = None"
| "own Crashed l = None"

fun listed :: "thread_pc \<Rightarrow> nat option \<Rightarrow> bool" where
  "listed Between l = (l \<noteq> None)"
| "listed (Listed s) l = True"
| "listed (Calling s) l = True"
| "listed (Ending s) l = True"
| "listed _ l = False"

fun local_ok :: "thread_pc \<Rightarrow> nat option \<Rightarrow> bool" where
  "local_ok Between l = True"
| "local_ok (Built s) l = (l = None)"
| "local_ok (Kept s) l = (l = Some s)"
| "local_ok (Listed s) l = (l = Some s)"
| "local_ok (Calling s) l = (l = Some s)"
| "local_ok (Ending s) l = (l = None)"
| "local_ok (Retiring s) l = (l = None)"
| "local_ok Ended l = (l = None)"
| "local_ok Crashed l = False"

definition locals_ok :: "sess_state \<Rightarrow> bool" where
  "locals_ok st \<longleftrightarrow> (\<forall>t. local_ok (ss_pc st t) (ss_local st t)
     \<and> (\<forall>s. own (ss_pc st t) (ss_local st t) = Some s \<longrightarrow> s < ss_built st))"

definition owners_ok :: "sess_state \<Rightarrow> bool" where
  "owners_ok st \<longleftrightarrow> (\<forall>t u s. own (ss_pc st t) (ss_local st t) = Some s
     \<longrightarrow> own (ss_pc st u) (ss_local st u) = Some s \<longrightarrow> t = u)"

definition lists_ok :: "sess_state \<Rightarrow> bool" where
  "lists_ok st \<longleftrightarrow> distinct (ss_sessions st) \<and>
     (\<forall>s. s \<in> set (ss_sessions st) \<longleftrightarrow>
        (\<exists>t. listed (ss_pc st t) (ss_local st t) \<and> own (ss_pc st t) (ss_local st t) = Some s))"

definition opens_ok :: "sess_state \<Rightarrow> bool" where
  "opens_ok st \<longleftrightarrow> (\<forall>s \<in> ss_open st. s \<in> set (ss_sessions st) \<or> (\<exists>t. ss_pc st t = Retiring s))"

definition sess_inv :: "sess_state \<Rightarrow> bool" where
  "sess_inv st \<longleftrightarrow> locals_ok st \<and> owners_ok st \<and> lists_ok st \<and> opens_ok st"

text \<open>What changes when one thread moves.\<close>

lemma locals_okD:
  "locals_ok st \<Longrightarrow> local_ok (ss_pc st t) (ss_local st t)"
  "locals_ok st \<Longrightarrow> own (ss_pc st t) (ss_local st t) = Some s \<Longrightarrow> s < ss_built st"
  by (auto simp: locals_ok_def)

lemma locals_move:
  assumes "locals_ok st" and "ss_pc st' = (ss_pc st)(t := p)" and "ss_local st' = (ss_local st)(t := l)"
    and "local_ok p l" and "ss_built st \<le> ss_built st'" and "\<And>s. own p l = Some s \<Longrightarrow> s < ss_built st'"
  shows "locals_ok st'"
  unfolding locals_ok_def
proof (intro allI conjI impI)
  fix u s
  show "local_ok (ss_pc st' u) (ss_local st' u)"
    using assms locals_okD(1) [OF assms(1), of u] by (cases "u = t") simp_all
  assume "own (ss_pc st' u) (ss_local st' u) = Some s"
  then show "s < ss_built st'"
    using assms locals_okD(2) [OF assms(1), of u s] by (cases "u = t") auto
qed

lemma owners_move:
  assumes "owners_ok st" and "ss_pc st' = (ss_pc st)(t := p)" and "ss_local st' = (ss_local st)(t := l)"
    and "\<And>s u. own p l = Some s \<Longrightarrow> own (ss_pc st u) (ss_local st u) = Some s \<Longrightarrow> u = t"
  shows "owners_ok st'"
  unfolding owners_ok_def
proof (intro allI impI)
  fix u v s
  assume u: "own (ss_pc st' u) (ss_local st' u) = Some s"
    and v: "own (ss_pc st' v) (ss_local st' v) = Some s"
  consider "u = t" "v = t" | "u = t" "v \<noteq> t" | "u \<noteq> t" "v = t" | "u \<noteq> t" "v \<noteq> t" by blast
  then show "u = v"
  proof cases
    case 2
    then show ?thesis using u v assms(4) [of s v] by (simp add: assms(2,3))
  next
    case 3
    then show ?thesis using u v assms(4) [of s u] by (simp add: assms(2,3))
  next
    case 4
    then show ?thesis using u v assms(1) by (auto simp: assms(2,3) owners_ok_def)
  qed simp
qed

lemma owned_listed:
  assumes "sess_inv st" and "own (ss_pc st t) (ss_local st t) = Some s"
  shows "s \<in> set (ss_sessions st) \<longleftrightarrow> listed (ss_pc st t) (ss_local st t)"
  using assms unfolding sess_inv_def lists_ok_def owners_ok_def by metis

lemma lists_move:
  assumes "sess_inv st" and "ss_pc st' = (ss_pc st)(t := p)" and "ss_local st' = (ss_local st)(t := l)"
    and "distinct (ss_sessions st')"
    and "\<And>s. s \<in> set (ss_sessions st') \<longleftrightarrow>
           s \<in> set (ss_sessions st) \<and> own (ss_pc st t) (ss_local st t) \<noteq> Some s
           \<or> listed p l \<and> own p l = Some s"
  shows "lists_ok st'"
proof -
  let ?holds = "\<lambda>st u s. listed (ss_pc st u) (ss_local st u) \<and> own (ss_pc st u) (ss_local st u) = Some s"
  have "s \<in> set (ss_sessions st') \<longleftrightarrow> (\<exists>u. ?holds st' u s)" for s
  proof -
    have "(\<exists>u. ?holds st' u s) \<longleftrightarrow> (\<exists>u. u \<noteq> t \<and> ?holds st u s) \<or> listed p l \<and> own p l = Some s"
      using assms(2,3) by auto
    moreover have "(\<exists>u. u \<noteq> t \<and> ?holds st u s) \<longleftrightarrow>
        s \<in> set (ss_sessions st) \<and> own (ss_pc st t) (ss_local st t) \<noteq> Some s"
      using assms(1) unfolding sess_inv_def lists_ok_def owners_ok_def by metis
    ultimately show ?thesis using assms(5) by simp
  qed
  then show ?thesis using assms(4) by (simp add: lists_ok_def)
qed

lemma inv_move:
  assumes inv: "sess_inv st"
    and pc: "ss_pc st' = (ss_pc st)(t := p)" and loc: "ss_local st' = (ss_local st)(t := l)"
    and ok: "local_ok p l" and built: "ss_built st \<le> ss_built st'"
    and own: "\<And>s. own p l = Some s \<Longrightarrow>
        s < ss_built st' \<and> (own (ss_pc st t) (ss_local st t) = Some s \<or> ss_built st \<le> s)"
    and dist: "distinct (ss_sessions st')"
    and lists: "\<And>s. s \<in> set (ss_sessions st') \<longleftrightarrow>
           s \<in> set (ss_sessions st) \<and> own (ss_pc st t) (ss_local st t) \<noteq> Some s
           \<or> listed p l \<and> own p l = Some s"
    and opens: "\<And>s. s \<in> ss_open st' \<Longrightarrow> s \<in> ss_open st \<or> listed p l \<and> own p l = Some s"
    and kept: "\<And>s. s \<in> ss_open st' \<Longrightarrow> own (ss_pc st t) (ss_local st t) = Some s
        \<Longrightarrow> listed p l \<and> own p l = Some s \<or> p = Retiring s"
  shows "sess_inv st'"
proof -
  have old: "locals_ok st" "owners_ok st" using inv by (simp_all add: sess_inv_def)
  have "locals_ok st'"
    by (rule locals_move [OF old(1) pc loc ok built]) (use own in blast)
  moreover have "owners_ok st'"
  proof (rule owners_move [OF old(2) pc loc])
    fix s u
    assume mine: "own p l = Some s" and other: "own (ss_pc st u) (ss_local st u) = Some s"
    have "s < ss_built st" using locals_okD(2) [OF old(1) other] .
    then have "own (ss_pc st t) (ss_local st t) = Some s" using own [OF mine] by simp
    then show "u = t" using old(2) other unfolding owners_ok_def by blast
  qed
  moreover have "lists_ok st'" by (rule lists_move [OF inv pc loc dist lists])
  moreover have "opens_ok st'"
    unfolding opens_ok_def
  proof
    fix s
    assume s: "s \<in> ss_open st'"
    have "p = Retiring s \<Longrightarrow> ss_pc st' t = Retiring s" by (simp add: pc)
    moreover have "s \<in> set (ss_sessions st) \<or> (\<exists>u. ss_pc st u = Retiring s)" if "s \<in> ss_open st"
      using inv that by (simp add: sess_inv_def opens_ok_def)
    moreover have "u \<noteq> t \<Longrightarrow> ss_pc st u = Retiring s \<Longrightarrow> ss_pc st' u = Retiring s" for u
      by (simp add: pc)
    moreover have "ss_pc st t = Retiring s \<Longrightarrow> own (ss_pc st t) (ss_local st t) = Some s" by simp
    ultimately show "s \<in> set (ss_sessions st') \<or> (\<exists>u. ss_pc st' u = Retiring s)"
      using opens [OF s] kept [OF s] lists [of s] by metis
  qed
  ultimately show ?thesis by (simp add: sess_inv_def)
qed

lemma inv_shrink:
  assumes "sess_inv st" and "ss_pc st' = ss_pc st" "ss_local st' = ss_local st"
    "ss_sessions st' = ss_sessions st" "ss_built st' = ss_built st" and "ss_open st' \<subseteq> ss_open st"
  shows "sess_inv st'"
  using assms by (auto simp: sess_inv_def locals_ok_def owners_ok_def lists_ok_def opens_ok_def)

lemma sess_inv_init: "sess_inv sess_init"
  by (simp add: sess_inv_def locals_ok_def owners_ok_def lists_ok_def opens_ok_def sess_init_def)

lemma inv_facts:
  assumes "sess_inv st"
  shows "local_ok (ss_pc st t) (ss_local st t)"
    and "own (ss_pc st t) (ss_local st t) = Some s \<Longrightarrow> s < ss_built st"
    and "distinct (ss_sessions st)"
  using assms by (auto simp: sess_inv_def locals_ok_def lists_ok_def)

lemma open_owned:
  assumes inv: "sess_inv st" and "s \<in> ss_open st" and mine: "own (ss_pc st t) (ss_local st t) = Some s"
  shows "listed (ss_pc st t) (ss_local st t) \<or> ss_pc st t = Retiring s"
proof (cases "s \<in> set (ss_sessions st)")
  case True
  then show ?thesis using owned_listed [OF inv mine] by simp
next
  case False
  then obtain u where u: "ss_pc st u = Retiring s"
    using assms by (auto simp: sess_inv_def opens_ok_def)
  then have "own (ss_pc st u) (ss_local st u) = Some s" by simp
  then have "u = t" using inv mine unfolding sess_inv_def owners_ok_def by blast
  then show ?thesis using u by simp
qed

text \<open>One lemma per operation: a call, a thread's end with its finalizer, a close.\<close>

lemma inv_call_start:
  assumes inv: "sess_inv st" and ev: "sess_step (CallStart t) st = Some st'"
  shows "sess_inv st'"
proof (cases "ss_local st t")
  case (Some s)
  show ?thesis
    by (rule inv_move [OF inv, where t = t and p = "Calling s" and l = "Some s"])
      (use ev Some inv_facts [OF inv] inv_facts(2) [OF inv, of t] owned_listed [OF inv, of t]
          open_owned [OF inv, of _ t] in
        \<open>auto simp: set_pc_def fun_upd_idem split: if_splits\<close>)
next
  case None
  show ?thesis
    by (rule inv_move [OF inv, where t = t and p = "Built (ss_built st)" and l = None])
      (use ev None inv_facts [OF inv] inv_facts(2) [OF inv, of t] owned_listed [OF inv, of t]
          open_owned [OF inv, of _ t] in
        \<open>auto simp: set_pc_def fun_upd_idem split: if_splits\<close>)
qed

lemma inv_call:
  assumes inv: "sess_inv st"
  shows "sess_step (SetLocal t) st = Some st' \<Longrightarrow> sess_inv st'"
    and "sess_step (Append t) st = Some st' \<Longrightarrow> sess_inv st'"
    and "sess_step (Arm t) st = Some st' \<Longrightarrow> sess_inv st'"
    and "sess_step (Exchange t keep) st = Some st' \<Longrightarrow> sess_inv st'"
proof -
  note facts = inv_facts [OF inv] inv_facts(2) [OF inv, of t] owned_listed [OF inv, of t]
          open_owned [OF inv, of _ t] inv_facts(1) [OF inv, of t]
  show "sess_inv st'" if ev: "sess_step (SetLocal t) st = Some st'"
  proof -
    from ev obtain s where pc: "ss_pc st t = Built s" by (auto split: thread_pc.splits)
    show ?thesis
      by (rule inv_move [OF inv, where t = t and p = "Kept s" and l = "Some s"])
        (use ev pc facts open_owned [OF inv, of s t] in \<open>auto simp: set_pc_def\<close>)
  qed
  show "sess_inv st'" if ev: "sess_step (Append t) st = Some st'"
  proof -
    from ev obtain s where pc: "ss_pc st t = Kept s" by (auto split: thread_pc.splits)
    show ?thesis
      by (rule inv_move [OF inv, where t = t and p = "Listed s" and l = "Some s"])
        (use ev pc facts in \<open>auto simp: set_pc_def fun_upd_idem\<close>)
  qed
  show "sess_inv st'" if ev: "sess_step (Arm t) st = Some st'"
  proof -
    from ev obtain s where pc: "ss_pc st t = Listed s" by (auto split: thread_pc.splits)
    show ?thesis
      by (rule inv_move [OF inv, where t = t and p = "Calling s" and l = "Some s"])
        (use ev pc facts in \<open>auto simp: set_pc_def fun_upd_idem\<close>)
  qed
  show "sess_inv st'" if ev: "sess_step (Exchange t keep) st = Some st'"
  proof -
    from ev obtain s where pc: "ss_pc st t = Calling s" by (auto split: thread_pc.splits)
    show ?thesis
      by (rule inv_move [OF inv, where t = t and p = Between and l = "Some s"])
        (use ev pc facts in \<open>auto simp: set_pc_def fun_upd_idem split: if_splits\<close>)
  qed
qed

lemma inv_thread_end:
  assumes inv: "sess_inv st"
  shows "sess_step (ThreadEnd t) st = Some st' \<Longrightarrow> sess_inv st'"
    and "sess_step (RetireRemove t) st = Some st' \<Longrightarrow> sess_inv st'"
    and "sess_step (RetireClose t) st = Some st' \<Longrightarrow> sess_inv st'"
proof -
  note facts = inv_facts [OF inv] inv_facts(2) [OF inv, of t] owned_listed [OF inv, of t]
          open_owned [OF inv, of _ t] inv_facts(1) [OF inv, of t]
  show "sess_inv st'" if ev: "sess_step (ThreadEnd t) st = Some st'"
  proof (cases "ss_local st t")
    case None
    show ?thesis
      by (rule inv_move [OF inv, where t = t and p = Ended and l = None])
        (use ev None facts in \<open>auto simp: set_pc_def fun_upd_idem split: if_splits\<close>)
  next
    case (Some s)
    show ?thesis
      by (rule inv_move [OF inv, where t = t and p = "Ending s" and l = None])
        (use ev Some facts in \<open>auto simp: set_pc_def fun_upd_idem split: if_splits\<close>)
  qed
  show "sess_inv st'" if ev: "sess_step (RetireRemove t) st = Some st'"
  proof -
    from ev obtain s where pc: "ss_pc st t = Ending s" by (auto split: thread_pc.splits)
    have "s \<in> set (ss_sessions st)" using facts pc by simp
    then show ?thesis
      by (intro inv_move [OF inv, where t = t and p = "Retiring s" and l = None])
        (use ev pc facts in \<open>auto simp: set_pc_def fun_upd_idem\<close>)
  qed
  show "sess_inv st'" if ev: "sess_step (RetireClose t) st = Some st'"
  proof -
    from ev obtain s where pc: "ss_pc st t = Retiring s" by (auto split: thread_pc.splits)
    show ?thesis
      by (rule inv_move [OF inv, where t = t and p = Ended and l = None])
        (use ev pc facts in \<open>auto simp: set_pc_def fun_upd_idem\<close>)
  qed
qed

lemma inv_close:
  assumes "sess_inv st"
  shows "sess_step (CloseCopy c) st = Some st' \<Longrightarrow> sess_inv st'"
    and "sess_step (CloseOne c) st = Some st' \<Longrightarrow> sess_inv st'"
    and "sess_step (CloseReturn c) st = Some st' \<Longrightarrow> sess_inv st'"
    and "sess_step (FactoryRaises t) st = Some st' \<Longrightarrow> sess_inv st'"
  by (rule inv_shrink [OF assms]; force split: if_splits option.splits list.splits)+

theorem sess_reach_inv: "sess_reach st \<Longrightarrow> sess_inv st"
proof (induction rule: sess_reach.induct)
  case (step st ev st')
  then show ?case
    by (cases ev) (auto simp del: sess_step.simps dest: inv_call_start inv_call inv_thread_end inv_close)
qed (rule sess_inv_init)

subsection \<open>Properties\<close>

lemma sess_run_reachI:
  assumes "\<not> Option.is_none (sess_run evs sess_init)"
  shows "sess_reach (the (sess_run evs sess_init))"
proof -
  from assms obtain st where "sess_run evs sess_init = Some st"
    by (cases "sess_run evs sess_init") auto
  then show ?thesis using sess_run_reach [OF _ sess_reach.init] by simp
qed

text \<open>
  Whatever the interleaving of calls, thread ends and closes, \<open>_retire\<close> finds the session
  it removes, so no finalizer ever raises; and no session is listed twice.
\<close>

lemma retire_never_raises:
  assumes "sess_reach st"
  shows "ss_pc st t \<noteq> Crashed \<and> distinct (ss_sessions st)
    \<and> (\<forall>st'. sess_step (RetireRemove t) st = Some st' \<longrightarrow>
         (\<exists>s. ss_pc st' t = Retiring s \<and> s \<notin> set (ss_sessions st')))"
proof (intro conjI allI impI)
  note inv = sess_reach_inv [OF assms]
  show "ss_pc st t \<noteq> Crashed" using inv_facts(1) [OF inv, of t] by auto
  show dist: "distinct (ss_sessions st)" by (rule inv_facts(3) [OF inv])
  fix st'
  assume ev: "sess_step (RetireRemove t) st = Some st'"
  then obtain s where pc: "ss_pc st t = Ending s" by (auto split: thread_pc.splits)
  then have "s \<in> set (ss_sessions st)" using owned_listed [OF inv, of t s] by simp
  then show "\<exists>s. ss_pc st' t = Retiring s \<and> s \<notin> set (ss_sessions st')"
    using ev pc dist by (auto simp: set_pc_def)
qed

text \<open>Two threads call; one ends while the transport is being closed.\<close>

definition busy_run :: "sess_event list" where
  "busy_run = [CallStart 0, CallStart 1, SetLocal 1, SetLocal 0, Append 0, Append 1, Arm 1,
     Exchange 1 True, Arm 0, Exchange 0 True, CloseCopy 0, ThreadEnd 1, CloseOne 0]"

lemma retire_never_raises_witness:
  "ss_pc (the (sess_run busy_run sess_init)) 1 = Ending 1
   \<and> ss_pc (the (sess_run busy_run sess_init)) 1 \<noteq> Crashed"
proof
  show "ss_pc (the (sess_run busy_run sess_init)) 1 = Ending 1" by code_simp
  have "\<not> Option.is_none (sess_run busy_run sess_init)" by code_simp
  from retire_never_raises [OF sess_run_reachI [OF this], of 1]
  show "ss_pc (the (sess_run busy_run sess_init)) 1 \<noteq> Crashed" by simp
qed

text \<open>
  C1: no connection outlives its thread: every open connection is held by exactly one
  thread, which either is alive with its session listed, so that \<open>close\<close> reaches it, or is at
  its end with the finalizer about to close it; with every thread ended, nothing is open and
  nothing is listed.
\<close>

theorem no_leaked_connection:
  assumes "sess_reach st"
  shows "(\<forall>s \<in> ss_open st. \<exists>!t. own (ss_pc st t) (ss_local st t) = Some s
           \<and> (listed (ss_pc st t) (ss_local st t) \<and> s \<in> set (ss_sessions st) \<or> ss_pc st t = Retiring s))
    \<and> ((\<forall>t. own (ss_pc st t) (ss_local st t) = None) \<longrightarrow> ss_open st = {} \<and> ss_sessions st = [])"
proof -
  note inv = sess_reach_inv [OF assms]
  have "\<exists>!t. own (ss_pc st t) (ss_local st t) = Some s
      \<and> (listed (ss_pc st t) (ss_local st t) \<and> s \<in> set (ss_sessions st) \<or> ss_pc st t = Retiring s)"
    if "s \<in> ss_open st" for s
  proof -
    have unique: "t = u" if "own (ss_pc st t) (ss_local st t) = Some s"
        "own (ss_pc st u) (ss_local st u) = Some s" for t u
      using inv that unfolding sess_inv_def owners_ok_def by blast
    have "s \<in> set (ss_sessions st) \<or> (\<exists>t. ss_pc st t = Retiring s)"
      using inv that by (simp add: sess_inv_def opens_ok_def)
    then obtain t where mine: "own (ss_pc st t) (ss_local st t) = Some s"
      using inv unfolding sess_inv_def lists_ok_def by (metis own.simps(7))
    then have "listed (ss_pc st t) (ss_local st t) \<and> s \<in> set (ss_sessions st) \<or> ss_pc st t = Retiring s"
      using open_owned [OF inv that mine] owned_listed [OF inv mine] by blast
    with mine show ?thesis using unique by blast
  qed
  moreover have "ss_open st = {} \<and> ss_sessions st = []"
    if none: "\<forall>t. own (ss_pc st t) (ss_local st t) = None"
  proof -
    have "set (ss_sessions st) = {}"
      using inv none by (auto simp: sess_inv_def lists_ok_def)
    moreover have "\<not> (\<exists>t. ss_pc st t = Retiring s)" for s
      using none by (metis option.distinct(1) own.simps(7))
    ultimately show ?thesis using inv by (auto simp: sess_inv_def opens_ok_def)
  qed
  ultimately show ?thesis by blast
qed

definition retiring_run :: "sess_event list" where
  "retiring_run = take 10 busy_run @ [ThreadEnd 1, RetireRemove 1]"

lemma no_leaked_connection_witness:
  "1 \<in> ss_open (the (sess_run retiring_run sess_init))
   \<and> (\<exists>!t. own (ss_pc (the (sess_run retiring_run sess_init)) t)
           (ss_local (the (sess_run retiring_run sess_init)) t) = Some 1
       \<and> (listed (ss_pc (the (sess_run retiring_run sess_init)) t)
             (ss_local (the (sess_run retiring_run sess_init)) t)
            \<and> 1 \<in> set (ss_sessions (the (sess_run retiring_run sess_init)))
          \<or> ss_pc (the (sess_run retiring_run sess_init)) t = Retiring 1))"
proof -
  have "\<not> Option.is_none (sess_run retiring_run sess_init)" by code_simp
  moreover have "1 \<in> ss_open (the (sess_run retiring_run sess_init))" by code_simp
  ultimately show ?thesis using no_leaked_connection [OF sess_run_reachI] by blast
qed

text \<open>What a \<open>close\<close> under way has still to close.\<close>

definition close_covers :: "nat \<Rightarrow> sess_state \<Rightarrow> bool" where
  "close_covers c st \<longleftrightarrow> (\<forall>s \<in> ss_open st.
     (case ss_closing st c of None \<Rightarrow> False | Some l \<Rightarrow> s \<in> set l) \<or> (\<exists>t. ss_pc st t = Retiring s))"

lemma close_covers_step:
  assumes "close_covers c st" and "sess_step ev st = Some st'" and "\<forall>t. ev \<noteq> Exchange t True"
  shows "close_covers c st'"
proof -
  have pcs: "\<exists>t. ss_pc st' t = Retiring s" if "s \<in> ss_open st'" "\<exists>t. ss_pc st t = Retiring s" for s
  proof -
    from that(2) obtain t where t: "ss_pc st t = Retiring s" by blast
    have "ss_pc st' t = Retiring s"
      using assms(2) t that(1)
      by (cases ev) (auto simp: set_pc_def split: if_splits option.splits thread_pc.splits list.splits)
    then show ?thesis by blast
  qed
  have open_less: "s \<in> ss_open st" if "s \<in> ss_open st'" for s
    using assms(2,3) that
    by (cases ev) (auto simp: set_pc_def split: if_splits option.splits thread_pc.splits list.splits)
  have lists: "s \<in> set (the (ss_closing st' c)) \<and> ss_closing st' c \<noteq> None"
    if "s \<in> ss_open st'" "ss_closing st c = Some l" "s \<in> set l" for s l
    using assms(2) that
    by (cases ev) (auto simp: set_pc_def split: if_splits option.splits thread_pc.splits list.splits)
  show ?thesis
    unfolding close_covers_def
  proof
    fix s
    assume s: "s \<in> ss_open st'"
    from open_less [OF this] assms(1)
    have "(\<exists>l. ss_closing st c = Some l \<and> s \<in> set l) \<or> (\<exists>t. ss_pc st t = Retiring s)"
      by (auto simp: close_covers_def split: option.splits)
    then show "(case ss_closing st' c of None \<Rightarrow> False | Some l \<Rightarrow> s \<in> set l) \<or> (\<exists>t. ss_pc st' t = Retiring s)"
      using lists [OF s] pcs [OF s] by (cases "ss_closing st' c") auto
  qed
qed

lemma close_covers_run:
  assumes "close_covers c st" and "sess_run evs st = Some st'" and "\<forall>t. Exchange t True \<notin> set evs"
  shows "close_covers c st'"
  using assms
proof (induction evs arbitrary: st)
  case (Cons ev evs)
  then obtain st1 where "sess_step ev st = Some st1" "sess_run evs st1 = Some st'"
    by (auto split: option.splits)
  with Cons show ?case using close_covers_step [of c st ev st1] by (metis list.set_intros)
qed simp

text \<open>
  \<open>close\<close> closes every connection: if no exchange opens one while it runs, then when it
  returns, whatever else the other threads did meanwhile, nothing is open but what a
  finalizer is about to close.
\<close>

lemma close_closes_all:
  assumes "sess_reach st" and "sess_step (CloseCopy c) st = Some st1"
    and "sess_run evs st1 = Some st2" and "\<forall>t. Exchange t True \<notin> set evs"
    and "sess_step (CloseReturn c) st2 = Some st3" and "s \<in> ss_open st3"
  shows "\<exists>t. ss_pc st3 t = Retiring s"
proof -
  have "opens_ok st" using sess_reach_inv [OF assms(1)] by (simp add: sess_inv_def)
  then have "close_covers c st1"
    using assms(2) by (auto simp: opens_ok_def close_covers_def split: if_splits)
  from close_covers_run [OF this assms(3,4)] have "close_covers c st2" .
  from close_covers_step [OF this assms(5)] have "close_covers c st3" by simp
  moreover have "ss_closing st3 c = None" using assms(5) by (auto split: if_splits)
  ultimately show ?thesis using assms(6) by (simp add: close_covers_def)
qed

lemma close_closes_all_witness:
  "\<exists>t. ss_pc (the (sess_step (CloseReturn 0) (the (sess_run [CloseOne 0] (the (sess_step (CloseCopy 0)
      (the (sess_run (take 10 busy_run @ [ThreadEnd 1, RetireRemove 1]) sess_init)))))))) t = Retiring 1"
proof -
  let ?st = "the (sess_run (take 10 busy_run @ [ThreadEnd 1, RetireRemove 1]) sess_init)"
  let ?st1 = "the (sess_step (CloseCopy 0) ?st)"
  let ?st2 = "the (sess_run [CloseOne 0] ?st1)"
  let ?st3 = "the (sess_step (CloseReturn 0) ?st2)"
  have reach: "sess_reach ?st" by (rule sess_run_reachI) code_simp
  have some: "\<not> Option.is_none (sess_step (CloseCopy 0) ?st)" "\<not> Option.is_none (sess_run [CloseOne 0] ?st1)"
    "\<not> Option.is_none (sess_step (CloseReturn 0) ?st2)" by code_simp+
  have "1 \<in> ss_open ?st3" by code_simp
  then show ?thesis
    using some by (intro close_closes_all [OF reach, of 0 ?st1 "[CloseOne 0]" ?st2 ?st3])
      (auto simp: Option.is_none_def simp del: sess_step.simps sess_run.simps)
qed

end
