(* ===== verification/Lifecycle.thy ===== *)
theory Lifecycle
  imports Waiting Options
begin

section \<open>How a node starts, stops and restarts\<close>

text \<open>
  \<open>_wait_for_rpc\<close> and the process side of \<open>NodeAdapter\<close> in \<open>node.py\<close>: \<open>__init__\<close>, \<open>start\<close>,
  \<open>_start\<close>, \<open>stop\<close>, \<open>_terminate\<close>, \<open>wait_until_stopped\<close>, \<open>restart\<close>, and the calls that are
  one RPC each. The operating system's processes are a table in the world: \<open>subprocess\<close> keeps
  a process's exit code once it has seen it, \<open>kill\<close> marks one that has not exited, and \<open>wait\<close>
  either sees the exit or raises after at least its timeout. When a process exits, what an RPC
  answers and how long anything takes is the oracle's choice. The texts of the errors (stderr,
  log, ignored failures) are left out; \<open>_command\<close> is the argv it answers.
\<close>

subsection \<open>Processes\<close>

datatype proc_status = Absent | Alive | Killed | Exited int

record 'x host =
  hw_procs :: "nat \<Rightarrow> proc_status"
  hw_next :: nat
  hw_sessions :: bool
  hw_rest :: 'x

record 'x fate =
  or_prepare :: "'x \<Rightarrow> unit result \<times> rat \<times> 'x"
  or_spawn :: "string list \<Rightarrow> 'x \<Rightarrow> unit result \<times> rat \<times> 'x"
  or_client :: "'x \<Rightarrow> unit result \<times> rat \<times> 'x"
  or_exits :: "nat \<Rightarrow> rat \<Rightarrow> 'x \<Rightarrow> int option \<times> rat \<times> 'x"
  or_rpc :: "nat \<Rightarrow> string \<Rightarrow> json list \<Rightarrow> 'x \<Rightarrow> json result \<times> rat \<times> 'x"
  or_sleep :: "rat \<Rightarrow> 'x \<Rightarrow> rat \<times> 'x"

definition on_rest ::
  "('x \<Rightarrow> 'a result \<times> rat \<times> 'x) \<Rightarrow> 'x host \<Rightarrow> 'a result \<times> rat \<times> 'x host" where
  "on_rest f h = (case f (hw_rest h) of (r, d, x) \<Rightarrow> (r, d, h\<lparr>hw_rest := x\<rparr>))"

text \<open>An RPC may leave the calling thread's connection open.\<close>

definition host_outside :: "'x fate \<Rightarrow> 'x host outside" where
  "host_outside orc =
     \<lparr>o_sleep = (\<lambda>d h. case or_sleep orc d (hw_rest h) of (late, x) \<Rightarrow> (late, h\<lparr>hw_rest := x\<rparr>)),
      o_rpc = (\<lambda>node method params h.
        case on_rest (or_rpc orc node method params) h of (r, d, h') \<Rightarrow> (r, d, h'\<lparr>hw_sessions := True\<rparr>))\<rparr>"

definition proc_spawn :: "'x fate \<Rightarrow> string list \<Rightarrow> 'x host \<Rightarrow> nat result \<times> rat \<times> 'x host" where
  "proc_spawn orc argv h =
     (case on_rest (or_spawn orc argv) h of
        (Inl e, d, h') \<Rightarrow> (Inl e, d, h')
      | (Inr _, d, h') \<Rightarrow>
          (Inr (hw_next h'), d,
           h'\<lparr>hw_procs := (hw_procs h')(hw_next h' := Alive), hw_next := Suc (hw_next h')\<rparr>))"

definition proc_poll :: "'x fate \<Rightarrow> nat \<Rightarrow> 'x host \<Rightarrow> int option result \<times> rat \<times> 'x host" where
  "proc_poll orc pid h =
     (case hw_procs h pid of
        Exited c \<Rightarrow> (Inr (Some c), 0, h)
      | _ \<Rightarrow> (case or_exits orc pid 0 (hw_rest h) of
                (None, d, x) \<Rightarrow> (Inr None, d, h\<lparr>hw_rest := x\<rparr>)
              | (Some c, d, x) \<Rightarrow>
                  (Inr (Some c), d, h\<lparr>hw_rest := x, hw_procs := (hw_procs h)(pid := Exited c)\<rparr>)))"

definition proc_wait :: "'x fate \<Rightarrow> nat \<Rightarrow> rat \<Rightarrow> 'x host \<Rightarrow> int result \<times> rat \<times> 'x host" where
  "proc_wait orc pid timeout h =
     (case hw_procs h pid of
        Exited c \<Rightarrow> (Inr c, 0, h)
      | _ \<Rightarrow> (case or_exits orc pid timeout (hw_rest h) of
                (None, d, x) \<Rightarrow> (Inl TimeoutExpired, max d timeout, h\<lparr>hw_rest := x\<rparr>)
              | (Some c, d, x) \<Rightarrow>
                  (Inr c, d, h\<lparr>hw_rest := x, hw_procs := (hw_procs h)(pid := Exited c)\<rparr>)))"

definition proc_kill :: "nat \<Rightarrow> 'x host \<Rightarrow> unit result \<times> rat \<times> 'x host" where
  "proc_kill pid h =
     (Inr (), 0,
      case hw_procs h pid of Exited c \<Rightarrow> h | _ \<Rightarrow> h\<lparr>hw_procs := (hw_procs h)(pid := Killed)\<rparr>)"

text \<open>\<open>terminate\<close> only asks: what the process does of it is the oracle's next answer.\<close>

definition proc_terminate :: "nat \<Rightarrow> 'x host \<Rightarrow> unit result \<times> rat \<times> 'x host" where
  "proc_terminate pid h = (Inr (), 0, h)"

definition sessions_close :: "'x host \<Rightarrow> unit result \<times> rat \<times> 'x host" where
  "sessions_close h = (Inr (), 0, h\<lparr>hw_sessions := False\<rparr>)"

subsection \<open>Waiting for the RPC\<close>

definition IN_WARMUP :: int where
  "IN_WARMUP = - 28"

definition rpc_failure :: "py_error \<Rightarrow> unit option result" where
  "rpc_failure e =
     (case e of
        RpcError code \<Rightarrow>
          if code \<noteq> IN_WARMUP then Inl (RuntimeError ''node answered its RPC with an error'') else Inr None
      | HttpError status \<Rightarrow>
          if status \<in> {401, 403} then Inl (RuntimeError ''node refused its RPC'') else Inr None
      | KeyboardInterrupt \<Rightarrow> Inl e
      | _ \<Rightarrow> Inr None)"

definition rpc_body :: "'x fate \<Rightarrow> nat \<Rightarrow> nat \<Rightarrow> ('x host timed, unit option) act" where
  "rpc_body orc node pid =
     bind_a (outside_call (proc_poll orc pid))
       (\<lambda>exit_code.
         if exit_code \<noteq> None then raise (RuntimeError ''node process exited before its RPC answered'')
         else try_a
           (bind_a (rpc_call (host_outside orc) node ''getblockchaininfo'' []) (\<lambda>_. ret (Some ())))
           (\<lambda>e. lift_r (rpc_failure e)))"

definition wait_for_rpc :: "'x fate \<Rightarrow> nat \<Rightarrow> nat \<Rightarrow> rat \<Rightarrow> ('x host timed, unit) loop" where
  "wait_for_rpc orc node pid timeout s =
     poll_or_timeout (host_outside orc) (rpc_body orc node pid) (clock s + timeout) s"

subsection \<open>The adapter\<close>

definition STARTUP_TIMEOUT :: rat where
  "STARTUP_TIMEOUT = 30"

definition CLEAN_EXIT :: int where
  "CLEAN_EXIT = 0"

record adapter =
  ad_node :: nat
  ad_chain :: string
  ad_command :: "string list"
  ad_extra_args :: "string list"
  ad_running :: "nat option"

definition adapter_init ::
  "string set \<Rightarrow> nat \<Rightarrow> string list \<Rightarrow> string list \<Rightarrow> string \<Rightarrow> adapter result" where
  "adapter_init known node command extra_args chain =
     (if chain \<notin> known then Inl (ValueError ''cannot start a node on chain'')
      else bind_r (check_extra_args command extra_args)
        (\<lambda>_. Inr \<lparr>ad_node = node, ad_chain = chain, ad_command = command,
                  ad_extra_args = extra_args, ad_running = None\<rparr>))"

type_synonym 'x site = "adapter \<times> 'x host timed"

definition on_host :: "('x host timed, 'a) act \<Rightarrow> ('x site, 'a) act" where
  "on_host m s = (case m (snd s) of (r, t) \<Rightarrow> (r, (fst s, t)))"

definition on_host_l :: "('x host timed, 'a) loop \<Rightarrow> ('x site, 'a) loop" where
  "on_host_l m s = (case m (snd s) of None \<Rightarrow> None | Some (r, t) \<Rightarrow> Some (r, (fst s, t)))"

definition set_running :: "nat option \<Rightarrow> ('x site, unit) act" where
  "set_running p s = (Inr (), ((fst s)\<lparr>ad_running := p\<rparr>, snd s))"

text \<open>What \<open>_start\<close> does with any exception of the wait, before it raises again.\<close>

definition abandon_start :: "'x fate \<Rightarrow> factor_state \<Rightarrow> nat \<Rightarrow> py_error \<Rightarrow> ('x site, unit) act" where
  "abandon_start orc st pid e =
     bind_a (set_running None)
       (\<lambda>_. bind_a
         (finally_a
           (on_host (bind_a (outside_call (proc_kill pid))
              (\<lambda>_. outside_call (proc_wait orc pid (scaled st STARTUP_TIMEOUT)))))
           (on_host (outside_call sessions_close)))
         (\<lambda>_. raise e))"

definition start_with :: "'x fate \<Rightarrow> factor_state \<Rightarrow> string list \<Rightarrow> ('x site, unit) loop" where
  "start_with orc st args s =
     bind_l (once (on_host (outside_call (on_rest (or_prepare orc)))))
       (\<lambda>_. bind_l (once (on_host (outside_call (proc_spawn orc (ad_command (fst s) @ args)))))
         (\<lambda>pid. bind_l (once (set_running (Some pid)))
           (\<lambda>_ u.
             case bind_l (once (on_host (outside_call (on_rest (or_client orc)))))
                    (\<lambda>_. on_host_l (wait_for_rpc orc (ad_node (fst s)) pid (scaled st STARTUP_TIMEOUT))) u of
               None \<Rightarrow> None
             | Some (Inr _, v) \<Rightarrow> Some (Inr (), v)
             | Some (Inl e, v) \<Rightarrow> Some (abandon_start orc st pid e v)))) s"

definition start :: "'x fate \<Rightarrow> factor_state \<Rightarrow> ('x site, unit) loop" where
  "start orc st s =
     (if ad_running (fst s) \<noteq> None then Some (Inl (RuntimeError ''node already started''), s)
      else start_with orc st (ad_extra_args (fst s)) s)"

definition terminate :: "'x fate \<Rightarrow> factor_state \<Rightarrow> nat \<Rightarrow> ('x host timed, int \<times> bool) act" where
  "terminate orc st pid =
     bind_a (outside_call (proc_poll orc pid))
       (\<lambda>polled. bind_a (outside_call (proc_terminate pid))
         (\<lambda>_. try_a
           (bind_a (outside_call (proc_wait orc pid (scaled st STARTUP_TIMEOUT)))
              (\<lambda>c. ret (c, polled \<noteq> None)))
           (\<lambda>e. if e \<noteq> TimeoutExpired then raise e
                else bind_a (outside_call (proc_kill pid))
                  (\<lambda>_. bind_a (outside_call (proc_wait orc pid (scaled st STARTUP_TIMEOUT)))
                    (\<lambda>_. raise (TimeoutError ''node process ignored terminate''))))))"

definition stop :: "'x fate \<Rightarrow> factor_state \<Rightarrow> ('x site, unit) act" where
  "stop orc st s =
     (case ad_running (fst s) of
        None \<Rightarrow> on_host (outside_call sessions_close) s
      | Some pid \<Rightarrow>
          bind_a (set_running None)
            (\<lambda>_. bind_a (finally_a (on_host (terminate orc st pid)) (on_host (outside_call sessions_close)))
              (\<lambda>(exit_code, already_exited).
                if exit_code \<noteq> CLEAN_EXIT
                then raise (RuntimeError (if already_exited
                       then ''node process exited before stop was called''
                       else ''node process exited on terminate''))
                else ret ())) s)"

definition wait_until_stopped :: "'x fate \<Rightarrow> factor_state \<Rightarrow> rat \<Rightarrow> ('x site, int) act" where
  "wait_until_stopped orc st timeout s =
     (case ad_running (fst s) of
        None \<Rightarrow> raise (RuntimeError ''no node process to wait for'') s
      | Some pid \<Rightarrow>
          bind_a
            (try_a (on_host (outside_call (proc_wait orc pid (scaled st timeout))))
              (\<lambda>e. if e \<noteq> TimeoutExpired then raise e
                   else raise (TimeoutError ''node process did not exit'')))
            (\<lambda>exit_code. bind_a (set_running None)
              (\<lambda>_. bind_a (on_host (outside_call sessions_close)) (\<lambda>_. ret exit_code))) s)"

text \<open>The arguments of a restart: checked, where the caller gives any, before anything else.\<close>

definition restart_arguments :: "adapter \<Rightarrow> string list option \<Rightarrow> string list result" where
  "restart_arguments ad extra_args =
     (case extra_args of
        None \<Rightarrow> Inr (ad_extra_args ad)
      | Some args \<Rightarrow> bind_r (check_extra_args (ad_command ad) args) (\<lambda>_. Inr args))"

definition restart :: "'x fate \<Rightarrow> factor_state \<Rightarrow> string list option \<Rightarrow> ('x site, unit) loop" where
  "restart orc st extra_args s =
     (case restart_arguments (fst s) extra_args of
        Inl e \<Rightarrow> Some (Inl e, s)
      | Inr args \<Rightarrow> bind_l (once (stop orc st)) (\<lambda>_. start_with orc st args) s)"

text \<open>The methods that are one RPC call.\<close>

definition set_mock_time :: "('w, 'z) outside_scheme \<Rightarrow> nat \<Rightarrow> int \<Rightarrow> ('w timed, unit) act" where
  "set_mock_time os node timestamp =
     bind_a (rpc_call os node ''setmocktime'' [JInt timestamp]) (\<lambda>_. ret ())"

definition add_outbound_connection ::
  "('w, 'z) outside_scheme \<Rightarrow> nat \<Rightarrow> string \<times> nat \<Rightarrow> string \<Rightarrow> bool \<Rightarrow> ('w timed, unit) act" where
  "add_outbound_connection os node address connection_type v2transport =
     bind_a (rpc_call os node ''addconnection''
        [JStr (fst address @ '':'' @ dec (snd address)), JStr connection_type, JBool v2transport])
       (\<lambda>_. ret ())"

definition dial :: "('w, 'z) outside_scheme \<Rightarrow> nat \<Rightarrow> string \<Rightarrow> bool \<Rightarrow> ('w timed, unit) act" where
  "dial os node address v2transport =
     bind_a (rpc_call os node ''addnode'' [JStr address, JStr ''onetry'', JBool v2transport]) (\<lambda>_. ret ())"

subsection \<open>What each step does to the processes\<close>

definition alive :: "'x host \<Rightarrow> nat set" where
  "alive h = {p. hw_procs h p = Alive}"

text \<open>Calls that start nothing.\<close>

definition calm :: "('x host timed, 'a) act \<Rightarrow> bool" where
  "calm m \<longleftrightarrow> (\<forall>s. alive (world (snd (m s))) \<subseteq> alive (world s))"

lemma calmD: "calm m \<Longrightarrow> m s = (r, t) \<Longrightarrow> alive (world t) \<subseteq> alive (world s)"
  by (metis calm_def snd_conv)

lemma calm_outside:
  assumes "\<And>h. alive (snd (snd (f h))) \<subseteq> alive h"
  shows "calm (outside_call f)"
  using assms by (auto simp: calm_def outside_call_def split: prod.splits) (metis snd_conv subsetD)

lemma calm_bind: "calm m \<Longrightarrow> (\<And>x. calm (f x)) \<Longrightarrow> calm (bind_a m f)"
  unfolding calm_def bind_a_def
  by (auto split: prod.splits sum.splits) (metis snd_conv subsetD)+

lemma calm_try: "calm m \<Longrightarrow> (\<And>e. calm (h e)) \<Longrightarrow> calm (try_a m h)"
  unfolding calm_def try_a_def
  by (auto split: prod.splits sum.splits) (metis snd_conv subsetD)+

lemma calm_pure: "calm (ret x)" "calm (raise e)" "calm (lift_r r)"
  by (simp_all add: calm_def)

lemma calm_calls:
  "calm (outside_call (on_rest f))"
  "calm (outside_call (proc_poll orc pid))"
  "calm (outside_call (proc_wait orc pid d))"
  "calm (outside_call (proc_kill pid))"
  "calm (outside_call (proc_terminate pid))"
  "calm (outside_call sessions_close)"
  by (rule calm_outside;
      auto simp: on_rest_def proc_poll_def proc_wait_def proc_kill_def proc_terminate_def sessions_close_def alive_def
        split: proc_status.splits prod.splits option.splits if_splits)+

lemma calm_rpc: "calm (rpc_call (host_outside orc) node method params)"
  unfolding rpc_call_def
  by (rule calm_outside) (auto simp: host_outside_def on_rest_def alive_def split: prod.splits)

lemma kill_not_alive: "outside_call (proc_kill pid) s = (r, t) \<Longrightarrow> pid \<notin> alive (world t)"
  by (auto simp: outside_call_def proc_kill_def alive_def split: proc_status.splits)

lemma wait_not_alive: "outside_call (proc_wait orc pid d) s = (Inr c, t) \<Longrightarrow> pid \<notin> alive (world t)"
  by (auto simp: outside_call_def proc_wait_def alive_def split: proc_status.splits prod.splits option.splits)

lemma timely_rpc_body: "timely (rpc_body orc node pid)"
  unfolding rpc_body_def by (intro timely_intros)

lemma calm_rpc_body: "calm (rpc_body orc node pid)"
  unfolding rpc_body_def
proof (rule calm_bind [OF calm_calls(2)])
  fix x
  have "calm (try_a (bind_a (rpc_call (host_outside orc) node ''getblockchaininfo'' []) (\<lambda>_. ret (Some ())))
           (\<lambda>e. lift_r (rpc_failure e)))"
    by (intro calm_try calm_bind calm_rpc calm_pure)
  then show "calm (if x \<noteq> None then raise (RuntimeError ''node process exited before its RPC answered'')
         else try_a
           (bind_a (rpc_call (host_outside orc) node ''getblockchaininfo'' []) (\<lambda>_. ret (Some ())))
           (\<lambda>e. lift_r (rpc_failure e)))"
    by (simp add: calm_pure)
qed

interpretation rpc_wait: polling "host_outside orc" "rpc_body orc node pid" for orc node pid
  by unfold_locales (rule timely_rpc_body)

lemma alive_sleep: "alive (world (sleep (host_outside orc) d s)) = alive (world s)"
  by (simp add: sleep_def host_outside_def alive_def split: prod.split)

lemma wait_for_rpc_alive:
  assumes "wait_for_rpc orc node pid d s = Some (r, t)"
  shows "alive (world t) \<subseteq> alive (world s)"
proof (rule poll_or_timeout_keeps [OF assms [unfolded wait_for_rpc_def], where P = "\<lambda>u. alive (world u) \<subseteq> alive (world s)"])
  fix u q v
  assume "alive (world u) \<subseteq> alive (world s)" and "rpc_body orc node pid u = (q, v)"
  then show "alive (world v) \<subseteq> alive (world s)" using calmD [OF calm_rpc_body] by blast
qed (simp_all add: alive_sleep)

lemma wait_for_rpc_returns: "\<exists>r t. wait_for_rpc orc node pid d s = Some (r, t)"
  using rpc_wait.comes_back unfolding wait_for_rpc_def returns_def by metis

subsection \<open>What each operation does to the adapter and its processes\<close>

text \<open>The adapter loses no process: one that runs is the one it holds.\<close>

definition site_ok :: "'x site \<Rightarrow> bool" where
  "site_ok s \<longleftrightarrow> alive (world (snd s)) \<subseteq> set_option (ad_running (fst s))"

lemma on_host_simps [act_simps]:
  "m s = (r, t) \<Longrightarrow> on_host m (ad, s) = (r, (ad, t))"
  "set_running p (ad, s) = (Inr (), (ad\<lparr>ad_running := p\<rparr>, s))"
  by (simp_all add: on_host_def set_running_def)

lemma sessions_close_call:
  "outside_call sessions_close s = (Inr (), \<lparr>clock = clock s, world = (world s)\<lparr>hw_sessions := False\<rparr>\<rparr>)"
  by (simp add: outside_call_def sessions_close_def)

lemma kill_call: "\<exists>t. outside_call (proc_kill pid) s = (Inr (), t) \<and> pid \<notin> alive (world t)
    \<and> alive (world t) \<subseteq> alive (world s)"
proof -
  obtain r t where kill: "outside_call (proc_kill pid) s = (r, t)" by (rule prod.exhaust)
  then have "r = Inr ()" by (simp add: outside_call_def proc_kill_def)
  then show ?thesis using kill kill_not_alive [OF kill] calmD [OF calm_calls(4) kill] by blast
qed

lemma wait_call_error: "outside_call (proc_wait orc pid d) s = (Inl e, t) \<Longrightarrow> e = TimeoutExpired"
  by (auto simp: outside_call_def proc_wait_def split: proc_status.splits prod.splits option.splits)

lemma abandon_start_outcome:
  assumes "abandon_start orc st pid e (ad, s) = (r, (ad', t))"
  shows "ad' = ad\<lparr>ad_running := None\<rparr> \<and> alive (world t) \<subseteq> alive (world s) - {pid}
    \<and> \<not> hw_sessions (world t) \<and> (r = Inl e \<or> r = Inl TimeoutExpired)"
proof -
  obtain u where kill: "outside_call (proc_kill pid) s = (Inr (), u)" "pid \<notin> alive (world u)"
    "alive (world u) \<subseteq> alive (world s)" using kill_call by blast
  obtain q v where wait: "outside_call (proc_wait orc pid (scaled st STARTUP_TIMEOUT)) u = (q, v)"
    by (rule prod.exhaust)
  have "alive (world v) \<subseteq> alive (world s) - {pid}"
    using calmD [OF calm_calls(3) wait] kill by blast
  moreover have "alive (world v) = alive ((world v)\<lparr>hw_sessions := False\<rparr>)" by (simp add: alive_def)
  ultimately show ?thesis
    using assms wait_call_error [of orc pid _ u _ v] wait kill(1)
    by (cases q) (auto simp: abandon_start_def bind_a_def finally_a_def on_host_def set_running_def
        sessions_close_call)
qed

lemma spawn_call:
  assumes "outside_call (proc_spawn orc argv) s = (r, t)"
  shows "case r of Inl e \<Rightarrow> alive (world t) = alive (world s)
    | Inr pid \<Rightarrow> alive (world t) = insert pid (alive (world s)) \<and> hw_procs (world t) pid = Alive"
  using assms
  by (auto simp: outside_call_def proc_spawn_def on_rest_def alive_def split: prod.splits sum.splits)

lemma prepare_call:
  "outside_call (on_rest f) s = (r, t) \<Longrightarrow> alive (world t) = alive (world s)"
  by (auto simp: outside_call_def on_rest_def alive_def split: prod.splits)

text \<open>The wait of \<open>_start\<close>, the client's construction included.\<close>

definition startup_wait :: "'x fate \<Rightarrow> factor_state \<Rightarrow> nat \<Rightarrow> nat \<Rightarrow> ('x site, unit) loop" where
  "startup_wait orc st node pid =
     bind_l (once (on_host (outside_call (on_rest (or_client orc)))))
       (\<lambda>_. on_host_l (wait_for_rpc orc node pid (scaled st STARTUP_TIMEOUT)))"

lemma startup_wait_outcome:
  "\<exists>r t. startup_wait orc st node pid (ad, s) = Some (r, (ad, t)) \<and> alive (world t) \<subseteq> alive (world s)"
proof -
  obtain q u where client: "outside_call (on_rest (or_client orc)) s = (q, u)" by (rule prod.exhaust)
  obtain r t where wait: "wait_for_rpc orc node pid (scaled st STARTUP_TIMEOUT) u = Some (r, t)"
    using wait_for_rpc_returns by blast
  have "alive (world u) = alive (world s)" by (rule prepare_call [OF client])
  then show ?thesis
    using client wait wait_for_rpc_alive [OF wait]
    by (cases q) (auto simp: startup_wait_def bind_l_def on_host_def on_host_l_def)
qed

lemma start_with_eq:
  "start_with orc st args (ad, s) =
     (case outside_call (on_rest (or_prepare orc)) s of
        (Inl e, t) \<Rightarrow> Some (Inl e, (ad, t))
      | (Inr _, t) \<Rightarrow>
          (case outside_call (proc_spawn orc (ad_command ad @ args)) t of
             (Inl e, u) \<Rightarrow> Some (Inl e, (ad, u))
           | (Inr pid, u) \<Rightarrow>
               (case startup_wait orc st (ad_node ad) pid (ad\<lparr>ad_running := Some pid\<rparr>, u) of
                  None \<Rightarrow> None
                | Some (Inr _, v) \<Rightarrow> Some (Inr (), v)
                | Some (Inl e, v) \<Rightarrow> Some (abandon_start orc st pid e v))))"
  by (simp add: start_with_def bind_l_def on_host_def set_running_def flip: startup_wait_def
      split: prod.split sum.split)

lemma start_with_outcome:
  assumes "ad_running ad = None"
  shows "\<exists>r ad' t. start_with orc st args (ad, s) = Some (r, (ad', t)) \<and>
    (case r of
       Inr _ \<Rightarrow> \<exists>pid. ad' = ad\<lparr>ad_running := Some pid\<rparr> \<and> alive (world t) \<subseteq> insert pid (alive (world s))
     | Inl e \<Rightarrow> ad' = ad \<and> alive (world t) \<subseteq> alive (world s))"
proof -
  have idle: "ad\<lparr>ad_running := None\<rparr> = ad" using assms by simp
  obtain q u where prep: "outside_call (on_rest (or_prepare orc)) s = (q, u)" by (rule prod.exhaust)
  have u: "alive (world u) = alive (world s)" by (rule prepare_call [OF prep])
  show ?thesis
  proof (cases q)
    case (Inl e)
    then show ?thesis using prep u by (simp add: start_with_eq)
  next
    case (Inr x)
    obtain p v where spawn: "outside_call (proc_spawn orc (ad_command ad @ args)) u = (p, v)"
      by (rule prod.exhaust)
    show ?thesis
    proof (cases p)
      case (Inl e)
      then show ?thesis using prep spawn Inr u spawn_call [OF spawn] by (simp add: start_with_eq)
    next
      case pid: (Inr pid)
      have v: "alive (world v) = insert pid (alive (world s))" using spawn_call [OF spawn] pid u by simp
      obtain r t where wait: "startup_wait orc st (ad_node ad) pid (ad\<lparr>ad_running := Some pid\<rparr>, v)
          = Some (r, (ad\<lparr>ad_running := Some pid\<rparr>, t))" and t: "alive (world t) \<subseteq> alive (world v)"
        using startup_wait_outcome by blast
      show ?thesis
      proof (cases r)
        case (Inr y)
        then show ?thesis
          using prep spawn \<open>q = Inr x\<close> pid wait t v by (auto simp: start_with_eq)
      next
        case (Inl e)
        obtain r' ad' w where fails: "abandon_start orc st pid e (ad\<lparr>ad_running := Some pid\<rparr>, t) = (r', (ad', w))"
          by (metis prod.collapse)
        note end_state = abandon_start_outcome [OF fails]
        have "start_with orc st args (ad, s) = Some (r', (ad', w))"
          using prep spawn \<open>q = Inr x\<close> pid wait Inl fails by (simp add: start_with_eq)
        moreover have "ad' = ad" using end_state idle by simp
        moreover have "alive (world w) \<subseteq> alive (world s)" using end_state t v by blast
        ultimately show ?thesis using end_state by fastforce
      qed
    qed
  qed
qed

lemma terminate_outcome:
  assumes "terminate orc st pid s = (r, t)"
  shows "alive (world t) \<subseteq> alive (world s) - {pid}"
proof -
  obtain q u where poll: "outside_call (proc_poll orc pid) s = (q, u)" by (rule prod.exhaust)
  then obtain x where q: "q = Inr x"
    by (auto simp: outside_call_def proc_poll_def split: proc_status.splits prod.splits option.splits)
  have u: "alive (world u) \<subseteq> alive (world s)" using calmD [OF calm_calls(2) poll] .
  define u' where "u' = \<lparr>clock = clock u, world = world u\<rparr>"
  have asked: "outside_call (proc_terminate pid) u = (Inr (), u')"
    by (simp add: outside_call_def proc_terminate_def u'_def)
  obtain p v where wait: "outside_call (proc_wait orc pid (scaled st STARTUP_TIMEOUT)) u' = (p, v)"
    by (rule prod.exhaust)
  have v: "alive (world v) \<subseteq> alive (world u)" using calmD [OF calm_calls(3) wait] by (simp add: u'_def)
  show ?thesis
  proof (cases p)
    case (Inr c)
    then have "pid \<notin> alive (world v)" using wait wait_not_alive by blast
    moreover have "t = v" using assms poll q asked wait Inr by (simp add: terminate_def bind_a_def try_a_def)
    ultimately show ?thesis using u v by blast
  next
    case (Inl e)
    have e: "e = TimeoutExpired" using wait_call_error wait Inl by blast
    obtain k where kill: "outside_call (proc_kill pid) v = (Inr (), k)" "pid \<notin> alive (world k)"
      "alive (world k) \<subseteq> alive (world v)" using kill_call by blast
    obtain p' w where again: "outside_call (proc_wait orc pid (scaled st STARTUP_TIMEOUT)) k = (p', w)"
      by (rule prod.exhaust)
    have "t = w"
      using assms poll q asked wait Inl e kill(1) again
      by (cases p') (auto simp: terminate_def bind_a_def try_a_def)
    then show ?thesis using calmD [OF calm_calls(3) again] kill u v by blast
  qed
qed

lemma stop_outcome:
  assumes "stop orc st (ad, s) = (r, (ad', t))"
  shows "ad' = ad\<lparr>ad_running := None\<rparr>
    \<and> alive (world t) \<subseteq> alive (world s) - set_option (ad_running ad) \<and> \<not> hw_sessions (world t)"
proof (cases "ad_running ad")
  case None
  then show ?thesis
    using assms by (auto simp: stop_def on_host_def sessions_close_call alive_def)
next
  case (Some pid)
  obtain q u where ended: "terminate orc st pid s = (q, u)" by (rule prod.exhaust)
  have "alive ((world u)\<lparr>hw_sessions := False\<rparr>) = alive (world u)" by (simp add: alive_def)
  then show ?thesis
    using assms Some ended terminate_outcome [OF ended]
    by (cases q) (auto simp: stop_def on_host_def set_running_def bind_a_def finally_a_def sessions_close_call
        split: prod.splits if_splits)
qed

lemma wait_until_stopped_outcome:
  assumes "wait_until_stopped orc st d (ad, s) = (r, (ad', t))"
  shows "alive (world t) \<subseteq> alive (world s) \<and>
    (case r of Inl e \<Rightarrow> ad' = ad
     | Inr c \<Rightarrow> ad' = ad\<lparr>ad_running := None\<rparr> \<and> \<not> hw_sessions (world t)
        \<and> (\<exists>pid. ad_running ad = Some pid \<and> pid \<notin> alive (world t)))"
proof (cases "ad_running ad")
  case None
  then show ?thesis using assms by (auto simp: wait_until_stopped_def)
next
  case (Some pid)
  obtain q u where wait: "outside_call (proc_wait orc pid (scaled st d)) s = (q, u)" by (rule prod.exhaust)
  have same: "alive ((world u)\<lparr>hw_sessions := False\<rparr>) = alive (world u)" by (simp add: alive_def)
  show ?thesis
    using assms Some wait same calmD [OF calm_calls(3) wait] wait_not_alive [of orc pid "scaled st d" s _ u]
    by (cases q) (auto simp: wait_until_stopped_def on_host_def set_running_def bind_a_def try_a_def
        sessions_close_call split: if_splits)
qed

subsection \<open>Any sequence of operations\<close>

datatype adapter_op = Start | Stop | WaitUntilStopped rat | Restart "string list option"

fun adapter_do :: "'x fate \<Rightarrow> factor_state \<Rightarrow> adapter_op \<Rightarrow> ('x site, unit) loop" where
  "adapter_do orc st Start = start orc st"
| "adapter_do orc st Stop = once (stop orc st)"
| "adapter_do orc st (WaitUntilStopped d) =
     once (bind_a (wait_until_stopped orc st d) (\<lambda>_. ret ()))"
| "adapter_do orc st (Restart args) = restart orc st args"

text \<open>A caller that goes on whatever an operation raises, as a fixture's teardown does.\<close>

fun do_all :: "('o \<Rightarrow> ('s, 'a) loop) \<Rightarrow> 'o list \<Rightarrow> 's \<Rightarrow> 's option" where
  "do_all op [] s = Some s"
| "do_all op (x # xs) s = (case op x s of None \<Rightarrow> None | Some (r, t) \<Rightarrow> do_all op xs t)"

locale lifecycle =
  fixes op :: "'o \<Rightarrow> ('s, 'a) loop" and ok :: "'s \<Rightarrow> bool" and same :: "'s \<Rightarrow> 's \<Rightarrow> bool"
  assumes op_outcome: "ok s \<Longrightarrow> \<exists>r t. op x s = Some (r, t) \<and> ok t \<and> same s t"
    and same_refl: "same s s"
    and same_trans: "same s t \<Longrightarrow> same t u \<Longrightarrow> same s u"
begin

lemma do_all_outcome: "ok s \<Longrightarrow> \<exists>t. do_all op xs s = Some t \<and> ok t \<and> same s t"
proof (induction xs arbitrary: s)
  case (Cons x xs)
  obtain r t where one: "op x s = Some (r, t)" "ok t" "same s t" using op_outcome [OF Cons.prems] by blast
  from Cons.IH [OF one(2)] one show ?case using same_trans by auto
qed (simp add: same_refl)

end

definition same_config :: "'x site \<Rightarrow> 'x site \<Rightarrow> bool" where
  "same_config s t \<longleftrightarrow> fst t = (fst s)\<lparr>ad_running := ad_running (fst t)\<rparr>"

lemma same_configI: "ad' = ad\<lparr>ad_running := p\<rparr> \<Longrightarrow> same_config (ad, s) (ad', t)"
  by (simp add: same_config_def)

lemma same_config_trans: "same_config s t \<Longrightarrow> same_config t u \<Longrightarrow> same_config s u"
  by (cases "fst s"; cases "fst t"; cases "fst u") (simp add: same_config_def)

lemma start_with_ok:
  assumes "ad_running ad = None" and "alive (world s) = {}"
  shows "\<exists>r t. start_with orc st args (ad, s) = Some (r, t) \<and> site_ok t \<and> same_config (ad, s) t"
proof -
  from start_with_outcome [OF assms(1), of orc st args s] obtain r ad' t where
    run: "start_with orc st args (ad, s) = Some (r, (ad', t))"
    and out: "case r of
       Inr _ \<Rightarrow> \<exists>pid. ad' = ad\<lparr>ad_running := Some pid\<rparr> \<and> alive (world t) \<subseteq> insert pid (alive (world s))
     | Inl e \<Rightarrow> ad' = ad \<and> alive (world t) \<subseteq> alive (world s)" by blast
  have "site_ok (ad', t) \<and> same_config (ad, s) (ad', t)"
    using out assms by (cases r) (auto simp: site_ok_def same_config_def)
  then show ?thesis using run by blast
qed

lemma adapter_do_outcome:
  assumes "site_ok s"
  shows "\<exists>r t. adapter_do orc st x s = Some (r, t) \<and> site_ok t \<and> same_config s t"
proof -
  obtain ad u where s: "s = (ad, u)" by (rule prod.exhaust)
  have quiet: "alive (world u) \<subseteq> set_option (ad_running ad)" using assms by (simp add: site_ok_def s)
  have stopped: "site_ok (ad', t) \<and> same_config s (ad', t) \<and> ad_running ad' = None \<and> alive (world t) = {}"
    if "stop orc st (ad, u) = (r, (ad', t))" for r ad' t
    using stop_outcome [OF that] quiet by (auto simp: site_ok_def same_config_def s)
  show ?thesis
  proof (cases x)
    case Start
    show ?thesis
    proof (cases "ad_running ad")
      case None
      then have "alive (world u) = {}" using quiet by simp
      from start_with_ok [OF None this, of orc st "ad_extra_args ad"] show ?thesis
        by (simp add: Start start_def s None)
    next
      case (Some pid)
      then show ?thesis using assms by (simp add: Start start_def s same_config_def)
    qed
  next
    case Stop
    obtain r ad' t where "stop orc st (ad, u) = (r, (ad', t))" by (metis prod.collapse)
    with stopped [OF this] show ?thesis by (simp add: Stop s)
  next
    case (WaitUntilStopped d)
    obtain r ad' t where wait: "wait_until_stopped orc st d (ad, u) = (r, (ad', t))" by (metis prod.collapse)
    note out = wait_until_stopped_outcome [OF wait]
    have "site_ok (ad', t) \<and> same_config s (ad', t)"
      using out quiet by (cases r) (auto simp: site_ok_def same_config_def s)
    then show ?thesis
      using wait by (cases r) (auto simp: WaitUntilStopped s bind_a_def)
  next
    case (Restart extra)
    show ?thesis
    proof (cases "restart_arguments ad extra")
      case (Inl e)
      then show ?thesis using assms by (simp add: Restart restart_def s same_config_def)
    next
      case (Inr args)
      obtain r ad' t where stop: "stop orc st (ad, u) = (r, (ad', t))" by (metis prod.collapse)
      note down = stopped [OF stop]
      show ?thesis
      proof (cases r)
        case (Inl e)
        then show ?thesis using down stop Inr by (simp add: Restart restart_def s bind_l_def)
      next
        case (Inr y)
        have "\<exists>q v. start_with orc st args (ad', t) = Some (q, v) \<and> site_ok v \<and> same_config (ad', t) v"
          using down by (intro start_with_ok) simp_all
        then obtain q v where "start_with orc st args (ad', t) = Some (q, v)" "site_ok v"
          and v: "same_config (ad', t) v" by blast
        moreover have "same_config s v" using down v same_config_trans by blast
        ultimately show ?thesis
          using stop \<open>restart_arguments ad extra = Inr args\<close> Inr by (simp add: Restart restart_def s bind_l_def)
      qed
    qed
  qed
qed

interpretation adapter_life: lifecycle "adapter_do orc st" site_ok same_config for orc st
proof
  show "same_config s s" for s :: "'x site" by (simp add: same_config_def)
qed (rule adapter_do_outcome, assumption, rule same_config_trans)

subsection \<open>Properties\<close>

text \<open>
  C2: an adapter never loses a process: after any sequence of \<open>start\<close>, \<open>stop\<close>, \<open>restart\<close> and
  \<open>wait_until_stopped\<close>, whatever each raised and whatever the processes and the RPC did, every
  process still alive and not killed is the one the adapter holds, so that a \<open>stop\<close> ends it;
  every operation comes back, and the constructor's arguments are what they were.
\<close>

theorem no_process_lost:
  assumes "adapter_init known node command extra chain = Inr ad" and "alive (world s) = {}"
  shows "\<exists>t. do_all (adapter_do orc st) ops (ad, s) = Some t
    \<and> alive (world (snd t)) \<subseteq> set_option (ad_running (fst t))
    \<and> ad_extra_args (fst t) = extra \<and> ad_command (fst t) = command"
proof -
  have ad: "ad_extra_args ad = extra" "ad_command ad = command"
    using assms(1) by (auto simp: adapter_init_def bind_r_def split: if_splits sum.splits)
  have "site_ok (ad, s)" using assms(2) by (simp add: site_ok_def)
  from adapter_life.do_all_outcome [OF this] obtain t where
    "do_all (adapter_do orc st) ops (ad, s) = Some t" "site_ok t" "same_config (ad, s) t" by blast
  then show ?thesis using ad by (cases "fst t") (auto simp: site_ok_def same_config_def)
qed

text \<open>A machine on which a node starts, answers its third call and ignores \<open>SIGTERM\<close>.\<close>

definition stubborn :: "nat fate" where
  "stubborn = \<lparr>or_prepare = (\<lambda>x. (Inr (), 0, x)), or_spawn = (\<lambda>argv x. (Inr (), 0, x)),
     or_client = (\<lambda>x. (Inr (), 0, x)),
     or_exits = (\<lambda>pid d x. (None, 0, x)),
     or_rpc = (\<lambda>node m ps x. (if x < 2 then Inl (RpcError (- 28)) else Inr JNull, 1, Suc x)),
     or_sleep = (\<lambda>d x. (0, x))\<rparr>"

definition empty_host :: "nat host timed" where
  "empty_host = \<lparr>clock = 0, world = \<lparr>hw_procs = (\<lambda>_. Absent), hw_next = 0, hw_sessions = False, hw_rest = 0\<rparr>\<rparr>"

lemma no_process_lost_witness:
  "\<exists>t ad. do_all (adapter_do stubborn initial_factor) [Start, Restart (Some [''-txindex'']), Stop, Stop] (ad, empty_host) = Some t
    \<and> alive (world (snd t)) \<subseteq> set_option (ad_running (fst t))
    \<and> ad_extra_args (fst t) = [''-blocksdir=/b''] \<and> ad_command (fst t) = [''bitcoind'', ''-regtest'']"
proof -
  have "adapter_init {''regtest''} 0 [''bitcoind'', ''-regtest''] [''-blocksdir=/b''] ''regtest'' =
      Inr \<lparr>ad_node = 0, ad_chain = ''regtest'', ad_command = [''bitcoind'', ''-regtest''],
           ad_extra_args = [''-blocksdir=/b''], ad_running = None\<rparr>" by code_simp
  from no_process_lost [OF this, of empty_host stubborn initial_factor
      "[Start, Restart (Some [''-txindex'']), Stop, Stop]"]
  show ?thesis by (auto simp: empty_host_def alive_def)
qed

text \<open>
  C23: \<open>start\<close> is all or nothing: it refuses where the adapter holds a process, changing
  nothing; otherwise it comes back either holding a process of its own, or raising with no
  process held and none alive that was not alive before.
\<close>

theorem start_all_or_nothing:
  "(case ad_running ad of
      Some pid \<Rightarrow> start orc st (ad, s) = Some (Inl (RuntimeError ''node already started''), (ad, s))
    | None \<Rightarrow> \<exists>r ad' t. start orc st (ad, s) = Some (r, (ad', t)) \<and>
        (case r of
           Inr _ \<Rightarrow> \<exists>pid. ad' = ad\<lparr>ad_running := Some pid\<rparr> \<and> alive (world t) \<subseteq> insert pid (alive (world s))
         | Inl e \<Rightarrow> ad' = ad \<and> ad_running ad' = None \<and> alive (world t) \<subseteq> alive (world s)))"
proof (cases "ad_running ad")
  case None
  from start_with_outcome [OF this, of orc st "ad_extra_args ad" s] obtain r ad' t where
    run: "start_with orc st (ad_extra_args ad) (ad, s) = Some (r, (ad', t))"
    and out: "case r of
       Inr _ \<Rightarrow> \<exists>pid. ad' = ad\<lparr>ad_running := Some pid\<rparr> \<and> alive (world t) \<subseteq> insert pid (alive (world s))
     | Inl e \<Rightarrow> ad' = ad \<and> alive (world t) \<subseteq> alive (world s)" by blast
  then show ?thesis using None by (cases r) (auto simp: start_def)
qed (simp add: start_def)

text \<open>
  Whatever \<open>stop\<close> answers, it leaves no process held, the one it held not alive, and the
  RPC connections closed; and a second \<open>stop\<close> does nothing but close them again, without
  raising.
\<close>

lemma stop_leaves_nothing:
  "case stop orc st (ad, s) of (r, (ad', t)) \<Rightarrow>
     ad_running ad' = None \<and> alive (world t) \<subseteq> alive (world s) - set_option (ad_running ad)
     \<and> \<not> hw_sessions (world t) \<and> stop orc st (ad', t) = (Inr (), (ad', t))"
proof -
  obtain r ad' t where stop: "stop orc st (ad, s) = (r, (ad', t))" by (metis prod.collapse)
  note out = stop_outcome [OF stop]
  have idle: "ad_running ad' = None" using out by simp
  have "\<lparr>clock = clock t, world = (world t)\<lparr>hw_sessions := False\<rparr>\<rparr> = t"
    using out by (cases t; cases "world t") simp
  then have "stop orc st (ad', t) = (Inr (), (ad', t))"
    using idle by (simp add: stop_def on_host_def sessions_close_call)
  then show ?thesis using stop out idle by simp
qed

text \<open>
  Restarting checks its arguments before it stops anything: arguments that reuse an option
  of the command raise with the running node, its process and its connections untouched;
  and where they pass, or none are given, it is \<open>stop\<close>, and then, unless that raised, a start
  on the arguments given in place of the constructor's.
\<close>

lemma restart_checks_first:
  "restart orc st extra (ad, s) =
     (case extra of
        Some args \<Rightarrow>
          if \<exists>a \<in> set args. \<exists>k. knob a = Some k \<and> k \<in> reserved_option_names (ad_command ad)
          then Some (Inl (ValueError ''extra_args reuses''), (ad, s))
          else bind_l (once (stop orc st)) (\<lambda>_. start_with orc st args) (ad, s)
      | None \<Rightarrow> bind_l (once (stop orc st)) (\<lambda>_. start_with orc st (ad_extra_args ad)) (ad, s))"
  by (cases extra) (auto simp: restart_def restart_arguments_def check_extra_args_def check_args_loop_eq)

text \<open>The answers no waiting can change, and the error each is raised as.\<close>

definition refusal :: "py_error \<Rightarrow> py_error \<Rightarrow> bool" where
  "refusal f e \<longleftrightarrow>
     (\<exists>code. f = RpcError code \<and> code \<noteq> - 28 \<and> e = RuntimeError ''node answered its RPC with an error'')
   \<or> (\<exists>status. f = HttpError status \<and> status \<in> {401, 403} \<and> e = RuntimeError ''node refused its RPC'')
   \<or> f = KeyboardInterrupt \<and> e = f"

lemma rpc_failure_refusal: "rpc_failure f = Inl e \<longleftrightarrow> refusal f e" "rpc_failure f \<noteq> Inr (Some z)"
  by (auto simp: rpc_failure_def refusal_def IN_WARMUP_def split: py_error.split)

text \<open>
  The wait for the RPC always comes back. It returns only on an answer given before the
  deadline by a process that had not exited; it fails at once on an exit, or on an answer no
  waiting can change -- an RPC error other than the warm-up's, an HTTP 401 or 403; every other
  failure is waited out, and \<open>TimeoutError\<close> comes only at the deadline.
\<close>

lemma wait_for_rpc_outcome:
  "\<exists>r t. wait_for_rpc orc node pid d s = Some (r, t) \<and>
    (case r of
       Inr _ \<Rightarrow> \<exists>u v a. clock u < clock s + d \<and> outside_call (proc_poll orc pid) u = (Inr None, v)
           \<and> rpc_call (host_outside orc) node ''getblockchaininfo'' [] v = (Inr a, t)
     | Inl e \<Rightarrow>
         (e = TimeoutError ''within the wait'' \<and> clock s + d \<le> clock t)
         \<or> (\<exists>u c. outside_call (proc_poll orc pid) u = (Inr (Some c), t)
             \<and> e = RuntimeError ''node process exited before its RPC answered'')
         \<or> (\<exists>v f. rpc_call (host_outside orc) node ''getblockchaininfo'' [] v = (Inl f, t)
             \<and> refusal f e))"
proof -
  obtain r t where run: "wait_for_rpc orc node pid d s = Some (r, t)" using wait_for_rpc_returns by blast
  from rpc_wait.outcome [OF run [unfolded wait_for_rpc_def]] obtain u where
    last: "if clock u < clock s + d
      then case r of Inl e \<Rightarrow> rpc_body orc node pid u = (Inl e, t) | Inr x \<Rightarrow> rpc_body orc node pid u = (Inr (Some x), t)
      else r = Inl (TimeoutError ''within the wait'') \<and> t = u" by blast
  obtain q v where poll: "outside_call (proc_poll orc pid) u = (q, v)" by (rule prod.exhaust)
  then obtain x where q: "q = Inr x"
    by (auto simp: outside_call_def proc_poll_def split: proc_status.splits prod.splits option.splits)
  obtain p w where rpc: "rpc_call (host_outside orc) node ''getblockchaininfo'' [] v = (p, w)"
    by (rule prod.exhaust)
  have body: "rpc_body orc node pid u =
      (case x of Some c \<Rightarrow> (Inl (RuntimeError ''node process exited before its RPC answered''), v)
       | None \<Rightarrow> (case p of Inl f \<Rightarrow> (rpc_failure f, w) | Inr a \<Rightarrow> (Inr (Some ()), w)))"
    using poll q rpc by (auto simp: rpc_body_def bind_a_def try_a_def split: option.split sum.split)
  show ?thesis
  proof (cases "clock u < clock s + d")
    case False
    then show ?thesis using run last by auto
  next
    case True
    show ?thesis
    proof (cases x)
      case (Some c)
      then show ?thesis using run last True body poll q by (cases r) fastforce+
    next
      case None
      show ?thesis
      proof (cases p)
        case (Inr a)
        then have "r = Inr () \<and> t = w" using last True body None by (cases r) auto
        then show ?thesis using run True poll q None rpc Inr by fastforce
      next
        case (Inl f)
        then obtain e where "r = Inl e" "rpc_failure f = Inl e" "t = w"
          using last True body None rpc_failure_refusal(2) by (cases r) auto
        then show ?thesis using run rpc Inl by (auto simp: rpc_failure_refusal(1))
      qed
    qed
  qed
qed

end
