(* ===== verification/Links.thy ===== *)
theory Links
  imports Waiting
begin

section \<open>Connecting nodes and waiting for them to agree\<close>

text \<open>
  The free functions at the end of \<open>node.py\<close>: \<open>_peer_ids\<close>, \<open>_wait_for_peer\<close>,
  \<open>_wait_for_handshake\<close>, \<open>connect_nodes\<close>, \<open>wait_until_disconnected\<close>, \<open>disconnect_nodes\<close>,
  \<open>wait_until_tips_agree\<close>, \<open>wait_until_mempools_agree\<close> and \<open>sync_all\<close>. A node is its number,
  its p2p address and its \<open>dial\<close>, which a subclass may override. Every loop is an instance of
  \<open>poll_or_timeout\<close>, and each of their bodies an interpretation of the locale \<open>polling\<close>.
\<close>

subsection \<open>Reading getpeerinfo\<close>

record 'w link_node =
  ln_id :: nat
  ln_host :: string
  ln_port :: nat
  ln_dial :: "string \<Rightarrow> bool \<Rightarrow> 'w \<Rightarrow> unit result \<times> rat \<times> 'w"

definition p2p_spelled :: "('w, 'z) link_node_scheme \<Rightarrow> string" where
  "p2p_spelled node = ln_host node @ '':'' @ dec (ln_port node)"

text \<open>\<open>x[key]\<close> of a JSON value.\<close>

definition json_item :: "json \<Rightarrow> string \<Rightarrow> json result" where
  "json_item x k =
     (if is_obj x then (case json_get x k of None \<Rightarrow> Inl (KeyError k) | Some v \<Rightarrow> Inr v)
      else Inl (TypeError ''indices must be integers''))"

fun map_r :: "('a \<Rightarrow> 'b result) \<Rightarrow> 'a list \<Rightarrow> 'b list result" where
  "map_r f [] = Inr []"
| "map_r f (x # xs) = bind_r (f x) (\<lambda>y. bind_r (map_r f xs) (\<lambda>ys. Inr (y # ys)))"

text \<open>What may stand in a set.\<close>

fun hashable :: "json \<Rightarrow> bool" where
  "hashable (JList xs) = False"
| "hashable (JObj kvs) = False"
| "hashable _ = True"

definition hashed :: "json \<Rightarrow> json result" where
  "hashed x = (if hashable x then Inr x else Inl (TypeError ''unhashable type''))"

definition peer_ids :: "json \<Rightarrow> json list result" where
  "peer_ids peers =
     (case peers of JList xs \<Rightarrow> map_r (\<lambda>p. bind_r (json_item p ''id'') hashed) (filter is_obj xs) | _ \<Rightarrow> Inr [])"

definition find_peer :: "(json \<Rightarrow> bool) \<Rightarrow> json \<Rightarrow> json option" where
  "find_peer predicate peers =
     (case peers of JList xs \<Rightarrow> List.find (\<lambda>p. is_obj p \<and> predicate p) xs | _ \<Rightarrow> None)"

text \<open>\<open>counters.get("pong", 0) >= 29\<close>.\<close>

definition pong_seen :: "json \<Rightarrow> bool result" where
  "pong_seen counters =
     (case json_get counters ''pong'' of
        None \<Rightarrow> Inr False
      | Some (JInt n) \<Rightarrow> Inr (29 \<le> n)
      | Some (JBool b) \<Rightarrow> Inr False
      | Some (JNum q) \<Rightarrow> Inr (29 \<le> q)
      | Some _ \<Rightarrow> Inl (TypeError ''not supported between instances''))"

text \<open>The loop over the entries: the first one with the id decides the round.\<close>

fun handshake_seen :: "json \<Rightarrow> json list \<Rightarrow> bool result" where
  "handshake_seen peer_id [] = Inr False"
| "handshake_seen peer_id (p # ps) =
     (if \<not> is_obj p \<or> json_get p ''id'' \<noteq> Some peer_id then handshake_seen peer_id ps
      else (case json_get p ''bytesrecv_per_msg'' of
              None \<Rightarrow> Inr True
            | Some counters \<Rightarrow> if \<not> is_obj counters then Inr True else pong_seen counters))"

subsection \<open>The waits of connect_nodes\<close>

definition peer_body ::
  "('w, 'z) outside_scheme \<Rightarrow> nat \<Rightarrow> (json \<Rightarrow> bool) \<Rightarrow> ('w timed, json option) act" where
  "peer_body os node predicate =
     bind_a (rpc_call os node ''getpeerinfo'' []) (\<lambda>peers. ret (find_peer predicate peers))"

definition wait_for_peer ::
  "('w, 'z) outside_scheme \<Rightarrow> nat \<Rightarrow> (json \<Rightarrow> bool) \<Rightarrow> rat \<Rightarrow> ('w timed, json) loop" where
  "wait_for_peer os node predicate deadline = poll_or_timeout os (peer_body os node predicate) deadline"

definition if_seen :: "bool \<Rightarrow> unit option" where
  "if_seen b = (if b then Some () else None)"

definition handshake_body ::
  "('w, 'z) outside_scheme \<Rightarrow> nat \<Rightarrow> json \<Rightarrow> ('w timed, unit option) act" where
  "handshake_body os node peer_id =
     bind_a (rpc_call os node ''getpeerinfo'' [])
       (\<lambda>peers. case peers of
           JList xs \<Rightarrow> bind_a (lift_r (handshake_seen peer_id xs)) (\<lambda>b. ret (if_seen b))
         | _ \<Rightarrow> ret None)"

definition wait_for_handshake ::
  "('w, 'z) outside_scheme \<Rightarrow> nat \<Rightarrow> json \<Rightarrow> rat \<Rightarrow> ('w timed, unit) loop" where
  "wait_for_handshake os node peer_id deadline =
     poll_or_timeout os (handshake_body os node peer_id) deadline"

definition outbound_to :: "string \<Rightarrow> json \<Rightarrow> bool" where
  "outbound_to address p \<longleftrightarrow> json_get p ''addr'' = Some (JStr address)
     \<and> \<not> (case json_get p ''inbound'' of None \<Rightarrow> False | Some b \<Rightarrow> truthy b)"

text \<open>\<open>peer.get("id") not in before_second\<close>, \<open>None\<close> being no id the snapshot holds.\<close>

definition new_inbound :: "json list \<Rightarrow> json \<Rightarrow> bool" where
  "new_inbound before p \<longleftrightarrow>
     (case json_get p ''inbound'' of None \<Rightarrow> False | Some b \<Rightarrow> truthy b)
   \<and> (case json_get p ''id'' of None \<Rightarrow> True | Some i \<Rightarrow> i \<notin> set before)"

text \<open>The four waits of \<open>connect_nodes\<close>, all to the one deadline.\<close>

definition connection_waits ::
  "('w, 'z) outside_scheme \<Rightarrow> ('w, 'y) link_node_scheme \<Rightarrow> ('w, 'y) link_node_scheme
    \<Rightarrow> json list \<Rightarrow> rat \<Rightarrow> ('w timed, unit) loop" where
  "connection_waits os first second before deadline =
     bind_l (wait_for_peer os (ln_id first) (outbound_to (p2p_spelled second)) deadline)
       (\<lambda>first_peer. bind_l (wait_for_peer os (ln_id second) (new_inbound before) deadline)
         (\<lambda>second_peer. bind_l (once (lift_r (json_item first_peer ''id'')))
           (\<lambda>first_id. bind_l (wait_for_handshake os (ln_id first) first_id deadline)
             (\<lambda>_. bind_l (once (lift_r (json_item second_peer ''id'')))
               (\<lambda>second_id. wait_for_handshake os (ln_id second) second_id deadline)))))"

definition connect_nodes ::
  "('w, 'z) outside_scheme \<Rightarrow> factor_state \<Rightarrow> ('w, 'y) link_node_scheme \<Rightarrow> ('w, 'y) link_node_scheme
    \<Rightarrow> rat \<Rightarrow> bool \<Rightarrow> ('w timed, unit) loop" where
  "connect_nodes os st first second timeout v2transport =
     bind_l (once (rpc_call os (ln_id second) ''getpeerinfo'' []))
       (\<lambda>peers. bind_l (once (lift_r (peer_ids peers)))
         (\<lambda>before. bind_l (once (outside_call (ln_dial first (p2p_spelled second) v2transport)))
           (\<lambda>_ s. connection_waits os first second before (clock s + scaled st timeout) s)))"

subsection \<open>Disconnection\<close>

definition gone_body :: "('w, 'z) outside_scheme \<Rightarrow> nat \<Rightarrow> string \<Rightarrow> ('w timed, unit option) act" where
  "gone_body os node address =
     bind_a (rpc_call os node ''getpeerinfo'' [])
       (\<lambda>peers. case peers of
           JList xs \<Rightarrow> bind_a (lift_r (map_r (\<lambda>p. bind_r (json_item p ''addr'') hashed) xs))
             (\<lambda>addrs. ret (if_seen (JStr address \<notin> set addrs)))
         | _ \<Rightarrow> ret None)"

definition wait_until_disconnected ::
  "('w, 'z) outside_scheme \<Rightarrow> factor_state \<Rightarrow> ('w, 'y) link_node_scheme \<Rightarrow> ('w, 'y) link_node_scheme
    \<Rightarrow> rat \<Rightarrow> ('w timed, unit) loop" where
  "wait_until_disconnected os st node peer timeout s =
     poll_or_timeout os (gone_body os (ln_id node) (p2p_spelled peer)) (clock s + scaled st timeout) s"

definition disconnect_nodes ::
  "('w, 'z) outside_scheme \<Rightarrow> factor_state \<Rightarrow> ('w, 'y) link_node_scheme \<Rightarrow> ('w, 'y) link_node_scheme
    \<Rightarrow> rat \<Rightarrow> ('w timed, unit) loop" where
  "disconnect_nodes os st first second timeout =
     bind_l (once (rpc_call os (ln_id first) ''disconnectnode'' [JStr (p2p_spelled second)]))
       (\<lambda>_. wait_until_disconnected os st first second timeout)"

subsection \<open>Agreement\<close>

text \<open>One call per node, in order, its answer read at once; the first that raises ends the round.\<close>

fun call_each ::
  "('w, 'z) outside_scheme \<Rightarrow> string \<Rightarrow> (json \<Rightarrow> 'a result) \<Rightarrow> nat list \<Rightarrow> ('w timed, 'a list) act" where
  "call_each os method read [] = ret []"
| "call_each os method read (n # ns) =
     bind_a (rpc_call os n method [])
       (\<lambda>a. bind_a (lift_r (read a))
         (\<lambda>x. bind_a (call_each os method read ns) (\<lambda>rest. ret (x # rest))))"

text \<open>Whether the set of these values has one element.\<close>

definition agree :: "'a list \<Rightarrow> bool" where
  "agree xs \<longleftrightarrow> (case xs of [] \<Rightarrow> False | x # rest \<Rightarrow> list_all (\<lambda>y. y = x) rest)"

definition tips_body :: "('w, 'z) outside_scheme \<Rightarrow> nat list \<Rightarrow> ('w timed, unit option) act" where
  "tips_body os nodes =
     bind_a (call_each os ''getbestblockhash'' hashed nodes) (\<lambda>hashes. ret (if_seen (agree hashes)))"

definition wait_until_tips_agree ::
  "('w, 'z) outside_scheme \<Rightarrow> factor_state \<Rightarrow> nat list \<Rightarrow> rat \<Rightarrow> ('w timed, unit) loop" where
  "wait_until_tips_agree os st nodes timeout s =
     poll_or_timeout os (tips_body os nodes) (clock s + scaled st timeout) s"

text \<open>\<open>frozenset(answer)\<close>: a list's elements, a dict's keys, a string's characters.\<close>

definition frozen :: "json \<Rightarrow> json set result" where
  "frozen x =
     (case x of
        JList xs \<Rightarrow> bind_r (map_r hashed xs) (\<lambda>ys. Inr (set ys))
      | JObj kvs \<Rightarrow> Inr (set (map (\<lambda>p. JStr (fst p)) kvs))
      | JStr s \<Rightarrow> Inr (set (map (\<lambda>c. JStr [c]) s))
      | _ \<Rightarrow> Inl (TypeError ''object is not iterable''))"

definition mempools_body :: "('w, 'z) outside_scheme \<Rightarrow> nat list \<Rightarrow> ('w timed, unit option) act" where
  "mempools_body os nodes =
     bind_a (call_each os ''getrawmempool'' frozen nodes) (\<lambda>pools. ret (if_seen (agree pools)))"

definition wait_until_mempools_agree ::
  "('w, 'z) outside_scheme \<Rightarrow> factor_state \<Rightarrow> nat list \<Rightarrow> rat \<Rightarrow> ('w timed, unit) loop" where
  "wait_until_mempools_agree os st nodes timeout s =
     poll_or_timeout os (mempools_body os nodes) (clock s + scaled st timeout) s"

definition sync_all ::
  "('w, 'z) outside_scheme \<Rightarrow> factor_state \<Rightarrow> nat list \<Rightarrow> rat \<Rightarrow> ('w timed, unit) loop" where
  "sync_all os st nodes timeout =
     bind_l (wait_until_tips_agree os st nodes timeout)
       (\<lambda>_. wait_until_mempools_agree os st nodes timeout)"

subsection \<open>Each body as a polling body\<close>

lemma timely_call_each [timely_intros]: "timely (call_each os method read ns)"
proof (induction ns)
  case Nil
  show ?case unfolding call_each.simps by (rule timely_intros)
next
  case (Cons n ns)
  then show ?case unfolding call_each.simps by (intro timely_intros)
qed

lemma timely_bodies:
  "timely (peer_body os node predicate)"
  "timely (handshake_body os node peer_id)"
  "timely (gone_body os node address)"
  "timely (tips_body os nodes)"
  "timely (mempools_body os nodes)"
  unfolding peer_body_def handshake_body_def gone_body_def tips_body_def mempools_body_def
  by (auto intro!: timely_intros split: json.split)

interpretation peer_wait: polling os "peer_body os node predicate" for os node predicate
  by unfold_locales (rule timely_bodies)

interpretation handshake_wait: polling os "handshake_body os node peer_id" for os node peer_id
  by unfold_locales (rule timely_bodies)

interpretation gone_wait: polling os "gone_body os node address" for os node address
  by unfold_locales (rule timely_bodies)

interpretation tips_wait: polling os "tips_body os nodes" for os nodes
  by unfold_locales (rule timely_bodies)

interpretation mempools_wait: polling os "mempools_body os nodes" for os nodes
  by unfold_locales (rule timely_bodies)

subsection \<open>What each wait has seen when it returns\<close>

lemma find_peer_Some:
  "find_peer predicate peers = Some p \<Longrightarrow> \<exists>xs. peers = JList xs \<and> p \<in> set xs \<and> is_obj p \<and> predicate p"
  by (auto simp: find_peer_def find_Some_iff split: json.splits)

text \<open>The node answered \<open>getpeerinfo\<close>, before the deadline, with entries of which \<open>P\<close> holds.\<close>

definition saw_peers ::
  "('w, 'z) outside_scheme \<Rightarrow> nat \<Rightarrow> rat \<Rightarrow> (json list \<Rightarrow> bool) \<Rightarrow> 'w timed \<Rightarrow> bool" where
  "saw_peers os node deadline P t \<longleftrightarrow>
     (\<exists>u xs. clock u < deadline \<and> rpc_call os node ''getpeerinfo'' [] u = (Inr (JList xs), t) \<and> P xs)"

lemma wait_for_peer_saw:
  assumes "wait_for_peer os node predicate deadline s = Some (Inr p, t)"
  shows "saw_peers os node deadline (\<lambda>xs. p \<in> set xs \<and> is_obj p \<and> predicate p) t"
proof -
  from assms [unfolded wait_for_peer_def] obtain n u where u: "clock u < deadline"
    and body: "peer_body os node predicate u = (Inr (Some p), t)" by (rule peer_wait.success)
  from body [unfolded peer_body_def] obtain a v where
    "rpc_call os node ''getpeerinfo'' [] u = (Inr a, v)" "ret (find_peer predicate a) v = (Inr (Some p), t)"
    by (rule bind_a_InrD)
  then show ?thesis using u find_peer_Some by (fastforce simp: saw_peers_def)
qed

lemma wait_for_handshake_saw:
  assumes "wait_for_handshake os node peer_id deadline s = Some (Inr x, t)"
  shows "saw_peers os node deadline (\<lambda>xs. handshake_seen peer_id xs = Inr True) t"
proof -
  from assms [unfolded wait_for_handshake_def] obtain n u where u: "clock u < deadline"
    and body: "handshake_body os node peer_id u = (Inr (Some x), t)" by (rule handshake_wait.success)
  from body [unfolded handshake_body_def] obtain a v where
    "rpc_call os node ''getpeerinfo'' [] u = (Inr a, v)"
    and rest: "(case a of
           JList xs \<Rightarrow> bind_a (lift_r (handshake_seen peer_id xs)) (\<lambda>b. ret (if_seen b))
         | _ \<Rightarrow> ret None) v = (Inr (Some x), t)"
    by (rule bind_a_InrD)
  moreover from rest obtain xs where "a = JList xs" "handshake_seen peer_id xs = Inr True" "v = t"
    by (auto simp: bind_a_def if_seen_def split: json.splits sum.splits if_splits)
  ultimately show ?thesis using u by (auto simp: saw_peers_def)
qed

lemma waits_return [returns_intros]:
  "returns (wait_for_peer os node predicate deadline)"
  "returns (wait_for_handshake os node peer_id deadline)"
  "returns (wait_until_disconnected os st n p timeout)"
  "returns (wait_until_tips_agree os st nodes timeout)"
  "returns (wait_until_mempools_agree os st nodes timeout)"
  by (simp_all add: returns_def wait_for_peer_def wait_for_handshake_def wait_until_disconnected_def
      wait_until_tips_agree_def wait_until_mempools_agree_def peer_wait.comes_back_at
      handshake_wait.comes_back_at gone_wait.comes_back_at tips_wait.comes_back_at
      mempools_wait.comes_back_at)

lemma call_each_InrD:
  "call_each os method read ns s = (Inr ys, t) \<Longrightarrow> length ys = length ns"
  by (induction ns arbitrary: s ys) (auto elim!: bind_a_InrD)

lemma agree_iff: "agree xs \<longleftrightarrow> card (set xs) = 1"
proof (cases xs)
  case (Cons x rest)
  have "list_all (\<lambda>y. y = x) rest \<longleftrightarrow> set (x # rest) = {x}" by (auto simp: list_all_iff)
  then show ?thesis by (auto simp: Cons agree_def card_1_singleton_iff)
qed (simp add: agree_def)

lemma agree_round:
  assumes "bind_a (call_each os method read nodes) (\<lambda>xs. ret (if_seen (agree xs))) u = (Inr (Some x), t)"
  shows "\<exists>xs. call_each os method read nodes u = (Inr xs, t) \<and> length xs = length nodes \<and> card (set xs) = 1"
proof -
  from assms obtain xs v where round: "call_each os method read nodes u = (Inr xs, v)"
    and "ret (if_seen (agree xs)) v = (Inr (Some x), t)" by (rule bind_a_InrD)
  then have "v = t" "card (set xs) = 1" by (auto simp: if_seen_def agree_iff split: if_splits)
  then show ?thesis using round call_each_InrD [OF round] by blast
qed

subsection \<open>Properties\<close>

text \<open>
  Every wait between nodes comes back: \<open>connect_nodes\<close>, \<open>wait_until_disconnected\<close>,
  \<open>disconnect_nodes\<close>, \<open>wait_until_tips_agree\<close>, \<open>wait_until_mempools_agree\<close> and \<open>sync_all\<close>
  return or raise, whatever the nodes answer and however long they take to answer.
\<close>

lemma link_waits_return:
  "returns (connect_nodes os st first second timeout v2transport)
   \<and> returns (wait_until_disconnected os st first second timeout)
   \<and> returns (disconnect_nodes os st first second timeout)
   \<and> returns (wait_until_tips_agree os st nodes timeout)
   \<and> returns (wait_until_mempools_agree os st nodes timeout)
   \<and> returns (sync_all os st nodes timeout)"
proof -
  have "returns (connection_waits os first second before deadline)" for before deadline
    unfolding connection_waits_def by (intro returns_intros)
  then have "returns (\<lambda>s. connection_waits os first second before (clock s + scaled st timeout) s)" for before
    unfolding returns_def by blast
  then have "returns (connect_nodes os st first second timeout v2transport)"
    unfolding connect_nodes_def by (intro returns_intros)
  then show ?thesis
    unfolding disconnect_nodes_def sync_all_def by (intro conjI returns_intros)
qed


text \<open>Two nodes: once dialled, each reports the other, the handshake of the first a call later.\<close>

definition pair_entry :: "int \<Rightarrow> string \<Rightarrow> bool \<Rightarrow> int \<Rightarrow> json" where
  "pair_entry i addr inbound pong =
     JObj [(''id'', JInt i), (''addr'', JStr addr), (''inbound'', JBool inbound),
           (''bytesrecv_per_msg'', JObj [(''pong'', JInt pong)])]"

definition pair_outside :: "nat outside" where
  "pair_outside =
     \<lparr>o_sleep = (\<lambda>d n. (0, n)),
      o_rpc = (\<lambda>node m ps n.
        (Inr (JList (pair_entry 7 ''x:1'' True 32 #
           (if n = 0 then [] else [pair_entry (of_nat node) (if node = 0 then ''b:2'' else ''a:50000'') (node = 1)
                                     (if n < 5 then 0 else 32)]))),
         0, if n = 0 then 0 else Suc n))\<rparr>"

definition pair_node :: "nat \<Rightarrow> nat link_node" where
  "pair_node i = \<lparr>ln_id = i, ln_host = (if i = 0 then ''a'' else ''b''), ln_port = i + 1,
                  ln_dial = (\<lambda>address v2 n. (Inr (), 0, 1))\<rparr>"




end
