(* ===== verification/Transactions.thy ===== *)
theory Transactions
  imports Waiting
begin

section \<open>Transactions, blocks and the chain's tip\<close>

text \<open>
  The parts of \<open>mini_wallet.py\<close> outside its class: \<open>Utxo\<close>, \<open>_read_tip\<close>, \<open>_mine_one\<close>,
  \<open>build_fork\<close>, \<open>build_next_block\<close>, \<open>nulldata_script_pub_key\<close>, \<open>_pad_to_vsize\<close>, and the fee of
  \<open>create_self_transfer\<close>. What btclib computes -- ids, sizes, serializations, scripts, subsidy,
  proof of work -- is the record \<open>btclib\<close>, an argument of everything that uses it.
\<close>

subsection \<open>Hexadecimal\<close>

definition hex_digit :: "nat \<Rightarrow> char" where
  "hex_digit d = (if d < 10 then char_of (48 + d) else char_of (87 + d))"

definition hex_val :: "char \<Rightarrow> nat option" where
  "hex_val c =
     (let n = of_char c :: nat
      in if 48 \<le> n \<and> n \<le> 57 then Some (n - 48)
         else if 97 \<le> n \<and> n \<le> 102 then Some (n - 87)
         else if 65 \<le> n \<and> n \<le> 70 then Some (n - 55) else None)"

text \<open>\<open>bytes.hex()\<close>, and \<open>bytes.fromhex\<close>, which skips white space between octets.\<close>

definition hex_of :: "bytes \<Rightarrow> string" where
  "hex_of bs = concat (map (\<lambda>b. [hex_digit (unat b div 16), hex_digit (unat b mod 16)]) bs)"

fun fromhex :: "string \<Rightarrow> bytes option" where
  "fromhex [] = Some []"
| "fromhex (c # cs) =
     (if is_space c then fromhex cs
      else case cs of
          [] \<Rightarrow> None
        | d # ds \<Rightarrow>
            (case (hex_val c, hex_val d) of
               (Some m, Some n) \<Rightarrow> map_option (\<lambda>bs. word_of_nat (16 * m + n) # bs) (fromhex ds)
             | _ \<Rightarrow> None))"

lemma hex_digit_val: "d < 16 \<Longrightarrow> hex_val (hex_digit d) = Some d \<and> \<not> is_space (hex_digit d)"
  by (cases "d < 10") (auto simp: hex_digit_def hex_val_def is_space_def Let_def)

lemma fromhex_hex_of [simp]: "fromhex (hex_of bs) = Some bs"
proof (induction bs)
  case (Cons b bs)
  have "unat b < 256" using unsigned_less [of b] by simp
  then have "unat b div 16 < 16" by simp
  then have "hex_val (hex_digit (unat b div 16)) = Some (unat b div 16)"
    "\<not> is_space (hex_digit (unat b div 16))"
    "hex_val (hex_digit (unat b mod 16)) = Some (unat b mod 16)"
    using hex_digit_val [of "unat b div 16"] hex_digit_val [of "unat b mod 16"] by simp_all
  moreover have "hex_of (b # bs) = hex_digit (unat b div 16) # hex_digit (unat b mod 16) # hex_of bs"
    by (simp add: hex_of_def)
  ultimately show ?case using Cons.IH by simp
qed (simp add: hex_of_def)

lemma hex_of_inject [simp]: "hex_of a = hex_of b \<longleftrightarrow> a = b"
  by (metis fromhex_hex_of option.inject)

subsection \<open>Transactions and blocks\<close>

record outpoint =
  op_txid :: bytes
  op_vout :: nat

record tx_in =
  ti_prev :: outpoint
  ti_sequence :: int
  ti_witness :: "bytes list"

record tx_out =
  to_value :: int
  to_script :: bytes

record tx =
  tx_version :: int
  tx_lock_time :: int
  tx_vin :: "tx_in list"
  tx_vout :: "tx_out list"

record block =
  bk_header :: bytes
  bk_transactions :: "tx list"

record utxo =
  ux_outpoint :: outpoint
  ux_value :: int
  ux_height :: int
  ux_coinbase :: bool

definition utxo_confirmed :: "utxo \<Rightarrow> bool" where
  "utxo_confirmed u \<longleftrightarrow> 0 < ux_height u"

record btclib =
  bl_txid :: "tx \<Rightarrow> bytes"
  bl_vsize :: "tx \<Rightarrow> int"
  bl_serialize :: "tx \<Rightarrow> bytes"
  bl_parse :: "bytes \<Rightarrow> tx result"
  bl_check_tx :: "tx \<Rightarrow> unit result"
  bl_check_out :: "tx_out \<Rightarrow> unit result"
  bl_anyone :: bytes
  bl_witness :: "bytes list"
  bl_op_return_ones :: "nat \<Rightarrow> bytes"
  bl_op_return_push :: "bytes \<Rightarrow> bytes"
  bl_var_int :: "int \<Rightarrow> bytes"
  bl_subsidy :: "int \<Rightarrow> int"
  bl_maturity :: int
  bl_coinbase :: "int \<Rightarrow> bytes \<Rightarrow> tx"
  bl_build_block :: "bytes \<Rightarrow> tx list \<Rightarrow> int \<Rightarrow> int \<Rightarrow> block"
  bl_mine :: "bytes \<Rightarrow> bytes option"
  bl_header_hash :: "bytes \<Rightarrow> bytes"
  bl_serialize_block :: "block \<Rightarrow> bytes"
  bl_version :: int

subsection \<open>Reading the tip\<close>

definition expect :: "('a \<Rightarrow> 'b option) \<Rightarrow> string \<Rightarrow> 'a \<Rightarrow> 'b result" where
  "expect f what x = (case f x of None \<Rightarrow> Inl (TypeError what) | Some y \<Rightarrow> Inr y)"

definition read_tip ::
  "('w, 'z) outside_scheme \<Rightarrow> nat \<Rightarrow> ('w timed, bytes \<times> int \<times> int) act" where
  "read_tip os node =
     bind_a (rpc_call os node ''getbestblockhash'' [])
       (\<lambda>a. bind_a (lift_r (expect as_str ''getbestblockhash answered'' a))
         (\<lambda>best_hash. bind_a (rpc_call os node ''getblockcount'' [])
           (\<lambda>b. bind_a (lift_r (expect as_int ''getblockcount answered'' b))
             (\<lambda>height. bind_a (rpc_call os node ''getblockchaininfo'' [])
               (\<lambda>c. bind_a (lift_r (expect (\<lambda>c. Option.bind (json_get c ''mediantime'') as_int)
                                      ''getblockchaininfo answered'' c))
                 (\<lambda>median_time. lift_r (case fromhex best_hash of
                     None \<Rightarrow> Inl (ValueError ''non-hexadecimal number found'')
                   | Some tip \<Rightarrow> Inr (tip, height, median_time))))))))"

subsection \<open>Mining a block\<close>

text \<open>The wall clock, in whole seconds, is one more answer of the world.\<close>

type_synonym 'w wall_clock = "'w \<Rightarrow> int result \<times> rat \<times> 'w"

definition mine_one ::
  "btclib \<Rightarrow> 'w wall_clock \<Rightarrow> bytes \<Rightarrow> int \<Rightarrow> int \<Rightarrow> bytes \<Rightarrow> tx list \<Rightarrow> int \<Rightarrow> bytes option
    \<Rightarrow> int option \<Rightarrow> ('w timed, block \<times> int) act" where
  "mine_one lib now tip height min_time script_pub_key extra_transactions version
      extra_output_script block_time =
     (let coinbase0 = bl_coinbase lib height script_pub_key;
          coinbase = (case extra_output_script of
             None \<Rightarrow> coinbase0
           | Some scr \<Rightarrow> coinbase0\<lparr>tx_vout := tx_vout coinbase0 @ [\<lparr>to_value = 0, to_script = scr\<rparr>]\<rparr>)
      in bind_a (case block_time of
             Some t \<Rightarrow> ret t
           | None \<Rightarrow> bind_a (outside_call now) (\<lambda>t. ret (max t (min_time + 1))))
           (\<lambda>t. let candidate = bl_build_block lib tip (coinbase # extra_transactions) t version
                in case bl_mine lib (bk_header candidate) of
                     None \<Rightarrow> raise (RuntimeError ''no nonce solved'')
                   | Some solved \<Rightarrow> ret (candidate\<lparr>bk_header := solved\<rparr>, t)))"

fun fork_loop ::
  "btclib \<Rightarrow> 'w wall_clock \<Rightarrow> bytes \<Rightarrow> nat \<Rightarrow> bytes \<Rightarrow> int \<Rightarrow> int \<Rightarrow> block list
    \<Rightarrow> ('w timed, block list) act" where
  "fork_loop lib now script_pub_key 0 tip height last_time blocks = ret blocks"
| "fork_loop lib now script_pub_key (Suc k) tip height last_time blocks =
     bind_a (mine_one lib now tip (height + 1) last_time script_pub_key [] (bl_version lib) None None)
       (\<lambda>(block, t). fork_loop lib now script_pub_key k (bl_header_hash lib (bk_header block))
                       (height + 1) t (blocks @ [block]))"

definition build_fork ::
  "('w, 'z) outside_scheme \<Rightarrow> btclib \<Rightarrow> 'w wall_clock \<Rightarrow> nat \<Rightarrow> bytes \<Rightarrow> int
    \<Rightarrow> ('w timed, block list) act" where
  "build_fork os lib now node script_pub_key len =
     bind_a (read_tip os node)
       (\<lambda>(tip, height, median_time).
          fork_loop lib now script_pub_key (nat len) tip height median_time [])"

definition build_next_block ::
  "('w, 'z) outside_scheme \<Rightarrow> btclib \<Rightarrow> 'w wall_clock \<Rightarrow> nat \<Rightarrow> bytes \<Rightarrow> tx list \<Rightarrow> int
    \<Rightarrow> bytes option \<Rightarrow> int option \<Rightarrow> ('w timed, block) act" where
  "build_next_block os lib now node script_pub_key transactions version extra_output_script time =
     bind_a (read_tip os node)
       (\<lambda>(tip, height, median_time).
          bind_a (mine_one lib now tip (height + 1) median_time script_pub_key transactions version
                    extra_output_script time)
            (\<lambda>(block, _). ret block))"

subsection \<open>Padding, and the fee of a size\<close>

definition nulldata_script_pub_key :: "btclib \<Rightarrow> bytes \<Rightarrow> bytes" where
  "nulldata_script_pub_key lib data = bl_op_return_push lib data"

definition pad_to_vsize :: "btclib \<Rightarrow> tx \<Rightarrow> int \<Rightarrow> tx result" where
  "pad_to_vsize lib tx target_vsize =
     (let held = tx\<lparr>tx_vout := tx_vout tx @ [\<lparr>to_value = 0, to_script = bl_op_return_ones lib 0\<rparr>]\<rparr>;
          deficit = target_vsize - bl_vsize lib held
      in if deficit < 0 then Inl (ValueError ''target_vsize is smaller than'')
         else let owed = deficit - (int (length (bl_var_int lib deficit)) - 1)
              in Inr (tx\<lparr>tx_vout := tx_vout tx
                      @ [\<lparr>to_value = 0, to_script = bl_op_return_ones lib (nat owed)\<rparr>]\<rparr>))"

text \<open>\<open>-(-fee_rate * size // 1000)\<close>.\<close>

definition fee_of_size :: "int \<Rightarrow> int \<Rightarrow> int" where
  "fee_of_size fee_rate vsize = - ((- fee_rate * vsize) div 1000)"

subsection \<open>Properties\<close>

text \<open>
  The fee a rate gives a size is the least number of satoshis that is not below it: the
  exact rate, rounded up.
\<close>

lemma fee_of_size_ceiling:
  "fee_of_size fee_rate vsize = \<lceil>of_int (fee_rate * vsize) / (1000 :: rat)\<rceil>
    \<and> fee_rate * vsize \<le> 1000 * fee_of_size fee_rate vsize
    \<and> 1000 * (fee_of_size fee_rate vsize - 1) < fee_rate * vsize"
proof -
  let ?n = "fee_rate * vsize"
  define q where "q = (- ?n) div 1000"
  have "fee_of_size fee_rate vsize = - q" by (simp add: fee_of_size_def q_def)
  moreover have "1000 * q \<le> - ?n" "- ?n < 1000 * q + 1000" unfolding q_def by linarith+
  ultimately have lo: "?n \<le> 1000 * fee_of_size fee_rate vsize"
    and hi: "1000 * (fee_of_size fee_rate vsize - 1) < ?n" by simp_all
  have "(of_int ?n :: rat) \<le> of_int (1000 * fee_of_size fee_rate vsize)"
    "of_int (1000 * (fee_of_size fee_rate vsize - 1)) < (of_int ?n :: rat)"
    using lo hi by (simp_all only: of_int_le_iff of_int_less_iff)
  then have "\<lceil>of_int ?n / (1000 :: rat)\<rceil> = fee_of_size fee_rate vsize"
    by (intro ceiling_unique) (simp_all add: field_simps)
  then show ?thesis using lo hi by simp
qed

text \<open>The length of a compact size.\<close>

definition compact_size_len :: "int \<Rightarrow> int" where
  "compact_size_len n = (if n < 253 then 1 else if n < 65536 then 3 else if n < 4294967296 then 5 else 9)"

definition padded :: "btclib \<Rightarrow> tx \<Rightarrow> nat \<Rightarrow> tx" where
  "padded lib tx n = tx\<lparr>tx_vout := tx_vout tx @ [\<lparr>to_value = 0, to_script = bl_op_return_ones lib n\<rparr>]\<rparr>"

text \<open>
  C26: how exact the padding is. Where a compact size has its protocol length and an output's
  script counts once per octet beside its length prefix, the padded transaction has the
  target size, except at five deficits: it is two virtual bytes too large where 252 are
  missing, and two too small where 253 or 65536 to 65538 are.
\<close>

theorem pad_to_vsize_exactness:
  assumes "\<And>n. int (length (bl_var_int lib n)) = compact_size_len n"
    and "\<And>n. bl_vsize lib (padded lib tx n) =
        bl_vsize lib (padded lib tx 0) + int n + (compact_size_len (int n + 1) - 1)"
    and "deficit = target - bl_vsize lib (padded lib tx 0)"
    and "deficit < 4294967296"
  shows "if deficit < 0 then pad_to_vsize lib tx target = Inl (ValueError ''target_vsize is smaller than'')
    else \<exists>t. pad_to_vsize lib tx target = Inr t \<and> bl_vsize lib t = target +
      (if deficit = 252 then 2 else if deficit \<in> {253, 65536, 65537, 65538} then - 2 else 0)"
proof (cases "deficit < 0")
  case True
  then show ?thesis by (simp add: pad_to_vsize_def padded_def [symmetric] assms(3) Let_def)
next
  case False
  let ?owed = "deficit - (compact_size_len deficit - 1)"
  have "pad_to_vsize lib tx target = Inr (padded lib tx (nat ?owed))"
    using False by (simp add: pad_to_vsize_def padded_def [symmetric] assms(1,3) Let_def)
  moreover have "0 \<le> ?owed" using False by (simp add: compact_size_len_def)
  then have "bl_vsize lib (padded lib tx (nat ?owed)) =
      bl_vsize lib (padded lib tx 0) + ?owed + (compact_size_len (?owed + 1) - 1)"
    by (subst assms(2)) simp
  moreover have "compact_size_len (?owed + 1) = compact_size_len deficit
      + (if deficit = 252 then 2 else if deficit \<in> {253, 65536, 65537, 65538} then - 2 else 0)"
    using False assms(4) by (simp add: compact_size_len_def)
  ultimately show ?thesis using False assms(3) by simp
qed

text \<open>A library whose sizes are the protocol's, scripts and prefixes being all there is.\<close>

definition plain_lib :: btclib where
  "plain_lib = \<lparr>bl_txid = (\<lambda>t. replicate 32 (word_of_nat (length (tx_vout t)))),
     bl_vsize = (\<lambda>t. 104 + sum_list (map (\<lambda>out. 8 + compact_size_len (int (length (to_script out)))
                                               + int (length (to_script out))) (tx_vout t))),
     bl_serialize = (\<lambda>t. []), bl_parse = (\<lambda>b. Inl (BTClibValueError [])), bl_check_tx = (\<lambda>t. Inr ()),
     bl_check_out = (\<lambda>out. if to_value out < 0 then Inl (BTClibValueError ''negative value'') else Inr ()),
     bl_anyone = [81], bl_witness = [], bl_op_return_ones = (\<lambda>n. 106 # replicate n 81),
     bl_op_return_push = (\<lambda>d. 106 # d), bl_var_int = (\<lambda>n. replicate (nat (compact_size_len n)) 0),
     bl_subsidy = (\<lambda>h. 5000000000), bl_maturity = 100,
     bl_coinbase = (\<lambda>h s. \<lparr>tx_version = h, tx_lock_time = 0, tx_vin = [], tx_vout = [\<lparr>to_value = 5000000000, to_script = s\<rparr>]\<rparr>),
     bl_build_block = (\<lambda>p txs t v. \<lparr>bk_header = word_of_int t # p, bk_transactions = txs\<rparr>),
     bl_mine = Some, bl_header_hash = id, bl_serialize_block = bk_header, bl_version = 1\<rparr>"

lemma pad_to_vsize_exactness_witness:
  "\<exists>t. pad_to_vsize plain_lib \<lparr>tx_version = 2, tx_lock_time = 0, tx_vin = [], tx_vout = []\<rparr> 366 = Inr t
      \<and> bl_vsize plain_lib t = 368"
proof -
  let ?tx = "\<lparr>tx_version = 2, tx_lock_time = 0, tx_vin = [], tx_vout = []\<rparr>"
  have one: "int (length (bl_var_int plain_lib n)) = compact_size_len n" for n
    by (simp add: plain_lib_def compact_size_len_def)
  have two: "bl_vsize plain_lib (padded plain_lib ?tx n) =
        bl_vsize plain_lib (padded plain_lib ?tx 0) + int n + (compact_size_len (int n + 1) - 1)" for n
    by (simp add: plain_lib_def padded_def compact_size_len_def)
  have three: "252 = 366 - bl_vsize plain_lib (padded plain_lib ?tx 0)"
    by (simp add: plain_lib_def padded_def compact_size_len_def)
  show ?thesis using pad_to_vsize_exactness [OF one two three] by simp
qed

end
