(* ===== verification/Wallet.thy ===== *)
theory Wallet
  imports Transactions "HOL-Library.Multiset" "HOL-Library.Product_Lexorder"
begin

section \<open>The wallet without a wallet\<close>

text \<open>
  The class \<open>MiniWallet\<close> of \<open>mini_wallet.py\<close>: a cache of coins fed from the blocks it mines
  and the transactions it sends. Its state is the record \<open>wallet\<close> beside the world its node
  answers from; each method is an action on the two, writing what the method has written by
  the time it raises.
\<close>

subsection \<open>State\<close>

record wallet =
  wl_node :: nat
  wl_utxos :: "utxo list"
  wl_scanned :: "bytes set"
  wl_tip :: bytes
  wl_height :: int
  wl_last_time :: int

type_synonym 'w purse = "wallet \<times> 'w timed"

definition in_world :: "('w timed, 'a) act \<Rightarrow> ('w purse, 'a) act" where
  "in_world m s = (case m (snd s) of (r, t) \<Rightarrow> (r, (fst s, t)))"

definition modify :: "(wallet \<Rightarrow> wallet) \<Rightarrow> ('w purse, unit) act" where
  "modify f s = (Inr (), (f (fst s), snd s))"

definition set_utxos :: "utxo list \<Rightarrow> wallet \<Rightarrow> wallet" where
  "set_utxos us w = w\<lparr>wl_utxos := us\<rparr>"

definition wallet_rpc ::
  "('w, 'z) outside_scheme \<Rightarrow> string \<Rightarrow> json list \<Rightarrow> ('w purse, json) act" where
  "wallet_rpc os method params s = in_world (rpc_call os (wl_node (fst s)) method params) s"

definition wallet_init :: "('w, 'z) outside_scheme \<Rightarrow> nat \<Rightarrow> ('w timed, wallet) act" where
  "wallet_init os node =
     bind_a (read_tip os node)
       (\<lambda>(tip, height, last_time).
          ret \<lparr>wl_node = node, wl_utxos = [], wl_scanned = {}, wl_tip = tip, wl_height = height,
               wl_last_time = last_time\<rparr>)"

definition reread_tip :: "('w, 'z) outside_scheme \<Rightarrow> ('w purse, unit) act" where
  "reread_tip os s =
     bind_a (in_world (read_tip os (wl_node (fst s))))
       (\<lambda>(tip, height, last_time).
          modify (\<lambda>w. w\<lparr>wl_tip := tip, wl_height := height, wl_last_time := last_time\<rparr>)) s"

subsection \<open>resync\<close>

definition coin_height :: "int \<Rightarrow> json \<Rightarrow> int result" where
  "coin_height height answer =
     (if answer = JNull then Inr 0
      else case Option.bind (json_get answer ''confirmations'') as_int of
          None \<Rightarrow> Inl (TypeError ''gettxout answered'')
        | Some confirmations \<Rightarrow>
            if confirmations < 1 then Inl (TypeError ''gettxout answered'')
            else Inr (height - confirmations + 1))"

fun resync_loop :: "('w, 'z) outside_scheme \<Rightarrow> nat list \<Rightarrow> ('w purse, unit) act" where
  "resync_loop os [] s = (Inr (), s)"
| "resync_loop os (i # is) s =
     (let u = wl_utxos (fst s) ! i
      in if ux_coinbase u then resync_loop os is s
         else bind_a (wallet_rpc os ''gettxout''
                [JStr (hex_of (op_txid (ux_outpoint u))), JInt (int (op_vout (ux_outpoint u))), JBool False])
              (\<lambda>answer t. case coin_height (wl_height (fst t)) answer of
                  Inl e \<Rightarrow> (Inl e, t)
                | Inr h \<Rightarrow> resync_loop os is
                    (set_utxos ((wl_utxos (fst t))[i := u\<lparr>ux_height := h\<rparr>]) (fst t), snd t)) s)"

definition resync :: "('w, 'z) outside_scheme \<Rightarrow> ('w purse, unit) act" where
  "resync os =
     bind_a (reread_tip os) (\<lambda>_ s. resync_loop os [0..<length (wl_utxos (fst s))] s)"

definition get_balance :: "wallet \<Rightarrow> int" where
  "get_balance w = sum_list (map ux_value (wl_utxos w))"

subsection \<open>What a transaction pays and spends\<close>

definition new_utxos :: "btclib \<Rightarrow> tx \<Rightarrow> utxo list" where
  "new_utxos lib tx =
     map (\<lambda>(vout, out). \<lparr>ux_outpoint = \<lparr>op_txid = bl_txid lib tx, op_vout = vout\<rparr>,
                          ux_value = to_value out, ux_height = 0, ux_coinbase = False\<rparr>)
       (filter (\<lambda>(vout, out). to_script out = bl_anyone lib) (enumerate 0 (tx_vout tx)))"

definition spent_by :: "tx \<Rightarrow> outpoint set" where
  "spent_by tx = set (map ti_prev (tx_vin tx))"

definition unspent :: "outpoint set \<Rightarrow> utxo list \<Rightarrow> utxo list" where
  "unspent spent us = filter (\<lambda>u. ux_outpoint u \<notin> spent) us"

definition scan_tx :: "btclib \<Rightarrow> tx \<Rightarrow> wallet \<Rightarrow> wallet" where
  "scan_tx lib tx w =
     w\<lparr>wl_utxos := unspent (spent_by tx) (wl_utxos w) @ new_utxos lib tx,
       wl_scanned := insert (bl_txid lib tx) (wl_scanned w)\<rparr>"

fun mempool_txs_spend ::
  "('w, 'z) outside_scheme \<Rightarrow> btclib \<Rightarrow> json list \<Rightarrow> outpoint set \<Rightarrow> ('w purse, outpoint set) act" where
  "mempool_txs_spend os lib [] spent = ret spent"
| "mempool_txs_spend os lib (txid # txids) spent =
     bind_a (wallet_rpc os ''getrawtransaction'' [txid])
       (\<lambda>a. bind_a (lift_r (expect as_str ''getrawtransaction answered'' a))
         (\<lambda>tx_hex. bind_a (lift_r (case fromhex tx_hex of
               None \<Rightarrow> Inl (ValueError ''non-hexadecimal number found'') | Some raw \<Rightarrow> bl_parse lib raw))
           (\<lambda>tx. mempool_txs_spend os lib txids (spent \<union> spent_by tx))))"

definition mempool_spends :: "('w, 'z) outside_scheme \<Rightarrow> btclib \<Rightarrow> ('w purse, outpoint set) act" where
  "mempool_spends os lib =
     bind_a (wallet_rpc os ''getrawmempool'' [])
       (\<lambda>a. bind_a (lift_r (expect as_list ''getrawmempool answered'' a))
         (\<lambda>txids. mempool_txs_spend os lib txids {}))"

subsection \<open>generate\<close>

text \<open>Every transaction the block carries, scanned unless a send scanned it.\<close>

fun confirm_txs :: "btclib \<Rightarrow> tx list \<Rightarrow> outpoint set \<Rightarrow> wallet \<Rightarrow> outpoint set \<times> wallet" where
  "confirm_txs lib [] added w = (added, w)"
| "confirm_txs lib (tx # txs) added w =
     (if bl_txid lib tx \<notin> wl_scanned w
      then confirm_txs lib txs (added \<union> set (map ux_outpoint (new_utxos lib tx))) (scan_tx lib tx w)
      else confirm_txs lib txs added (set_utxos (unspent (spent_by tx) (wl_utxos w)) w))"

definition mark_confirmed :: "bytes set \<Rightarrow> int \<Rightarrow> utxo list \<Rightarrow> utxo list" where
  "mark_confirmed ids height us =
     map (\<lambda>u. if op_txid (ux_outpoint u) \<in> ids then u\<lparr>ux_height := height\<rparr> else u) us"

definition coinbase_utxo :: "btclib \<Rightarrow> block \<Rightarrow> int \<Rightarrow> utxo" where
  "coinbase_utxo lib block height =
     \<lparr>ux_outpoint = \<lparr>op_txid = bl_txid lib (hd (bk_transactions block)), op_vout = 0\<rparr>,
      ux_value = bl_subsidy lib height, ux_height = height, ux_coinbase = True\<rparr>"

definition generate_one ::
  "('w, 'z) outside_scheme \<Rightarrow> btclib \<Rightarrow> 'w wall_clock \<Rightarrow> tx list \<Rightarrow> ('w purse, bytes) act" where
  "generate_one os lib now extra s =
     (let height = wl_height (fst s) + 1
      in bind_a (in_world (mine_one lib now (wl_tip (fst s)) height (wl_last_time (fst s))
                   (bl_anyone lib) extra (bl_version lib) None None))
        (\<lambda>(block, block_time).
          bind_a (wallet_rpc os ''submitblock'' [JStr (hex_of (bl_serialize_block lib block))])
          (\<lambda>answer.
            if answer \<noteq> JNull then raise (TypeError ''submitblock refused height'')
            else (\<lambda>t. case confirm_txs lib extra {} (fst t) of
              (added, w) \<Rightarrow>
                let w1 = set_utxos (mark_confirmed (set (map (bl_txid lib) extra)) height (wl_utxos w)) w
                in bind_a
                    (if added \<noteq> {}
                     then bind_a (mempool_spends os lib)
                       (\<lambda>spends. modify (\<lambda>v. set_utxos (unspent (added \<inter> spends) (wl_utxos v)) v))
                     else ret ())
                    (\<lambda>_. bind_a (modify (\<lambda>v. v\<lparr>wl_utxos := wl_utxos v @ [coinbase_utxo lib block height],
                            wl_tip := bl_header_hash lib (bk_header block), wl_height := height,
                            wl_last_time := block_time\<rparr>))
                      (\<lambda>_. ret (bl_header_hash lib (bk_header block))))
                    (w1, snd t)))) s)"

fun generate_loop ::
  "('w, 'z) outside_scheme \<Rightarrow> btclib \<Rightarrow> 'w wall_clock \<Rightarrow> tx list \<Rightarrow> nat \<Rightarrow> bytes list
    \<Rightarrow> ('w purse, bytes list) act" where
  "generate_loop os lib now extra 0 hashes = ret hashes"
| "generate_loop os lib now extra (Suc k) hashes =
     bind_a (generate_one os lib now extra)
       (\<lambda>h. generate_loop os lib now [] k (hashes @ [h]))"

definition generate ::
  "('w, 'z) outside_scheme \<Rightarrow> btclib \<Rightarrow> 'w wall_clock \<Rightarrow> int \<Rightarrow> tx list \<Rightarrow> ('w purse, bytes list) act" where
  "generate os lib now number confirm = generate_loop os lib now confirm (nat number) []"

subsection \<open>Choosing coins\<close>

definition is_mature :: "btclib \<Rightarrow> int \<Rightarrow> utxo \<Rightarrow> bool" where
  "is_mature lib height u \<longleftrightarrow> \<not> ux_coinbase u \<or> bl_maturity lib \<le> height + 1 - ux_height u"

definition coin_key :: "utxo \<Rightarrow> int \<times> int" where
  "coin_key u = (ux_value u, - ux_height u)"

definition coin_candidates ::
  "btclib \<Rightarrow> int \<Rightarrow> string option \<Rightarrow> int option \<Rightarrow> bool \<Rightarrow> utxo list \<Rightarrow> utxo list" where
  "coin_candidates lib height txid vout confirmed_only ordered =
     (let named = (case txid of
             Some x \<Rightarrow> filter (\<lambda>u. hex_of (op_txid (ux_outpoint u)) = x) ordered
           | None \<Rightarrow> filter (is_mature lib height) (rev ordered));
          placed = (case vout of None \<Rightarrow> named | Some v \<Rightarrow> filter (\<lambda>u. int (op_vout (ux_outpoint u)) = v) named)
      in if confirmed_only then filter utxo_confirmed placed else placed)"

definition get_utxo ::
  "btclib \<Rightarrow> string option \<Rightarrow> int option \<Rightarrow> bool \<Rightarrow> bool \<Rightarrow> (wallet, utxo) act" where
  "get_utxo lib txid vout mark_as_spent confirmed_only w =
     (let ordered = sort_key coin_key (wl_utxos w);
          w1 = set_utxos ordered w
      in case coin_candidates lib (wl_height w) txid vout confirmed_only ordered of
           [] \<Rightarrow> (Inl (LookupError (if txid = None then ''no coin of this wallet has matured yet''
                                    else ''no coin of this wallet was paid by txid'')), w1)
         | u # _ \<Rightarrow> (Inr u, if mark_as_spent then set_utxos (remove1 u ordered) w1 else w1))"

definition get_utxos :: "btclib \<Rightarrow> bool \<Rightarrow> bool \<Rightarrow> bool \<Rightarrow> (wallet, utxo list) act" where
  "get_utxos lib include_immature_coinbase mark_as_spent confirmed_only w =
     (Inr (filter (\<lambda>u. (include_immature_coinbase \<or> is_mature lib (wl_height w) u)
                     \<and> (\<not> confirmed_only \<or> utxo_confirmed u)) (wl_utxos w)),
      if mark_as_spent then set_utxos [] w else w)"

subsection \<open>Properties of the choice\<close>

definition coin_fits :: "btclib \<Rightarrow> int \<Rightarrow> string option \<Rightarrow> int option \<Rightarrow> bool \<Rightarrow> utxo \<Rightarrow> bool" where
  "coin_fits lib height txid vout confirmed_only u \<longleftrightarrow>
     (case txid of None \<Rightarrow> is_mature lib height u | Some x \<Rightarrow> hex_of (op_txid (ux_outpoint u)) = x)
     \<and> (case vout of None \<Rightarrow> True | Some v \<Rightarrow> int (op_vout (ux_outpoint u)) = v)
     \<and> (\<not> confirmed_only \<or> utxo_confirmed u)"

lemma coin_candidates_eq:
  "coin_candidates lib height txid vout confirmed_only ordered =
     filter (coin_fits lib height txid vout confirmed_only) (if txid = None then rev ordered else ordered)"
  by (cases txid; cases vout; cases confirmed_only)
    (auto simp: coin_candidates_def coin_fits_def Let_def intro!: filter_cong)

lemma sorted_head_Min:
  assumes "sorted (map f (x # xs))"
  shows "(f x :: 'k :: linorder) = Min (f ` set (x # xs))"
  using assms by (intro Min_eqI [symmetric]) auto

lemma sorted_head_Max:
  assumes "sorted (map f (rev (x # xs)))"
  shows "(f x :: 'k :: linorder) = Max (f ` set (x # xs))"
  using assms by (intro Max_eqI [symmetric]) (auto simp: sorted_append)

lemma sorted_map_filter_rev:
  "sorted (map f xs) \<Longrightarrow> sorted (map f (rev (filter P (rev xs))))"
  by (simp add: rev_filter [symmetric] sorted_filter)

lemma coin_candidates_head:
  assumes "coin_candidates lib height txid vout c (sort_key coin_key us) = u # vs"
  shows "u \<in> set us" and "coin_fits lib height txid vout c u"
    and "coin_key u = (if txid = None then Max else Min)
           (coin_key ` set (filter (coin_fits lib height txid vout c) us))"
proof -
  let ?P = "coin_fits lib height txid vout c" and ?s = "sort_key coin_key us"
  have all: "u # vs = filter ?P (if txid = None then rev ?s else ?s)"
    using assms by (simp add: coin_candidates_eq)
  have set_eq: "set (u # vs) = set (filter ?P us)" unfolding all by simp
  show "u \<in> set us" "?P u" using set_eq by auto
  show "coin_key u = (if txid = None then Max else Min) (coin_key ` set (filter ?P us))"
  proof (cases "txid = None")
    case True
    have "sorted (map coin_key (rev (u # vs)))"
      unfolding all using True sorted_map_filter_rev [of coin_key ?s ?P] by simp
    from sorted_head_Max [OF this] show ?thesis unfolding set_eq using True by simp
  next
    case False
    then obtain x where txid: "txid = Some x" by auto
    have "sorted (map coin_key (u # vs))" unfolding all txid by (simp add: sorted_filter)
    from sorted_head_Min [OF this] show ?thesis unfolding set_eq using txid by simp
  qed
qed


lemma get_utxo_InrD:
  assumes "get_utxo lib txid vout True c w = (Inr u, w')"
  shows "mset (wl_utxos w) = add_mset u (mset (wl_utxos w'))"
    and "w' = set_utxos (wl_utxos w') w"
    and "coin_fits lib (wl_height w) txid vout c u"
proof -
  obtain vs where cand: "coin_candidates lib (wl_height w) txid vout c (sort_key coin_key (wl_utxos w)) = u # vs"
    and w': "w' = set_utxos (remove1 u (sort_key coin_key (wl_utxos w))) w"
    using assms by (auto simp: get_utxo_def set_utxos_def Let_def split: list.splits)
  show "coin_fits lib (wl_height w) txid vout c u" using coin_candidates_head [OF cand] by simp
  show "w' = set_utxos (wl_utxos w') w" unfolding w' set_utxos_def by simp
  have "u \<in># mset (wl_utxos w)" using coin_candidates_head(1) [OF cand] by simp
  then show "mset (wl_utxos w) = add_mset u (mset (wl_utxos w'))"
    unfolding w' set_utxos_def by simp
qed

lemma get_utxo_InlD:
  assumes "get_utxo lib txid vout mark c w = (Inl e, w')"
  shows "mset (wl_utxos w') = mset (wl_utxos w)" and "w' = set_utxos (wl_utxos w') w"
  using assms by (auto simp: get_utxo_def set_utxos_def Let_def split: list.splits)

subsection \<open>Properties of resync\<close>

definition resynced :: "bool \<Rightarrow> int \<Rightarrow> utxo \<Rightarrow> utxo \<Rightarrow> bool" where
  "resynced whole height u v \<longleftrightarrow>
     v = u\<lparr>ux_height := ux_height v\<rparr>
     \<and> (if ux_coinbase u then ux_height v = ux_height u
        else whole \<longrightarrow> ux_height v = 0 \<or> ux_height v \<le> height)"

lemma resynced_refl [simp]: "resynced False h u u" "ux_coinbase u \<Longrightarrow> resynced b h u u"
  by (simp_all add: resynced_def)

lemma resynced_value: "resynced b h u v \<Longrightarrow> ux_value v = ux_value u"
  unfolding resynced_def by (metis utxo.select_convs(2) utxo.surjective utxo.update_convs(3))

lemma coin_height_bound: "coin_height height answer = Inr h \<Longrightarrow> h = 0 \<or> h \<le> height"
  by (auto simp: coin_height_def split: if_splits option.splits)

lemma wallet_rpc_keeps: "wallet_rpc os method params s = (r, t) \<Longrightarrow> fst t = fst s"
  by (auto simp: wallet_rpc_def in_world_def split: prod.splits)

lemma in_world_keeps: "in_world m s = (r, t) \<Longrightarrow> fst t = fst s"
  by (auto simp: in_world_def split: prod.splits)

lemma resync_loop_ConsE:
  assumes "resync_loop os (i # js) (w, s) = (r, (w', s'))"
  obtains (coinbase) "ux_coinbase (wl_utxos w ! i)" and "resync_loop os js (w, s) = (r, (w', s'))"
    | (raised) "r \<noteq> Inr ()" and "w' = w"
    | (asked) h t where "\<not> ux_coinbase (wl_utxos w ! i)" and "h = 0 \<or> h \<le> wl_height w"
        and "resync_loop os js (set_utxos ((wl_utxos w)[i := (wl_utxos w ! i)\<lparr>ux_height := h\<rparr>]) w, t)
               = (r, (w', s'))"
proof (cases "ux_coinbase (wl_utxos w ! i)")
  case True
  then show ?thesis using assms coinbase by (simp add: Let_def)
next
  case False
  let ?u = "wl_utxos w ! i"
  obtain q t where ask: "wallet_rpc os ''gettxout''
      [JStr (hex_of (op_txid (ux_outpoint ?u))), JInt (int (op_vout (ux_outpoint ?u))), JBool False]
      (w, s) = (q, t)" by (rule prod.exhaust)
  obtain t2 where t: "t = (w, t2)" using wallet_rpc_keeps [OF ask] by (cases t) simp
  show ?thesis
  proof (cases q)
    case (Inl e)
    with assms False ask t have "r = Inl e" "w' = w" by (simp_all add: Let_def bind_a_def)
    then show ?thesis using raised by simp
  next
    case (Inr answer)
    show ?thesis
    proof (cases "coin_height (wl_height w) answer")
      case (Inl e)
      with assms False ask t \<open>q = Inr answer\<close> have "r = Inl e" "w' = w"
        by (simp_all add: Let_def bind_a_def)
      then show ?thesis using raised by simp
    next
      case (Inr h)
      then show ?thesis using assms False ask t \<open>q = Inr answer\<close> asked coin_height_bound [OF Inr]
        by (simp add: Let_def bind_a_def)
    qed
  qed
qed

lemma resync_loop_heights:
  assumes "resync_loop os is (w, s) = (r, (w', s'))"
    and "distinct is" and "set is \<subseteq> {..<length (wl_utxos w)}"
  shows "w' = set_utxos (wl_utxos w') w \<and> length (wl_utxos w') = length (wl_utxos w)
    \<and> (\<forall>j < length (wl_utxos w).
         (j \<notin> set is \<longrightarrow> wl_utxos w' ! j = wl_utxos w ! j)
         \<and> resynced (r = Inr () \<and> j \<in> set is) (wl_height w) (wl_utxos w ! j) (wl_utxos w' ! j))"
  using assms
proof (induction "is" arbitrary: w s)
  case Nil
  then show ?case by (simp add: set_utxos_def)
next
  case (Cons i js)
  have js: "distinct js" "set js \<subseteq> {..<length (wl_utxos w)}" "i \<notin> set js" "i < length (wl_utxos w)"
    using Cons.prems(2,3) by auto
  from Cons.prems(1) show ?case
  proof (cases rule: resync_loop_ConsE)
    case coinbase
    from Cons.IH [OF coinbase(2) js(1,2)] coinbase(1) js show ?thesis by (auto simp: resynced_def)
  next
    case raised
    then show ?thesis by (simp add: set_utxos_def)
  next
    case (asked h t)
    let ?w = "set_utxos ((wl_utxos w)[i := (wl_utxos w ! i)\<lparr>ux_height := h\<rparr>]) w"
    have fields: "wl_utxos ?w = (wl_utxos w)[i := (wl_utxos w ! i)\<lparr>ux_height := h\<rparr>]"
      "wl_height ?w = wl_height w" by (simp_all add: set_utxos_def)
    have "set js \<subseteq> {..<length (wl_utxos ?w)}" using js(2) by (simp add: fields)
    from Cons.IH [OF asked(3) js(1) this]
    have shape: "w' = set_utxos (wl_utxos w') w" "length (wl_utxos w') = length (wl_utxos w)"
      and at: "\<And>j. j < length (wl_utxos w) \<Longrightarrow>
          (j \<notin> set js \<longrightarrow> wl_utxos w' ! j = (wl_utxos ?w) ! j)
          \<and> resynced (r = Inr () \<and> j \<in> set js) (wl_height w) (wl_utxos ?w ! j) (wl_utxos w' ! j)"
      by (simp_all add: fields set_utxos_def)
    have "(j \<notin> set (i # js) \<longrightarrow> wl_utxos w' ! j = wl_utxos w ! j)
        \<and> resynced (r = Inr () \<and> j \<in> set (i # js)) (wl_height w) (wl_utxos w ! j) (wl_utxos w' ! j)"
      if "j < length (wl_utxos w)" for j
    proof (cases "j = i")
      case True
      then have "wl_utxos w' ! j = (wl_utxos w ! i)\<lparr>ux_height := h\<rparr>"
        using at [OF that] js(3,4) by (simp add: fields)
      then show ?thesis using True asked(1,2) by (auto simp: resynced_def)
    next
      case False
      then have "wl_utxos ?w ! j = wl_utxos w ! j" by (simp add: fields)
      then show ?thesis using at [OF that] False by simp
    qed
    then show ?thesis using shape by blast
  qed
qed

text \<open>
  Resyncing adds no coin and drops none, keeps their order and values, and touches only the
  height of the coins that are not coinbases; where it returns, each of those is at height 0
  or at one no higher than the tip just read. The balance is the one before.
\<close>

lemma resync_moves_heights:
  "case resync os (w, s) of (r, (w', s')) \<Rightarrow>
     list_all2 (resynced (r = Inr ()) (wl_height w')) (wl_utxos w) (wl_utxos w')
     \<and> get_balance w' = get_balance w \<and> wl_scanned w' = wl_scanned w \<and> wl_node w' = wl_node w"
proof -
  obtain r w' s' where res: "resync os (w, s) = (r, (w', s'))" by (metis prod.exhaust)
  have "list_all2 (resynced (r = Inr ()) (wl_height w')) (wl_utxos w) (wl_utxos w')
      \<and> wl_scanned w' = wl_scanned w \<and> wl_node w' = wl_node w"
  proof -
    obtain q t where Pair: "reread_tip os (w, s) = (q, t)" by (rule prod.exhaust)
    have kept: "wl_utxos (fst t) = wl_utxos w" "wl_scanned (fst t) = wl_scanned w" "wl_node (fst t) = wl_node w"
      using Pair by (auto simp: reread_tip_def bind_a_def modify_def in_world_def split: prod.splits sum.splits)
    show ?thesis
    proof (cases q)
      case (Inl e)
      then have "r = Inl e" "w' = fst t" using res Pair by (auto simp: resync_def bind_a_def)
      then show ?thesis using kept by (simp add: list_all2_same)
    next
      case (Inr u)
      then have "resync_loop os [0..<length (wl_utxos w)] (fst t, snd t) = (r, (w', s'))"
        using res Pair kept by (simp add: resync_def bind_a_def)
      moreover have "set [0..<length (wl_utxos w)] \<subseteq> {..<length (wl_utxos (fst t))}"
        by (auto simp: kept)
      ultimately have *: "w' = set_utxos (wl_utxos w') (fst t)" "length (wl_utxos w') = length (wl_utxos w)"
        and **: "\<And>j. j < length (wl_utxos w) \<Longrightarrow>
          resynced (r = Inr ()) (wl_height (fst t)) (wl_utxos w ! j) (wl_utxos w' ! j)"
        using resync_loop_heights [of os "[0..<length (wl_utxos w)]" "fst t" "snd t" r w' s'] kept(1)
        by simp_all
      have "wl_height w' = wl_height (fst t)" "wl_scanned w' = wl_scanned (fst t)" "wl_node w' = wl_node (fst t)"
        using arg_cong [OF *(1), of wl_height] arg_cong [OF *(1), of wl_scanned] arg_cong [OF *(1), of wl_node]
        by (simp_all add: set_utxos_def)
      then show ?thesis using *(2) ** kept by (simp add: list_all2_conv_all_nth)
    qed
  qed
  moreover from this have "map ux_value (wl_utxos w') = map ux_value (wl_utxos w)"
    by (intro nth_equalityI) (auto simp: list_all2_conv_all_nth intro: resynced_value)
  ultimately show ?thesis by (simp add: res get_balance_def)
qed

subsection \<open>Properties of generate\<close>

lemma mine_one_time:
  assumes "mine_one lib now tip height min_time spk extra v None None s = (Inr (block, t), u)"
  shows "min_time < t"
proof -
  from assms obtain t0 u0 where "bind_a (outside_call now) (\<lambda>t. ret (max t (min_time + 1))) s = (Inr t0, u0)"
    and t: "t = t0"
    unfolding mine_one_def Let_def by (elim bind_a_InrD) (auto split: option.splits)
  then have "min_time + 1 \<le> t0" by (elim bind_a_InrD) auto
  then show ?thesis using t by simp
qed

lemma in_world_InrD:
  assumes "in_world m (w, s) = (Inr x, p)"
  obtains t where "m s = (Inr x, t)" and "p = (w, t)"
  using assms by (auto simp: in_world_def split: prod.splits)

lemma wallet_rpc_pair:
  assumes "wallet_rpc os method params (w, s) = (r, p)"
  obtains t where "p = (w, t)"
  using wallet_rpc_keeps [OF assms] by (cases p) auto

definition advanced :: "btclib \<Rightarrow> wallet \<Rightarrow> block \<Rightarrow> int \<Rightarrow> wallet \<Rightarrow> wallet" where
  "advanced lib w block t v =
     v\<lparr>wl_utxos := wl_utxos v @ [coinbase_utxo lib block (wl_height w + 1)],
       wl_tip := bl_header_hash lib (bk_header block), wl_height := wl_height w + 1, wl_last_time := t\<rparr>"

lemma generate_one_plainE:
  assumes "generate_one os lib now [] (w, s) = (r, (w', s'))"
  obtains (raised) e where "r = Inl e" and "w' = w"
    | (mined) block t where "r = Inr (bl_header_hash lib (bk_header block))" and "wl_last_time w < t"
        and "w' = advanced lib w block t w"
proof -
  let ?mine = "mine_one lib now (wl_tip w) (wl_height w + 1) (wl_last_time w) (bl_anyone lib) []
                 (bl_version lib) None None"
  obtain q p where mine: "in_world ?mine (w, s) = (q, p)" by (rule prod.exhaust)
  obtain p2 where p: "p = (w, p2)" using in_world_keeps [OF mine] by (cases p) simp
  show thesis
  proof (cases q)
    case (Inl e)
    with assms mine p have "r = Inl e" "w' = w" by (simp_all add: generate_one_def Let_def bind_a_def)
    then show thesis by (rule raised)
  next
    case (Inr bt)
    obtain block t where bt: "bt = (block, t)" by (rule prod.exhaust)
    have t: "wl_last_time w < t"
      using mine Inr bt mine_one_time by (auto elim!: in_world_InrD)
    let ?submit = "[JStr (hex_of (bl_serialize_block lib block))]"
    obtain a p3 where sub: "wallet_rpc os ''submitblock'' ?submit (w, p2) = (a, p3)" by (rule prod.exhaust)
    obtain p4 where p3: "p3 = (w, p4)" using sub by (rule wallet_rpc_pair)
    have unmarked: "set_utxos (mark_confirmed {} h (wl_utxos w)) w = w" for h
      by (simp add: set_utxos_def mark_confirmed_def)
    show thesis
    proof (cases "a = Inr JNull")
      case True
      with assms mine p Inr bt sub p3 unmarked
      have "r = Inr (bl_header_hash lib (bk_header block))" "w' = advanced lib w block t w"
        by (auto simp: generate_one_def Let_def bind_a_def modify_def advanced_def)
      then show thesis using t mined by blast
    next
      case False
      with assms mine p Inr bt sub p3 have "\<exists>e. r = Inl e \<and> w' = w"
        by (cases a) (auto simp: generate_one_def Let_def bind_a_def)
      then show thesis using raised by blast
    qed
  qed
qed

definition coinbases_from :: "btclib \<Rightarrow> int \<Rightarrow> utxo list \<Rightarrow> bool" where
  "coinbases_from lib height coins \<longleftrightarrow>
     map ux_height coins = map (\<lambda>i. height + 1 + int i) [0..<length coins]
     \<and> list_all (\<lambda>u. ux_coinbase u \<and> ux_value u = bl_subsidy lib (ux_height u)
                   \<and> op_vout (ux_outpoint u) = 0) coins"

lemma coinbases_from_Cons:
  assumes "coinbases_from lib (height + 1) coins" and "ux_height c = height + 1" and "ux_coinbase c"
    and "ux_value c = bl_subsidy lib (ux_height c)" and "op_vout (ux_outpoint c) = 0"
  shows "coinbases_from lib height (c # coins)"
proof -
  have "map (\<lambda>i. height + 1 + int i) [0..<Suc (length coins)] =
      (height + 1) # map (\<lambda>i. height + 1 + 1 + int i) [0..<length coins]"
    by (simp only: upt_conv_Cons zero_less_Suc list.map map_Suc_upt [symmetric] map_map o_def) simp
  then show ?thesis using assms by (simp add: coinbases_from_def)
qed

lemma generate_loop_plain:
  assumes "generate_loop os lib now [] n hs (w, s) = (r, (w', s'))"
  shows "\<exists>coins. wl_utxos w' = wl_utxos w @ coins \<and> coinbases_from lib (wl_height w) coins
    \<and> wl_height w' = wl_height w + int (length coins)
    \<and> wl_last_time w + int (length coins) \<le> wl_last_time w'
    \<and> wl_scanned w' = wl_scanned w
    \<and> (case r of Inl e \<Rightarrow> length coins < n
       | Inr hashes \<Rightarrow> length coins = n \<and> length hashes = length hs + n
           \<and> (if n = 0 then hashes = hs else last hashes = wl_tip w'))"
  using assms
proof (induction n arbitrary: hs w s)
  case 0
  then have "r = Inr hs" "w' = w" by simp_all
  then show ?case by (intro exI [of _ "[]"]) (simp add: coinbases_from_def)
next
  case (Suc n)
  obtain q w1 s1 where one: "generate_one os lib now [] (w, s) = (q, (w1, s1))" by (metis prod.exhaust)
  from one show ?case
  proof (cases rule: generate_one_plainE)
    case (raised e)
    with Suc.prems one have "r = Inl e" "w' = w" by (simp_all add: bind_a_def)
    then show ?thesis by (intro exI [of _ "[]"]) (simp add: coinbases_from_def)
  next
    case (mined block t)
    let ?h = "bl_header_hash lib (bk_header block)" and ?c = "coinbase_utxo lib block (wl_height w + 1)"
    have "generate_loop os lib now [] n (hs @ [?h]) (w1, s1) = (r, (w', s'))"
      using Suc.prems one mined by (simp add: bind_a_def)
    from Suc.IH [OF this] obtain coins where coins: "wl_utxos w' = wl_utxos w1 @ coins"
      "coinbases_from lib (wl_height w1) coins" "wl_height w' = wl_height w1 + int (length coins)"
      "wl_last_time w1 + int (length coins) \<le> wl_last_time w'" "wl_scanned w' = wl_scanned w1"
      "case r of Inl e \<Rightarrow> length coins < n
       | Inr hashes \<Rightarrow> length coins = n \<and> length hashes = length (hs @ [?h]) + n
           \<and> (if n = 0 then hashes = hs @ [?h] else last hashes = wl_tip w')" by blast
    have w1: "wl_utxos w1 = wl_utxos w @ [?c]" "wl_height w1 = wl_height w + 1" "wl_last_time w1 = t"
      "wl_scanned w1 = wl_scanned w" "wl_tip w1 = ?h" by (simp_all add: mined(3) advanced_def)
    have tip: "n = 0 \<Longrightarrow> r = Inr hashes \<Longrightarrow> wl_tip w' = ?h" for hashes
      using \<open>generate_loop os lib now [] n (hs @ [?h]) (w1, s1) = (r, (w', s'))\<close> w1(5) by simp
    have "coinbases_from lib (wl_height w) (?c # coins)"
      using coins(2) by (intro coinbases_from_Cons) (simp_all add: w1 coinbase_utxo_def)
    then show ?thesis using coins w1 mined(2) tip
      by (intro exI [of _ "?c # coins"]) (auto split: sum.splits if_splits)
  qed
qed

text \<open>
  Mining \<open>number\<close> blocks that confirm nothing advances the tip by exactly as many blocks as
  it caches coinbases, each at the next height and worth that height's subsidy, appended to the
  cache in order; every block is later than the one before. Where it returns it mined all of
  them and the last hash is the new tip; where it raises it mined fewer and what it mined stays.
\<close>

lemma generate_mines:
  "case generate os lib now number [] (w, s) of (r, (w', s')) \<Rightarrow>
     let mined = drop (length (wl_utxos w)) (wl_utxos w')
     in wl_utxos w' = wl_utxos w @ mined \<and> coinbases_from lib (wl_height w) mined
       \<and> wl_height w' = wl_height w + int (length mined)
       \<and> wl_last_time w + int (length mined) \<le> wl_last_time w'
       \<and> wl_scanned w' = wl_scanned w
       \<and> (case r of
            Inl e \<Rightarrow> length mined < nat number
          | Inr hashes \<Rightarrow> length mined = nat number \<and> length hashes = nat number
              \<and> (if hashes = [] then w' = w else last hashes = wl_tip w'))"
proof -
  obtain r w' s' where gen: "generate os lib now number [] (w, s) = (r, (w', s'))" by (metis prod.exhaust)
  have none: "nat number = 0 \<Longrightarrow> w' = w" using gen by (simp add: generate_def)
  from generate_loop_plain [OF gen [unfolded generate_def]] obtain coins
    where "wl_utxos w' = wl_utxos w @ coins" and rest: "coinbases_from lib (wl_height w) coins"
    "wl_height w' = wl_height w + int (length coins)"
    "wl_last_time w + int (length coins) \<le> wl_last_time w'" "wl_scanned w' = wl_scanned w"
    "case r of Inl e \<Rightarrow> length coins < nat number
       | Inr hashes \<Rightarrow> length coins = nat number \<and> length hashes = length ([] :: bytes list) + nat number
           \<and> (if nat number = 0 then hashes = [] else last hashes = wl_tip w')" by blast
  then have mined: "drop (length (wl_utxos w)) (wl_utxos w') = coins" by simp
  have "case r of Inl e \<Rightarrow> length coins < nat number
      | Inr hashes \<Rightarrow> length coins = nat number \<and> length hashes = nat number
          \<and> (if hashes = [] then w' = w else last hashes = wl_tip w')"
    using rest(5) none by (auto split: sum.splits if_splits)
  then show ?thesis
    unfolding gen Let_def case_prod_conv mined using rest(1-4) \<open>wl_utxos w' = wl_utxos w @ coins\<close> by blast
qed

subsection \<open>Properties of confirming\<close>

definition pays :: "btclib \<Rightarrow> tx \<Rightarrow> outpoint set" where
  "pays lib tx = set (map ux_outpoint (new_utxos lib tx))"

definition cached :: "wallet \<Rightarrow> outpoint set" where
  "cached w = set (map ux_outpoint (wl_utxos w))"

text \<open>No transaction spends an output of itself or of one that follows it.\<close>

fun in_order :: "btclib \<Rightarrow> tx list \<Rightarrow> bool" where
  "in_order lib [] = True"
| "in_order lib (tx # txs) = (list_all (\<lambda>b. spent_by tx \<inter> pays lib b = {}) (tx # txs) \<and> in_order lib txs)"

definition fresh_coins :: "btclib \<Rightarrow> bytes set \<Rightarrow> tx list \<Rightarrow> outpoint set" where
  "fresh_coins lib scanned txs =
     \<Union> (pays lib ` set (filter (\<lambda>tx. bl_txid lib tx \<notin> scanned) txs))"

lemma cached_unspent: "cached (set_utxos (unspent spent us) w) = set (map ux_outpoint us) - spent"
  by (auto simp: cached_def set_utxos_def unspent_def)

lemma cached_scan_tx: "cached (scan_tx lib tx w) = (cached w - spent_by tx) \<union> pays lib tx"
  by (auto simp: cached_def scan_tx_def unspent_def pays_def)

lemma cached_mark [simp]: "map ux_outpoint (mark_confirmed ids h us) = map ux_outpoint us"
  by (simp add: mark_confirmed_def)

lemma cached_advanced:
  "cached (advanced lib w block t v) =
     insert (ux_outpoint (coinbase_utxo lib block (wl_height w + 1))) (cached v)"
  by (simp add: cached_def advanced_def)

lemma fresh_coins_Cons_old:
  "bl_txid lib tx \<in> scanned \<Longrightarrow> fresh_coins lib scanned (tx # txs) = fresh_coins lib scanned txs"
  by (simp add: fresh_coins_def)

lemma fresh_coins_Cons_new:
  assumes "inj_on (bl_txid lib) (set (tx # txs))" and "bl_txid lib tx \<notin> scanned"
  shows "fresh_coins lib scanned (tx # txs) = pays lib tx \<union> fresh_coins lib (insert (bl_txid lib tx) scanned) txs"
proof -
  have "bl_txid lib b = bl_txid lib tx \<Longrightarrow> b = tx" if "b \<in> set txs" for b
    using inj_onD [OF assms(1), of b tx] that by simp
  then show ?thesis using assms(2) by (auto simp: fresh_coins_def)
qed

lemma in_order_spent_fresh:
  assumes "in_order lib (tx # txs)"
  shows "spent_by tx \<inter> pays lib tx = {}" and "spent_by tx \<inter> fresh_coins lib scanned txs = {}"
  using assms by (auto simp: fresh_coins_def list_all_iff)

lemma confirm_txs_effect:
  assumes "confirm_txs lib txs added w = (added', w')" and "in_order lib txs"
    and "inj_on (bl_txid lib) (set txs)"
  shows "added' = added \<union> fresh_coins lib (wl_scanned w) txs
    \<and> cached w' = (cached w \<union> fresh_coins lib (wl_scanned w) txs) - \<Union> (spent_by ` set txs)
    \<and> wl_scanned w' = wl_scanned w \<union> bl_txid lib ` set txs"
  using assms
proof (induction txs arbitrary: added w)
  case Nil
  then show ?case by (simp add: fresh_coins_def)
next
  case (Cons tx txs)
  have rest: "in_order lib txs" "inj_on (bl_txid lib) (set txs)" using Cons.prems(2,3) by auto
  note apart = in_order_spent_fresh [OF Cons.prems(2)]
  show ?case
  proof (cases "bl_txid lib tx \<in> wl_scanned w")
    case True
    let ?w = "set_utxos (unspent (spent_by tx) (wl_utxos w)) w"
    have "confirm_txs lib txs added ?w = (added', w')" using Cons.prems(1) True by simp
    moreover have "wl_scanned ?w = wl_scanned w" "cached ?w = cached w - spent_by tx"
      by (auto simp: set_utxos_def unspent_def cached_def)
    ultimately show ?thesis using Cons.IH [of added ?w] rest True apart(2)
      by (auto simp: fresh_coins_Cons_old)
  next
    case False
    let ?w = "scan_tx lib tx w"
    have "confirm_txs lib txs (added \<union> pays lib tx) ?w = (added', w')"
      using Cons.prems(1) False by (simp add: pays_def)
    moreover have "wl_scanned ?w = insert (bl_txid lib tx) (wl_scanned w)" by (simp add: scan_tx_def)
    ultimately show ?thesis using Cons.IH [of "added \<union> pays lib tx" ?w] rest apart
      unfolding fresh_coins_Cons_new [OF Cons.prems(3) False] cached_scan_tx by auto
  qed
qed

lemma confirm_txs_keeps:
  "confirm_txs lib txs added w = (added', w') \<Longrightarrow>
    wl_node w' = wl_node w \<and> wl_height w' = wl_height w \<and> wl_tip w' = wl_tip w"
  by (induction txs arbitrary: added w) (auto simp: scan_tx_def set_utxos_def split: if_splits)

definition keeps_wallet :: "('w purse, 'a) act \<Rightarrow> bool" where
  "keeps_wallet m \<longleftrightarrow> (\<forall>s r t. m s = (r, t) \<longrightarrow> fst t = fst s)"

lemma keeps_wallet_intros:
  "keeps_wallet (wallet_rpc os method params)" "keeps_wallet (ret x)" "keeps_wallet (lift_r q)"
  "keeps_wallet m \<Longrightarrow> (\<And>x. keeps_wallet (f x)) \<Longrightarrow> keeps_wallet (bind_a m f)"
  unfolding keeps_wallet_def
     apply (blast dest: wallet_rpc_keeps, simp, simp)
  by (auto simp: bind_a_def split: prod.splits sum.splits) (metis fst_conv)+

lemma mempool_txs_spend_keeps: "keeps_wallet (mempool_txs_spend os lib txids spent)"
  by (induction txids arbitrary: spent) (auto intro!: keeps_wallet_intros)

lemma mempool_spends_keeps: "mempool_spends os lib s = (r, t) \<Longrightarrow> fst t = fst s"
proof -
  have "keeps_wallet (mempool_spends os lib)"
    unfolding mempool_spends_def by (intro keeps_wallet_intros mempool_txs_spend_keeps)
  then show "mempool_spends os lib s = (r, t) \<Longrightarrow> fst t = fst s"
    unfolding keeps_wallet_def by blast
qed

lemma generate_one_InrE:
  assumes "generate_one os lib now extra (w, s) = (Inr h, (w', s'))"
  obtains block t added w1 spends where "h = bl_header_hash lib (bk_header block)"
    and "wl_last_time w < t" and "confirm_txs lib extra {} w = (added, w1)"
    and "if added = {} then spends = {} else \<exists>p q. mempool_spends os lib p = (Inr spends, q)"
    and "w' = advanced lib w block t (set_utxos (unspent (added \<inter> spends)
           (mark_confirmed (set (map (bl_txid lib) extra)) (wl_height w + 1) (wl_utxos w1))) w1)"
proof -
  let ?mine = "mine_one lib now (wl_tip w) (wl_height w + 1) (wl_last_time w) (bl_anyone lib) extra
                 (bl_version lib) None None"
  obtain added w1 where conf: "confirm_txs lib extra {} w = (added, w1)" by (rule prod.exhaust)
  let ?w1 = "set_utxos (mark_confirmed (set (map (bl_txid lib) extra)) (wl_height w + 1) (wl_utxos w1)) w1"
  obtain block t p where mine: "in_world ?mine (w, s) = (Inr (block, t), (w, p))"
    using assms in_world_keeps [of ?mine "(w, s)"]
    by (auto simp: generate_one_def Let_def elim!: bind_a_InrD)
  then have time: "wl_last_time w < t" using mine_one_time by (auto elim!: in_world_InrD)
  let ?submit = "[JStr (hex_of (bl_serialize_block lib block))]"
  obtain a p3 where sub: "wallet_rpc os ''submitblock'' ?submit (w, p) = (a, p3)" by (rule prod.exhaust)
  obtain p4 where p3: "p3 = (w, p4)" using sub by (rule wallet_rpc_pair)
  have a: "a = Inr JNull"
    using assms mine sub by (cases a) (auto simp: generate_one_def Let_def bind_a_def split: if_splits)
  show thesis
  proof (cases "added = {}")
    case True
    with assms mine sub p3 a conf
    have "h = bl_header_hash lib (bk_header block)" "w' = advanced lib w block t ?w1"
      by (auto simp: generate_one_def Let_def bind_a_def modify_def advanced_def)
    moreover have "unspent ({} \<inter> {}) us = us" for us by (simp add: unspent_def)
    ultimately show thesis using that [OF _ time conf, of block "{}"] True by simp
  next
    case False
    obtain q t5 where mem: "mempool_spends os lib (?w1, p4) = (q, t5)" by (rule prod.exhaust)
    obtain p5 where t5: "t5 = (?w1, p5)" using mempool_spends_keeps [OF mem] by (cases t5) simp
    from False assms mine sub p3 a conf mem obtain spends where q: "q = Inr spends"
      by (cases q) (auto simp: generate_one_def Let_def bind_a_def)
    with False assms mine sub p3 a conf mem t5
    have "h = bl_header_hash lib (bk_header block)"
      "w' = advanced lib w block t (set_utxos (unspent (added \<inter> spends) (wl_utxos ?w1)) ?w1)"
      by (auto simp: generate_one_def Let_def bind_a_def modify_def advanced_def)
    moreover have "set_utxos us ?w1 = set_utxos us w1" "wl_utxos ?w1 =
        mark_confirmed (set (map (bl_txid lib) extra)) (wl_height w + 1) (wl_utxos w1)" for us
      by (simp_all add: set_utxos_def)
    moreover have "if added = {} then spends = {} else \<exists>p q. mempool_spends os lib p = (Inr spends, q)"
      using False mem unfolding q by (metis (no_types))
    ultimately show thesis using that [OF _ time conf, of block spends] by simp
  qed
qed


text \<open>A node that takes every block, its mempool empty, and a wallet holding one coin.\<close>

definition calm_node :: "unit outside" where
  "calm_node = \<lparr>o_sleep = (\<lambda>d w. (0, w)),
     o_rpc = (\<lambda>node method params w. (Inr (if method = ''getrawmempool'' then JList [] else JNull), 0, w))\<rparr>"

definition sample_coin :: utxo where
  "sample_coin = \<lparr>ux_outpoint = \<lparr>op_txid = [9], op_vout = 0\<rparr>, ux_value = 5000, ux_height = 3, ux_coinbase = False\<rparr>"

definition sample_wallet :: wallet where
  "sample_wallet = \<lparr>wl_node = 0, wl_utxos = [sample_coin], wl_scanned = {}, wl_tip = [7], wl_height = 3,
     wl_last_time = 50\<rparr>"

definition sample_tx :: tx where
  "sample_tx = \<lparr>tx_version = 2, tx_lock_time = 0,
     tx_vin = [\<lparr>ti_prev = ux_outpoint sample_coin, ti_sequence = 0, ti_witness = []\<rparr>],
     tx_vout = [\<lparr>to_value = 1000, to_script = [81]\<rparr>, \<lparr>to_value = 3000, to_script = [106]\<rparr>]\<rparr>"

definition new_years_clock :: "unit wall_clock" where
  "new_years_clock w = (Inr 40, 0, w)"


end
