(* ===== verification/Transfers.thy ===== *)
theory Transfers
  imports Wallet
begin

section \<open>Making and sending transfers\<close>

text \<open>
  The methods of \<open>MiniWallet\<close> that spend: \<open>create_self_transfer\<close>, its \<open>_multi\<close> and
  \<open>_chain\<close> variants, \<open>_send\<close>, the \<open>send_*\<close> methods over it, and \<open>send_to\<close>. Building a
  transaction reads the cache only through \<open>get_utxo\<close>; sending one is a node's answer and
  \<open>_scan_tx\<close>. The keyword arguments of a method are a record.
\<close>

subsection \<open>Building a transfer\<close>

definition FEE :: int where "FEE = 1000"

definition DEFAULT_FEE_RATE :: int where "DEFAULT_FEE_RATE = 300000"

text \<open>\<open>int | Sequence[int]\<close>.\<close>

datatype seq_arg = OneSeq int | ManySeq "int list"

fun sequences_of :: "nat \<Rightarrow> seq_arg \<Rightarrow> int list" where
  "sequences_of n (OneSeq s) = replicate n s"
| "sequences_of n (ManySeq ss) = ss"

definition self_transfer_tx ::
  "btclib \<Rightarrow> utxo list \<Rightarrow> int \<Rightarrow> int \<Rightarrow> int \<Rightarrow> int \<Rightarrow> seq_arg \<Rightarrow> tx result" where
  "self_transfer_tx lib utxos amount_per_output num_outputs version locktime seqs =
     (let sequences = sequences_of (length utxos) seqs
      in if length sequences \<noteq> length utxos then Inl (ValueError ''sequence(s) for coin(s)'')
         else let tx = \<lparr>tx_version = version, tx_lock_time = locktime,
                tx_vin = map (\<lambda>(u, s). \<lparr>ti_prev = ux_outpoint u, ti_sequence = s,
                                        ti_witness = bl_witness lib\<rparr>) (zip utxos sequences),
                tx_vout = replicate (nat num_outputs)
                  \<lparr>to_value = amount_per_output, to_script = bl_anyone lib\<rparr>\<rparr>
              in bind_r (bl_check_tx lib tx) (\<lambda>_. Inr tx))"

text \<open>The keywords of \<open>create_self_transfer\<close>, and those of \<open>create_self_transfer_multi\<close>.\<close>

record transfer =
  tr_fee_rate :: int
  tr_fee :: int
  tr_utxo :: "utxo option"
  tr_target_vsize :: int
  tr_confirmed_only :: bool
  tr_version :: int
  tr_locktime :: int
  tr_sequence :: seq_arg

definition plain_transfer :: transfer where
  "plain_transfer = \<lparr>tr_fee_rate = DEFAULT_FEE_RATE, tr_fee = 0, tr_utxo = None, tr_target_vsize = 0,
     tr_confirmed_only = False, tr_version = 2, tr_locktime = 0, tr_sequence = OneSeq 0\<rparr>"

record multi =
  mu_utxos :: "utxo list option"
  mu_num_outputs :: int
  mu_version :: int
  mu_locktime :: int
  mu_sequence :: seq_arg
  mu_fee_per_output :: int
  mu_target_vsize :: int
  mu_confirmed_only :: bool

text \<open>The fee a transfer pays, and the transaction it makes of one coin.\<close>

definition transfer_fee :: "btclib \<Rightarrow> transfer \<Rightarrow> tx \<Rightarrow> int" where
  "transfer_fee lib a tx =
     (if tr_fee a = 0
      then fee_of_size (tr_fee_rate a)
             (if tr_target_vsize a \<noteq> 0 then tr_target_vsize a else bl_vsize lib tx)
      else tr_fee a)"

definition transfer_of :: "btclib \<Rightarrow> transfer \<Rightarrow> utxo \<Rightarrow> tx result" where
  "transfer_of lib a u =
     bind_r (self_transfer_tx lib [u] 0 1 (tr_version a) (tr_locktime a) (tr_sequence a))
       (\<lambda>tx. let fee = transfer_fee lib a tx
             in if ux_value u \<le> fee then Inl (ValueError ''coin cannot cover the fee'')
                else let out = \<lparr>to_value = ux_value u - fee, to_script = bl_anyone lib\<rparr>
                  in bind_r (bl_check_out lib out)
                      (\<lambda>_. let paying = tx\<lparr>tx_vout := (tx_vout tx)[0 := out]\<rparr>
                           in if tr_target_vsize a \<noteq> 0 then pad_to_vsize lib paying (tr_target_vsize a)
                              else Inr paying))"

definition create_self_transfer :: "btclib \<Rightarrow> transfer \<Rightarrow> (wallet, tx) act" where
  "create_self_transfer lib a =
     (if tr_fee_rate a < 0 \<or> tr_fee a < 0 then raise (ValueError ''fee_rate and fee must not be negative'')
      else bind_a (case tr_utxo a of
               Some u \<Rightarrow> ret u
             | None \<Rightarrow> get_utxo lib None None True (tr_confirmed_only a))
             (\<lambda>u. lift_r (transfer_of lib a u)))"

definition multi_of :: "btclib \<Rightarrow> multi \<Rightarrow> utxo list \<Rightarrow> tx result" where
  "multi_of lib a utxos =
     (let inputs_total = sum_list (map ux_value utxos);
          amount_per_output = (inputs_total - mu_fee_per_output a * mu_num_outputs a) div mu_num_outputs a
      in if mu_num_outputs a = 0 then Inl ZeroDivisionError
         else if amount_per_output \<le> 0 then Inl (ValueError ''does not cover the output(s)'')
         else bind_r (self_transfer_tx lib utxos amount_per_output (mu_num_outputs a)
                        (mu_version a) (mu_locktime a) (mu_sequence a))
                (\<lambda>tx. if mu_target_vsize a \<noteq> 0 then pad_to_vsize lib tx (mu_target_vsize a) else Inr tx))"

definition create_self_transfer_multi :: "btclib \<Rightarrow> multi \<Rightarrow> (wallet, tx) act" where
  "create_self_transfer_multi lib a =
     bind_a (case mu_utxos a of
         Some us \<Rightarrow> ret us
       | None \<Rightarrow> bind_a (get_utxo lib None None True (mu_confirmed_only a)) (\<lambda>u. ret [u]))
       (\<lambda>us. lift_r (multi_of lib a us))"

text \<open>\<open>self.new_utxos(tx)[0]\<close> raises \<open>IndexError\<close> where the transaction pays nothing back.\<close>

fun chain_loop :: "btclib \<Rightarrow> nat \<Rightarrow> utxo option \<Rightarrow> tx list \<Rightarrow> (wallet, tx list) act" where
  "chain_loop lib 0 u chain = ret chain"
| "chain_loop lib (Suc k) u chain =
     bind_a (create_self_transfer lib (plain_transfer\<lparr>tr_utxo := u\<rparr>))
       (\<lambda>tx. case new_utxos lib tx of
           [] \<Rightarrow> raise (IndexError ''list index out of range'')
         | v # _ \<Rightarrow> chain_loop lib k (Some v) (chain @ [tx]))"

definition create_self_transfer_chain :: "btclib \<Rightarrow> int \<Rightarrow> utxo option \<Rightarrow> (wallet, tx list) act" where
  "create_self_transfer_chain lib chain_length u = chain_loop lib (nat chain_length) u []"

subsection \<open>Sending\<close>

definition in_wallet :: "(wallet, 'a) act \<Rightarrow> ('w purse, 'a) act" where
  "in_wallet m s = (case m (fst s) of (r, w) \<Rightarrow> (r, (w, snd s)))"

definition send_tx :: "('w, 'z) outside_scheme \<Rightarrow> btclib \<Rightarrow> tx \<Rightarrow> ('w purse, tx) act" where
  "send_tx os lib tx =
     bind_a (wallet_rpc os ''sendrawtransaction'' [JStr (hex_of (bl_serialize lib tx)), JInt 0])
       (\<lambda>txid. if txid \<noteq> JStr (hex_of (bl_txid lib tx))
               then raise (TypeError ''sendrawtransaction answered'')
               else bind_a (modify (scan_tx lib tx)) (\<lambda>_. ret tx))"

definition send_self_transfer ::
  "('w, 'z) outside_scheme \<Rightarrow> btclib \<Rightarrow> transfer \<Rightarrow> ('w purse, tx) act" where
  "send_self_transfer os lib a = bind_a (in_wallet (create_self_transfer lib a)) (send_tx os lib)"

definition send_self_transfer_multi ::
  "('w, 'z) outside_scheme \<Rightarrow> btclib \<Rightarrow> multi \<Rightarrow> ('w purse, tx) act" where
  "send_self_transfer_multi os lib a =
     bind_a (in_wallet (create_self_transfer_multi lib a)) (send_tx os lib)"

fun send_each :: "('w, 'z) outside_scheme \<Rightarrow> btclib \<Rightarrow> tx list \<Rightarrow> ('w purse, unit) act" where
  "send_each os lib [] = ret ()"
| "send_each os lib (tx # txs) = bind_a (send_tx os lib tx) (\<lambda>_. send_each os lib txs)"

definition send_self_transfer_chain ::
  "('w, 'z) outside_scheme \<Rightarrow> btclib \<Rightarrow> int \<Rightarrow> utxo option \<Rightarrow> ('w purse, tx list) act" where
  "send_self_transfer_chain os lib chain_length u =
     bind_a (in_wallet (create_self_transfer_chain lib chain_length u))
       (\<lambda>chain. bind_a (send_each os lib chain) (\<lambda>_. ret chain))"

definition payment_of :: "btclib \<Rightarrow> bytes \<Rightarrow> int \<Rightarrow> utxo \<Rightarrow> tx result" where
  "payment_of lib script_pub_key value u =
     (if ux_value u < value + FEE then Inl (ValueError ''coin cannot cover the value plus the fee'')
      else bind_r (self_transfer_tx lib [u] (ux_value u - value - FEE) 1 2 0 (OneSeq 0))
        (\<lambda>tx. let out = \<lparr>to_value = value, to_script = script_pub_key\<rparr>
              in bind_r (bl_check_out lib out) (\<lambda>_. Inr (tx\<lparr>tx_vout := tx_vout tx @ [out]\<rparr>))))"

definition send_to ::
  "('w, 'z) outside_scheme \<Rightarrow> btclib \<Rightarrow> bytes \<Rightarrow> int \<Rightarrow> ('w purse, tx) act" where
  "send_to os lib script_pub_key value =
     bind_a (in_wallet (bind_a (get_utxo lib None None True False)
                          (\<lambda>u. lift_r (payment_of lib script_pub_key value u))))
       (send_tx os lib)"

subsection \<open>What sending does to the cache\<close>

lemma balance_scan_tx:
  "get_balance (scan_tx lib tx w) = get_balance w
     - sum_list (map ux_value (filter (\<lambda>u. ux_outpoint u \<in> spent_by tx) (wl_utxos w)))
     + sum_list (map ux_value (new_utxos lib tx))"
proof -
  have "sum_list (map ux_value us) =
      sum_list (map ux_value (filter (\<lambda>u. ux_outpoint u \<in> S) us)) + sum_list (map ux_value (unspent S us))"
    for S us by (induction us) (auto simp: unspent_def)
  from this [of "wl_utxos w" "spent_by tx"] show ?thesis by (simp add: get_balance_def scan_tx_def)
qed

lemma send_tx_cases:
  assumes "send_tx os lib tx (w, s) = (r, (w', s'))"
  obtains (refused) e where "r = Inl e" and "w' = w"
      and "fst (wallet_rpc os ''sendrawtransaction'' [JStr (hex_of (bl_serialize lib tx)), JInt 0] (w, s))
             \<noteq> Inr (JStr (hex_of (bl_txid lib tx)))"
    | (accepted) "r = Inr tx" and "w' = scan_tx lib tx w"
      and "fst (wallet_rpc os ''sendrawtransaction'' [JStr (hex_of (bl_serialize lib tx)), JInt 0] (w, s))
             = Inr (JStr (hex_of (bl_txid lib tx)))"
proof -
  let ?ask = "wallet_rpc os ''sendrawtransaction'' [JStr (hex_of (bl_serialize lib tx)), JInt 0] (w, s)"
  obtain q p where ask: "?ask = (q, p)" by (rule prod.exhaust)
  obtain t where p: "p = (w, t)" using ask by (rule wallet_rpc_pair)
  show thesis
  proof (cases "q = Inr (JStr (hex_of (bl_txid lib tx)))")
    case True
    with assms ask p have "r = Inr tx" "w' = scan_tx lib tx w"
      by (simp_all add: send_tx_def bind_a_def modify_def)
    with True ask show thesis by (simp add: accepted)
  next
    case False
    with assms ask p have "\<exists>e. r = Inl e \<and> w' = w"
      by (cases q) (auto simp: send_tx_def bind_a_def)
    with False ask show thesis using refused by auto
  qed
qed


subsection \<open>Spending one coin of the wallet\<close>

text \<open>
  The two methods that pick a coin, build a transaction around it and send it share this
  contract: \<open>pick\<close> takes one coin out of the cache, \<open>build\<close> spends that coin alone.
\<close>

locale coin_spending =
  fixes lib :: btclib and pick :: "(wallet, utxo) act" and build :: "utxo \<Rightarrow> tx result"
  assumes pick_takes: "pick w = (Inr u, w') \<Longrightarrow>
      mset (wl_utxos w) = add_mset u (mset (wl_utxos w')) \<and> w' = set_utxos (wl_utxos w') w"
    and pick_misses: "pick w = (Inl e, w') \<Longrightarrow>
      mset (wl_utxos w') = mset (wl_utxos w) \<and> w' = set_utxos (wl_utxos w') w"
    and build_spends: "build u = Inr tx \<Longrightarrow> spent_by tx = {ux_outpoint u}"
begin

lemma picked_balance: "pick w = (Inr u, v) \<Longrightarrow> get_balance v = get_balance w - ux_value u"
proof -
  assume "pick w = (Inr u, v)"
  then have "mset (map ux_value (wl_utxos w)) = add_mset (ux_value u) (mset (map ux_value (wl_utxos v)))"
    using pick_takes by simp
  then have "sum_list (map ux_value (wl_utxos w)) = ux_value u + sum_list (map ux_value (wl_utxos v))"
    by (metis sum_mset.add_mset sum_mset_sum_list)
  then show ?thesis by (simp add: get_balance_def)
qed

lemma picked_cached:
  assumes "pick w = (Inr u, v)" and "distinct (map ux_outpoint (wl_utxos w))"
  shows "cached v = cached w - {ux_outpoint u}" and "ux_outpoint u \<in> cached w" and "u \<in> set (wl_utxos w)"
proof -
  have m: "mset (wl_utxos w) = mset (u # wl_utxos v)" using pick_takes [OF assms(1)] by simp
  then have mo: "mset (map ux_outpoint (wl_utxos w)) = mset (map ux_outpoint (u # wl_utxos v))"
    by (metis mset_map)
  have "distinct (map ux_outpoint (u # wl_utxos v))"
    using assms(2) mset_eq_imp_distinct_iff [OF mo] by simp
  moreover have "set (map ux_outpoint (wl_utxos w)) = set (map ux_outpoint (u # wl_utxos v))"
    using mset_eq_setD [OF mo] .
  ultimately show "cached v = cached w - {ux_outpoint u}" "ux_outpoint u \<in> cached w"
    by (auto simp: cached_def)
  show "u \<in> set (wl_utxos w)" using mset_eq_setD [OF m] by simp
qed

lemma spend_InrE:
  assumes "bind_a (in_wallet (bind_a pick (\<lambda>u. lift_r (build u)))) (send_tx os lib) (w, s) = (Inr tx, (w', s'))"
    and "distinct (map ux_outpoint (wl_utxos w))"
  obtains u v where "pick w = (Inr u, v)" and "u \<in> set (wl_utxos w)" and "build u = Inr tx"
    and "cached w' = cached w - {ux_outpoint u} \<union> pays lib tx"
    and "get_balance w' = get_balance w - ux_value u + sum_list (map ux_value (new_utxos lib tx))"
proof -
  from assms(1) obtain u v t where pick: "pick w = (Inr u, v)" and build: "build u = Inr t"
    and send: "send_tx os lib t (v, s) = (Inr tx, (w', s'))"
    by (auto simp: in_wallet_def bind_a_def split: prod.splits sum.splits)
  note held = picked_cached [OF pick assms(2)]
  from send have "t = tx" and w': "w' = scan_tx lib tx v"
    by (cases rule: send_tx_cases; simp)+
  have spent: "spent_by tx = {ux_outpoint u}" using build build_spends \<open>t = tx\<close> by simp
  have "cached w' = cached w - {ux_outpoint u} \<union> pays lib tx"
    unfolding w' cached_scan_tx held(1) spent by auto
  moreover have none: "filter (\<lambda>x. ux_outpoint x \<in> spent_by tx) (wl_utxos v) = []"
    using held(1) unfolding spent cached_def by (auto simp: filter_empty_conv)
  have "get_balance w' = get_balance w - ux_value u + sum_list (map ux_value (new_utxos lib tx))"
    unfolding w' balance_scan_tx none picked_balance [OF pick] by simp
  ultimately show thesis using pick held(3) build \<open>t = tx\<close> that by blast
qed

lemma spend_InlD:
  assumes "bind_a (in_wallet (bind_a pick (\<lambda>u. lift_r (build u)))) (send_tx os lib) (w, s) = (Inl e, (w', s'))"
  shows "w' = set_utxos (wl_utxos w') w"
    and "mset (wl_utxos w') = mset (wl_utxos w)
      \<or> (\<exists>u v. pick w = (Inr u, v) \<and> mset (wl_utxos w) = add_mset u (mset (wl_utxos w')))"
proof -
  have "w' = set_utxos (wl_utxos w') w \<and> (mset (wl_utxos w') = mset (wl_utxos w)
      \<or> (\<exists>u v. pick w = (Inr u, v) \<and> mset (wl_utxos w) = add_mset u (mset (wl_utxos w'))))"
  proof (cases "pick w")
    case (Pair q v)
    show ?thesis
    proof (cases q)
      case (Inl e')
      then have "w' = v" using assms Pair by (simp add: in_wallet_def bind_a_def)
      then show ?thesis using pick_misses Pair Inl by blast
    next
      case (Inr u)
      have "w' = v"
        using assms Pair Inr
        by (cases "build u") (auto simp: in_wallet_def bind_a_def elim: send_tx_cases)
      then show ?thesis using pick_takes Pair Inr by blast
    qed
  qed
  then show "w' = set_utxos (wl_utxos w') w"
    and "mset (wl_utxos w') = mset (wl_utxos w)
      \<or> (\<exists>u v. pick w = (Inr u, v) \<and> mset (wl_utxos w) = add_mset u (mset (wl_utxos w')))" by blast+
qed

end

subsection \<open>What the built transactions are\<close>

lemma self_transfer_tx_InrD:
  assumes "self_transfer_tx lib us amount n version locktime seqs = Inr tx"
  shows "map ti_prev (tx_vin tx) = map ux_outpoint us"
    and "tx_vout tx = replicate (nat n) \<lparr>to_value = amount, to_script = bl_anyone lib\<rparr>"
    and "tx_version tx = version" and "tx_lock_time tx = locktime"
  using assms
  by (auto simp: self_transfer_tx_def Let_def bind_r_Inr_iff split: if_splits intro!: nth_equalityI)

lemma spent_by_eq: "spent_by tx = set (map ti_prev (tx_vin tx))"
  by (simp add: spent_by_def)

definition padding :: "btclib \<Rightarrow> tx_out list \<Rightarrow> bool" where
  "padding lib outs \<longleftrightarrow> (\<exists>n. outs = [\<lparr>to_value = 0, to_script = bl_op_return_ones lib n\<rparr>])"

lemma pad_to_vsize_InrD:
  assumes "pad_to_vsize lib tx target = Inr t"
  obtains n where "t = tx\<lparr>tx_vout := tx_vout tx @ [\<lparr>to_value = 0, to_script = bl_op_return_ones lib n\<rparr>]\<rparr>"
  using assms by (auto simp: pad_to_vsize_def Let_def split: if_splits)

lemma fee_of_size_nonneg: "0 \<le> rate \<Longrightarrow> 0 \<le> vsize \<Longrightarrow> 0 \<le> fee_of_size rate vsize"
  using div_nonpos_pos_le0 [of "- rate * vsize" 1000] mult_nonneg_nonneg [of rate vsize]
  by (simp add: fee_of_size_def)

lemma transfer_of_InrD:
  assumes "transfer_of lib a u = Inr tx"
  defines "fee \<equiv> transfer_fee lib a (tx\<lparr>tx_vout := [\<lparr>to_value = 0, to_script = bl_anyone lib\<rparr>]\<rparr>)"
  shows "map ti_prev (tx_vin tx) = [ux_outpoint u]" and "fee < ux_value u"
    and "\<exists>pad. tx_vout tx = \<lparr>to_value = ux_value u - fee, to_script = bl_anyone lib\<rparr> # pad
           \<and> (if tr_target_vsize a = 0 then pad = [] else padding lib pad)"
    and "tx_version tx = tr_version a" and "tx_lock_time tx = tr_locktime a"
proof -
  from assms(1) obtain t where t: "self_transfer_tx lib [u] 0 1 (tr_version a) (tr_locktime a) (tr_sequence a) = Inr t"
    by (auto simp: transfer_of_def bind_r_Inr_iff)
  note shape = self_transfer_tx_InrD [OF t]
  let ?out = "\<lparr>to_value = ux_value u - transfer_fee lib a t, to_script = bl_anyone lib\<rparr>"
  let ?paying = "t\<lparr>tx_vout := [?out]\<rparr>"
  have enough: "transfer_fee lib a t < ux_value u"
    and result: "(if tr_target_vsize a \<noteq> 0 then pad_to_vsize lib ?paying (tr_target_vsize a) else Inr ?paying) = Inr tx"
    using assms(1) by (auto simp: transfer_of_def t shape(2) Let_def bind_r_Inr_iff split: if_splits)
  have "\<exists>pad. tx = t\<lparr>tx_vout := ?out # pad\<rparr> \<and> (if tr_target_vsize a = 0 then pad = [] else padding lib pad)"
  proof (cases "tr_target_vsize a = 0")
    case True
    then show ?thesis using result by simp
  next
    case False
    with result have "pad_to_vsize lib ?paying (tr_target_vsize a) = Inr tx" by simp
    then obtain n where "tx = t\<lparr>tx_vout := ?out # [\<lparr>to_value = 0, to_script = bl_op_return_ones lib n\<rparr>]\<rparr>"
      by (auto elim: pad_to_vsize_InrD)
    moreover have "padding lib [\<lparr>to_value = 0, to_script = bl_op_return_ones lib n\<rparr>]"
      by (auto simp: padding_def)
    ultimately show ?thesis using False by auto
  qed
  then obtain pad where tx: "tx = t\<lparr>tx_vout := ?out # pad\<rparr>"
    and pad: "if tr_target_vsize a = 0 then pad = [] else padding lib pad" by blast
  have "t = tx\<lparr>tx_vout := [\<lparr>to_value = 0, to_script = bl_anyone lib\<rparr>]\<rparr>"
    using shape(2) unfolding tx by simp
  then have fee: "fee = transfer_fee lib a t" unfolding fee_def by simp
  show "map ti_prev (tx_vin tx) = [ux_outpoint u]" using shape(1) unfolding tx by simp
  show "fee < ux_value u" using enough fee by simp
  show "\<exists>pad. tx_vout tx = \<lparr>to_value = ux_value u - fee, to_script = bl_anyone lib\<rparr> # pad
           \<and> (if tr_target_vsize a = 0 then pad = [] else padding lib pad)"
    using pad unfolding fee tx by simp
  show "tx_version tx = tr_version a" "tx_lock_time tx = tr_locktime a" using shape unfolding tx by simp_all
qed

lemma new_utxos_paying:
  assumes "tx_vout tx = replicate k \<lparr>to_value = amount, to_script = bl_anyone lib\<rparr> @ rest"
    and "list_all (\<lambda>out. to_script out \<noteq> bl_anyone lib) rest"
  shows "new_utxos lib tx = map (\<lambda>i. \<lparr>ux_outpoint = \<lparr>op_txid = bl_txid lib tx, op_vout = i\<rparr>,
           ux_value = amount, ux_height = 0, ux_coinbase = False\<rparr>) [0..<k]"
proof -
  have "filter (\<lambda>(vout, out). to_script out = bl_anyone lib) (enumerate k rest) = []"
    using assms(2) by (auto simp: filter_empty_conv list_all_iff in_set_enumerate_eq)
  moreover have "filter (\<lambda>(vout, out). to_script out = bl_anyone lib)
      (enumerate 0 (replicate k \<lparr>to_value = amount, to_script = bl_anyone lib\<rparr>))
     = enumerate 0 (replicate k \<lparr>to_value = amount, to_script = bl_anyone lib\<rparr>)"
    by (auto simp: filter_id_conv in_set_enumerate_eq)
  ultimately show ?thesis
    by (simp add: new_utxos_def assms(1) enumerate_append_eq enumerate_replicate_eq o_def)
qed

lemma padding_foreign:
  "padding lib pad \<Longrightarrow> \<forall>n. bl_op_return_ones lib n \<noteq> bl_anyone lib
    \<Longrightarrow> list_all (\<lambda>out. to_script out \<noteq> bl_anyone lib) pad"
  by (auto simp: padding_def)

lemma transfer_of_new_utxos:
  assumes "transfer_of lib a u = Inr tx"
    and "tr_target_vsize a = 0 \<or> (\<forall>n. bl_op_return_ones lib n \<noteq> bl_anyone lib)"
  shows "new_utxos lib tx = [\<lparr>ux_outpoint = \<lparr>op_txid = bl_txid lib tx, op_vout = 0\<rparr>,
      ux_value = ux_value u - transfer_fee lib a (tx\<lparr>tx_vout := [\<lparr>to_value = 0, to_script = bl_anyone lib\<rparr>]\<rparr>),
      ux_height = 0, ux_coinbase = False\<rparr>]"
proof -
  let ?fee = "transfer_fee lib a (tx\<lparr>tx_vout := [\<lparr>to_value = 0, to_script = bl_anyone lib\<rparr>]\<rparr>)"
  obtain pad where "tx_vout tx = \<lparr>to_value = ux_value u - ?fee, to_script = bl_anyone lib\<rparr> # pad"
    and pad: "if tr_target_vsize a = 0 then pad = [] else padding lib pad"
    using transfer_of_InrD(3) [OF assms(1)] by blast
  then have "tx_vout tx = replicate 1 \<lparr>to_value = ux_value u - ?fee, to_script = bl_anyone lib\<rparr> @ pad"
    by simp
  moreover have "list_all (\<lambda>out. to_script out \<noteq> bl_anyone lib) pad"
    using pad assms(2) padding_foreign by (cases "tr_target_vsize a = 0") auto
  ultimately show ?thesis using new_utxos_paying [of tx 1 "ux_value u - ?fee" lib pad] by simp
qed

lemma payment_of_InrD:
  assumes "payment_of lib spk value u = Inr tx"
  shows "map ti_prev (tx_vin tx) = [ux_outpoint u]" and "value + FEE \<le> ux_value u"
    and "tx_vout tx = [\<lparr>to_value = ux_value u - value - FEE, to_script = bl_anyone lib\<rparr>,
                       \<lparr>to_value = value, to_script = spk\<rparr>]"
proof -
  from assms obtain t where t: "self_transfer_tx lib [u] (ux_value u - value - FEE) 1 2 0 (OneSeq 0) = Inr t"
    and tx: "tx = t\<lparr>tx_vout := tx_vout t @ [\<lparr>to_value = value, to_script = spk\<rparr>]\<rparr>"
    and enough: "value + FEE \<le> ux_value u"
    by (auto simp: payment_of_def Let_def bind_r_Inr_iff split: if_splits)
  show "map ti_prev (tx_vin tx) = [ux_outpoint u]" "value + FEE \<le> ux_value u"
    "tx_vout tx = [\<lparr>to_value = ux_value u - value - FEE, to_script = bl_anyone lib\<rparr>,
                   \<lparr>to_value = value, to_script = spk\<rparr>]"
    using self_transfer_tx_InrD(1,2) [OF t] enough unfolding tx by simp_all
qed

interpretation transferring: coin_spending lib "get_utxo lib None None True c" "transfer_of lib a" for lib c a
  by unfold_locales
    (blast dest: get_utxo_InrD get_utxo_InlD, blast dest: get_utxo_InlD,
     simp add: spent_by_eq transfer_of_InrD(1))

interpretation paying: coin_spending lib "get_utxo lib None None True False" "payment_of lib spk amount"
  for lib spk amount
  by unfold_locales
    (blast dest: get_utxo_InrD get_utxo_InlD, blast dest: get_utxo_InlD,
     simp add: spent_by_eq payment_of_InrD(1))

subsection \<open>Properties of the transfers\<close>

text \<open>
  A self-transfer from the wallet's own coins conserves them: one matured coin is
  spent, the new output is the only coin added, and the balance falls by exactly the fee, the
  absolute one or the rate over the size, less than the coin's value. Where it raises, nothing
  else changes and at most the coin picked for it has left the cache.
\<close>

lemma send_self_transfer_conserves:
  assumes "send_self_transfer os lib a (w, s) = (r, (w', s'))" and "tr_utxo a = None"
    and "distinct (map ux_outpoint (wl_utxos w))"
    and "\<And>n. bl_op_return_ones lib n \<noteq> bl_anyone lib" and "\<And>t. 0 \<le> bl_vsize lib t"
    and "0 \<le> tr_target_vsize a"
  shows "case r of
      Inr tx \<Rightarrow> \<exists>u \<in> set (wl_utxos w).
        let fee = transfer_fee lib a (tx\<lparr>tx_vout := [\<lparr>to_value = 0, to_script = bl_anyone lib\<rparr>]\<rparr>)
        in 0 \<le> fee \<and> fee < ux_value u \<and> map ti_prev (tx_vin tx) = [ux_outpoint u]
          \<and> coin_fits lib (wl_height w) None None (tr_confirmed_only a) u
          \<and> cached w' = cached w - {ux_outpoint u} \<union> {\<lparr>op_txid = bl_txid lib tx, op_vout = 0\<rparr>}
          \<and> get_balance w' = get_balance w - fee
    | Inl e \<Rightarrow> w' = set_utxos (wl_utxos w') w \<and> mset (wl_utxos w') \<subseteq># mset (wl_utxos w)
        \<and> length (wl_utxos w) \<le> Suc (length (wl_utxos w'))"
proof (cases "tr_fee_rate a < 0 \<or> tr_fee a < 0")
  case True
  then have "isl r" "w' = w"
    using assms(1) by (auto simp: send_self_transfer_def create_self_transfer_def in_wallet_def bind_a_def)
  then show ?thesis by (cases r) (simp_all add: set_utxos_def)
next
  case False
  then have run: "bind_a (in_wallet (bind_a (get_utxo lib None None True (tr_confirmed_only a))
      (\<lambda>u. lift_r (transfer_of lib a u)))) (send_tx os lib) (w, s) = (r, (w', s'))"
    using assms(1,2) by (simp add: send_self_transfer_def create_self_transfer_def)
  show ?thesis
  proof (cases r)
    case (Inl e)
    note kept = transferring.spend_InlD [OF run [unfolded Inl]]
    from kept(2) have "mset (wl_utxos w') \<subseteq># mset (wl_utxos w)" by auto
    moreover from kept(2) have "length (wl_utxos w) \<le> Suc (length (wl_utxos w'))"
      by (auto dest: mset_eq_length simp flip: mset.simps(2))
    ultimately show ?thesis using kept(1) unfolding Inl by simp
  next
    case (Inr tx)
    obtain u v where pick: "get_utxo lib None None True (tr_confirmed_only a) w = (Inr u, v)"
      and u: "u \<in> set (wl_utxos w)" and built: "transfer_of lib a u = Inr tx"
      and cache: "cached w' = cached w - {ux_outpoint u} \<union> pays lib tx"
      and balance: "get_balance w' = get_balance w - ux_value u + sum_list (map ux_value (new_utxos lib tx))"
      using transferring.spend_InrE [OF run [unfolded Inr] assms(3)] by metis
    let ?fee = "transfer_fee lib a (tx\<lparr>tx_vout := [\<lparr>to_value = 0, to_script = bl_anyone lib\<rparr>]\<rparr>)"
    note shape = transfer_of_InrD [OF built]
    have new: "new_utxos lib tx = [\<lparr>ux_outpoint = \<lparr>op_txid = bl_txid lib tx, op_vout = 0\<rparr>,
        ux_value = ux_value u - ?fee, ux_height = 0, ux_coinbase = False\<rparr>]"
      by (rule transfer_of_new_utxos [OF built]) (use assms(4) in blast)
    have "0 \<le> ?fee"
      using False assms(5,6) by (auto simp: transfer_fee_def intro!: fee_of_size_nonneg)
    with u shape(1,2) get_utxo_InrD(3) [OF pick] cache balance show ?thesis
      unfolding Inr sum.case by (intro bexI [of _ u]) (simp_all add: new pays_def Let_def)
  qed
qed

text \<open>
  Paying out of the wallet's own coins costs the payment and the fixed fee: the coin's value
  beyond both comes back as change, and a payment to the wallet's own script stays with it.
\<close>

lemma send_to_conserves:
  assumes "send_to os lib script_pub_key amount (w, s) = (Inr tx, (w', s'))"
    and "distinct (map ux_outpoint (wl_utxos w))"
  shows "tx_vout tx ! 1 = \<lparr>to_value = amount, to_script = script_pub_key\<rparr>
    \<and> get_balance w' = get_balance w - FEE - (if script_pub_key = bl_anyone lib then 0 else amount)
    \<and> (\<exists>u \<in> set (wl_utxos w). map ti_prev (tx_vin tx) = [ux_outpoint u] \<and> amount + FEE \<le> ux_value u
        \<and> cached w' = cached w - {ux_outpoint u} \<union> pays lib tx)"
proof -
  obtain u v where u: "u \<in> set (wl_utxos w)" and built: "payment_of lib script_pub_key amount u = Inr tx"
    and cache: "cached w' = cached w - {ux_outpoint u} \<union> pays lib tx"
    and balance: "get_balance w' = get_balance w - ux_value u + sum_list (map ux_value (new_utxos lib tx))"
    using paying.spend_InrE [OF assms(1) [unfolded send_to_def] assms(2)] by metis
  note shape = payment_of_InrD [OF built]
  have "sum_list (map ux_value (new_utxos lib tx)) =
      ux_value u - amount - FEE + (if script_pub_key = bl_anyone lib then amount else 0)"
    by (simp add: new_utxos_def shape(3) enumerate_simps)
  then show ?thesis using u shape cache balance by auto
qed

text \<open>
  C28: a transfer into several outputs pays every one of them the same positive amount, the
  largest that leaves each its fee: the fee the inputs pay is at least \<open>fee_per_output\<close> for
  each output and less than one satoshi more for each. Naming the coins leaves the cache alone.
\<close>

theorem multi_fee_bounds:
  assumes "create_self_transfer_multi lib a w = (Inr tx, w')" and "0 < mu_num_outputs a"
  shows "\<exists>us amount pad.
      (case mu_utxos a of Some vs \<Rightarrow> us = vs \<and> w' = w
       | None \<Rightarrow> \<exists>u. us = [u] \<and> get_utxo lib None None True (mu_confirmed_only a) w = (Inr u, w'))
    \<and> map ti_prev (tx_vin tx) = map ux_outpoint us \<and> 0 < amount
    \<and> tx_vout tx = replicate (nat (mu_num_outputs a)) \<lparr>to_value = amount, to_script = bl_anyone lib\<rparr> @ pad
    \<and> sum_list (map to_value pad) = 0
    \<and> (let fee = sum_list (map ux_value us) - sum_list (map to_value (tx_vout tx))
       in mu_fee_per_output a * mu_num_outputs a \<le> fee
          \<and> fee < (mu_fee_per_output a + 1) * mu_num_outputs a)"
proof -
  obtain us where pick: "case mu_utxos a of Some vs \<Rightarrow> us = vs \<and> w' = w
       | None \<Rightarrow> \<exists>u. us = [u] \<and> get_utxo lib None None True (mu_confirmed_only a) w = (Inr u, w')"
    and built: "multi_of lib a us = Inr tx"
    using assms(1)
    by (cases "mu_utxos a") (auto simp: create_self_transfer_multi_def elim!: bind_a_InrD)
  let ?n = "mu_num_outputs a" and ?total = "sum_list (map ux_value us)"
  let ?amount = "(?total - mu_fee_per_output a * ?n) div ?n"
  obtain t where t: "self_transfer_tx lib us ?amount ?n (mu_version a) (mu_locktime a) (mu_sequence a) = Inr t"
    and pos: "0 < ?amount"
    and tx: "(if mu_target_vsize a \<noteq> 0 then pad_to_vsize lib t (mu_target_vsize a) else Inr t) = Inr tx"
    using built by (auto simp: multi_of_def Let_def bind_r_Inr_iff split: if_splits)
  note shape = self_transfer_tx_InrD(1,2) [OF t]
  have "\<exists>pad. tx = t\<lparr>tx_vout := tx_vout t @ pad\<rparr> \<and> sum_list (map to_value pad) = 0"
  proof (cases "mu_target_vsize a = 0")
    case True
    then show ?thesis using tx by (intro exI [of _ "[]"]) simp
  next
    case False
    with tx have "pad_to_vsize lib t (mu_target_vsize a) = Inr tx" by simp
    then obtain n where "tx = t\<lparr>tx_vout := tx_vout t @ [\<lparr>to_value = 0, to_script = bl_op_return_ones lib n\<rparr>]\<rparr>"
      by (rule pad_to_vsize_InrD)
    then show ?thesis by (intro exI [of _ "[\<lparr>to_value = 0, to_script = bl_op_return_ones lib n\<rparr>]"]) simp
  qed
  then obtain pad where pad: "tx = t\<lparr>tx_vout := tx_vout t @ pad\<rparr>" "sum_list (map to_value pad) = 0" by blast
  have "?n * ?amount \<le> ?total - mu_fee_per_output a * ?n"
    "?total - mu_fee_per_output a * ?n < ?n * ?amount + ?n"
    using mult_div_mod_eq [of ?n "?total - mu_fee_per_output a * ?n"]
      pos_mod_bound [OF assms(2), of "?total - mu_fee_per_output a * ?n"]
      pos_mod_sign [OF assms(2), of "?total - mu_fee_per_output a * ?n"] by linarith+
  moreover have "sum_list (map to_value (tx_vout tx)) = ?n * ?amount"
    using assms(2) pad(2) by (simp add: pad(1) shape(2) sum_list_replicate)
  ultimately show ?thesis
    using pick pos pad shape by (intro exI [of _ us] exI [of _ ?amount] exI [of _ pad]) (simp add: algebra_simps)
qed

text \<open>A chain: each transaction spends the one output of the one before.\<close>

definition first_out :: "btclib \<Rightarrow> tx \<Rightarrow> outpoint" where
  "first_out lib tx = \<lparr>op_txid = bl_txid lib tx, op_vout = 0\<rparr>"

fun linked_from :: "btclib \<Rightarrow> outpoint \<Rightarrow> tx list \<Rightarrow> bool" where
  "linked_from lib p [] = True"
| "linked_from lib p (tx # txs) =
     (map ti_prev (tx_vin tx) = [p] \<and> pays lib tx = {first_out lib tx} \<and> linked_from lib (first_out lib tx) txs)"

lemma chain_step:
  assumes "transfer_of lib (plain_transfer\<lparr>tr_utxo := q\<rparr>) u = Inr tx"
  shows "\<exists>v. new_utxos lib tx = [v] \<and> ux_outpoint v = first_out lib tx" and "map ti_prev (tx_vin tx) = [ux_outpoint u]"
  using transfer_of_new_utxos [OF assms] transfer_of_InrD(1) [OF assms]
  by (simp_all add: plain_transfer_def first_out_def)

lemma chain_loop_from:
  assumes "chain_loop lib k (Some u) chain w = (Inr txs, w')"
  shows "w' = w \<and> (\<exists>new. txs = chain @ new \<and> length new = k \<and> linked_from lib (ux_outpoint u) new)"
  using assms
proof (induction k arbitrary: u chain)
  case (Suc k)
  let ?a = "plain_transfer\<lparr>tr_utxo := Some u\<rparr>"
  from Suc.prems obtain tx where tx: "transfer_of lib ?a u = Inr tx"
    by (auto simp: create_self_transfer_def bind_a_def split: if_splits sum.splits prod.splits)
  obtain v where v: "new_utxos lib tx = [v]" "ux_outpoint v = first_out lib tx" using chain_step(1) [OF tx] by blast
  have "chain_loop lib k (Some v) (chain @ [tx]) w = (Inr txs, w')"
    using Suc.prems tx v(1)
    by (auto simp: create_self_transfer_def bind_a_def plain_transfer_def split: if_splits)
  from Suc.IH [OF this] obtain new where "w' = w" "txs = (chain @ [tx]) @ new" "length new = k"
    "linked_from lib (first_out lib tx) new" using v(2) by auto
  then show ?case using chain_step(2) [OF tx] v
    by (intro conjI exI [of _ "tx # new"]) (simp_all add: pays_def)
qed simp

lemma chain_from_wallet:
  assumes "create_self_transfer_chain lib n None w = (Inr txs, w')" and "0 < n"
  obtains u where "get_utxo lib None None True False w = (Inr u, w')" and "length txs = nat n"
    and "linked_from lib (ux_outpoint u) txs"
proof -
  obtain k where k: "nat n = Suc k" using assms(2) by (cases "nat n") auto
  let ?a = "plain_transfer\<lparr>tr_utxo := None\<rparr>"
  from assms(1) k obtain u v where pick: "get_utxo lib None None True False w = (Inr u, v)"
    by (auto simp: create_self_transfer_chain_def create_self_transfer_def plain_transfer_def
        elim!: bind_a_InrD split: if_splits)
  with assms(1) k obtain tx where tx: "transfer_of lib ?a u = Inr tx"
    by (auto simp: create_self_transfer_chain_def create_self_transfer_def plain_transfer_def bind_a_def
        split: if_splits sum.splits)
  obtain c where c: "new_utxos lib tx = [c]" "ux_outpoint c = first_out lib tx" using chain_step(1) [OF tx] by blast
  have "chain_loop lib k (Some c) [tx] v = (Inr txs, w')"
    using assms(1) k pick tx c(1)
    by (simp add: create_self_transfer_chain_def create_self_transfer_def plain_transfer_def bind_a_def
        DEFAULT_FEE_RATE_def)
  from chain_loop_from [OF this] obtain new where "w' = v" "txs = tx # new" "length new = k"
    "linked_from lib (first_out lib tx) new" using c(2) by auto
  then show thesis using that [of u] pick k chain_step(2) [OF tx] c by (simp add: pays_def)
qed

lemma send_each_linked:
  assumes "send_each os lib txs (w, s) = (Inr (), (w', s'))" and "linked_from lib p txs" and "txs \<noteq> []"
  shows "cached w' = insert (first_out lib (last txs))
           (cached w - {p} - first_out lib ` set (butlast txs))"
  using assms
proof (induction txs arbitrary: p w s)
  case (Cons tx txs)
  obtain q w1 s1 where ask: "send_tx os lib tx (w, s) = (q, (w1, s1))" by (metis prod.exhaust)
  then have send: "send_tx os lib tx (w, s) = (Inr tx, (w1, s1))"
    using Cons.prems(1) ask by (cases rule: send_tx_cases) (auto simp add: bind_a_def)
  then have rest: "send_each os lib txs (w1, s1) = (Inr (), (w', s'))"
    using Cons.prems(1) by (simp add: bind_a_def)
  from send have w1: "w1 = scan_tx lib tx w" by (cases rule: send_tx_cases; simp)
  have spent: "spent_by tx = {p}" "pays lib tx = {first_out lib tx}"
    using Cons.prems(2) by (simp_all add: spent_by_eq)
  have here: "cached w1 = cached w - {p} \<union> {first_out lib tx}"
    unfolding w1 cached_scan_tx spent by simp
  show ?case
  proof (cases "txs = []")
    case True
    then show ?thesis using rest here by simp
  next
    case False
    then show ?thesis using Cons.IH [OF rest _ False] Cons.prems(2) unfolding here by auto
  qed
qed simp

text \<open>
  Sending a chain leaves cached, of all its transactions, only the output of the last: the
  first spends one coin of the wallet, each of the rest the single output of the one before,
  and every coin between has left the cache again.
\<close>

lemma send_chain_leaves_last:
  assumes "send_self_transfer_chain os lib chain_length None (w, s) = (Inr txs, (w', s'))"
    and "0 < chain_length" and "distinct (map ux_outpoint (wl_utxos w))"
  shows "length txs = nat chain_length
    \<and> (\<exists>u \<in> set (wl_utxos w). linked_from lib (ux_outpoint u) txs
        \<and> cached w' = insert (first_out lib (last txs))
            (cached w - {ux_outpoint u} - first_out lib ` set (butlast txs)))"
proof -
  from assms(1) obtain v where made: "create_self_transfer_chain lib chain_length None w = (Inr txs, v)"
    and sent: "send_each os lib txs (v, s) = (Inr (), (w', s'))"
    by (auto simp: send_self_transfer_chain_def in_wallet_def bind_a_def split: prod.splits sum.splits)
  from made assms(2) obtain u where pick: "get_utxo lib None None True False w = (Inr u, v)"
    and len: "length txs = nat chain_length" and linked: "linked_from lib (ux_outpoint u) txs"
    by (rule chain_from_wallet)
  note held = transferring.picked_cached [OF pick assms(3)]
  have "txs \<noteq> []" using len assms(2) by auto
  from send_each_linked [OF sent linked this] len linked held show ?thesis by auto
qed

subsection \<open>Witnesses\<close>

text \<open>A node that takes every transaction with one output under \<open>plain_lib\<close>'s id for it.\<close>

definition taking_node :: "unit outside" where
  "taking_node = \<lparr>o_sleep = (\<lambda>d w. (0, w)),
     o_rpc = (\<lambda>node method params w. (Inr (JStr (hex_of (replicate 32 1))), 0, w))\<rparr>"

definition rich_wallet :: wallet where
  "rich_wallet = sample_wallet\<lparr>wl_utxos := [sample_coin, sample_coin\<lparr>ux_outpoint := \<lparr>op_txid = [8], op_vout = 1\<rparr>,
     ux_value := 1000000\<rparr>]\<rparr>"

abbreviation start_state :: "unit purse" where
  "start_state \<equiv> (rich_wallet, \<lparr>clock = 0, world = ()\<rparr>)"

lemma Inr_run:
  assumes "\<not> isl (fst run)"
  obtains x w s where "run = (Inr x, (w, s))"
  using assms by (metis fst_conv isl_def obj_sumE prod.exhaust)

lemma rich_distinct: "distinct (map ux_outpoint (wl_utxos rich_wallet))"
  by (simp add: rich_wallet_def sample_wallet_def sample_coin_def)

lemma plain_foreign: "bl_op_return_ones plain_lib n \<noteq> bl_anyone plain_lib"
  by (simp add: plain_lib_def)

lemma plain_vsize: "0 \<le> bl_vsize plain_lib t"
proof -
  have "0 \<le> sum_list (map (\<lambda>out. 8 + compact_size_len (int (length (to_script out)))
      + int (length (to_script out))) (tx_vout t))"
    by (rule sum_list_nonneg) (auto simp: compact_size_len_def)
  then have "0 \<le> 104 + sum_list (map (\<lambda>out. 8 + compact_size_len (int (length (to_script out)))
      + int (length (to_script out))) (tx_vout t))" by linarith
  then show ?thesis by (simp add: plain_lib_def)
qed

lemma send_self_transfer_conserves_witness:
  "\<exists>tx w' s'. send_self_transfer taking_node plain_lib (plain_transfer\<lparr>tr_fee := 700\<rparr>) start_state = (Inr tx, (w', s'))
     \<and> get_balance w' = get_balance rich_wallet - 700"
proof -
  let ?a = "plain_transfer\<lparr>tr_fee := 700\<rparr>"
  have "\<not> isl (fst (send_self_transfer taking_node plain_lib ?a start_state))" by code_simp
  then obtain tx w' s' where run: "send_self_transfer taking_node plain_lib ?a start_state = (Inr tx, (w', s'))"
    by (rule Inr_run)
  from send_self_transfer_conserves [OF run _ rich_distinct plain_foreign plain_vsize]
  have "get_balance w' = get_balance rich_wallet - 700"
    by (auto simp: plain_transfer_def transfer_fee_def Let_def)
  then show ?thesis using run by blast
qed

lemma send_to_conserves_witness:
  "\<exists>tx w' s'. send_to \<lparr>o_sleep = (\<lambda>d w. (0, w)), o_rpc = (\<lambda>n m p w. (Inr (JStr (hex_of (replicate 32 2))), 0, w))\<rparr>
       plain_lib [106] 5000 start_state = (Inr tx, (w', s'))
     \<and> get_balance w' = get_balance rich_wallet - 6000"
proof -
  let ?node = "\<lparr>o_sleep = (\<lambda>d w. (0, w)), o_rpc = (\<lambda>n m p w. (Inr (JStr (hex_of (replicate 32 2))), 0, w))\<rparr>"
  have "\<not> isl (fst (send_to ?node plain_lib [106] 5000 start_state))" by code_simp
  then obtain tx w' s' where run: "send_to ?node plain_lib [106] 5000 start_state = (Inr tx, (w', s'))"
    by (rule Inr_run)
  from send_to_conserves [OF run rich_distinct]
  have "get_balance w' = get_balance rich_wallet - 6000" by (auto simp: plain_lib_def FEE_def)
  then show ?thesis using run by blast
qed

definition plain_multi :: "int \<Rightarrow> multi" where
  "plain_multi n = \<lparr>mu_utxos = None, mu_num_outputs = n, mu_version = 2, mu_locktime = 0, mu_sequence = OneSeq 0,
     mu_fee_per_output = FEE, mu_target_vsize = 0, mu_confirmed_only = False\<rparr>"

lemma multi_fee_bounds_witness:
  "\<exists>tx w'. create_self_transfer_multi plain_lib (plain_multi 3) rich_wallet = (Inr tx, w')
     \<and> length (tx_vout tx) = 3 \<and> 3000 \<le> 1000000 - sum_list (map to_value (tx_vout tx))"
proof -
  have "create_self_transfer_multi plain_lib (plain_multi 3) rich_wallet
     = (Inr \<lparr>tx_version = 2, tx_lock_time = 0,
          tx_vin = [\<lparr>ti_prev = \<lparr>op_txid = [8], op_vout = 1\<rparr>, ti_sequence = 0, ti_witness = []\<rparr>],
          tx_vout = replicate 3 \<lparr>to_value = 332333, to_script = [81]\<rparr>\<rparr>,
        rich_wallet\<lparr>wl_utxos := [sample_coin]\<rparr>)" by code_simp
  from this multi_fee_bounds [OF this] show ?thesis
    by (simp add: plain_multi_def FEE_def sum_list_replicate)
qed

lemma send_chain_leaves_last_witness:
  "\<exists>txs w' s'. send_self_transfer_chain taking_node plain_lib 2 None start_state = (Inr txs, (w', s'))
     \<and> length txs = 2 \<and> first_out plain_lib (last txs) \<in> cached w'"
proof -
  have "\<not> isl (fst (send_self_transfer_chain taking_node plain_lib 2 None start_state))" by code_simp
  then obtain txs w' s' where run: "send_self_transfer_chain taking_node plain_lib 2 None start_state = (Inr txs, (w', s'))"
    by (rule Inr_run)
  from send_chain_leaves_last [OF run _ rich_distinct] run show ?thesis by auto
qed

end
