(* ===== verification/Wire.thy ===== *)
theory Wire
  imports Waiting
begin

section \<open>Reading a byte stream\<close>

text \<open>
  What \<open>peer.py\<close> and \<open>socks5.py\<close> ask of a socket, and the shape of every read \<open>peer.py\<close>
  makes: look at the buffer, and take what is whole off it or receive more.

  The sockets are the record \<open>wire\<close>: what a \<open>recv\<close> of at most so many octets answers within a
  timeout, what \<open>sendall\<close> does, and the random draws of \<open>secrets\<close> and of the ElligatorSwift
  encoding. \<open>recv_in_order\<close> is what TCP promises of \<open>recv\<close>. The locale \<open>framing\<close> states what makes
  a decision about a buffer independent of that cutting, and proves that it is.
\<close>

subsection \<open>Sockets\<close>

record 'w wire =
  wr_recv :: "nat \<Rightarrow> nat \<Rightarrow> rat \<Rightarrow> 'w \<Rightarrow> bytes result \<times> rat \<times> 'w"
  wr_send :: "nat \<Rightarrow> bytes \<Rightarrow> 'w \<Rightarrow> unit result \<times> rat \<times> 'w"
  wr_close :: "nat \<Rightarrow> 'w \<Rightarrow> unit result \<times> rat \<times> 'w"
  wr_connect :: "string \<times> int \<Rightarrow> rat \<Rightarrow> 'w \<Rightarrow> nat result \<times> rat \<times> 'w"
  wr_accept :: "nat \<Rightarrow> rat \<Rightarrow> 'w \<Rightarrow> nat result \<times> rat \<times> 'w"
  wr_listen :: "'w \<Rightarrow> nat result \<times> rat \<times> 'w"
  wr_sockname :: "nat \<Rightarrow> 'w \<Rightarrow> (string \<times> int) result \<times> rat \<times> 'w"
  wr_randbelow :: "int \<Rightarrow> 'w \<Rightarrow> int result \<times> rat \<times> 'w"
  wr_token_bytes :: "int \<Rightarrow> 'w \<Rightarrow> bytes result \<times> rat \<times> 'w"
  wr_ell_create :: "int \<Rightarrow> 'w \<Rightarrow> bytes result \<times> rat \<times> 'w"

text \<open>
  What TCP promises of \<open>recv\<close>: it hands out the octets still to come, \<open>pending\<close>, in order,
  however it cuts them, and an error hands out none. What this side sends or draws may change
  what is to come; receiving only consumes it.
\<close>

definition recv_in_order :: "'w wire \<Rightarrow> (nat \<Rightarrow> 'w \<Rightarrow> bytes) \<Rightarrow> bool" where
  "recv_in_order wr pending \<longleftrightarrow> (\<forall>sock n timeout w. case wr_recv wr sock n timeout w of (r, d, w') \<Rightarrow>
     (case r of Inr chunk \<Rightarrow> pending sock w = chunk @ pending sock w' \<and> length chunk \<le> n
      | Inl e \<Rightarrow> pending sock w' = pending sock w))"

lemma recv_in_orderD:
  assumes "recv_in_order wr pending"
  shows "wr_recv wr sock n timeout w = (Inr chunk, d, w') \<Longrightarrow>
      pending sock w = chunk @ pending sock w' \<and> length chunk \<le> n"
    and "wr_recv wr sock n timeout w = (Inl e, d, w') \<Longrightarrow> pending sock w' = pending sock w"
  using assms unfolding recv_in_order_def by (metis (mono_tags, lifting) case_prod_conv sum.case)+

subsection \<open>The buffered reader\<close>

text \<open>
  The part of a \<open>Peer\<close> its reads use: the socket, its current timeout, and the buffer.
\<close>

record reader =
  rd_socket :: nat
  rd_wait :: rat
  rd_buffer :: bytes

type_synonym ('r, 'w) reading_state = "'r reader_scheme \<times> 'w timed"

definition on_wire :: "('w \<Rightarrow> 'a result \<times> rat \<times> 'w) \<Rightarrow> ('p \<times> 'w timed, 'a) act" where
  "on_wire f s = (case outside_call f (snd s) of (r, t) \<Rightarrow> (r, (fst s, t)))"

definition recv_more :: "'w wire \<Rightarrow> (('r, 'w) reading_state, unit) act" where
  "recv_more wr s =
     bind_a (on_wire (wr_recv wr (rd_socket (fst s)) 4096 (rd_wait (fst s))))
       (\<lambda>chunk t. if chunk = [] then (Inl (ConnectionError ''connection closed while waiting for a message''), t)
          else (Inr (), ((fst t)\<lparr>rd_buffer := rd_buffer (fst t) @ chunk\<rparr>, snd t))) s"

text \<open>
  \<open>decide\<close> looks at the buffer: \<open>None\<close> asks for more, otherwise it answers, or refuses, and
  says what stays buffered.
\<close>

type_synonym 'a decision = "bytes \<Rightarrow> ('a result \<times> bytes) option"

partial_function (option) reading ::
  "'w wire \<Rightarrow> 'a decision \<Rightarrow> (('r, 'w) reading_state, 'a) loop" where
  [code]: "reading wr decide s =
     (case decide (rd_buffer (fst s)) of
        Some (r, rest) \<Rightarrow> Some (r, ((fst s)\<lparr>rd_buffer := rest\<rparr>, snd s))
      | None \<Rightarrow> (case recv_more wr s of
            (Inl e, t) \<Rightarrow> Some (Inl e, t)
          | (Inr _, t) \<Rightarrow> reading wr decide t))"

lemma recv_more_InrD:
  assumes "recv_more wr s = (Inr (), t)"
  shows "\<exists>chunk d w'. chunk \<noteq> [] \<and> wr_recv wr (rd_socket (fst s)) 4096 (rd_wait (fst s)) (world (snd s)) = (Inr chunk, d, w')
    \<and> fst t = (fst s)\<lparr>rd_buffer := rd_buffer (fst s) @ chunk\<rparr> \<and> world (snd t) = w'"
  using assms
  by (auto simp: recv_more_def on_wire_def outside_call_def bind_a_def split: prod.splits sum.splits if_splits)

lemma recv_more_InlD:
  assumes "recv_more wr s = (Inl e, t)"
  shows "fst t = fst s \<and> (\<exists>r d. wr_recv wr (rd_socket (fst s)) 4096 (rd_wait (fst s)) (world (snd s))
      = (r, d, world (snd t)) \<and> (r = Inl e \<or> r = Inr [] \<and> (\<exists>m. e = ConnectionError m)))"
  using assms
  by (auto simp: recv_more_def on_wire_def outside_call_def bind_a_def split: prod.splits sum.splits if_splits)

lemma recv_more_clock: "recv_more wr s = (r, t) \<Longrightarrow> clock (snd s) \<le> clock (snd t)"
  by (auto simp: recv_more_def on_wire_def outside_call_def bind_a_def split: prod.splits sum.splits if_splits)

text \<open>A decision that asks for no more once the buffer is long enough ends its loop.\<close>

lemma reading_returns:
  assumes "\<And>b. decide b = None \<Longrightarrow> length b < limit"
  shows "\<exists>r t. reading wr decide s = Some (r, t)"
proof (induction "limit - length (rd_buffer (fst s))" arbitrary: s rule: less_induct)
  case less
  show ?case
  proof (cases "decide (rd_buffer (fst s))")
    case None
    obtain q t where more: "recv_more wr s = (q, t)" by (rule prod.exhaust)
    show ?thesis
    proof (cases q)
      case (Inl e)
      then show ?thesis using None more by (subst reading.simps) simp
    next
      case (Inr u)
      with more obtain chunk where "chunk \<noteq> []" "rd_buffer (fst t) = rd_buffer (fst s) @ chunk"
        using recv_more_InrD [of wr s t] by auto
      then have "limit - length (rd_buffer (fst t)) < limit - length (rd_buffer (fst s))"
        using assms [OF None] by (cases chunk) auto
      from less [OF this] show ?thesis using None more Inr by (subst reading.simps) simp
    qed
  qed (subst reading.simps, auto)
qed

lemma reading_rule:
  assumes "reading wr decide s = Some y"
    and "\<And>s r rest. decide (rd_buffer (fst s)) = Some (r, rest) \<Longrightarrow>
      P s r ((fst s)\<lparr>rd_buffer := rest\<rparr>, snd s)"
    and "\<And>s e t. decide (rd_buffer (fst s)) = None \<Longrightarrow> recv_more wr s = (Inl e, t) \<Longrightarrow> P s (Inl e) t"
    and "\<And>s u r t. decide (rd_buffer (fst s)) = None \<Longrightarrow> recv_more wr s = (Inr (), u) \<Longrightarrow>
      P u r t \<Longrightarrow> P s r t"
  shows "P s (fst y) (snd y)"
  using assms(2-4)
proof (induction rule: reading.raw_induct [OF _ assms(1)])
  case (1 rec wr decide s y)
  note step = 1(2) and decided = 1(3) and failed = 1(4) and more = 1(5)
  show ?case
  proof (cases "decide (rd_buffer (fst s))")
    case None
    obtain q u where recv: "recv_more wr s = (q, u)" by (rule prod.exhaust)
    show ?thesis
    proof (cases q)
      case (Inl e)
      then have "y = (Inl e, u)" using step None recv by simp
      then show ?thesis using failed [OF None] recv Inl by simp
    next
      case (Inr v)
      then have "P u (fst y) (snd y)" using 1(1) [OF _ decided failed more] step None recv by simp
      then show ?thesis using more [OF None] recv Inr by simp
    qed
  next
    case (Some q)
    then have "y = (fst q, ((fst s)\<lparr>rd_buffer := snd q\<rparr>, snd s))" using step by (cases q) simp
    then show ?thesis using decided [of s "fst q" "snd q"] Some by simp
  qed
qed

lemma reading_induct [consumes 1, case_names decided failed more]:
  assumes "reading wr decide s = Some (r, t)"
    and "\<And>s r rest. decide (rd_buffer (fst s)) = Some (r, rest) \<Longrightarrow>
      P s r ((fst s)\<lparr>rd_buffer := rest\<rparr>, snd s)"
    and "\<And>s e t. decide (rd_buffer (fst s)) = None \<Longrightarrow> recv_more wr s = (Inl e, t) \<Longrightarrow> P s (Inl e) t"
    and "\<And>s u r t. decide (rd_buffer (fst s)) = None \<Longrightarrow> recv_more wr s = (Inr (), u) \<Longrightarrow>
      P u r t \<Longrightarrow> P s r t"
  shows "P s r t"
  using reading_rule [OF assms(1), of P] assms(2-4) by auto

lemma reading_clock: "reading wr decide s = Some (r, t) \<Longrightarrow> clock (snd s) \<le> clock (snd t)"
  by (induction rule: reading_induct) (auto dest: recv_more_clock)

text \<open>What the buffer and the socket still hold.\<close>

definition unread :: "(nat \<Rightarrow> 'w \<Rightarrow> bytes) \<Rightarrow> ('r, 'w) reading_state \<Rightarrow> bytes" where
  "unread pending s = rd_buffer (fst s) @ pending (rd_socket (fst s)) (world (snd s))"

definition rebuffered :: "'r reader_scheme \<Rightarrow> 'r reader_scheme \<Rightarrow> bool" where
  "rebuffered p q \<longleftrightarrow> q = p\<lparr>rd_buffer := rd_buffer q\<rparr>"

lemma rebuffered_simps [simp]: "rebuffered p p" "rebuffered p (p\<lparr>rd_buffer := b\<rparr>)"
  by (simp_all add: rebuffered_def)

lemma rebuffered_trans: "rebuffered p q \<Longrightarrow> rebuffered q r \<Longrightarrow> rebuffered p r"
  unfolding rebuffered_def by (metis reader.surjective reader.update_convs(3))

lemma rebuffered_socket: "rebuffered p q \<Longrightarrow> rd_socket q = rd_socket p \<and> rd_wait q = rd_wait p"
proof -
  assume "rebuffered p q"
  then have "q = p\<lparr>rd_buffer := rd_buffer q\<rparr>" by (simp only: rebuffered_def)
  from arg_cong [OF this, of rd_socket] arg_cong [OF this, of rd_wait] show ?thesis by simp
qed

lemma reading_rebuffers: "reading wr decide s = Some (r, t) \<Longrightarrow> rebuffered (fst s) (fst t)"
proof (induction rule: reading_induct)
  case (more s u r t)
  then have "rebuffered (fst s) (fst u)" using recv_more_InrD [of wr s u] by auto
  with more.IH show ?case by (rule rebuffered_trans [rotated])
qed (auto dest: recv_more_InlD)

lemma recv_more_unread:
  assumes "recv_in_order wr pending" and "recv_more wr s = (r, t)"
  shows "unread pending t = unread pending s"
proof (cases r)
  case (Inl e)
  then show ?thesis using recv_more_InlD [of wr s e t] assms(2)
    by (auto simp: unread_def dest: recv_in_orderD [OF assms(1)])
next
  case (Inr u)
  then show ?thesis using recv_more_InrD [of wr s t] assms(2)
    by (auto simp: unread_def dest!: recv_in_orderD [OF assms(1)])
qed

subsection \<open>Decisions the cutting does not change\<close>

locale framing =
  fixes decide :: "'a decision"
  assumes whole: "decide b = Some (Inr x, rest) \<Longrightarrow> decide (b @ c) = Some (Inr x, rest @ c)"
    and refused: "decide b = Some (Inl e, rest) \<Longrightarrow> rest = b"
begin

text \<open>
  What is answered is decided on the whole stream, and what is left over is the rest of it; a
  refusal and a failing socket lose nothing.
\<close>

lemma reading_stream:
  assumes "reading wr decide s = Some (r, t)" and "recv_in_order wr pending"
  shows "case r of Inr x \<Rightarrow> decide (unread pending s) = Some (Inr x, unread pending t)
    | Inl e \<Rightarrow> unread pending t = unread pending s"
  using assms(1)
proof (induction rule: reading_induct)
  case (decided s r rest)
  then show ?case by (cases r) (auto simp: unread_def dest: whole refused)
next
  case (failed s e t)
  then show ?case using recv_more_unread [OF assms(2)] by simp
next
  case (more s u r t)
  have same: "unread pending u = unread pending s" using assms(2) more.hyps(2) by (rule recv_more_unread)
  show ?case using more.IH unfolding same .
qed

lemma refusal_decided:
  assumes "reading wr decide s = Some (Inl e, t)" and "\<And>sock n timeout w d w'. wr_recv wr sock n timeout w \<noteq> (Inl e, d, w')"
    and "\<nexists>m. e = ConnectionError m"
  shows "decide (rd_buffer (fst t)) = Some (Inl e, rd_buffer (fst t))"
proof -
  have "case r of Inr x \<Rightarrow> True | Inl e' \<Rightarrow> e' = e \<longrightarrow> decide (rd_buffer (fst t)) = Some (Inl e, rd_buffer (fst t))"
    if "reading wr decide s = Some (r, t)" for r
    using that
  proof (induction rule: reading_induct)
    case (decided s r rest)
    then show ?case by (auto dest: refused split: sum.splits)
  next
    case (failed s e' t)
    then show ?case using assms(2,3) recv_more_InlD [of wr s e' t] by auto
  qed simp
  from this [OF assms(1)] show ?thesis by simp
qed

lemma cutting_does_not_matter:
  assumes "reading wr decide s = Some (Inr x, t)" and "reading wr decide s' = Some (Inr x', t')"
    and "recv_in_order wr pending" and "unread pending s = unread pending s'"
  shows "x = x' \<and> unread pending t = unread pending t'"
  using reading_stream [OF assms(1,3)] reading_stream [OF assms(2,3)] assms(4) by simp

end

subsection \<open>Taking a number of octets\<close>

definition take_decision :: "nat \<Rightarrow> bytes decision" where
  "take_decision wanted b = (if length b < wanted then None else Some (Inr (take wanted b), drop wanted b))"

lemma take_decision_bound: "take_decision wanted b = None \<Longrightarrow> length b < wanted"
  by (simp add: take_decision_def split: if_splits)

interpretation taking: framing "take_decision wanted" for wanted
  by unfold_locales (auto simp: take_decision_def split: if_splits)

end
