(* ===== verification/Peers.thy ===== *)
theory Peers
  imports Wire
begin

section \<open>The peer a test drives\<close>

text \<open>
  The classes \<open>Peer\<close> and \<open>Listener\<close> of \<open>peer.py\<close>. A peer is the record \<open>peer\<close>, the reader of
  \<open>Wire\<close> with the fields the class adds, beside the world its socket is in; a method is a
  \<open>loop\<close> on the two. btclib's codecs and its BIP324 cipher, an object that changes as it is
  used, are the record \<open>p2p\<close>.
\<close>

subsection \<open>Messages and codecs\<close>

record message =
  ms_magic :: bytes
  ms_command :: string
  ms_payload :: bytes

text \<open>The payloads this file sends, and any other.\<close>

datatype payload = Ping int | Pong int | VersionOf int int | WtxidRelay | SendAddrV2 | Verack | Other string bytes

record 'c p2p =
  pp_parse :: "bytes \<Rightarrow> (message \<times> nat) result"
  pp_serialize :: "message \<Rightarrow> bytes"
  pp_to_message :: "payload \<Rightarrow> bytes \<Rightarrow> bool \<Rightarrow> message result"
  pp_ping_nonce :: "bytes \<Rightarrow> int result"
  pp_pong_nonce :: "bytes \<Rightarrow> int result"
  pp_parse_version :: "bytes \<Rightarrow> bytes result"
  pp_contents :: "string \<Rightarrow> bytes \<Rightarrow> bytes result"
  pp_from_contents :: "bytes \<Rightarrow> (string \<times> bytes) result"
  pp_cipher :: "int \<Rightarrow> bytes \<Rightarrow> bytes \<Rightarrow> bool \<Rightarrow> bytes \<Rightarrow> 'c result"
  pp_send_terminator :: "'c \<Rightarrow> bytes"
  pp_recv_terminator :: "'c \<Rightarrow> bytes"
  pp_encrypt :: "'c \<Rightarrow> bytes \<Rightarrow> bytes \<Rightarrow> bool \<Rightarrow> bytes \<times> 'c"
  pp_decrypt_length :: "'c \<Rightarrow> bytes \<Rightarrow> nat \<times> 'c"
  pp_decrypt :: "'c \<Rightarrow> bytes \<Rightarrow> bytes \<Rightarrow> (bytes \<times> bool) result \<times> 'c"
  pp_curve_order :: int
  pp_ell_size :: nat
  pp_header_len :: nat
  pp_length_len :: nat
  pp_tag_len :: nat

subsection \<open>State\<close>

record 'c peer = reader +
  pr_magic :: bytes
  pr_timeout :: rat
  pr_dialled :: bool
  pr_cipher :: "'c option"
  pr_contents_len :: "nat option"
  pr_aad :: bytes
  pr_count :: "string \<Rightarrow> nat"
  pr_last :: "string \<Rightarrow> message option"
  pr_open :: bool

type_synonym ('c, 'w) peering = "'c peer \<times> 'w timed"

definition MAX_GARBAGE_LEN :: nat where "MAX_GARBAGE_LEN = 4095"
definition MAX_DECOYS :: int where "MAX_DECOYS = 10"
definition MAX_DECOY_LEN :: int where "MAX_DECOY_LEN = 100"

text \<open>\<open>NODE_NETWORK | NODE_WITNESS\<close>.\<close>

definition SERVICES :: int where "SERVICES = 9"

definition adopt :: "nat \<Rightarrow> bytes \<Rightarrow> rat \<Rightarrow> bool \<Rightarrow> 'c peer result" where
  "adopt sock magic timeout dialled =
     (if timeout < 0 then Inl (ValueError ''Timeout value out of range'')
      else Inr \<lparr>rd_socket = sock, rd_wait = timeout, rd_buffer = [], pr_magic = magic,
             pr_timeout = timeout, pr_dialled = dialled, pr_cipher = None, pr_contents_len = None,
             pr_aad = [], pr_count = (\<lambda>_. 0), pr_last = (\<lambda>_. None), pr_open = True\<rparr>)"

definition on_peer :: "('c peer \<Rightarrow> 'c peer) \<Rightarrow> (('c, 'w) peering, unit) act" where
  "on_peer f s = (Inr (), (f (fst s), snd s))"

definition settimeout :: "rat \<Rightarrow> (('c, 'w) peering, unit) act" where
  "settimeout t =
     (if t < 0 then raise (ValueError ''Timeout value out of range'')
      else on_peer (\<lambda>p. p\<lparr>rd_wait := t\<rparr>))"

definition sendall :: "'w wire \<Rightarrow> bytes \<Rightarrow> (('c, 'w) peering, unit) act" where
  "sendall wr data s = on_wire (wr_send wr (rd_socket (fst s)) data) s"

definition close_peer :: "'w wire \<Rightarrow> (('c, 'w) peering, unit) act" where
  "close_peer wr s =
     bind_a (on_wire (wr_close wr (rd_socket (fst s)))) (\<lambda>_. on_peer (\<lambda>p. p\<lparr>pr_open := False\<rparr>)) s"

definition speaks_v2 :: "'c peer \<Rightarrow> bool" where
  "speaks_v2 p \<longleftrightarrow> pr_cipher p \<noteq> None"

subsection \<open>Sending\<close>

definition send_payload ::
  "'w wire \<Rightarrow> 'c p2p \<Rightarrow> payload \<Rightarrow> bool \<Rightarrow> bool \<Rightarrow> (('c, 'w) peering, unit) act" where
  "send_payload wr pp payload check_validity is_decoy s =
     bind_a (lift_r (pp_to_message pp payload (pr_magic (fst s)) check_validity))
       (\<lambda>message. case pr_cipher (fst s) of
           None \<Rightarrow> if is_decoy then raise (ValueError ''a decoy is a v2 packet'')
                   else sendall wr (pp_serialize pp message)
         | Some c \<Rightarrow> bind_a (lift_r (pp_contents pp (ms_command message) (ms_payload message)))
             (\<lambda>contents. case pp_encrypt pp c contents [] is_decoy of
                 (packet, c') \<Rightarrow> bind_a (on_peer (\<lambda>p. p\<lparr>pr_cipher := Some c'\<rparr>)) (\<lambda>_. sendall wr packet))) s"

subsection \<open>Reading\<close>

definition take_octets :: "'w wire \<Rightarrow> nat \<Rightarrow> (('c, 'w) peering, bytes) loop" where
  "take_octets wr wanted = reading wr (take_decision wanted)"

definition garbage_decision :: "bytes \<Rightarrow> bytes decision" where
  "garbage_decision terminator b =
     (let limit = MAX_GARBAGE_LEN + length terminator
      in case py_find terminator (take limit b) of
           Some e \<Rightarrow> Some (Inr (take e b), drop (e + length terminator) b)
         | None \<Rightarrow> if limit \<le> length b
                   then Some (Inl (ValueError ''no garbage terminator''), b) else None)"

definition take_garbage :: "'w wire \<Rightarrow> bytes \<Rightarrow> (('c, 'w) peering, bytes) loop" where
  "take_garbage wr terminator = reading wr (garbage_decision terminator)"

definition v1_prefix :: "'c p2p \<Rightarrow> bytes \<Rightarrow> bytes" where
  "v1_prefix pp magic =
     take (length magic + 12)
       (pp_serialize pp \<lparr>ms_magic = magic, ms_command = ''version'', ms_payload = []\<rparr>)"

definition opens_decision :: "bytes \<Rightarrow> bool decision" where
  "opens_decision opening b =
     (let head = take (length opening) b
      in if \<not> py_startswith opening head then Some (Inr False, b)
         else if head = opening then Some (Inr True, b) else None)"

definition opens_with_v1_version :: "'w wire \<Rightarrow> 'c p2p \<Rightarrow> (('c, 'w) peering, bool) loop" where
  "opens_with_v1_version wr pp s = reading wr (opens_decision (v1_prefix pp (pr_magic (fst s)))) s"

definition v1_decision :: "'c p2p \<Rightarrow> bytes \<Rightarrow> message decision" where
  "v1_decision pp magic b =
     (let head = take (length magic) b
      in if length head = length magic \<and> head \<noteq> magic
         then Some (Inl (ValueError ''magic bytes mismatch''), b)
         else case pp_parse pp b of
             Inr (m, used) \<Rightarrow> Some (Inr m, drop used b)
           | Inl e \<Rightarrow> if e = IncompleteMessageError then None else Some (Inl e, b))"

definition receive_v1 :: "'w wire \<Rightarrow> 'c p2p \<Rightarrow> (('c, 'w) peering, message) loop" where
  "receive_v1 wr pp s = reading wr (v1_decision pp (pr_magic (fst s))) s"

text \<open>One v2 packet: its length, once decrypted, is kept until the rest has arrived.\<close>

definition packet_length :: "'c p2p \<Rightarrow> bytes \<Rightarrow> (('c, 'w) peering, nat) act" where
  "packet_length pp octets s =
     (case pr_cipher (fst s) of
        None \<Rightarrow> raise (TypeError ''no cipher'') s
      | Some c \<Rightarrow> (case pp_decrypt_length pp c octets of
          (n, c') \<Rightarrow> (Inr n, ((fst s)\<lparr>pr_cipher := Some c', pr_contents_len := Some n\<rparr>, snd s))))"

definition open_packet :: "'c p2p \<Rightarrow> bytes \<Rightarrow> (('c, 'w) peering, bytes \<times> bool) act" where
  "open_packet pp ciphertext s =
     (case pr_cipher (fst s) of
        None \<Rightarrow> raise (TypeError ''no cipher'') s
      | Some c \<Rightarrow> (case pp_decrypt pp c ciphertext (pr_aad (fst s)) of
          (r, c') \<Rightarrow> (r, ((fst s)\<lparr>pr_cipher := Some c', pr_contents_len := None, pr_aad := []\<rparr>, snd s))))"

definition receive_packet :: "'w wire \<Rightarrow> 'c p2p \<Rightarrow> (('c, 'w) peering, bytes \<times> bool) loop" where
  "receive_packet wr pp =
     bind_l (\<lambda>s. case pr_contents_len (fst s) of
               Some n \<Rightarrow> Some (Inr n, s)
             | None \<Rightarrow> bind_l (take_octets wr (pp_length_len pp)) (\<lambda>octets. once (packet_length pp octets)) s)
       (\<lambda>n. bind_l (take_octets wr (pp_header_len pp + n + pp_tag_len pp))
         (\<lambda>ciphertext. once (open_packet pp ciphertext)))"

partial_function (option) receive_v2 :: "'w wire \<Rightarrow> 'c p2p \<Rightarrow> (('c, 'w) peering, message) loop" where
  [code]: "receive_v2 wr pp s =
     (case receive_packet wr pp s of
        None \<Rightarrow> None
      | Some (Inl e, t) \<Rightarrow> Some (Inl e, t)
      | Some (Inr (contents, ignored), t) \<Rightarrow>
          if ignored then receive_v2 wr pp t
          else case pp_from_contents pp contents of
              Inl (BTClibValueError m) \<Rightarrow> receive_v2 wr pp t
            | Inl e \<Rightarrow> Some (Inl e, t)
            | Inr (command, payload) \<Rightarrow>
                Some (Inr \<lparr>ms_magic = pr_magic (fst t), ms_command = command, ms_payload = payload\<rparr>, t))"

definition note_message :: "message \<Rightarrow> 'c peer \<Rightarrow> 'c peer" where
  "note_message m p =
     p\<lparr>pr_count := (pr_count p)(ms_command m := Suc (pr_count p (ms_command m))),
       pr_last := (pr_last p)(ms_command m \<mapsto> m)\<rparr>"

definition receive_now :: "'w wire \<Rightarrow> 'c p2p \<Rightarrow> (('c, 'w) peering, message) loop" where
  "receive_now wr pp =
     bind_l (\<lambda>s. if pr_cipher (fst s) = None then receive_v1 wr pp s else receive_v2 wr pp s)
       (\<lambda>m. once (bind_a (on_peer (note_message m)) (\<lambda>_. ret m)))"

text \<open>\<open>try: m finally: f\<close>, for a loop.\<close>

definition finally_l :: "('s, 'a) loop \<Rightarrow> ('s, unit) act \<Rightarrow> ('s, 'a) loop" where
  "finally_l m f s = map_option (\<lambda>(r, t). finally_a (\<lambda>_. (r, t)) f t) (m s)"

definition receive :: "'w wire \<Rightarrow> 'c p2p \<Rightarrow> rat option \<Rightarrow> (('c, 'w) peering, message) loop" where
  "receive wr pp timeout =
     (case timeout of
        None \<Rightarrow> receive_now wr pp
      | Some t \<Rightarrow> bind_l (once (settimeout t))
          (\<lambda>_. finally_l (receive_now wr pp) (\<lambda>s. settimeout (pr_timeout (fst s)) s)))"

definition send_raw :: "'w wire \<Rightarrow> bytes \<Rightarrow> (('c, 'w) peering, unit) act" where
  "send_raw wr data = sendall wr data"

subsection \<open>Waiting for a message\<close>

definition wait_deadline :: "factor_state \<Rightarrow> rat option \<Rightarrow> ('c, 'w) peering \<Rightarrow> rat" where
  "wait_deadline st timeout s =
     clock (snd s) + (case timeout of None \<Rightarrow> pr_timeout (fst s) | Some t \<Rightarrow> scaled st t)"

definition answer_ping :: "'w wire \<Rightarrow> 'c p2p \<Rightarrow> message \<Rightarrow> (('c, 'w) peering, unit) act" where
  "answer_ping wr pp m =
     (if ms_command m = ''ping''
      then bind_a (lift_r (pp_ping_nonce pp (ms_payload m)))
             (\<lambda>nonce. send_payload wr pp (Pong nonce) True False)
      else ret ())"

definition wanted_message :: "string \<Rightarrow> (message \<Rightarrow> bool result) option \<Rightarrow> message \<Rightarrow> bool result" where
  "wanted_message command predicate m =
     (if ms_command m \<noteq> command then Inr False
      else case predicate of None \<Rightarrow> Inr True | Some p \<Rightarrow> p m)"

partial_function (option) wait_for_loop ::
  "'w wire \<Rightarrow> 'c p2p \<Rightarrow> string \<Rightarrow> (message \<Rightarrow> bool result) option \<Rightarrow> rat
    \<Rightarrow> (('c, 'w) peering, message option) loop" where
  [code]: "wait_for_loop wr pp command predicate deadline s =
     (let remaining = deadline - clock (snd s)
      in if remaining \<le> 0 then Some (Inr None, s)
         else case receive wr pp (Some remaining) s of
             None \<Rightarrow> None
           | Some (Inl e, t) \<Rightarrow> Some (case e of TimeoutError _ \<Rightarrow> Inr None | _ \<Rightarrow> Inl e, t)
           | Some (Inr m, t) \<Rightarrow>
               (case bind_a (answer_ping wr pp m) (\<lambda>_. lift_r (wanted_message command predicate m)) t of
                  (Inl e, u) \<Rightarrow> Some (Inl e, u)
                | (Inr b, u) \<Rightarrow> if b then Some (Inr (Some m), u)
                                else wait_for_loop wr pp command predicate deadline u))"

definition wait_for ::
  "'w wire \<Rightarrow> 'c p2p \<Rightarrow> factor_state \<Rightarrow> string \<Rightarrow> (message \<Rightarrow> bool result) option \<Rightarrow> rat option
    \<Rightarrow> (('c, 'w) peering, message) loop" where
  "wait_for wr pp st command predicate timeout s =
     bind_l (wait_for_loop wr pp command predicate (wait_deadline st timeout s))
       (\<lambda>r. once (case r of Some m \<Rightarrow> ret m | None \<Rightarrow> raise (TimeoutError ''never saw within the wait''))) s"

text \<open>\<open>True\<close>: the node closed the connection; \<open>False\<close>: the deadline.\<close>

partial_function (option) disconnect_loop ::
  "'w wire \<Rightarrow> 'c p2p \<Rightarrow> rat \<Rightarrow> (('c, 'w) peering, bool) loop" where
  [code]: "disconnect_loop wr pp deadline s =
     (let remaining = deadline - clock (snd s)
      in if remaining \<le> 0 then Some (Inr False, s)
         else case receive wr pp (Some remaining) s of
             None \<Rightarrow> None
           | Some (Inr m, t) \<Rightarrow> disconnect_loop wr pp deadline t
           | Some (Inl e, t) \<Rightarrow>
               Some (case e of ConnectionError _ \<Rightarrow> Inr True | TimeoutError _ \<Rightarrow> Inr False | _ \<Rightarrow> Inl e, t))"

definition wait_for_disconnect ::
  "'w wire \<Rightarrow> 'c p2p \<Rightarrow> factor_state \<Rightarrow> rat option \<Rightarrow> (('c, 'w) peering, unit) loop" where
  "wait_for_disconnect wr pp st timeout s =
     bind_l (disconnect_loop wr pp (wait_deadline st timeout s))
       (\<lambda>gone. once (if gone then ret ()
                     else raise (AssertionError ''connection was not closed within the wait''))) s"

definition pong_of :: "'c p2p \<Rightarrow> int \<Rightarrow> message \<Rightarrow> bool result" where
  "pong_of pp nonce m = bind_r (pp_pong_nonce pp (ms_payload m)) (\<lambda>n. Inr (n = nonce))"

definition sync_with_ping ::
  "'w wire \<Rightarrow> 'c p2p \<Rightarrow> factor_state \<Rightarrow> rat option \<Rightarrow> (('c, 'w) peering, unit) loop" where
  "sync_with_ping wr pp st timeout =
     bind_l (once (bind_a (on_wire (wr_randbelow wr (2 ^ 64 - 1)))
                (\<lambda>r. bind_a (send_payload wr pp (Ping 0) True False)
                  (\<lambda>_. bind_a (send_payload wr pp (Ping (r + 1)) True False) (\<lambda>_. ret (r + 1))))))
       (\<lambda>nonce. bind_l (wait_for wr pp st ''pong'' (Some (pong_of pp nonce)) timeout)
          (\<lambda>_. once (ret ())))"

definition handshake ::
  "'w wire \<Rightarrow> 'c p2p \<Rightarrow> factor_state \<Rightarrow> int \<Rightarrow> bool \<Rightarrow> bool \<Rightarrow> (('c, 'w) peering, bytes) loop" where
  "handshake wr pp st services addrv2 wtxidrelay =
     bind_l (once (on_wire (wr_randbelow wr (2 ^ 64))))
       (\<lambda>nonce s. let say = (\<lambda>p. once (send_payload wr pp p True False));
                      hear = (\<lambda>command. wait_for wr pp st command None None)
         in bind_l
              (if pr_dialled (fst s)
               then bind_l (say (VersionOf services nonce)) (\<lambda>_. hear ''version'')
               else bind_l (hear ''version'') (\<lambda>v. bind_l (say (VersionOf services nonce)) (\<lambda>_. once (ret v))))
              (\<lambda>version_message.
                 bind_l (if wtxidrelay then say WtxidRelay else once (ret ()))
                  (\<lambda>_. bind_l (if addrv2 then say SendAddrV2 else once (ret ()))
                   (\<lambda>_. bind_l (say Verack)
                    (\<lambda>_. bind_l (hear ''verack'')
                     (\<lambda>_. once (lift_r (pp_parse_version pp (ms_payload version_message)))))))) s)"

subsection \<open>The v2 handshake\<close>

fun decoys ::
  "'w wire \<Rightarrow> 'c p2p \<Rightarrow> nat \<Rightarrow> 'c \<Rightarrow> bytes \<Rightarrow> bytes list
    \<Rightarrow> (('c, 'w) peering, 'c \<times> bytes \<times> bytes list) act" where
  "decoys wr pp 0 c aad packets = ret (c, aad, packets)"
| "decoys wr pp (Suc k) c aad packets =
     bind_a (on_wire (wr_randbelow wr MAX_DECOY_LEN))
       (\<lambda>r. case pp_encrypt pp c (replicate (nat (r + 1)) 0) aad True of
           (packet, c') \<Rightarrow> decoys wr pp k c' [] (packets @ [packet]))"

partial_function (option) skip_decoys :: "'w wire \<Rightarrow> 'c p2p \<Rightarrow> (('c, 'w) peering, unit) loop" where
  [code]: "skip_decoys wr pp s =
     (case receive_packet wr pp s of
        None \<Rightarrow> None
      | Some (Inl e, t) \<Rightarrow> Some (Inl e, t)
      | Some (Inr (contents, ignored), t) \<Rightarrow> if ignored then skip_decoys wr pp t else Some (Inr (), t))"

definition offer_key :: "'w wire \<Rightarrow> 'c p2p \<Rightarrow> (('c, 'w) peering, int \<times> bytes \<times> bytes) act" where
  "offer_key wr pp =
     bind_a (on_wire (wr_randbelow wr (pp_curve_order pp - 1)))
       (\<lambda>k. bind_a (on_wire (wr_ell_create wr (k + 1)))
         (\<lambda>ell_ours. bind_a (on_wire (wr_randbelow wr (int MAX_GARBAGE_LEN + 1)))
           (\<lambda>len. bind_a (on_wire (wr_token_bytes wr len))
             (\<lambda>garbage. bind_a (sendall wr (ell_ours @ garbage)) (\<lambda>_. ret (k + 1, ell_ours, garbage))))))"

definition send_packets ::
  "'w wire \<Rightarrow> 'c p2p \<Rightarrow> 'c \<Rightarrow> bytes \<Rightarrow> (('c, 'w) peering, 'c) act" where
  "send_packets wr pp c garbage =
     bind_a (on_wire (wr_randbelow wr (MAX_DECOYS + 1)))
       (\<lambda>k. bind_a (decoys wr pp (nat k) c garbage [pp_send_terminator pp c])
         (\<lambda>(c', aad, packets). case pp_encrypt pp c' [] aad False of
             (packet, c'') \<Rightarrow> bind_a (sendall wr (concat (packets @ [packet]))) (\<lambda>_. ret c'')))"

definition v2_exchange :: "'w wire \<Rightarrow> 'c p2p \<Rightarrow> (('c, 'w) peering, unit) loop" where
  "v2_exchange wr pp =
     bind_l (once (offer_key wr pp))
       (\<lambda>(prv_key, ell_ours, garbage). bind_l (take_octets wr (pp_ell_size pp))
         (\<lambda>ell_theirs s. bind_l
            (once (bind_a (lift_r (pp_cipher pp prv_key ell_ours ell_theirs
                               (pr_dialled (fst s)) (pr_magic (fst s))))
                     (\<lambda>c. send_packets wr pp c garbage)))
            (\<lambda>c. bind_l (once (on_peer (\<lambda>p. p\<lparr>pr_cipher := Some c\<rparr>)))
              (\<lambda>_. bind_l (take_garbage wr (pp_recv_terminator pp c))
                (\<lambda>aad. bind_l (once (on_peer (\<lambda>p. p\<lparr>pr_aad := aad\<rparr>)))
                  (\<lambda>_. skip_decoys wr pp)))) s))"

definition v2_handshake :: "'w wire \<Rightarrow> 'c p2p \<Rightarrow> (('c, 'w) peering, unit) loop" where
  "v2_handshake wr pp s =
     (if pr_dialled (fst s) then v2_exchange wr pp s
      else bind_l (opens_with_v1_version wr pp)
             (\<lambda>v1. if v1 then once (ret ()) else v2_exchange wr pp) s)"

text \<open>\<open>except BaseException: self.close(); raise\<close>.\<close>

definition v2_handshake_or_close :: "'w wire \<Rightarrow> 'c p2p \<Rightarrow> (('c, 'w) peering, unit) loop" where
  "v2_handshake_or_close wr pp s =
     map_option (\<lambda>(r, t). case r of
         Inr u \<Rightarrow> (Inr u, t)
       | Inl e \<Rightarrow> bind_a (close_peer wr) (\<lambda>_. raise e) t) (v2_handshake wr pp s)"

subsection \<open>Opening, accepting, and whether a connection is open\<close>

text \<open>A constructor answers the object it built; where it raises there is none.\<close>

definition adopted ::
  "'w wire \<Rightarrow> 'c p2p \<Rightarrow> nat \<Rightarrow> bytes \<Rightarrow> rat \<Rightarrow> bool \<Rightarrow> bool \<Rightarrow> ('w timed, 'c peer) loop" where
  "adopted wr pp sock magic timeout dialled supports_v2_p2p t =
     (case adopt sock magic timeout dialled of
        Inl e \<Rightarrow> Some (Inl e, t)
      | Inr p \<Rightarrow> if \<not> supports_v2_p2p then Some (Inr p, t)
                 else map_option (\<lambda>(r, u). (map_sum id (\<lambda>_. fst u) r, snd u)) (v2_handshake_or_close wr pp (p, t)))"

definition open_peer ::
  "'w wire \<Rightarrow> 'c p2p \<Rightarrow> factor_state \<Rightarrow> string \<times> int \<Rightarrow> bytes \<Rightarrow> rat \<Rightarrow> bool \<Rightarrow> ('w timed, 'c peer) loop" where
  "open_peer wr pp st address magic timeout supports_v2_p2p =
     bind_l (once (outside_call (wr_connect wr address (scaled st timeout))))
       (\<lambda>sock. adopted wr pp sock magic (scaled st timeout) True supports_v2_p2p)"

record listener =
  ls_magic :: bytes
  ls_timeout :: rat
  ls_socket :: nat

definition listener_init :: "'w wire \<Rightarrow> factor_state \<Rightarrow> bytes \<Rightarrow> rat \<Rightarrow> ('w timed, listener) act" where
  "listener_init wr st magic timeout =
     bind_a (outside_call (wr_listen wr))
       (\<lambda>sock. if scaled st timeout < 0
          then bind_a (outside_call (wr_close wr sock)) (\<lambda>_. raise (ValueError ''Timeout value out of range''))
          else ret \<lparr>ls_magic = magic, ls_timeout = scaled st timeout, ls_socket = sock\<rparr>)"

definition listener_address :: "'w wire \<Rightarrow> listener \<Rightarrow> ('w timed, string \<times> int) act" where
  "listener_address wr l = outside_call (wr_sockname wr (ls_socket l))"

definition listener_accept :: "'w wire \<Rightarrow> 'c p2p \<Rightarrow> listener \<Rightarrow> bool \<Rightarrow> ('w timed, 'c peer) loop" where
  "listener_accept wr pp l supports_v2_p2p =
     bind_l (once (outside_call (wr_accept wr (ls_socket l) (ls_timeout l))))
       (\<lambda>sock. adopted wr pp sock (ls_magic l) (ls_timeout l) False supports_v2_p2p)"

definition listener_close :: "'w wire \<Rightarrow> listener \<Rightarrow> ('w timed, unit) act" where
  "listener_close wr l = outside_call (wr_close wr (ls_socket l))"

text \<open>\<open>BlockingIOError\<close>, what a read that would wait raises at timeout 0.\<close>

definition BLOCKING :: py_error where "BLOCKING = OSError ''Resource temporarily unavailable''"

partial_function (option) drain :: "'w wire \<Rightarrow> (('c, 'w) peering, bool) loop" where
  [code]: "drain wr s =
     (case on_wire (wr_recv wr (rd_socket (fst s)) 4096 (rd_wait (fst s))) s of
        (Inr chunk, t) \<Rightarrow>
          if chunk = [] then Some (Inr False, t)
          else drain wr ((fst t)\<lparr>rd_buffer := rd_buffer (fst t) @ chunk\<rparr>, snd t)
      | (Inl e, t) \<Rightarrow>
          Some (if e = BLOCKING then Inr True
                else case e of ConnectionError _ \<Rightarrow> Inr False | _ \<Rightarrow> Inl e, t))"

definition is_connected :: "'w wire \<Rightarrow> (('c, 'w) peering, bool) loop" where
  "is_connected wr s =
     (if \<not> pr_open (fst s) then Some (Inr False, s)
      else bind_l (once (settimeout 0))
        (\<lambda>_. finally_l (drain wr) (settimeout (rd_wait (fst s)))) s)"

subsection \<open>What the reads answer\<close>

lemma py_find_append: "py_find needle h = Some i \<Longrightarrow> py_find needle (h @ k) = Some i"
  by (auto simp: py_find_Some_iff)

interpretation finding: framing "garbage_decision terminator" for terminator
proof unfold_locales
  fix b c x rest
  let ?limit = "MAX_GARBAGE_LEN + length terminator"
  assume "garbage_decision terminator b = Some (Inr x, rest)"
  then obtain i where found: "py_find terminator (take ?limit b) = Some i"
    and answer: "x = take i b" "rest = drop (i + length terminator) b"
    by (auto simp: garbage_decision_def Let_def split: option.splits if_splits)
  from found have "i + length terminator \<le> length b" by (simp add: py_find_Some_iff)
  moreover from py_find_append [OF found] have "py_find terminator (take ?limit (b @ c)) = Some i" by simp
  ultimately show "garbage_decision terminator (b @ c) = Some (Inr x, rest @ c)"
    by (simp add: garbage_decision_def Let_def answer)
next
  show "garbage_decision terminator b = Some (Inl e, rest) \<Longrightarrow> rest = b" for b e rest
    by (auto simp: garbage_decision_def Let_def split: option.splits if_splits)
qed

interpretation opens: framing "opens_decision start" for start
proof unfold_locales
  fix b c x rest
  assume *: "opens_decision start b = Some (Inr x, rest)"
  show "opens_decision start (b @ c) = Some (Inr x, rest @ c)"
  proof (cases "length start \<le> length b")
    case True
    with * show ?thesis by (auto simp: opens_decision_def Let_def split: if_splits)
  next
    case False
    then have head: "take (length start) b = b" by simp
    with * False have "\<not> prefix b start" "x = False" "rest = b"
      by (auto simp: opens_decision_def Let_def py_startswith_iff_prefix split: if_splits)
    moreover from this(1) have "\<not> prefix (take (length start) (b @ c)) start"
      using False by (metis append_prefixD head not_prefix_cases take_append)
    ultimately show ?thesis by (simp add: opens_decision_def Let_def py_startswith_iff_prefix)
  qed
qed (auto simp: opens_decision_def Let_def split: if_splits)

text \<open>What btclib promises of \<open>Message.parse\<close>: what follows a whole message is not read.\<close>

definition parse_in_order :: "'c p2p \<Rightarrow> bool" where
  "parse_in_order pp \<longleftrightarrow> (\<forall>b m used. pp_parse pp b = Inr (m, used) \<longrightarrow>
     4 \<le> used \<and> used \<le> length b \<and> (\<forall>c. pp_parse pp (b @ c) = Inr (m, used)))"

lemma v1_framing:
  assumes "parse_in_order pp" and "length magic \<le> 4"
  shows "framing (v1_decision pp magic)"
proof
  fix b c x rest
  assume *: "v1_decision pp magic b = Some (Inr x, rest)"
  then obtain used where parse: "pp_parse pp b = Inr (x, used)" and rest: "rest = drop used b"
    and magic: "length (take (length magic) b) = length magic \<longrightarrow> take (length magic) b = magic"
    by (auto simp: v1_decision_def Let_def split: if_splits sum.splits)
  have "4 \<le> used" "used \<le> length b" "pp_parse pp (b @ c) = Inr (x, used)"
    using assms(1) parse unfolding parse_in_order_def by blast+
  with magic assms(2) rest show "v1_decision pp magic (b @ c) = Some (Inr x, rest @ c)"
    by (simp add: v1_decision_def Let_def)
next
  show "v1_decision pp magic b = Some (Inl e, rest) \<Longrightarrow> rest = b" for b e rest
    by (auto simp: v1_decision_def Let_def split: if_splits sum.splits)
qed

lemma take_octets_outcome:
  assumes "recv_in_order wr pending"
  shows "\<exists>r t. take_octets wr wanted s = Some (r, t) \<and> rebuffered (fst s) (fst t)
    \<and> (case r of Inr x \<Rightarrow> length x = wanted \<and> unread pending s = x @ unread pending t
       | Inl e \<Rightarrow> unread pending t = unread pending s)"
proof -
  obtain r t where run: "take_octets wr wanted s = Some (r, t)"
    using reading_returns [OF take_decision_bound] unfolding take_octets_def by blast
  note stream = taking.reading_stream [OF run [unfolded take_octets_def] assms]
  have "case r of Inr x \<Rightarrow> length x = wanted \<and> unread pending s = x @ unread pending t
       | Inl e \<Rightarrow> unread pending t = unread pending s"
    using stream by (auto simp: take_decision_def split: sum.splits if_splits) (metis append_take_drop_id)
  then show ?thesis using run reading_rebuffers [OF run [unfolded take_octets_def]] by blast
qed

text \<open>
  C4: reading a v1 message refines parsing the stream: however the socket cuts it, the message
  answered is the one the octets still unread parse to, and exactly its octets are consumed; a
  refusal, a timeout and a closed connection consume none, so a later call starts over.
\<close>

theorem receive_v1_refines:
  assumes "recv_in_order wr pending" and "parse_in_order pp" and "length (pr_magic (fst s)) = 4"
    and "receive_v1 wr pp s = Some (r, t)"
  shows "case r of
      Inr m \<Rightarrow> \<exists>used. pp_parse pp (unread pending s) = Inr (m, used)
        \<and> take 4 (unread pending s) = pr_magic (fst s)
        \<and> unread pending t = drop used (unread pending s)
    | Inl e \<Rightarrow> unread pending t = unread pending s"
proof -
  have stream: "case r of Inr m \<Rightarrow> v1_decision pp (pr_magic (fst s)) (unread pending s) = Some (Inr m, unread pending t)
      | Inl e \<Rightarrow> unread pending t = unread pending s"
    using framing.reading_stream [OF v1_framing [OF assms(2)] assms(4) [unfolded receive_v1_def] assms(1)]
      assms(3) by simp
  show ?thesis
  proof (cases r)
    case (Inl e)
    then show ?thesis using stream by simp
  next
    case (Inr m)
    with stream obtain used where parse: "pp_parse pp (unread pending s) = Inr (m, used)"
      and "unread pending t = drop used (unread pending s)"
      and "length (take 4 (unread pending s)) = 4 \<longrightarrow> take 4 (unread pending s) = pr_magic (fst s)"
      using assms(3) by (auto simp: v1_decision_def Let_def split: if_splits sum.splits)
    moreover have "4 \<le> length (unread pending s)"
      using assms(2) parse unfolding parse_in_order_def by (meson le_trans)
    ultimately show ?thesis using Inr by simp
  qed
qed

text \<open>
  The garbage answered is everything ahead of the first terminator in the octets still
  unread, at most 4095 of them, and exactly it and the terminator are consumed; the read
  always comes back, and refuses only where the first 4095 octets and a terminator's length
  hold none. A refusal or a failing socket consumes nothing.
\<close>

lemma take_garbage_outcome:
  assumes "recv_in_order wr pending"
    and "\<And>sock n timeout w m d w'. wr_recv wr sock n timeout w \<noteq> (Inl (ValueError m), d, w')"
  shows "\<exists>r t. take_garbage wr terminator s = Some (r, t) \<and> (case r of
      Inr g \<Rightarrow> unread pending s = g @ terminator @ unread pending t \<and> length g \<le> 4095
        \<and> (\<forall>i < length g. take (length terminator) (drop i (unread pending s)) \<noteq> terminator)
    | Inl e \<Rightarrow> unread pending t = unread pending s
        \<and> ((\<exists>m. e = ValueError m) \<longrightarrow> 4095 + length terminator \<le> length (unread pending s)
            \<and> \<not> sublist terminator (take (4095 + length terminator) (unread pending s))))"
proof -
  let ?limit = "MAX_GARBAGE_LEN + length terminator"
  have "length b < ?limit" if "garbage_decision terminator b = None" for b
    using that by (auto simp: garbage_decision_def Let_def split: option.splits if_splits)
  from reading_returns [of "garbage_decision terminator", OF this] obtain r t
    where run: "reading wr (garbage_decision terminator) s = Some (r, t)" by blast
  note stream = finding.reading_stream [OF run assms(1)]
  have "case r of
      Inr g \<Rightarrow> unread pending s = g @ terminator @ unread pending t \<and> length g \<le> 4095
        \<and> (\<forall>i < length g. take (length terminator) (drop i (unread pending s)) \<noteq> terminator)
    | Inl e \<Rightarrow> unread pending t = unread pending s
        \<and> ((\<exists>m. e = ValueError m) \<longrightarrow> 4095 + length terminator \<le> length (unread pending s)
            \<and> \<not> sublist terminator (take (4095 + length terminator) (unread pending s)))"
  proof (cases r)
    case (Inr g)
    with stream obtain i where found: "py_find terminator (take ?limit (unread pending s)) = Some i"
      and g: "g = take i (unread pending s)"
      and t: "unread pending t = drop (i + length terminator) (unread pending s)"
      by (auto simp: garbage_decision_def Let_def split: option.splits if_splits)
    note spot = found [unfolded py_find_Some_iff]
    have i: "i \<le> 4095" "i + length terminator \<le> length (unread pending s)"
      using spot by (auto simp: MAX_GARBAGE_LEN_def)
    have at: "take (length terminator) (drop j (take ?limit (unread pending s)))
        = take (length terminator) (drop j (unread pending s))" if "j \<le> i" for j
      using that i by (simp add: drop_take MAX_GARBAGE_LEN_def)
    have "unread pending s = g @ terminator @ unread pending t"
      using spot at [of i] unfolding g t
      by (metis append_take_drop_id drop_drop add.commute order_refl)
    moreover have "length g = i" using i g by simp
    moreover have "take (length terminator) (drop j (unread pending s)) \<noteq> terminator" if "j < i" for j
      using spot at [of j] that by auto
    ultimately show ?thesis using Inr i by simp
  next
    case (Inl e)
    have "4095 + length terminator \<le> length (unread pending s)
        \<and> \<not> sublist terminator (take (4095 + length terminator) (unread pending s))"
      if "e = ValueError m" for m
    proof -
      have "garbage_decision terminator (rd_buffer (fst t)) = Some (Inl e, rd_buffer (fst t))"
        by (rule finding.refusal_decided [OF run [unfolded Inl]]) (use assms(2) that in auto)
      then have none: "py_find terminator (take ?limit (rd_buffer (fst t))) = None"
        and long: "?limit \<le> length (rd_buffer (fst t))"
        by (auto simp: garbage_decision_def Let_def split: option.splits if_splits)
      have "take ?limit (unread pending t) = take ?limit (rd_buffer (fst t))"
        "?limit \<le> length (unread pending t)" using long by (simp_all add: unread_def)
      moreover have "unread pending t = unread pending s" using stream Inl by simp
      ultimately show ?thesis using none by (simp add: py_find_None_iff MAX_GARBAGE_LEN_def)
    qed
    then show ?thesis using stream Inl by auto
  qed
  then show ?thesis using run by (simp add: take_garbage_def)
qed

text \<open>
  The packet a v2 connection reads next: its length, the cipher past that length, and the
  octets after it -- whether the length has been decrypted already or not.
\<close>

definition next_packet ::
  "'c p2p \<Rightarrow> (nat \<Rightarrow> 'w \<Rightarrow> bytes) \<Rightarrow> ('c, 'w) peering \<Rightarrow> nat \<times> 'c \<times> bytes" where
  "next_packet pp pending s =
     (case pr_contents_len (fst s) of
        Some n \<Rightarrow> (n, the (pr_cipher (fst s)), unread pending s)
      | None \<Rightarrow> (case pp_decrypt_length pp (the (pr_cipher (fst s))) (take (pp_length_len pp) (unread pending s)) of
          (n, c) \<Rightarrow> (n, c, drop (pp_length_len pp) (unread pending s))))"

lemma rebuffered_peer:
  assumes "rebuffered (fst s) (fst t)"
  shows "pr_cipher (fst t) = pr_cipher (fst s)" and "pr_contents_len (fst t) = pr_contents_len (fst s)"
    and "pr_aad (fst t) = pr_aad (fst s)" and "pr_magic (fst t) = pr_magic (fst s)"
    and "pr_count (fst t) = pr_count (fst s)" and "pr_last (fst t) = pr_last (fst s)"
    and "pr_timeout (fst t) = pr_timeout (fst s)"
proof -
  have eq: "fst t = (fst s)\<lparr>rd_buffer := rd_buffer (fst t)\<rparr>" using assms by (simp only: rebuffered_def)
  show "pr_cipher (fst t) = pr_cipher (fst s)" "pr_contents_len (fst t) = pr_contents_len (fst s)"
    "pr_aad (fst t) = pr_aad (fst s)" "pr_magic (fst t) = pr_magic (fst s)"
    "pr_count (fst t) = pr_count (fst s)" "pr_last (fst t) = pr_last (fst s)"
    "pr_timeout (fst t) = pr_timeout (fst s)"
    by (subst eq, simp)+
qed

lemma next_packet_same:
  assumes "rebuffered (fst s) (fst t)" and "unread pending t = unread pending s"
  shows "next_packet pp pending t = next_packet pp pending s"
  unfolding next_packet_def rebuffered_peer(1,2) [OF assms(1)] assms(2) ..

text \<open>The length, read off the stream where it is not known yet.\<close>

lemma length_step:
  assumes "recv_in_order wr pending" and "pr_cipher (fst s) = Some c0"
    and "next_packet pp pending s = (n, c, rest)"
  defines "step \<equiv> (\<lambda>s. case pr_contents_len (fst s) of
               Some n \<Rightarrow> Some (Inr n, s)
             | None \<Rightarrow> bind_l (take_octets wr (pp_length_len pp)) (\<lambda>octets. once (packet_length pp octets)) s)"
  shows "\<exists>r t. step s = Some (r, t) \<and> next_packet pp pending t = (n, c, rest) \<and> pr_aad (fst t) = pr_aad (fst s)
    \<and> (case r of Inl e \<Rightarrow> rebuffered (fst s) (fst t)
       | Inr k \<Rightarrow> k = n \<and> pr_contents_len (fst t) = Some n \<and> pr_cipher (fst t) = Some c \<and> unread pending t = rest)"
proof (cases "pr_contents_len (fst s)")
  case (Some k)
  then show ?thesis using assms(2,3) by (auto simp: step_def next_packet_def)
next
  case None
  obtain r t where take: "take_octets wr (pp_length_len pp) s = Some (r, t)"
    and kept: "rebuffered (fst s) (fst t)"
    and out: "case r of Inr x \<Rightarrow> length x = pp_length_len pp \<and> unread pending s = x @ unread pending t
       | Inl e \<Rightarrow> unread pending t = unread pending s"
    using take_octets_outcome [OF assms(1), of "pp_length_len pp" s] by blast
  note same = rebuffered_peer [OF kept]
  show ?thesis
  proof (cases r)
    case (Inl e)
    then show ?thesis using take None kept out same(3) next_packet_same [OF kept] assms(3)
      by (simp add: step_def bind_l_def)
  next
    case (Inr x)
    then have x: "take (pp_length_len pp) (unread pending s) = x" "drop (pp_length_len pp) (unread pending s) = unread pending t"
      using out by auto
    obtain c1 where dec: "pp_decrypt_length pp c0 x = (n, c)" and rest: "rest = unread pending t"
      using assms(2,3) None x by (auto simp: next_packet_def split: prod.splits)
    then have "step s = Some (Inr n, ((fst t)\<lparr>pr_cipher := Some c, pr_contents_len := Some n\<rparr>, snd t))"
      using take Inr None same assms(2) by (simp add: step_def bind_l_def packet_length_def)
    then show ?thesis using same rest by (simp add: next_packet_def unread_def)
  qed
qed

text \<open>
  C11: an interrupted read of a v2 packet is invisible. \<open>receive_packet\<close> always comes back; where
  the socket fails it -- a wait that times out, say -- the packet that comes next is the one
  that came next before, its length decrypted once and only once, so calling again answers
  what one uninterrupted call would have; where it answers, it is what that packet decrypts
  to, under the additional data kept until then, and exactly its octets are consumed.
\<close>

theorem receive_packet_resumes:
  assumes "recv_in_order wr pending" and "pr_cipher (fst s) = Some c0"
    and "next_packet pp pending s = (n, c, rest)"
  shows "\<exists>r t. receive_packet wr pp s = Some (r, t) \<and>
    ((isl r \<and> next_packet pp pending t = (n, c, rest) \<and> pr_aad (fst t) = pr_aad (fst s))
     \<or> (let len = pp_header_len pp + n + pp_tag_len pp
        in len \<le> length rest \<and> unread pending t = drop len rest
          \<and> (r, the (pr_cipher (fst t))) = pp_decrypt pp c (take len rest) (pr_aad (fst s))
          \<and> pr_contents_len (fst t) = None \<and> pr_aad (fst t) = []))"
proof -
  let ?step = "\<lambda>s. case pr_contents_len (fst s) of
               Some n \<Rightarrow> Some (Inr n, s)
             | None \<Rightarrow> bind_l (take_octets wr (pp_length_len pp)) (\<lambda>octets. once (packet_length pp octets)) s"
  let ?len = "pp_header_len pp + n + pp_tag_len pp"
  obtain q u where step: "?step s = Some (q, u)" and view: "next_packet pp pending u = (n, c, rest)"
    and aad: "pr_aad (fst u) = pr_aad (fst s)"
    and known: "case q of Inl e \<Rightarrow> rebuffered (fst s) (fst u)
       | Inr k \<Rightarrow> k = n \<and> pr_contents_len (fst u) = Some n \<and> pr_cipher (fst u) = Some c \<and> unread pending u = rest"
    using length_step [OF assms] by blast
  show ?thesis
  proof (cases q)
    case (Inl e)
    then have "receive_packet wr pp s = Some (Inl e, u)"
      using step by (simp add: receive_packet_def bind_l_def)
    then show ?thesis using view aad by auto
  next
    case (Inr k)
    with known have u: "k = n" "pr_cipher (fst u) = Some c" "pr_contents_len (fst u) = Some n" "unread pending u = rest"
      by simp_all
    obtain r t where take: "take_octets wr ?len u = Some (r, t)" and kept: "rebuffered (fst u) (fst t)"
      and out: "case r of Inr x \<Rightarrow> length x = ?len \<and> unread pending u = x @ unread pending t
         | Inl e \<Rightarrow> unread pending t = unread pending u"
      using take_octets_outcome [OF assms(1), of ?len u] by blast
    note same = rebuffered_peer [OF kept]
    have run: "receive_packet wr pp s = bind_l (\<lambda>_. Some (r, t)) (\<lambda>x. once (open_packet pp x)) u"
      using step Inr u(1) take by (simp add: receive_packet_def bind_l_def)
    show ?thesis
    proof (cases r)
      case (Inl e)
      then show ?thesis using run out view aad same(3) next_packet_same [OF kept] by (simp add: bind_l_def)
    next
      case (Inr x)
      then have x: "x = take ?len rest" "unread pending t = drop ?len rest" "?len \<le> length rest"
        using out u(4) by auto
      obtain d c' where dec: "pp_decrypt pp c x (pr_aad (fst t)) = (d, c')" by (rule prod.exhaust)
      have "receive_packet wr pp s = Some (d, ((fst t)\<lparr>pr_cipher := Some c', pr_contents_len := None, pr_aad := []\<rparr>, snd t))"
        using run Inr same(1) u(2) dec by (simp add: bind_l_def open_packet_def)
      moreover have "unread pending ((fst t)\<lparr>pr_cipher := Some c', pr_contents_len := None, pr_aad := []\<rparr>, snd t)
          = drop ?len rest" using x(2) by (simp add: unread_def)
      ultimately show ?thesis using x dec same(3) aad by (simp add: Let_def)
    qed
  qed
qed

subsection \<open>What receiving counts\<close>

definition same_books :: "'c peer \<Rightarrow> 'c peer \<Rightarrow> bool" where
  "same_books p q \<longleftrightarrow> pr_count q = pr_count p \<and> pr_last q = pr_last p \<and> pr_timeout q = pr_timeout p
     \<and> rd_wait q = rd_wait p"

definition keeps_books :: "(('c, 'w) peering, 'a) loop \<Rightarrow> bool" where
  "keeps_books m \<longleftrightarrow> (\<forall>s r t. m s = Some (r, t) \<longrightarrow> same_books (fst s) (fst t))"

lemma keeps_booksD: "keeps_books m \<Longrightarrow> m s = Some (r, t) \<Longrightarrow> same_books (fst s) (fst t)"
  unfolding keeps_books_def by blast

lemma same_books_refl [simp]: "same_books p p"
  by (simp add: same_books_def)

lemma same_books_trans: "same_books p q \<Longrightarrow> same_books q r \<Longrightarrow> same_books p r"
  by (simp add: same_books_def)

lemma keeps_books_reading: "keeps_books (reading wr decide)"
  unfolding keeps_books_def same_books_def
  by (blast dest: reading_rebuffers rebuffered_peer(5-7) rebuffered_socket)

lemma keeps_books_bind: "keeps_books m \<Longrightarrow> (\<And>x. keeps_books (f x)) \<Longrightarrow> keeps_books (bind_l m f)"
  unfolding keeps_books_def
proof (intro allI impI)
  fix s r t
  assume m: "\<forall>s r t. m s = Some (r, t) \<longrightarrow> same_books (fst s) (fst t)"
    and f: "\<And>x. \<forall>s r t. f x s = Some (r, t) \<longrightarrow> same_books (fst s) (fst t)"
    and run: "bind_l m f s = Some (r, t)"
  from run obtain q u where q: "m s = Some (q, u)" by (cases "m s") (auto simp: bind_l_def)
  with m have here: "same_books (fst s) (fst u)" by blast
  show "same_books (fst s) (fst t)"
  proof (cases q)
    case (Inl e)
    then show ?thesis using run q here by (simp add: bind_l_def)
  next
    case (Inr x)
    then have "f x u = Some (r, t)" using run q by (simp add: bind_l_def)
    then show ?thesis using f same_books_trans [OF here] by blast
  qed
qed

lemma keeps_books_once:
  "keeps_books (once (packet_length pp x))" "keeps_books (once (open_packet pp x))"
  by (auto simp: keeps_books_def same_books_def packet_length_def open_packet_def
      split: option.splits prod.splits)

lemma keeps_books_packet: "keeps_books (receive_packet wr pp)"
proof -
  have "keeps_books (\<lambda>s. case pr_contents_len (fst s) of
               Some n \<Rightarrow> Some (Inr n, s)
             | None \<Rightarrow> bind_l (take_octets wr (pp_length_len pp)) (\<lambda>octets. once (packet_length pp octets)) s)"
    unfolding keeps_books_def
  proof (intro allI impI)
    fix s :: "('a, 'b) peering" and r t
    assume run: "(case pr_contents_len (fst s) of
               Some n \<Rightarrow> Some (Inr n, s)
             | None \<Rightarrow> bind_l (take_octets wr (pp_length_len pp)) (\<lambda>octets. once (packet_length pp octets)) s) = Some (r, t)"
    have "keeps_books (bind_l (take_octets wr (pp_length_len pp)) (\<lambda>octets. once (packet_length pp octets)))"
      unfolding take_octets_def by (intro keeps_books_bind keeps_books_reading keeps_books_once)
    from keeps_booksD [OF this, of s r t] run show "same_books (fst s) (fst t)"
      by (cases "pr_contents_len (fst s)") auto
  qed
  then show ?thesis
    unfolding receive_packet_def take_octets_def
    by (intro keeps_books_bind keeps_books_reading keeps_books_once)
qed

lemma keeps_books_v2: "keeps_books (receive_v2 wr pp)"
proof -
  have "same_books (fst s) (fst (snd y))" if "receive_v2 wr pp s = Some y" for s y
  proof (induction rule: receive_v2.raw_induct [OF _ that])
    case (1 rec wr pp s y)
    from 1(2) obtain q u where packet: "receive_packet wr pp s = Some (q, u)"
      by (auto split: option.splits)
    have here: "same_books (fst s) (fst u)" using keeps_booksD [OF keeps_books_packet packet] .
    have "y = (fst y, u) \<or> rec wr pp u = Some y"
      using 1(2) packet by (auto split: sum.splits prod.splits if_splits py_error.splits)
    then show ?case
    proof
      assume "y = (fst y, u)"
      then have "snd y = u" by (metis snd_conv)
      then show ?thesis using here by simp
    next
      assume "rec wr pp u = Some y"
      then show ?thesis using 1(1) same_books_trans [OF here] by blast
    qed
  qed
  then show ?thesis by (force simp: keeps_books_def)
qed

lemma receive_now_counts:
  assumes "receive_now wr pp s = Some (r, t)"
  shows "case r of
      Inl e \<Rightarrow> same_books (fst s) (fst t)
    | Inr m \<Rightarrow> same_books (note_message m (fst s)) (fst t)"
proof -
  let ?read = "\<lambda>s. if pr_cipher (fst s) = None then receive_v1 wr pp s else receive_v2 wr pp s"
  have keeps: "same_books (fst s) (fst u)" if "?read s = Some (q, u)" for q u
    using that keeps_booksD [OF keeps_books_reading, of wr "v1_decision pp (pr_magic (fst s))" s q u]
      keeps_booksD [OF keeps_books_v2, of wr pp s q u]
    by (simp add: receive_v1_def split: if_splits)
  from assms obtain q u where read: "?read s = Some (q, u)"
    by (cases "?read s") (auto simp: receive_now_def bind_l_def)
  note here = keeps [OF read]
  show ?thesis
  proof (cases q)
    case (Inl e)
    then have "r = Inl e" "t = u" using assms read by (auto simp: receive_now_def bind_l_def)
    then show ?thesis using here by simp
  next
    case (Inr m)
    then have "r = Inr m" "fst t = note_message m (fst u)"
      using assms read by (auto simp: receive_now_def bind_l_def on_peer_def bind_a_def)
    then show ?thesis using here by (simp add: same_books_def note_message_def)
  qed
qed

text \<open>
  \<open>receive\<close> counts exactly the message it answers, and keeps it as the latest of its command;
  where it raises nothing is counted. A timeout of its own holds for that call only: the
  connection is back at the peer's default wait when it returns or raises.
\<close>

lemma receive_counts:
  assumes "receive wr pp timeout s = Some (r, t)" and "0 \<le> pr_timeout (fst s)"
    and "rd_wait (fst s) = pr_timeout (fst s)"
  shows "pr_timeout (fst t) = pr_timeout (fst s) \<and> rd_wait (fst t) = pr_timeout (fst t)
    \<and> (case r of
         Inl e \<Rightarrow> pr_count (fst t) = pr_count (fst s) \<and> pr_last (fst t) = pr_last (fst s)
       | Inr m \<Rightarrow> pr_count (fst t) = (pr_count (fst s))(ms_command m := Suc (pr_count (fst s) (ms_command m)))
           \<and> pr_last (fst t) = (pr_last (fst s))(ms_command m \<mapsto> m))"
proof (cases timeout)
  case None
  then show ?thesis using receive_now_counts [of wr pp s r t] assms
    by (auto simp: receive_def same_books_def note_message_def split: sum.splits)
next
  case (Some wait)
  show ?thesis
  proof (cases "wait < 0")
    case True
    then show ?thesis using assms Some by (auto simp: receive_def settimeout_def bind_l_def)
  next
    case False
    let ?s = "((fst s)\<lparr>rd_wait := wait\<rparr>, snd s)"
    from assms(1) Some False obtain u where now: "receive_now wr pp ?s = Some (r, u)"
      and t: "t = ((fst u)\<lparr>rd_wait := pr_timeout (fst u)\<rparr>, snd u)"
    proof -
      from assms(1) Some False obtain q u where now: "receive_now wr pp ?s = Some (q, u)"
        and fin: "finally_a (\<lambda>_. (q, u)) (\<lambda>s. settimeout (pr_timeout (fst s)) s) u = (r, t)"
        by (auto simp: receive_def settimeout_def bind_l_def on_peer_def finally_l_def)
      have "pr_timeout (fst u) = pr_timeout (fst s)"
        using receive_now_counts [OF now] by (cases q) (auto simp: same_books_def note_message_def)
      then show thesis using that now fin assms(2)
        by (auto simp: finally_a_def settimeout_def on_peer_def)
    qed
    show ?thesis using receive_now_counts [OF now] assms(3) unfolding t
      by (cases r) (auto simp: same_books_def note_message_def)
  qed
qed

subsection \<open>What waiting hears\<close>

text \<open>The messages read, and the pings among them answered, before a deadline.\<close>

inductive heard ::
  "'w wire \<Rightarrow> 'c p2p \<Rightarrow> rat \<Rightarrow> ('c, 'w) peering \<Rightarrow> message list \<Rightarrow> ('c, 'w) peering \<Rightarrow> bool"
  for wr pp deadline s where
  nothing: "heard wr pp deadline s [] s"
| another: "heard wr pp deadline s ms u \<Longrightarrow> clock (snd u) < deadline
    \<Longrightarrow> receive wr pp (Some (deadline - clock (snd u))) u = Some (Inr m, v)
    \<Longrightarrow> answer_ping wr pp m v = (Inr (), w) \<Longrightarrow> heard wr pp deadline s (ms @ [m]) w"

lemma heard_first:
  assumes "heard wr pp deadline w ms t" and "clock (snd s) < deadline"
    and "receive wr pp (Some (deadline - clock (snd s))) s = Some (Inr m, v)"
    and "answer_ping wr pp m v = (Inr (), w)"
  shows "heard wr pp deadline s (m # ms) t"
  using assms(1)
proof induction
  case nothing
  from heard.another [OF heard.nothing assms(2-4)] show ?case by simp
next
  case (another ms u m' v' w')
  from heard.another [OF another.IH another.hyps(2-4)] show ?case by simp
qed

text \<open>How one round of the wait can end it.\<close>

definition last_round ::
  "'w wire \<Rightarrow> 'c p2p \<Rightarrow> string \<Rightarrow> (message \<Rightarrow> bool result) option \<Rightarrow> rat
    \<Rightarrow> ('c, 'w) peering \<Rightarrow> message option result \<Rightarrow> ('c, 'w) peering \<Rightarrow> bool" where
  "last_round wr pp command predicate deadline u r t \<longleftrightarrow>
     (if deadline \<le> clock (snd u) then r = Inr None \<and> t = u
      else case receive wr pp (Some (deadline - clock (snd u))) u of
          None \<Rightarrow> False
        | Some (Inl e, v) \<Rightarrow> r = (case e of TimeoutError _ \<Rightarrow> Inr None | _ \<Rightarrow> Inl e) \<and> t = v
        | Some (Inr m, v) \<Rightarrow>
            (case answer_ping wr pp m v of
               (Inl e, w) \<Rightarrow> r = Inl e \<and> t = w
             | (Inr _, w) \<Rightarrow> t = w \<and> (case wanted_message command predicate m of
                   Inl e \<Rightarrow> r = Inl e | Inr b \<Rightarrow> b \<and> r = Inr (Some m))))"

lemma last_round_Some:
  assumes "last_round wr pp command predicate deadline u (Inr (Some m)) t"
  shows "wanted_message command predicate m = Inr True"
proof -
  have late: "\<not> deadline \<le> clock (snd u)" using assms by (auto simp: last_round_def)
  then obtain q v where recv: "receive wr pp (Some (deadline - clock (snd u))) u = Some (q, v)"
    using assms by (auto simp: last_round_def split: option.splits)
  show ?thesis
  proof (cases q)
    case (Inl e)
    then show ?thesis using assms late recv by (cases e) (auto simp: last_round_def)
  next
    case (Inr m')
    then show ?thesis using assms late recv
      by (cases "wanted_message command predicate m'") (auto simp: last_round_def split: prod.splits sum.splits)
  qed
qed

lemma wait_for_loop_hears:
  assumes "wait_for_loop wr pp command predicate deadline s = Some y"
  shows "\<exists>ms u. heard wr pp deadline s ms u
    \<and> list_all (\<lambda>m. wanted_message command predicate m = Inr False) ms
    \<and> last_round wr pp command predicate deadline u (fst y) (snd y)"
proof (induction rule: wait_for_loop.raw_induct [OF _ assms])
  case (1 rec wr pp command predicate deadline s y)
  let ?remaining = "deadline - clock (snd s)"
  have stop: ?case if "last_round wr pp command predicate deadline s (fst y) (snd y)"
    using that heard.nothing by fastforce
  show ?case
  proof (cases "deadline \<le> clock (snd s)")
    case True
    with 1(2) have "y = (Inr None, s)" by (simp add: Let_def)
    then show ?thesis using True stop by (simp add: last_round_def)
  next
    case False
    with 1(2) obtain q v where recv: "receive wr pp (Some ?remaining) s = Some (q, v)"
      by (auto simp: Let_def split: option.splits)
    show ?thesis
    proof (cases q)
      case (Inl e)
      then have "y = (case e of TimeoutError _ \<Rightarrow> Inr None | _ \<Rightarrow> Inl e, v)"
        using 1(2) False recv by (simp add: Let_def)
      then show ?thesis using stop False recv Inl by (simp add: last_round_def)
    next
      case (Inr m)
      obtain a w where ping: "answer_ping wr pp m v = (a, w)" by (rule prod.exhaust)
      show ?thesis
      proof (cases "a = Inr () \<and> wanted_message command predicate m = Inr False")
        case True
        then have "rec wr pp command predicate deadline w = Some y"
          using 1(2) False recv Inr ping by (simp add: Let_def bind_a_def)
        from 1(1) [OF this] obtain ms u where rest: "heard wr pp deadline w ms u"
          "list_all (\<lambda>m. wanted_message command predicate m = Inr False) ms"
          "last_round wr pp command predicate deadline u (fst y) (snd y)" by blast
        have "heard wr pp deadline s (m # ms) u"
          using heard_first [OF rest(1)] False recv Inr ping True by auto
        then show ?thesis using rest True by (intro exI [of _ "m # ms"] exI [of _ u]) simp
      next
        case no: False
        have "last_round wr pp command predicate deadline s (fst y) (snd y)"
          using 1(2) False recv Inr ping no
          by (cases a; cases "wanted_message command predicate m")
            (auto simp: Let_def bind_a_def last_round_def split: if_splits)
        then show ?thesis by (rule stop)
      qed
    qed
  qed
qed


subsection \<open>Witnesses\<close>

text \<open>A socket that hands out a script of chunks, and a codec of six-octet messages.\<close>

definition script_wire :: "bytes list wire" where
  "script_wire = \<lparr>wr_recv = (\<lambda>sock n timeout w. case w of
        [] \<Rightarrow> (Inl (TimeoutError ''timed out''), timeout, [])
      | c # cs \<Rightarrow> if length c \<le> n then (Inr c, 1, cs) else (Inr (take n c), 1, drop n c # cs)),
     wr_send = (\<lambda>sock data w. (Inr (), 0, w)), wr_close = (\<lambda>sock w. (Inr (), 0, w)),
     wr_connect = (\<lambda>address timeout w. (Inr 0, 0, w)), wr_accept = (\<lambda>sock timeout w. (Inr 0, 0, w)),
     wr_listen = (\<lambda>w. (Inr 0, 0, w)), wr_sockname = (\<lambda>sock w. (Inr (''127.0.0.1'', 1), 0, w)),
     wr_randbelow = (\<lambda>n w. (Inr 0, 0, w)), wr_token_bytes = (\<lambda>n w. (Inr [], 0, w)),
     wr_ell_create = (\<lambda>k w. (Inr [], 0, w))\<rparr>"

definition script_pending :: "nat \<Rightarrow> bytes list \<Rightarrow> bytes" where
  "script_pending sock w = concat w"

definition six_codec :: "nat p2p" where
  "six_codec = \<lparr>pp_parse = (\<lambda>b. if length b < 6 then Inl IncompleteMessageError
        else Inr (\<lparr>ms_magic = take 4 b, ms_command = (if b ! 4 = 0 then ''ping'' else ''pong''),
                   ms_payload = [b ! 5]\<rparr>, 6)),
     pp_serialize = (\<lambda>m. ms_magic m @ [if ms_command m = ''ping'' then 0 else 1] @ ms_payload m),
     pp_to_message = (\<lambda>p magic check. Inr \<lparr>ms_magic = magic, ms_command = ''pong'', ms_payload = [7]\<rparr>),
     pp_ping_nonce = (\<lambda>b. Inr (uint (hd b))), pp_pong_nonce = (\<lambda>b. Inr (uint (hd b))),
     pp_parse_version = Inr, pp_contents = (\<lambda>c b. Inr b), pp_from_contents = (\<lambda>b. Inr (''pong'', b)),
     pp_cipher = (\<lambda>k a b d m. Inr 0), pp_send_terminator = (\<lambda>c. [9]), pp_recv_terminator = (\<lambda>c. [9]),
     pp_encrypt = (\<lambda>c b aad ignored. (b, Suc c)), pp_decrypt_length = (\<lambda>c b. (unat (hd b), Suc c)),
     pp_decrypt = (\<lambda>c b aad. (Inr (b, False), Suc c)), pp_curve_order = 7, pp_ell_size = 2,
     pp_header_len = 0, pp_length_len = 1, pp_tag_len = 1\<rparr>"

definition fresh_peer :: "nat option \<Rightarrow> nat peer" where
  "fresh_peer c = \<lparr>rd_socket = 0, rd_wait = 30, rd_buffer = [], pr_magic = [1, 2, 3, 4], pr_timeout = 30,
     pr_dialled = True, pr_cipher = c, pr_contents_len = None, pr_aad = [], pr_count = (\<lambda>_. 0),
     pr_last = (\<lambda>_. None), pr_open = True\<rparr>"

abbreviation at_start :: "bytes list \<Rightarrow> bytes list timed" where
  "at_start chunks \<equiv> \<lparr>clock = 0, world = chunks\<rparr>"

lemma script_in_order: "recv_in_order script_wire script_pending"
  by (auto simp: recv_in_order_def script_wire_def script_pending_def split: list.splits prod.splits)

lemma six_parse_in_order: "parse_in_order six_codec"
  by (auto simp: parse_in_order_def six_codec_def nth_append split: if_splits)

definition succeeds :: "('s, 'a) loop \<Rightarrow> 's \<Rightarrow> bool" where
  "succeeds m s = (case m s of Some (Inr _, _) \<Rightarrow> True | _ \<Rightarrow> False)"

lemma succeedsE:
  assumes "succeeds m s"
  obtains x t where "m s = Some (Inr x, t)"
  using assms by (auto simp: succeeds_def split: option.splits prod.splits sum.splits)

lemma receive_v1_refines_witness:
  "\<exists>m t. receive_v1 script_wire six_codec (fresh_peer None, at_start [[1, 2], [3, 4, 1], [5, 8]]) = Some (Inr m, t)
     \<and> unread script_pending t = [8]"
proof -
  let ?s = "(fresh_peer None, at_start [[1, 2], [3, 4, 1], [5, 8]])"
  have "succeeds (receive_v1 script_wire six_codec) ?s" by code_simp
  then obtain m t where run: "receive_v1 script_wire six_codec ?s = Some (Inr m, t)" by (rule succeedsE)
  have "length (pr_magic (fst ?s)) = 4" by (simp add: fresh_peer_def)
  from receive_v1_refines [OF script_in_order six_parse_in_order this run] run
  show ?thesis by (auto simp: six_codec_def unread_def fresh_peer_def script_pending_def)
qed

lemma take_garbage_outcome_witness:
  "\<exists>g t. take_garbage script_wire [9] (fresh_peer (Some 0), at_start [[5, 6], [7, 9, 1]]) = Some (Inr g, t)
     \<and> [5, 6, 7, 9, 1] = g @ [9] @ unread script_pending t"
proof -
  let ?s = "(fresh_peer (Some 0), at_start [[5, 6], [7, 9, 1]])"
  have "succeeds (take_garbage script_wire [9]) ?s" by code_simp
  then obtain g t where run: "take_garbage script_wire [9] ?s = Some (Inr g, t)" by (rule succeedsE)
  have "wr_recv script_wire sock n timeout w \<noteq> (Inl (ValueError m), d, w')" for sock n timeout w m d w'
    by (auto simp: script_wire_def split: list.splits)
  from take_garbage_outcome [OF script_in_order this, of "[9]" ?s] run
  show ?thesis by (auto simp: unread_def fresh_peer_def script_pending_def)
qed

lemma receive_packet_resumes_witness:
  "\<exists>t. receive_packet script_wire six_codec (fresh_peer (Some 0), at_start [[2], [5]]) = Some (Inl (TimeoutError ''timed out''), t)
     \<and> next_packet six_codec script_pending t = (2, 1, [5])"
proof -
  let ?s = "(fresh_peer (Some 0), at_start [[2], [5]])"
  have view: "next_packet six_codec script_pending ?s = (2, 1, [5])" by code_simp
  have cipher: "pr_cipher (fst ?s) = Some 0" by (simp add: fresh_peer_def)
  have "map_option fst (receive_packet script_wire six_codec ?s) = Some (Inl (TimeoutError ''timed out''))"
    by code_simp
  then obtain t where "receive_packet script_wire six_codec ?s = Some (Inl (TimeoutError ''timed out''), t)"
    by auto
  with receive_packet_resumes [OF script_in_order cipher view] show ?thesis
    by (auto simp: six_codec_def Let_def)
qed

lemma receive_counts_witness:
  "\<exists>m t. receive script_wire six_codec (Some 5) (fresh_peer None, at_start [[1, 2, 3, 4, 1, 5]]) = Some (Inr m, t)
     \<and> rd_wait (fst t) = 30 \<and> pr_count (fst t) (ms_command m) = 1"
proof -
  let ?s = "(fresh_peer None, at_start [[1, 2, 3, 4, 1, 5]])"
  have "succeeds (receive script_wire six_codec (Some 5)) ?s" by code_simp
  then obtain m t where run: "receive script_wire six_codec (Some 5) ?s = Some (Inr m, t)" by (rule succeedsE)
  have "0 \<le> pr_timeout (fst ?s)" "rd_wait (fst ?s) = pr_timeout (fst ?s)" by (simp_all add: fresh_peer_def)
  from receive_counts [OF run this] run show ?thesis by (auto simp: fresh_peer_def)
qed


end
