(* ===== verification/Socks5.thy ===== *)
theory Socks5
  imports Wire
begin

section \<open>The SOCKS5 negotiation\<close>

text \<open>
  The part of \<open>socks5.py\<close> that speaks to one client: \<open>_receive\<close>, \<open>_check_version\<close>, \<open>_spell\<close>, and
  \<open>_negotiate\<close>, which answers a client's choice of method, its credentials and its
  \<open>CONNECT\<close>. Reading is a \<open>loop\<close> on the world the connection's socket is in.
\<close>

subsection \<open>Requests\<close>

definition SOCKS_VERSION :: octet where "SOCKS_VERSION = 5"
definition NO_AUTHENTICATION :: octet where "NO_AUTHENTICATION = 0"
definition USERNAME_PASSWORD :: octet where "USERNAME_PASSWORD = 2"
definition NO_ACCEPTABLE_METHODS :: octet where "NO_ACCEPTABLE_METHODS = 255"
definition AUTH_VERSION :: octet where "AUTH_VERSION = 1"
definition AUTH_SUCCESS :: octet where "AUTH_SUCCESS = 0"
definition CONNECT :: octet where "CONNECT = 1"

definition SUCCESS_REPLY :: bytes where
  "SUCCESS_REPLY = [SOCKS_VERSION, 0, 0, 1, 0, 0, 0, 0, 0, 0]"

lemmas socks_constants = SOCKS_VERSION_def NO_AUTHENTICATION_def USERNAME_PASSWORD_def
  NO_ACCEPTABLE_METHODS_def AUTH_VERSION_def AUTH_SUCCESS_def CONNECT_def

datatype address_type = IPV4 | DOMAINNAME | IPV6

fun address_octet :: "address_type \<Rightarrow> octet" where
  "address_octet IPV4 = 1"
| "address_octet DOMAINNAME = 3"
| "address_octet IPV6 = 4"

definition address_type_of :: "octet \<Rightarrow> address_type result" where
  "address_type_of b =
     (case List.find (\<lambda>k. address_octet k = b) [IPV4, DOMAINNAME, IPV6] of
        Some k \<Rightarrow> Inr k | None \<Rightarrow> Inl (ValueError ''is not a valid AddressType''))"

fun host_length :: "address_type \<Rightarrow> nat option" where
  "host_length IPV4 = Some 4"
| "host_length IPV6 = Some 16"
| "host_length DOMAINNAME = None"

record socks_request =
  sq_address_type :: address_type
  sq_host :: bytes
  sq_port :: int
  sq_username :: "bytes option"
  sq_password :: "bytes option"

text \<open>\<open>_spell\<close>: an address and port, or a path.\<close>

definition spell_address :: "(string \<times> nat) + string \<Rightarrow> string" where
  "spell_address address =
     (case address of
        Inr path \<Rightarrow> path
      | Inl (host, port) \<Rightarrow>
          if CHR '':'' \<in> set host then ''['' @ host @ '']:'' @ dec port else host @ '':'' @ dec port)"

subsection \<open>Reading from the client\<close>

partial_function (option) receive_loop ::
  "'w wire \<Rightarrow> nat \<Rightarrow> rat \<Rightarrow> nat \<Rightarrow> bytes \<Rightarrow> ('w timed, bytes) loop" where
  [code]: "receive_loop wr sock timeout wanted data s =
     (if length data < wanted
      then case outside_call (wr_recv wr sock (wanted - length data) timeout) s of
             (Inl e, t) \<Rightarrow> Some (Inl e, t)
           | (Inr chunk, t) \<Rightarrow>
               if chunk = [] then Some (Inl (ConnectionError ''connection closed after octets''), t)
               else receive_loop wr sock timeout wanted (data @ chunk) t
      else Some (Inr data, s))"

definition socks_receive :: "'w wire \<Rightarrow> nat \<Rightarrow> rat \<Rightarrow> nat \<Rightarrow> ('w timed, bytes) loop" where
  "socks_receive wr sock timeout wanted = receive_loop wr sock timeout wanted []"

text \<open>\<open>_receive(connection, 1)[0]\<close>.\<close>

definition receive_octet :: "'w wire \<Rightarrow> nat \<Rightarrow> rat \<Rightarrow> ('w timed, octet) loop" where
  "receive_octet wr sock timeout =
     bind_l (socks_receive wr sock timeout 1)
       (\<lambda>bs. once (case bs of [] \<Rightarrow> raise (IndexError ''index out of range'') | b # _ \<Rightarrow> ret b))"

definition check_version :: "octet \<Rightarrow> octet \<Rightarrow> unit result" where
  "check_version received expected =
     (if received \<noteq> expected then Inl (ValueError ''version'') else Inr ())"

definition socks_send :: "'w wire \<Rightarrow> nat \<Rightarrow> bytes \<Rightarrow> ('w timed, unit) act" where
  "socks_send wr sock data = outside_call (wr_send wr sock data)"

subsection \<open>Negotiating\<close>

definition choose_method :: "bool \<Rightarrow> bytes \<Rightarrow> octet option" where
  "choose_method authentication methods =
     (if authentication \<and> USERNAME_PASSWORD \<in> set methods then Some USERNAME_PASSWORD
      else if NO_AUTHENTICATION \<in> set methods then Some NO_AUTHENTICATION else None)"

definition negotiate_method :: "'w wire \<Rightarrow> nat \<Rightarrow> rat \<Rightarrow> bool \<Rightarrow> ('w timed, octet) loop" where
  "negotiate_method wr sock timeout authentication =
     bind_l (socks_receive wr sock timeout 2)
       (\<lambda>head. case head of
           [version, method_count] \<Rightarrow>
             bind_l (once (lift_r (check_version version SOCKS_VERSION)))
              (\<lambda>_. bind_l (socks_receive wr sock timeout (unat method_count))
                (\<lambda>methods. once (case choose_method authentication methods of
                     None \<Rightarrow> bind_a (socks_send wr sock [SOCKS_VERSION, NO_ACCEPTABLE_METHODS])
                               (\<lambda>_. raise (ValueError ''no acceptable method''))
                   | Some method \<Rightarrow>
                       bind_a (socks_send wr sock [SOCKS_VERSION, method]) (\<lambda>_. ret method))))
         | _ \<Rightarrow> once (raise (ValueError ''values to unpack'')))"

text \<open>A field behind its length octet.\<close>

definition receive_counted :: "'w wire \<Rightarrow> nat \<Rightarrow> rat \<Rightarrow> ('w timed, bytes) loop" where
  "receive_counted wr sock timeout =
     bind_l (receive_octet wr sock timeout) (\<lambda>n. socks_receive wr sock timeout (unat n))"

definition negotiate_credentials ::
  "'w wire \<Rightarrow> nat \<Rightarrow> rat \<Rightarrow> octet \<Rightarrow> ('w timed, bytes option \<times> bytes option) loop" where
  "negotiate_credentials wr sock timeout method =
     (if method = USERNAME_PASSWORD
      then bind_l (receive_octet wr sock timeout)
       (\<lambda>auth_version. bind_l (once (lift_r (check_version auth_version AUTH_VERSION)))
        (\<lambda>_. bind_l (receive_counted wr sock timeout)
         (\<lambda>username. bind_l (receive_counted wr sock timeout)
          (\<lambda>password. bind_l (once (socks_send wr sock [AUTH_VERSION, AUTH_SUCCESS]))
           (\<lambda>_. once (ret (Some username, Some password)))))))
      else once (ret (None, None)))"

definition port_of :: "bytes \<Rightarrow> int" where
  "port_of bs = foldl (\<lambda>n b. 256 * n + uint b) 0 bs"

definition negotiate_connect ::
  "'w wire \<Rightarrow> nat \<Rightarrow> rat \<Rightarrow> bytes option \<Rightarrow> bytes option \<Rightarrow> ('w timed, socks_request) loop" where
  "negotiate_connect wr sock timeout username password =
     bind_l (socks_receive wr sock timeout 4)
       (\<lambda>head. case head of
           [version, command, reserved, address_type] \<Rightarrow>
             bind_l (once (lift_r (check_version version SOCKS_VERSION)))
              (\<lambda>_. if command \<noteq> CONNECT then once (raise (ValueError ''command, not CONNECT''))
                 else bind_l (once (lift_r (address_type_of address_type)))
                  (\<lambda>kind. bind_l (case host_length kind of
                        Some n \<Rightarrow> socks_receive wr sock timeout n
                      | None \<Rightarrow> receive_counted wr sock timeout)
                   (\<lambda>host. bind_l (socks_receive wr sock timeout 2)
                    (\<lambda>port. bind_l (once (socks_send wr sock SUCCESS_REPLY))
                     (\<lambda>_. once (ret \<lparr>sq_address_type = kind, sq_host = host, sq_port = port_of port,
                              sq_username = username, sq_password = password\<rparr>))))))
         | _ \<Rightarrow> once (raise (ValueError ''values to unpack'')))"

definition negotiate :: "'w wire \<Rightarrow> nat \<Rightarrow> rat \<Rightarrow> bool \<Rightarrow> ('w timed, socks_request) loop" where
  "negotiate wr sock timeout authentication =
     bind_l (negotiate_method wr sock timeout authentication)
       (\<lambda>method. bind_l (negotiate_credentials wr sock timeout method)
         (\<lambda>(username, password). negotiate_connect wr sock timeout username password))"

subsection \<open>What a client sends\<close>

definition counted :: "bytes \<Rightarrow> bytes" where
  "counted bs = word_of_nat (length bs) # bs"

definition credential_octets :: "socks_request \<Rightarrow> bytes" where
  "credential_octets r =
     (case (sq_username r, sq_password r) of
        (Some u, Some p) \<Rightarrow> AUTH_VERSION # counted u @ counted p | _ \<Rightarrow> [])"

definition host_octets :: "socks_request \<Rightarrow> bytes" where
  "host_octets r = (if host_length (sq_address_type r) = None then counted (sq_host r) else sq_host r)"

definition client_octets :: "bytes \<Rightarrow> octet \<Rightarrow> socks_request \<Rightarrow> bytes" where
  "client_octets methods reserved r =
     SOCKS_VERSION # counted methods @ credential_octets r
     @ [SOCKS_VERSION, CONNECT, reserved, address_octet (sq_address_type r)] @ host_octets r
     @ [word_of_int (sq_port r div 256), word_of_int (sq_port r)]"

definition reply_octets :: "octet \<Rightarrow> bytes" where
  "reply_octets method =
     [SOCKS_VERSION, method] @ (if method = USERNAME_PASSWORD then [AUTH_VERSION, AUTH_SUCCESS] else [])
     @ SUCCESS_REPLY"

text \<open>Fields of a length their length octet, or their address type, can say; and the credentials
  that go with the method.\<close>

definition proper_request :: "octet \<Rightarrow> socks_request \<Rightarrow> bool" where
  "proper_request method r \<longleftrightarrow>
     (case host_length (sq_address_type r) of None \<Rightarrow> length (sq_host r) < 256 | Some n \<Rightarrow> length (sq_host r) = n)
     \<and> 0 \<le> sq_port r \<and> sq_port r < 65536
     \<and> (if method = USERNAME_PASSWORD
        then (\<exists>u p. sq_username r = Some u \<and> sq_password r = Some p \<and> length u < 256 \<and> length p < 256)
        else sq_username r = None \<and> sq_password r = None)"

subsection \<open>A client that is served\<close>

text \<open>
  What a connected client and TCP promise: the octets the client has sent arrive in order, an
  answer reaches it, and neither costs the other; \<open>sent\<close> is what the client has been sent.
\<close>

definition serving :: "'w wire \<Rightarrow> nat \<Rightarrow> ('w \<Rightarrow> bytes) \<Rightarrow> ('w \<Rightarrow> bytes) \<Rightarrow> bool" where
  "serving wr sock pending sent \<longleftrightarrow>
     (\<forall>n timeout w. 0 < n \<longrightarrow> pending w \<noteq> [] \<longrightarrow> (case wr_recv wr sock n timeout w of
          (Inr chunk, d, w') \<Rightarrow> chunk \<noteq> [] \<and> length chunk \<le> n \<and> pending w = chunk @ pending w' \<and> sent w' = sent w
        | (Inl e, d, w') \<Rightarrow> False))
     \<and> (\<forall>data w. case wr_send wr sock data w of
          (r, d, w') \<Rightarrow> r = Inr () \<and> pending w' = pending w \<and> sent w' = sent w @ data)"

text \<open>\<open>hands m x a out\<close>: of a client that has sent \<open>x\<close> next, \<open>m\<close> reads exactly that, sends \<open>out\<close>,
  and answers \<open>a\<close>.\<close>

definition hands ::
  "('w \<Rightarrow> bytes) \<Rightarrow> ('w \<Rightarrow> bytes) \<Rightarrow> ('w timed, 'a) loop \<Rightarrow> bytes \<Rightarrow> 'a \<Rightarrow> bytes \<Rightarrow> bool" where
  "hands pending sent m x a out \<longleftrightarrow> (\<forall>s rest. pending (world s) = x @ rest \<longrightarrow>
     (\<exists>t. m s = Some (Inr a, t) \<and> pending (world t) = rest \<and> sent (world t) = sent (world s) @ out))"

lemma hands_bind:
  fixes m :: "('w timed, 'a) loop"
  assumes "hands pending sent m x a out" and "hands pending sent (f a) y b out'"
  shows "hands pending sent (bind_l m f) (x @ y) b (out @ out')"
  unfolding hands_def
proof (intro allI impI)
  fix s :: "'w timed" and rest
  assume "pending (world s) = (x @ y) @ rest"
  then obtain t where "m s = Some (Inr a, t)" "pending (world t) = y @ rest" "sent (world t) = sent (world s) @ out"
    using assms(1) unfolding hands_def by (metis append_assoc)
  moreover from this(2) obtain u where "f a t = Some (Inr b, u)" "pending (world u) = rest"
    "sent (world u) = sent (world t) @ out'" using assms(2) unfolding hands_def by metis
  ultimately show "\<exists>u. bind_l m f s = Some (Inr b, u) \<and> pending (world u) = rest
      \<and> sent (world u) = sent (world s) @ out @ out'" by (simp add: bind_l_def)
qed

lemma hands_bindI:
  assumes "hands pending sent m x a out" and "hands pending sent (f a) y b out'"
    and "z = x @ y" and "result = out @ out'"
  shows "hands pending sent (bind_l m f) z b result"
  unfolding assms(3,4) using assms(1,2) by (rule hands_bind)

lemma handsE:
  assumes "hands pending sent m x a out" and "pending (world s) = x @ rest"
  obtains t where "m s = Some (Inr a, t)" "pending (world t) = rest" "sent (world t) = sent (world s) @ out"
  using assms unfolding hands_def by metis

lemma hands_ret: "hands pending sent (once (ret a)) [] a []"
  by (simp add: hands_def)

lemma hands_ok: "r = Inr a \<Longrightarrow> hands pending sent (once (lift_r r)) [] a []"
  by (simp add: hands_def)

lemma hands_send:
  assumes "serving wr sock pending sent"
  shows "hands pending sent (once (socks_send wr sock data)) [] () data"
  using assms unfolding hands_def serving_def socks_send_def outside_call_def
  by (auto split: prod.splits)

lemma hands_send_ret:
  assumes "serving wr sock pending sent"
  shows "hands pending sent (once (bind_a (socks_send wr sock data) (\<lambda>_. ret a))) [] a data"
  using hands_send [OF assms, of data] unfolding hands_def
  by (fastforce simp: bind_a_def)

lemma receive_loop_served:
  assumes "serving wr sock pending sent" and "pending (world s) = x @ rest"
  shows "\<exists>t. receive_loop wr sock timeout (length data + length x) data s = Some (Inr (data @ x), t)
    \<and> pending (world t) = rest \<and> sent (world t) = sent (world s)"
  using assms(2)
proof (induction "length x" arbitrary: x data s rule: less_induct)
  case less
  show ?case
  proof (cases "x = []")
    case True
    then show ?thesis using less.prems by (subst receive_loop.simps) simp
  next
    case False
    obtain r d w where recv: "wr_recv wr sock (length x) timeout (world s) = (r, d, w)" by (rule prod_cases3)
    have "case wr_recv wr sock (length x) timeout (world s) of
          (Inr chunk, d, w') \<Rightarrow> chunk \<noteq> [] \<and> length chunk \<le> length x
            \<and> pending (world s) = chunk @ pending w' \<and> sent w' = sent (world s)
        | (Inl e, d, w') \<Rightarrow> False"
      using assms(1) False less.prems unfolding serving_def by simp
    with recv less.prems obtain chunk where chunk: "r = Inr chunk" "chunk \<noteq> []"
      "length chunk \<le> length x" "x @ rest = chunk @ pending w" "sent w = sent (world s)"
      by (cases r) auto
    from chunk(3,4) obtain y where y: "x = chunk @ y" "pending w = y @ rest"
      by (auto simp: append_eq_append_conv2)
    let ?t = "\<lparr>clock = clock s + max 0 d, world = w\<rparr>"
    have "length y < length x" using y(1) chunk(2) by simp
    from less.hyps [OF this, of ?t "data @ chunk"] y(2) obtain u where
      "receive_loop wr sock timeout (length (data @ chunk) + length y) (data @ chunk) ?t = Some (Inr ((data @ chunk) @ y), u)"
      "pending (world u) = rest" "sent (world u) = sent w" by auto
    moreover have "receive_loop wr sock timeout (length data + length x) data s =
        receive_loop wr sock timeout (length (data @ chunk) + length y) (data @ chunk) ?t"
      using False chunk(2) y(1) recv chunk(1)
      by (subst receive_loop.simps) (simp add: outside_call_def add.assoc)
    ultimately show ?thesis using chunk(5) y(1) by simp
  qed
qed

lemma hands_receive:
  assumes "serving wr sock pending sent" and "length x = n"
  shows "hands pending sent (socks_receive wr sock timeout n) x x []"
  using receive_loop_served [OF assms(1), of _ x _ timeout "[]"] assms(2)
  unfolding hands_def socks_receive_def by auto

lemma hands_octet:
  assumes "serving wr sock pending sent"
  shows "hands pending sent (receive_octet wr sock timeout) [b] b []"
  unfolding receive_octet_def
  by (rule hands_bindI [OF hands_receive [OF assms, of "[b]"]]) (simp_all add: hands_ret del: act_rewrites)

lemma unat_length: "length bs < 256 \<Longrightarrow> unat (word_of_nat (length bs) :: octet) = length bs"
  by (simp add: unat_word_ariths unat_of_nat)

lemma hands_counted:
  assumes "serving wr sock pending sent" and "length bs < 256"
  shows "hands pending sent (receive_counted wr sock timeout) (counted bs) bs []"
  unfolding receive_counted_def counted_def
  by (rule hands_bindI [OF hands_octet [OF assms(1)] hands_receive [OF assms(1)]])
    (simp_all add: unat_length [OF assms(2)])

lemmas hands_intros = hands_ret hands_ok hands_send hands_send_ret hands_receive hands_octet hands_counted

lemma address_type_of_octet [simp]: "address_type_of (address_octet k) = Inr k"
  by (cases k) (simp_all add: address_type_of_def)

lemma port_round_trip:
  assumes "0 \<le> p" "p < 65536"
  shows "port_of [word_of_int (p div 256), word_of_int p] = p"
proof -
  have "p div 256 mod 256 = p div 256" using assms by (intro mod_pos_pos_trivial) auto
  then show ?thesis by (simp add: port_of_def uint_word_of_int)
qed

lemma hands_method:
  assumes "serving wr sock pending sent" and "choose_method authentication methods = Some method"
    and "length methods < 256"
  shows "hands pending sent (negotiate_method wr sock timeout authentication)
    (SOCKS_VERSION # counted methods) method [SOCKS_VERSION, method]"
  unfolding negotiate_method_def
proof (rule hands_bindI [OF hands_receive [OF assms(1), of "[SOCKS_VERSION, word_of_nat (length methods)]"]])
  have version: "hands pending sent (once (lift_r (check_version SOCKS_VERSION SOCKS_VERSION))) [] () []"
    by (rule hands_ok) (simp add: check_version_def)
  have offer: "hands pending sent (socks_receive wr sock timeout (unat (word_of_nat (length methods) :: octet))) methods methods []"
    by (rule hands_receive [OF assms(1)]) (simp add: unat_length [OF assms(3)])
  have choice: "hands pending sent (once (bind_a (socks_send wr sock [SOCKS_VERSION, method]) (\<lambda>_. ret method))) [] method
      [SOCKS_VERSION, method]" by (rule hands_send_ret [OF assms(1)])
  show "hands pending sent (case [SOCKS_VERSION, word_of_nat (length methods)] of
           [version, method_count] \<Rightarrow>
             bind_l (once (lift_r (check_version version SOCKS_VERSION)))
              (\<lambda>_. bind_l (socks_receive wr sock timeout (unat method_count))
                (\<lambda>methods. once (case choose_method authentication methods of
                     None \<Rightarrow> bind_a (socks_send wr sock [SOCKS_VERSION, NO_ACCEPTABLE_METHODS])
                               (\<lambda>_. raise (ValueError ''no acceptable method''))
                   | Some method \<Rightarrow>
                       bind_a (socks_send wr sock [SOCKS_VERSION, method]) (\<lambda>_. ret method))))
         | _ \<Rightarrow> once (raise (ValueError ''values to unpack'')))
      methods method [SOCKS_VERSION, method]"
    unfolding list.case
    apply (rule hands_bindI [OF version])
      apply (rule hands_bindI [OF offer])
        apply (simp only: assms(2) option.case, rule choice)
    by simp_all
qed (simp_all add: counted_def)

lemma hands_credentials:
  assumes "serving wr sock pending sent" and "proper_request method r"
  shows "hands pending sent (negotiate_credentials wr sock timeout method) (credential_octets r)
    (sq_username r, sq_password r)
    (if method = USERNAME_PASSWORD then [AUTH_VERSION, AUTH_SUCCESS] else [])"
proof (cases "method = USERNAME_PASSWORD")
  case False
  then show ?thesis using assms(2) hands_ret
    by (simp add: negotiate_credentials_def proper_request_def credential_octets_def del: act_rewrites)
next
  case True
  with assms(2) obtain u p where creds: "sq_username r = Some u" "sq_password r = Some p" "length u < 256" "length p < 256"
    by (auto simp: proper_request_def)
  have "hands pending sent (once (lift_r (check_version AUTH_VERSION AUTH_VERSION))) [] () []"
    by (rule hands_ok) (simp add: check_version_def)
  then have "hands pending sent (negotiate_credentials wr sock timeout method) (AUTH_VERSION # counted u @ counted p)
      (Some u, Some p) [AUTH_VERSION, AUTH_SUCCESS]"
    unfolding negotiate_credentials_def using True
    apply (simp del: act_rewrites)
    apply (rule hands_bindI [OF hands_octet [OF assms(1), of _ AUTH_VERSION]])
      apply (rule hands_bindI [where x = "[]"], assumption)
        apply (rule hands_bindI [OF hands_counted [OF assms(1) creds(3)]])
          apply (rule hands_bindI [OF hands_counted [OF assms(1) creds(4)]])
            apply (rule hands_bindI [OF hands_send [OF assms(1)] hands_ret])
    by simp_all
  then show ?thesis using creds True by (simp add: credential_octets_def)
qed

lemma hands_connect:
  assumes "serving wr sock pending sent" and "proper_request method r"
  shows "hands pending sent (negotiate_connect wr sock timeout (sq_username r) (sq_password r))
    ([SOCKS_VERSION, CONNECT, reserved, address_octet (sq_address_type r)] @ host_octets r
     @ [word_of_int (sq_port r div 256), word_of_int (sq_port r)]) r SUCCESS_REPLY"
proof -
  let ?port = "[word_of_int (sq_port r div 256), word_of_int (sq_port r)] :: bytes"
  have host: "hands pending sent (case host_length (sq_address_type r) of
        Some n \<Rightarrow> socks_receive wr sock timeout n | None \<Rightarrow> receive_counted wr sock timeout) (host_octets r) (sq_host r) []"
    using assms(2) hands_receive [OF assms(1)] hands_counted [OF assms(1)]
    by (cases "host_length (sq_address_type r)") (auto simp: proper_request_def host_octets_def)
  have version: "hands pending sent (once (lift_r (check_version SOCKS_VERSION SOCKS_VERSION))) [] () []"
    by (rule hands_ok) (simp add: check_version_def)
  have kind: "hands pending sent (once (lift_r (address_type_of (address_octet (sq_address_type r))))) []
      (sq_address_type r) []" by (rule hands_ok) simp
  have "port_of ?port = sq_port r" using assms(2) by (intro port_round_trip) (simp_all add: proper_request_def)
  then have done_: "hands pending sent (once (ret \<lparr>sq_address_type = sq_address_type r, sq_host = sq_host r,
      sq_port = port_of ?port, sq_username = sq_username r, sq_password = sq_password r\<rparr>)) [] r []"
    using hands_ret [of pending sent r] by (cases r) simp
  show ?thesis
    unfolding negotiate_connect_def
    apply (rule hands_bindI [OF hands_receive [OF assms(1), of "[SOCKS_VERSION, CONNECT, reserved, address_octet (sq_address_type r)]"]])
       apply simp
      apply (simp only: list.case)
     apply (rule hands_bindI [OF version])
       apply (simp only: simp_thms if_False)
       apply (rule hands_bindI [OF kind])
         apply (rule hands_bindI [OF host])
           apply (rule hands_bindI [OF hands_receive [OF assms(1), of ?port]])
              apply simp
             apply (rule hands_bindI [OF hands_send [OF assms(1), of SUCCESS_REPLY]])
               apply (rule done_)
    by simp_all
qed

text \<open>
  C6: the negotiation decodes what a client encodes. Of a client that sends its methods, the
  credentials that go with the one the proxy chooses, and a \<open>CONNECT\<close>, however the octets are
  cut, the proxy reads exactly those octets, answers the method, the credentials' success
  and the connection's, in that order, and records exactly the request the client made.
\<close>

theorem negotiate_round_trip:
  assumes "serving wr sock pending sent" and "choose_method authentication methods = Some method"
    and "length methods < 256" and "proper_request method r"
    and "pending (world s) = client_octets methods reserved r @ rest"
  shows "\<exists>t. negotiate wr sock timeout authentication s = Some (Inr r, t) \<and> pending (world t) = rest
    \<and> sent (world t) = sent (world s) @ reply_octets method"
proof -
  have "hands pending sent (negotiate wr sock timeout authentication) (client_octets methods reserved r) r (reply_octets method)"
    unfolding negotiate_def
    apply (rule hands_bindI [OF hands_method [OF assms(1-3)]])
      apply (rule hands_bindI [OF hands_credentials [OF assms(1,4)]])
        apply (simp only: prod.case, rule hands_connect [OF assms(1,4), where reserved = reserved])
    by (simp_all add: client_octets_def reply_octets_def)
  then show ?thesis using assms(5) unfolding hands_def by blast
qed

text \<open>A client of one connection, its octets arriving three at a time at most.\<close>

definition socks_wire :: "(bytes \<times> bytes) wire" where
  "socks_wire = \<lparr>
     wr_recv = (\<lambda>sock n timeout (p, q). let k = min n 3 in
       if p = [] then (Inl (TimeoutError ''timed out''), timeout, p, q) else (Inr (take k p), 1 / 10, drop k p, q)),
     wr_send = (\<lambda>sock data (p, q). (Inr (), 0, p, q @ data)),
     wr_close = (\<lambda>sock w. (Inr (), 0, w)),
     wr_connect = (\<lambda>addr timeout w. (Inr 0, 0, w)),
     wr_accept = (\<lambda>sock timeout w. (Inr 0, 0, w)),
     wr_listen = (\<lambda>w. (Inr 0, 0, w)),
     wr_sockname = (\<lambda>sock w. (Inr (''127.0.0.1'', 1080), 0, w)),
     wr_randbelow = (\<lambda>n w. (Inr 0, 0, w)),
     wr_token_bytes = (\<lambda>n w. (Inr [], 0, w)),
     wr_ell_create = (\<lambda>n w. (Inr [], 0, w))\<rparr>"

definition asked :: socks_request where
  "asked = \<lparr>sq_address_type = DOMAINNAME, sq_host = [97, 46, 98], sq_port = 8333,
            sq_username = Some [117], sq_password = Some []\<rparr>"

lemma socks_wire_serving: "serving socks_wire 0 fst snd"
  unfolding serving_def socks_wire_def by (auto simp: Let_def)

lemma negotiate_round_trip_witness:
  "\<exists>t. negotiate socks_wire 0 30 True \<lparr>clock = 0, world = (client_octets [0, 2] 9 asked @ [7], [])\<rparr>
      = Some (Inr asked, t) \<and> fst (world t) = [7] \<and> snd (world t) = [5, 2, 1, 0, 5, 0, 0, 1, 0, 0, 0, 0, 0, 0]"
proof -
  have "choose_method True [0, 2] = Some USERNAME_PASSWORD" "length [0, 2 :: octet] < 256"
    "proper_request USERNAME_PASSWORD asked"
    by (simp_all add: choose_method_def socks_constants asked_def proper_request_def)
  from negotiate_round_trip [OF socks_wire_serving this, of "\<lparr>clock = 0, world = (client_octets [0, 2] 9 asked @ [7], [])\<rparr>" 9 "[7]" 30]
  show ?thesis by (simp add: reply_octets_def socks_constants SUCCESS_REPLY_def)
qed

text \<open>A client that offers nothing the proxy accepts is told so before the error.\<close>

lemma no_method_refused:
  assumes "serving wr sock pending sent" and "choose_method authentication methods = None"
    and "length methods < 256" and "pending (world s) = (SOCKS_VERSION # counted methods) @ rest"
  shows "\<exists>t m. negotiate wr sock timeout authentication s = Some (Inl (ValueError m), t) \<and> pending (world t) = rest
    \<and> sent (world t) = sent (world s) @ [SOCKS_VERSION, NO_ACCEPTABLE_METHODS]"
proof -
  let ?head = "[SOCKS_VERSION, word_of_nat (length methods)] :: bytes"
  have "pending (world s) = ?head @ methods @ rest" using assms(4) by (simp add: counted_def)
  then obtain t where t: "socks_receive wr sock timeout 2 s = Some (Inr ?head, t)"
      "pending (world t) = methods @ rest" "sent (world t) = sent (world s) @ []"
    by (rule handsE [OF hands_receive [OF assms(1), of ?head 2 timeout, simplified]])
  obtain u where u: "socks_receive wr sock timeout (length methods) t = Some (Inr methods, u)"
      "pending (world u) = rest" "sent (world u) = sent (world t) @ []"
    by (rule handsE [OF hands_receive [OF assms(1) refl] t(2)])
  obtain v where v: "once (socks_send wr sock [SOCKS_VERSION, NO_ACCEPTABLE_METHODS]) u = Some (Inr (), v)"
      "pending (world v) = rest" "sent (world v) = sent (world u) @ [SOCKS_VERSION, NO_ACCEPTABLE_METHODS]"
    by (rule handsE [OF hands_send [OF assms(1)], where s = u and rest = rest]) (simp_all add: u(2))
  show ?thesis using t u v
    by (simp add: negotiate_def negotiate_method_def bind_l_def check_version_def unat_length [OF assms(3)] assms(2) bind_a_def)
qed

subsection \<open>Any client\<close>

text \<open>
  Less than \<open>serving\<close>: what arrives is what the client sent, in order, and what is sent
  reaches it; either may fail. \<open>took m P\<close>: where \<open>m\<close> succeeds, \<open>P\<close> holds of what it read, what
  it answers and what it sent.
\<close>

definition conversing :: "'w wire \<Rightarrow> nat \<Rightarrow> ('w \<Rightarrow> bytes) \<Rightarrow> ('w \<Rightarrow> bytes) \<Rightarrow> bool" where
  "conversing wr sock pending sent \<longleftrightarrow>
     (\<forall>n timeout w chunk d w'. wr_recv wr sock n timeout w = (Inr chunk, d, w') \<longrightarrow>
        length chunk \<le> n \<and> pending w = chunk @ pending w' \<and> sent w' = sent w)
     \<and> (\<forall>data w d w'. wr_send wr sock data w = (Inr (), d, w') \<longrightarrow>
        pending w' = pending w \<and> sent w' = sent w @ data)"

definition took ::
  "('w \<Rightarrow> bytes) \<Rightarrow> ('w \<Rightarrow> bytes) \<Rightarrow> ('w timed, 'a) loop \<Rightarrow> (bytes \<Rightarrow> 'a \<Rightarrow> bytes \<Rightarrow> bool) \<Rightarrow> bool" where
  "took pending sent m P \<longleftrightarrow> (\<forall>s a t. m s = Some (Inr a, t) \<longrightarrow>
     (\<exists>x out. pending (world s) = x @ pending (world t) \<and> sent (world t) = sent (world s) @ out \<and> P x a out))"

lemma took_bind:
  assumes "took pending sent m P" and "\<And>a. took pending sent (f a) (Q a)"
    and "\<And>x a out y b out'. P x a out \<Longrightarrow> Q a y b out' \<Longrightarrow> R (x @ y) b (out @ out')"
  shows "took pending sent (bind_l m f) R"
  unfolding took_def
proof (intro allI impI)
  fix s b u
  assume "bind_l m f s = Some (Inr b, u)"
  then obtain a t where "m s = Some (Inr a, t)" "f a t = Some (Inr b, u)" by (rule bind_l_InrD)
  with assms(1,2) obtain x out y out' where
    "pending (world s) = x @ pending (world t)" "sent (world t) = sent (world s) @ out" "P x a out"
    "pending (world t) = y @ pending (world u)" "sent (world u) = sent (world t) @ out'" "Q a y b out'"
    unfolding took_def by metis
  with assms(3) show "\<exists>x out. pending (world s) = x @ pending (world u)
      \<and> sent (world u) = sent (world s) @ out \<and> R x b out" by fastforce
qed

lemma took_seq:
  assumes "took pending sent m P" and "\<And>a. took pending sent (f a) (Q a)"
  shows "took pending sent (bind_l m f)
    (\<lambda>xy b both. \<exists>x a out y out'. xy = x @ y \<and> both = out @ out' \<and> P x a out \<and> Q a y b out')"
  by (rule took_bind [OF assms]) blast

lemma took_weaken:
  "took pending sent m P \<Longrightarrow> (\<And>x a out. P x a out \<Longrightarrow> R x a out) \<Longrightarrow> took pending sent m R"
  unfolding took_def by metis

lemma took_pure:
  "took pending sent (once (ret a)) (\<lambda>x b out. x = [] \<and> out = [] \<and> b = a)"
  "took pending sent (once (raise e)) (\<lambda>x b out. False)"
  "took pending sent (once (lift_r r)) (\<lambda>x b out. x = [] \<and> out = [] \<and> r = Inr b)"
  by (auto simp: took_def)

lemma receive_loop_took:
  assumes "conversing wr sock pending sent" and "length data \<le> wanted"
    and "receive_loop wr sock timeout wanted data s = Some (Inr a, t)"
  shows "\<exists>x. a = data @ x \<and> length a = wanted \<and> pending (world s) = x @ pending (world t) \<and> sent (world t) = sent (world s)"
  using assms(2,3)
proof (induction "wanted - length data" arbitrary: data s rule: less_induct)
  case less
  show ?case
  proof (cases "length data < wanted")
    case False
    then have "a = data \<and> t = s" using less.prems by (subst (asm) receive_loop.simps) simp
    then show ?thesis using less.prems(1) False by simp
  next
    case True
    obtain r d w where recv: "wr_recv wr sock (wanted - length data) timeout (world s) = (r, d, w)" by (rule prod_cases3)
    let ?t = "\<lparr>clock = clock s + max 0 d, world = w\<rparr>"
    from less.prems(2) recv True obtain chunk where chunk: "r = Inr chunk" "chunk \<noteq> []"
        "receive_loop wr sock timeout wanted (data @ chunk) ?t = Some (Inr a, t)"
      by (subst (asm) receive_loop.simps) (auto simp: outside_call_def split: sum.splits if_splits)
    have "length chunk \<le> wanted - length data" and split: "pending (world s) = chunk @ pending w" "sent w = sent (world s)"
      using assms(1) recv chunk(1) unfolding conversing_def by metis+
    then have "wanted - length (data @ chunk) < wanted - length data" "length (data @ chunk) \<le> wanted"
      using True chunk(2) by (cases chunk; simp)+
    from less.hyps [OF this chunk(3)] split show ?thesis by auto
  qed
qed

lemma receive_loop_returns: "\<exists>r t. receive_loop wr sock timeout wanted data s = Some (r, t)"
proof (induction "wanted - length data" arbitrary: data s rule: less_induct)
  case less
  show ?case
  proof (cases "length data < wanted")
    case True
    obtain r t where call: "outside_call (wr_recv wr sock (wanted - length data) timeout) s = (r, t)" by (rule prod.exhaust)
    show ?thesis
    proof (cases r)
      case (Inr chunk)
      show ?thesis
      proof (cases "chunk = []")
        case False
        then have "wanted - length (data @ chunk) < wanted - length data" using True by (cases chunk) auto
        from less [OF this, of t] show ?thesis using True call Inr False by (subst receive_loop.simps) simp
      qed (use True call Inr in \<open>subst receive_loop.simps, simp\<close>)
    qed (use True call in \<open>subst receive_loop.simps, simp\<close>)
  qed (subst receive_loop.simps, simp)
qed

lemma took_receive:
  assumes "conversing wr sock pending sent"
  shows "took pending sent (socks_receive wr sock timeout n) (\<lambda>x a out. a = x \<and> length x = n \<and> out = [])"
  using receive_loop_took [OF assms, of "[]"] unfolding took_def socks_receive_def by fastforce

lemma took_octet:
  assumes "conversing wr sock pending sent"
  shows "took pending sent (receive_octet wr sock timeout) (\<lambda>x b out. x = [b] \<and> out = [])"
  unfolding receive_octet_def
proof (rule took_bind [OF took_receive [OF assms]])
  fix bs :: bytes
  show "took pending sent (once (case bs of [] \<Rightarrow> raise (IndexError ''index out of range'') | b # _ \<Rightarrow> ret b))
      (\<lambda>x b out. x = [] \<and> out = [] \<and> bs \<noteq> [] \<and> b = hd bs)"
    by (cases bs) (auto simp: took_def)
qed (auto simp: length_Suc_conv)

lemma took_send:
  assumes "conversing wr sock pending sent"
  shows "took pending sent (once (socks_send wr sock data)) (\<lambda>x a out. x = [] \<and> out = data)"
  using assms unfolding took_def socks_send_def outside_call_def conversing_def
  by (fastforce split: prod.splits)

lemma unat_octet: "unat (n :: octet) < 256"
  using unsigned_less [of n] by simp

lemma took_counted:
  assumes "conversing wr sock pending sent"
  shows "took pending sent (receive_counted wr sock timeout) (\<lambda>x a out. x = counted a \<and> length a < 256 \<and> out = [])"
  unfolding receive_counted_def
proof (rule took_bind [OF took_octet [OF assms] took_receive [OF assms]])
  fix x :: bytes and n :: octet and out y a out' :: bytes
  assume "x = [n] \<and> out = []" and "a = y \<and> length y = unat n \<and> out' = []"
  then show "x @ y = counted a \<and> length a < 256 \<and> out @ out' = []"
    using unat_octet [of n] by (simp add: counted_def)
qed

lemma took_raise: "took pending sent (once (bind_a m (\<lambda>_. raise e))) (\<lambda>x b out. False)"
  by (auto simp: took_def bind_a_def split: prod.splits sum.splits)

lemma took_send_ret:
  assumes "conversing wr sock pending sent"
  shows "took pending sent (once (bind_a (socks_send wr sock data) (\<lambda>_. ret a))) (\<lambda>x b out. x = [] \<and> b = a \<and> out = data)"
  using took_send [OF assms, of data] unfolding took_def
  by (auto simp: bind_a_def split: prod.splits sum.splits)

lemma took_method:
  assumes "conversing wr sock pending sent"
  shows "took pending sent (negotiate_method wr sock timeout authentication)
    (\<lambda>x method out. \<exists>methods. x = SOCKS_VERSION # counted methods \<and> length methods < 256
       \<and> choose_method authentication methods = Some method \<and> out = [SOCKS_VERSION, method])"
  unfolding negotiate_method_def
proof (rule took_bind [OF took_receive [OF assms]])
  fix head :: bytes
  let ?choice = "\<lambda>methods. once (case choose_method authentication methods of
                     None \<Rightarrow> bind_a (socks_send wr sock [SOCKS_VERSION, NO_ACCEPTABLE_METHODS])
                               (\<lambda>_. raise (ValueError ''no acceptable method''))
                   | Some method \<Rightarrow>
                       bind_a (socks_send wr sock [SOCKS_VERSION, method]) (\<lambda>_. ret method))"
  have choice: "took pending sent (?choice methods)
      (\<lambda>x method out. x = [] \<and> choose_method authentication methods = Some method \<and> out = [SOCKS_VERSION, method])" for methods
  proof (cases "choose_method authentication methods")
    case (Some chosen)
    then show ?thesis using took_send_ret [OF assms, of "[SOCKS_VERSION, chosen]" chosen]
      by (auto elim!: took_weaken)
  qed (use took_raise in \<open>auto elim!: took_weaken\<close>)
  show "took pending sent (case head of
           [version, method_count] \<Rightarrow>
             bind_l (once (lift_r (check_version version SOCKS_VERSION)))
              (\<lambda>_. bind_l (socks_receive wr sock timeout (unat method_count)) ?choice)
         | _ \<Rightarrow> once (raise (ValueError ''values to unpack'')))
      (\<lambda>x method out. \<exists>methods n. head = [SOCKS_VERSION, n] \<and> x = methods \<and> length methods = unat n
         \<and> choose_method authentication methods = Some method \<and> out = [SOCKS_VERSION, method])"
  proof (cases "\<exists>v n. head = [v, n]")
    case True
    then obtain v n where head: "head = [v, n]" by blast
    show ?thesis unfolding head list.case
      by (rule took_weaken [OF took_seq [OF took_pure(3) took_seq [OF took_receive [OF assms] choice]]])
        (auto simp: check_version_def split: if_splits)
  qed (use took_pure(2) in \<open>auto split: list.split elim!: took_weaken\<close>)
next
  fix x head y :: bytes and chosen :: octet and out out' :: bytes
  assume "head = x \<and> length x = 2 \<and> out = []"
    and "\<exists>methods n. head = [SOCKS_VERSION, n] \<and> y = methods \<and> length methods = unat n
         \<and> choose_method authentication methods = Some chosen \<and> out' = [SOCKS_VERSION, chosen]"
  then obtain n where "x = [SOCKS_VERSION, n]" "length y = unat n" "out = []" "out' = [SOCKS_VERSION, chosen]"
    "choose_method authentication y = Some chosen" by auto
  then show "\<exists>methods. x @ y = SOCKS_VERSION # counted methods \<and> length methods < 256
       \<and> choose_method authentication methods = Some chosen \<and> out @ out' = [SOCKS_VERSION, chosen]"
    using unat_octet [of n] by (intro exI [of _ y]) (simp add: counted_def)
qed

lemma took_version:
  "took pending sent (once (lift_r (check_version received expected))) (\<lambda>x a out. x = [] \<and> out = [] \<and> received = expected)"
  by (auto simp: took_def check_version_def)

lemma took_credentials:
  assumes "conversing wr sock pending sent"
  shows "took pending sent (negotiate_credentials wr sock timeout method)
    (\<lambda>x (username, password) out. if method = USERNAME_PASSWORD
       then \<exists>u p. username = Some u \<and> password = Some p \<and> length u < 256 \<and> length p < 256
         \<and> x = AUTH_VERSION # counted u @ counted p \<and> out = [AUTH_VERSION, AUTH_SUCCESS]
       else username = None \<and> password = None \<and> x = [] \<and> out = [])"
proof (cases "method = USERNAME_PASSWORD")
  case True
  then show ?thesis
    unfolding negotiate_credentials_def if_P [OF True]
    by (intro took_weaken [OF took_seq [OF took_octet [OF assms] took_seq [OF took_version
        took_seq [OF took_counted [OF assms] took_seq [OF took_counted [OF assms] took_seq [OF took_send [OF assms] took_pure(1)]]]]]])
      auto
next
  case False
  then show ?thesis unfolding negotiate_credentials_def if_not_P [OF False]
    by (intro took_weaken [OF took_pure(1)]) auto
qed

lemma took_host:
  assumes "conversing wr sock pending sent"
  shows "took pending sent (case host_length kind of
        Some n \<Rightarrow> socks_receive wr sock timeout n | None \<Rightarrow> receive_counted wr sock timeout)
    (\<lambda>x host out. out = [] \<and> (case host_length kind of Some n \<Rightarrow> x = host \<and> length host = n
       | None \<Rightarrow> x = counted host \<and> length host < 256))"
  by (cases "host_length kind")
    (auto intro: took_weaken [OF took_receive [OF assms]] took_weaken [OF took_counted [OF assms]])

lemma two_octets:
  assumes "length bs = 2"
  shows "bs = [word_of_int (port_of bs div 256), word_of_int (port_of bs)] \<and> 0 \<le> port_of bs \<and> port_of bs < 65536"
proof -
  obtain a b where bs: "bs = [a, b]" using assms by (auto simp: length_Suc_conv numeral_2_eq_2)
  have range: "0 \<le> uint a" "uint a < 256" "0 \<le> uint b" "uint b < 256"
    using unsigned_less [of a] unsigned_less [of b] by simp_all
  then have "(256 * uint a + uint b) div 256 = uint a" by simp
  moreover have "word_of_int (256 * uint a + uint b) = b"
  proof -
    have "(256 :: octet) = 0" by simp
    then show ?thesis by (simp only: of_int_add of_int_mult of_int_numeral word_of_int_uint) simp
  qed
  ultimately show ?thesis using range by (simp add: bs port_of_def)
qed

lemma took_connect:
  assumes "conversing wr sock pending sent"
  shows "took pending sent (negotiate_connect wr sock timeout username password)
    (\<lambda>x r out. sq_username r = username \<and> sq_password r = password \<and> 0 \<le> sq_port r \<and> sq_port r < 65536
       \<and> (case host_length (sq_address_type r) of None \<Rightarrow> length (sq_host r) < 256 | Some n \<Rightarrow> length (sq_host r) = n)
       \<and> (\<exists>reserved. x = [SOCKS_VERSION, CONNECT, reserved, address_octet (sq_address_type r)] @ host_octets r
            @ [word_of_int (sq_port r div 256), word_of_int (sq_port r)])
       \<and> out = SUCCESS_REPLY)" (is "took _ _ _ ?R")
  unfolding negotiate_connect_def
proof (rule took_bind [OF took_receive [OF assms]])
  fix head :: bytes
  have kind: "took pending sent (once (lift_r (address_type_of address_type)))
      (\<lambda>x kind out. x = [] \<and> out = [] \<and> address_type = address_octet kind)" for address_type
    by (auto simp: took_def address_type_of_def find_Some_iff split: option.splits)
  show "took pending sent (case head of
           [version, command, reserved, address_type] \<Rightarrow>
             bind_l (once (lift_r (check_version version SOCKS_VERSION)))
              (\<lambda>_. if command \<noteq> CONNECT then once (raise (ValueError ''command, not CONNECT''))
                 else bind_l (once (lift_r (address_type_of address_type)))
                  (\<lambda>kind. bind_l (case host_length kind of
                        Some n \<Rightarrow> socks_receive wr sock timeout n
                      | None \<Rightarrow> receive_counted wr sock timeout)
                   (\<lambda>host. bind_l (socks_receive wr sock timeout 2)
                    (\<lambda>port. bind_l (once (socks_send wr sock SUCCESS_REPLY))
                     (\<lambda>_. once (ret \<lparr>sq_address_type = kind, sq_host = host, sq_port = port_of port,
                              sq_username = username, sq_password = password\<rparr>))))))
         | _ \<Rightarrow> once (raise (ValueError ''values to unpack'')))
      (\<lambda>x r out. \<exists>reserved. head = [SOCKS_VERSION, CONNECT, reserved, address_octet (sq_address_type r)] \<and> ?R (head @ x) r out)"
  proof (cases "\<exists>v c r a. head = [v, c, r, a]")
    case True
    then obtain v c r a where head: "head = [v, c, r, a]" by blast
    show ?thesis
    proof (cases "c = CONNECT")
      case True
      then show ?thesis unfolding head list.case
        by (simp only: simp_thms if_False, intro took_weaken [OF took_seq [OF took_version took_seq [OF kind took_seq [OF took_host [OF assms]
            took_seq [OF took_receive [OF assms] took_seq [OF took_send [OF assms] took_pure(1)]]]]]])
          (auto simp: host_octets_def two_octets split: option.splits)
    next
      case False
      then show ?thesis unfolding head list.case
        by (simp only: simp_thms if_True, intro took_weaken [OF took_seq [OF took_version took_pure(2)]]) auto
    qed
  qed (use took_pure(2) in \<open>auto split: list.split elim!: took_weaken\<close>)
qed auto

lemma returns_receive [returns_intros]: "returns (socks_receive wr sock timeout n)"
  unfolding returns_def socks_receive_def using receive_loop_returns by blast

lemma returns_octet [returns_intros]: "returns (receive_octet wr sock timeout)"
  unfolding receive_octet_def by (intro returns_intros)

lemma returns_counted [returns_intros]: "returns (receive_counted wr sock timeout)"
  unfolding receive_counted_def by (intro returns_intros)

lemma returns_if [returns_intros]: "returns m \<Longrightarrow> returns n \<Longrightarrow> returns (if b then m else n)"
  by simp

lemma returns_negotiate: "returns (negotiate wr sock timeout authentication)"
proof -
  have host: "returns (case host_length kind of
      Some n \<Rightarrow> socks_receive wr sock timeout n | None \<Rightarrow> receive_counted wr sock timeout)" for kind
    by (cases "host_length kind") (simp_all add: returns_intros)
  have "returns (negotiate_method wr sock timeout authentication)"
    unfolding negotiate_method_def by (intro returns_intros) (auto intro!: returns_intros split: list.split)
  moreover have "returns (negotiate_credentials wr sock timeout chosen)" for chosen
    unfolding negotiate_credentials_def by (intro returns_intros)
  moreover have "returns (negotiate_connect wr sock timeout username password)" for username password
    unfolding negotiate_connect_def
    by (intro returns_intros) (auto intro!: returns_intros host split: list.split)
  ultimately show ?thesis unfolding negotiate_def by (auto intro!: returns_intros split: prod.split)
qed

lemma took_negotiate:
  assumes "conversing wr sock pending sent"
  shows "took pending sent (negotiate wr sock timeout authentication)
    (\<lambda>x r out. \<exists>methods reserved method. x = client_octets methods reserved r
       \<and> choose_method authentication methods = Some method \<and> length methods < 256 \<and> proper_request method r
       \<and> out = reply_octets method)"
  unfolding negotiate_def
proof (rule took_weaken [OF took_seq [OF took_method [OF assms] took_seq [OF took_credentials [OF assms]]]])
  show "took pending sent (case q of (username, password) \<Rightarrow> negotiate_connect wr sock timeout username password)
      (\<lambda>x r out. sq_username r = fst q \<and> sq_password r = snd q \<and> 0 \<le> sq_port r \<and> sq_port r < 65536
       \<and> (case host_length (sq_address_type r) of None \<Rightarrow> length (sq_host r) < 256 | Some n \<Rightarrow> length (sq_host r) = n)
       \<and> (\<exists>reserved. x = [SOCKS_VERSION, CONNECT, reserved, address_octet (sq_address_type r)] @ host_octets r
            @ [word_of_int (sq_port r div 256), word_of_int (sq_port r)])
       \<and> out = SUCCESS_REPLY)" for q
    using took_connect [OF assms, of timeout "fst q" "snd q"] by (cases q) simp
qed (auto simp: client_octets_def proper_request_def credential_octets_def reply_octets_def split: if_splits)

text \<open>
  C30: what the proxy records is what the client said. Of any client, and however its octets
  are cut, the negotiation comes back; where it answers a request, the octets it took are
  exactly those a client sends for that request, behind an offer the proxy chose its method
  from, and it sent exactly the replies that method asks for.
\<close>

theorem negotiate_sound:
  assumes "conversing wr sock pending sent"
  shows "\<exists>a t. negotiate wr sock timeout authentication s = Some (a, t)
    \<and> (case a of Inl e \<Rightarrow> True
       | Inr r \<Rightarrow> (\<exists>methods reserved method.
           pending (world s) = client_octets methods reserved r @ pending (world t)
           \<and> choose_method authentication methods = Some method \<and> length methods < 256 \<and> proper_request method r
           \<and> sent (world t) = sent (world s) @ reply_octets method))"
proof -
  obtain a t where run: "negotiate wr sock timeout authentication s = Some (a, t)"
    using returns_negotiate unfolding returns_def by blast
  show ?thesis
  proof (cases a)
    case (Inr r)
    then show ?thesis using run took_negotiate [OF assms] unfolding took_def by fastforce
  qed (use run in simp)
qed

lemma socks_wire_conversing: "conversing socks_wire 0 fst snd"
  unfolding conversing_def socks_wire_def by (auto simp: Let_def split: if_splits)

lemma negotiate_sound_witness:
  "\<exists>r t. negotiate socks_wire 0 30 True \<lparr>clock = 0, world = (client_octets [0, 2] 9 asked @ [7], [])\<rparr> = Some (Inr r, t)
     \<and> snd (world t) = [5, 2, 1, 0, 5, 0, 0, 1, 0, 0, 0, 0, 0, 0]
     \<and> (\<exists>methods reserved. client_octets [0, 2] 9 asked @ [7] = client_octets methods reserved r @ fst (world t))"
proof -
  let ?s = "\<lparr>clock = 0 :: rat, world = (client_octets [0, 2] 9 asked @ [7], [] :: bytes)\<rparr>"
  have "map_option (\<lambda>(a, t). (a, snd (world t))) (negotiate socks_wire 0 30 True ?s)
      = Some (Inr asked, [5, 2, 1, 0, 5, 0, 0, 1, 0, 0, 0, 0, 0, 0])" by code_simp
  then obtain t where "negotiate socks_wire 0 30 True ?s = Some (Inr asked, t)"
    "snd (world t) = [5, 2, 1, 0, 5, 0, 0, 1, 0, 0, 0, 0, 0, 0]" by auto
  with negotiate_sound [OF socks_wire_conversing, of 30 True ?s] show ?thesis by auto
qed

subsection \<open>What a negotiation raises\<close>

text \<open>The classes \<open>_serve\<close> catches: \<open>OSError\<close> and \<open>ValueError\<close>, with their subclasses.\<close>

fun negotiation_error :: "py_error \<Rightarrow> bool" where
  "negotiation_error (OSError m) = True"
| "negotiation_error (ConnectionError m) = True"
| "negotiation_error (TimeoutError m) = True"
| "negotiation_error (ValueError m) = True"
| "negotiation_error (BTClibValueError m) = True"
| "negotiation_error _ = False"

definition socket_errors :: "'w wire \<Rightarrow> bool" where
  "socket_errors wr \<longleftrightarrow> (\<forall>sock n timeout data w e d w'.
     (wr_recv wr sock n timeout w = (Inl e, d, w') \<or> wr_send wr sock data w = (Inl e, d, w')) \<longrightarrow> negotiation_error e)"

definition fails_well :: "('s, 'a) loop \<Rightarrow> bool" where
  "fails_well m \<longleftrightarrow> (\<forall>s e t. m s = Some (Inl e, t) \<longrightarrow> negotiation_error e)"

named_theorems fails_intros \<open>loops whose errors the serving thread catches\<close>

lemma fails_bind [fails_intros]:
  "fails_well m \<Longrightarrow> (\<And>x. fails_well (f x)) \<Longrightarrow> fails_well (bind_l m f)"
  unfolding fails_well_def bind_l_def by (fastforce split: option.splits prod.splits sum.splits)

lemma fails_pure [fails_intros]:
  "fails_well (once (ret x))" "fails_well (once (raise (ValueError m)))"
  "fails_well (once (lift_r (check_version v w)))" "fails_well (once (lift_r (address_type_of b)))"
  by (auto simp: fails_well_def check_version_def address_type_of_def split: option.splits if_splits)

lemma fails_if [fails_intros]: "fails_well m \<Longrightarrow> fails_well n \<Longrightarrow> fails_well (if b then m else n)"
  by simp

lemma fails_send:
  assumes "socket_errors wr"
  shows "fails_well (once (socks_send wr sock data))"
  using assms unfolding fails_well_def socket_errors_def socks_send_def outside_call_def
  by (fastforce split: prod.splits)

lemma fails_send_then:
  assumes "socket_errors wr" and "f = ret x \<or> f = raise (ValueError m)"
  shows "fails_well (once (bind_a (socks_send wr sock data) (\<lambda>_. f)))"
  using fails_send [OF assms(1), of sock data] assms(2) unfolding fails_well_def
  by (auto simp: bind_a_def split: prod.splits sum.splits)

lemma receive_loop_ends:
  assumes "socket_errors wr"
  shows "receive_loop wr sock timeout wanted data s = Some (r, t) \<Longrightarrow>
    (case r of Inl e \<Rightarrow> negotiation_error e | Inr a \<Rightarrow> wanted \<le> length a)"
proof (induction "wanted - length data" arbitrary: data s rule: less_induct)
  case less
  show ?case
  proof (cases "length data < wanted")
    case True
    obtain q d w where recv: "wr_recv wr sock (wanted - length data) timeout (world s) = (q, d, w)" by (rule prod_cases3)
    let ?t = "\<lparr>clock = clock s + max 0 d, world = w\<rparr>"
    show ?thesis
    proof (cases q)
      case (Inl e)
      then have "negotiation_error e" using assms recv unfolding socket_errors_def by blast
      then show ?thesis using less.prems True recv Inl by (subst (asm) receive_loop.simps) (simp add: outside_call_def, auto)
    next
      case (Inr chunk)
      show ?thesis
      proof (cases "chunk = []")
        case False
        then have shorter: "wanted - length (data @ chunk) < wanted - length data" using True by (cases chunk) auto
        have "receive_loop wr sock timeout wanted (data @ chunk) ?t = Some (r, t)"
          using less.prems True recv Inr False by (subst (asm) receive_loop.simps) (simp add: outside_call_def)
        then show ?thesis by (rule less.hyps [OF shorter])
      qed (use less.prems True recv Inr in \<open>subst (asm) receive_loop.simps, simp add: outside_call_def, auto\<close>)
    qed
  qed (use less.prems in \<open>subst (asm) receive_loop.simps, auto\<close>)
qed

lemma fails_receive: "socket_errors wr \<Longrightarrow> fails_well (socks_receive wr sock timeout n)"
  using receive_loop_ends unfolding fails_well_def socks_receive_def by fastforce

lemma fails_octet:
  assumes "socket_errors wr"
  shows "fails_well (receive_octet wr sock timeout)"
  unfolding fails_well_def receive_octet_def
proof (intro allI impI)
  fix s e t
  assume run: "bind_l (socks_receive wr sock timeout 1)
       (\<lambda>bs. once (case bs of [] \<Rightarrow> raise (IndexError ''index out of range'') | b # _ \<Rightarrow> ret b)) s = Some (Inl e, t)"
  obtain r u where rec: "socks_receive wr sock timeout 1 s = Some (r, u)"
    using returns_receive unfolding returns_def by blast
  then have "case r of Inl e \<Rightarrow> negotiation_error e | Inr a \<Rightarrow> 1 \<le> length a"
    unfolding socks_receive_def by (rule receive_loop_ends [OF assms])
  with run rec show "negotiation_error e" by (cases r) (auto simp: bind_l_def split: list.splits)
qed

text \<open>Whatever a negotiation raises, the serving thread catches.\<close>

lemma negotiate_errors:
  assumes "socket_errors wr"
  shows "fails_well (negotiate wr sock timeout authentication)"
proof -
  note intros = fails_intros fails_send [OF assms] fails_receive [OF assms] fails_octet [OF assms]
  have counted: "fails_well (receive_counted wr sock timeout)"
    unfolding receive_counted_def by (intro intros)
  have choice: "fails_well (once (case choose_method authentication methods of
                     None \<Rightarrow> bind_a (socks_send wr sock [SOCKS_VERSION, NO_ACCEPTABLE_METHODS])
                               (\<lambda>_. raise (ValueError ''no acceptable method''))
                   | Some chosen \<Rightarrow> bind_a (socks_send wr sock [SOCKS_VERSION, chosen]) (\<lambda>_. ret chosen)))" for methods
    by (cases "choose_method authentication methods") (auto intro: fails_send_then [OF assms])
  have host: "fails_well (case host_length kind of
      Some n \<Rightarrow> socks_receive wr sock timeout n | None \<Rightarrow> receive_counted wr sock timeout)" for kind
    by (cases "host_length kind") (simp_all add: intros counted)
  have "fails_well (negotiate_method wr sock timeout authentication)"
    unfolding negotiate_method_def by (intro intros) (auto intro!: intros choice split: list.split)
  moreover have "fails_well (negotiate_credentials wr sock timeout chosen)" for chosen
    unfolding negotiate_credentials_def by (intro intros counted)
  moreover have "fails_well (negotiate_connect wr sock timeout username password)" for username password
    unfolding negotiate_connect_def
    by (intro intros) (auto intro!: intros host split: list.split)
  ultimately show ?thesis unfolding negotiate_def by (auto intro!: intros split: prod.split)
qed

subsection \<open>The endpoint\<close>

text \<open>\<open>endpoint\<close>: as \<open>-proxy\<close> spells it, a unix socket's path behind its own prefix.\<close>

definition proxy_endpoint :: "(string \<times> nat) + string \<Rightarrow> string" where
  "proxy_endpoint address =
     (case address of Inr path \<Rightarrow> ''unix:'' @ path | Inl hp \<Rightarrow> spell_address (Inl hp))"

end
