(* ===== verification/Socks5_Relay.thy ===== *)
theory Socks5_Relay
  imports Socks5
begin

section \<open>What the SOCKS5 proxy forwards\<close>

text \<open>
  \<open>_forward\<close> of \<open>socks5.py\<close>: the copying between a client's connection and its destination's, and
  what reaches either end of it.
\<close>

subsection \<open>Copying\<close>

definition CHUNK :: nat where "CHUNK = 4096"

text \<open>
  \<open>select.select(ends, (), ())\<close> is the world's answer \<open>select\<close>: which of the two ends can be read.
  \<open>False\<close> is an end that closed.
\<close>

fun copy_each :: "'w wire \<Rightarrow> rat \<Rightarrow> nat \<Rightarrow> nat \<Rightarrow> nat list \<Rightarrow> ('w timed, bool) act" where
  "copy_each wr timeout near far [] = ret True"
| "copy_each wr timeout near far (e # es) =
     bind_a (outside_call (wr_recv wr e CHUNK timeout))
       (\<lambda>data. if data = [] then ret False
          else bind_a (socks_send wr (if e = near then far else near) data)
                 (\<lambda>_. copy_each wr timeout near far es))"

partial_function (option) forward_loop ::
  "'w wire \<Rightarrow> ('w \<Rightarrow> nat list result \<times> rat \<times> 'w) \<Rightarrow> rat \<Rightarrow> nat \<Rightarrow> nat \<Rightarrow> ('w timed, unit) loop" where
  [code]: "forward_loop wr select timeout near far s =
     (case bind_a (outside_call select) (copy_each wr timeout near far) s of
        (Inl e, t) \<Rightarrow> Some (Inl e, t)
      | (Inr open_, t) \<Rightarrow> if open_ then forward_loop wr select timeout near far t else Some (Inr (), t))"

definition forward ::
  "'w wire \<Rightarrow> ('w \<Rightarrow> nat list result \<times> rat \<times> 'w) \<Rightarrow> rat \<Rightarrow> nat \<Rightarrow> nat \<Rightarrow> ('w timed, unit) loop" where
  "forward wr select timeout near far s =
     map_option (\<lambda>(r, t). (case r of Inl (ConnectionError m) \<Rightarrow> Inr () | _ \<Rightarrow> r, t))
       (forward_loop wr select timeout near far s)"

text \<open>
  What TCP promises of the two connections: each end hands out what its far side sent, in order,
  and what is sent to it, or on a failure the first octets of that, reaches its far side.
\<close>

definition duplex ::
  "'w wire \<Rightarrow> ('w \<Rightarrow> nat list result \<times> rat \<times> 'w) \<Rightarrow> nat set \<Rightarrow> (nat \<Rightarrow> 'w \<Rightarrow> bytes) \<Rightarrow> (nat \<Rightarrow> 'w \<Rightarrow> bytes) \<Rightarrow> bool" where
  "duplex wr select ends pending sent \<longleftrightarrow>
     (\<forall>e \<in> ends. \<forall>n timeout w r d w'. wr_recv wr e n timeout w = (r, d, w') \<longrightarrow>
        (\<forall>k. sent k w' = sent k w \<and> pending k w = (if k = e then case_sum (\<lambda>_. []) id r else []) @ pending k w'))
     \<and> (\<forall>e \<in> ends. \<forall>data w r d w'. wr_send wr e data w = (r, d, w') \<longrightarrow>
        (\<forall>k. pending k w' = pending k w) \<and> (\<forall>k. k \<noteq> e \<longrightarrow> sent k w' = sent k w)
        \<and> (\<exists>part. prefix part data \<and> (r = Inr () \<longrightarrow> part = data) \<and> sent e w' = sent e w @ part))
     \<and> (\<forall>w r d w'. select w = (r, d, w') \<longrightarrow> (\<forall>k. pending k w' = pending k w \<and> sent k w' = sent k w)
        \<and> (\<forall>es. r = Inr es \<longrightarrow> set es \<subseteq> ends))"

lemma duplex_recv:
  assumes "duplex wr select ends pending sent" and "e \<in> ends" and "wr_recv wr e n timeout w = (r, d, w')"
  shows "sent k w' = sent k w" and "pending k w = (if k = e then case_sum (\<lambda>_. []) id r else []) @ pending k w'"
proof -
  note reads = assms(1) [unfolded duplex_def, THEN conjunct1, rule_format, OF assms(2,3), of k]
  show "sent k w' = sent k w" by (rule reads [THEN conjunct1])
  show "pending k w = (if k = e then case_sum (\<lambda>_. []) id r else []) @ pending k w'" by (rule reads [THEN conjunct2])
qed

lemma duplex_send:
  assumes "duplex wr select ends pending sent" and "e \<in> ends" and "wr_send wr e data w = (r, d, w')"
  shows "pending k w' = pending k w" and "k \<noteq> e \<Longrightarrow> sent k w' = sent k w"
    and "\<exists>part. prefix part data \<and> (r = Inr () \<longrightarrow> part = data) \<and> sent e w' = sent e w @ part"
proof -
  note sends = assms(1) [unfolded duplex_def, THEN conjunct2, THEN conjunct1, rule_format, OF assms(2,3)]
  show "pending k w' = pending k w" by (rule sends [THEN conjunct1, rule_format])
  show "k \<noteq> e \<Longrightarrow> sent k w' = sent k w" by (rule sends [THEN conjunct2, THEN conjunct1, rule_format])
  show "\<exists>part. prefix part data \<and> (r = Inr () \<longrightarrow> part = data) \<and> sent e w' = sent e w @ part"
    by (rule sends [THEN conjunct2, THEN conjunct2])
qed

lemma duplex_select:
  assumes "duplex wr select ends pending sent" and "select w = (r, d, w')"
  shows "pending k w' = pending k w \<and> sent k w' = sent k w" and "r = Inr es \<Longrightarrow> set es \<subseteq> ends"
  using assms unfolding duplex_def by blast+

text \<open>From one end to the other: what was read was sent, but for what is lost.\<close>

definition carried ::
  "(nat \<Rightarrow> 'w \<Rightarrow> bytes) \<Rightarrow> (nat \<Rightarrow> 'w \<Rightarrow> bytes) \<Rightarrow> nat \<Rightarrow> nat \<Rightarrow> bytes \<Rightarrow> 'w \<Rightarrow> 'w \<Rightarrow> bool" where
  "carried pending sent a b lost w w' \<longleftrightarrow>
     (\<exists>x. pending a w = x @ lost @ pending a w' \<and> sent b w' = sent b w @ x)"

lemma carried_trans:
  "carried pending sent a b [] w w' \<Longrightarrow> carried pending sent a b lost w' w'' \<Longrightarrow> carried pending sent a b lost w w''"
  unfolding carried_def by fastforce

lemma carried_same: "pending a w = pending a w' \<Longrightarrow> sent b w' = sent b w \<Longrightarrow> carried pending sent a b [] w w'"
  by (simp add: carried_def)

text \<open>Both directions, at most one of them losing what it read last.\<close>

definition relayed ::
  "(nat \<Rightarrow> 'w \<Rightarrow> bytes) \<Rightarrow> (nat \<Rightarrow> 'w \<Rightarrow> bytes) \<Rightarrow> nat \<Rightarrow> nat \<Rightarrow> bool \<Rightarrow> 'w \<Rightarrow> 'w \<Rightarrow> bool" where
  "relayed pending sent near far whole w w' \<longleftrightarrow> (\<exists>l m. carried pending sent near far l w w' \<and> carried pending sent far near m w w'
     \<and> (l = [] \<or> m = []) \<and> (whole \<longrightarrow> l = [] \<and> m = []))"

lemma relayed_trans:
  "relayed pending sent near far True w w' \<Longrightarrow> relayed pending sent near far whole w' w'' \<Longrightarrow> relayed pending sent near far whole w w''"
  unfolding relayed_def using carried_trans by metis

lemma relayed_weaken: "relayed pending sent near far True w w' \<Longrightarrow> relayed pending sent near far whole w w'"
  unfolding relayed_def by blast

lemma relayed_same:
  "(\<And>k. pending k w' = pending k w \<and> sent k w' = sent k w) \<Longrightarrow> relayed pending sent near far whole w w'"
  unfolding relayed_def by (intro exI [of _ "[]"]) (simp add: carried_same)

lemma copied_one:
  assumes "duplex wr select {near, far} pending sent" and "near \<noteq> far" and "e = near \<or> e = far"
    and "wr_recv wr e CHUNK timeout w = (Inr data, d, v)"
    and "wr_send wr (if e = near then far else near) data v = (r, d', u)"
  shows "relayed pending sent near far (r = Inr ()) w u"
proof -
  let ?o = "if e = near then far else near"
  have "e \<in> {near, far}" "?o \<in> {near, far}" using assms(3) by auto
  note recv = duplex_recv [OF assms(1) this(1) assms(4)] and send = duplex_send [OF assms(1) this(2) assms(5)]
  have read: "sent k v = sent k w" "pending k w = (if k = e then data else []) @ pending k v" for k
    using recv [of k] by simp_all
  note others = send(1,2)
  obtain part where part: "prefix part data" "r = Inr () \<longrightarrow> part = data" "sent ?o u = sent ?o v @ part"
    using send(3) by blast
  from part(1) obtain l where l: "data = part @ l" by (auto simp: prefix_def)
  have "carried pending sent e ?o l w u"
    unfolding carried_def using read [of e] read(1) [of ?o] others(1) part(3) l by auto
  moreover have "carried pending sent ?o e [] w u"
    using read [of ?o] read(1) [of e] others(1) [of ?o] others(2) [of e] assms(2,3)
    by (intro carried_same) (auto split: if_splits)
  moreover have "r = Inr () \<Longrightarrow> l = []" using part(2) l by auto
  ultimately show ?thesis using assms(3) unfolding relayed_def by (auto split: if_splits)
qed

lemma outside_callE:
  assumes "outside_call f s = (r, t)"
  obtains d where "f (world s) = (r, d, world t)"
  using assms by (auto simp: outside_call_def split: prod.splits)

lemma copy_each_relays:
  assumes "duplex wr select {near, far} pending sent" and "near \<noteq> far"
  shows "set es \<subseteq> {near, far} \<Longrightarrow> copy_each wr timeout near far es s = (r, t) \<Longrightarrow>
    relayed pending sent near far (\<forall>e. r \<noteq> Inl e) (world s) (world t)"
proof (induction es arbitrary: s)
  case Nil
  then show ?case by (auto intro: relayed_same)
next
  case (Cons e es)
  have e: "e = near \<or> e = far" "e \<in> {near, far}" and rest: "set es \<subseteq> {near, far}" using Cons.prems(1) by auto
  obtain q u where call: "outside_call (wr_recv wr e CHUNK timeout) s = (q, u)" by (rule prod.exhaust)
  then obtain d where recv: "wr_recv wr e CHUNK timeout (world s) = (q, d, world u)" by (rule outside_callE)
  note reads = duplex_recv [OF assms(1) e(2) recv]
  show ?case
  proof (cases "\<exists>data. q = Inr data \<and> data \<noteq> []")
    case False
    then have "t = u" using Cons.prems(2) call by (cases q) (auto simp: bind_a_def)
    moreover have "relayed pending sent near far True (world s) (world u)"
      using reads False by (intro relayed_same) (cases q; auto)
    ultimately show ?thesis by (simp add: relayed_weaken)
  next
    case True
    then obtain data where data: "q = Inr data" "data \<noteq> []" by blast
    let ?o = "if e = near then far else near"
    obtain p v where send: "socks_send wr ?o data u = (p, v)" by (rule prod.exhaust)
    then obtain d' where "wr_send wr ?o data (world u) = (p, d', world v)"
      unfolding socks_send_def by (rule outside_callE)
    from copied_one [OF assms e(1) recv [unfolded data(1)] this]
    have one: "relayed pending sent near far (p = Inr ()) (world s) (world v)" .
    show ?thesis
    proof (cases p)
      case (Inl x)
      then have "r = Inl x" "t = v" using Cons.prems(2) call send data by (auto simp: bind_a_def)
      then show ?thesis using one Inl by simp
    next
      case (Inr z)
      then have "copy_each wr timeout near far es v = (r, t)"
        using Cons.prems(2) call send data by (simp add: bind_a_def)
      from Cons.IH [OF rest this] one Inr show ?thesis by (simp add: relayed_trans)
    qed
  qed
qed

lemma forward_loop_relays:
  assumes "forward_loop wr select timeout near far s = Some y"
    and "duplex wr select {near, far} pending sent" and "near \<noteq> far"
  shows "relayed pending sent near far (\<forall>e. fst y \<noteq> Inl e) (world s) (world (snd y))"
  using assms(2,3)
proof (induction rule: forward_loop.raw_induct [OF _ assms(1)])
  case (1 rec wr select timeout near far s y)
  obtain q u where call: "outside_call select s = (q, u)" by (rule prod.exhaust)
  then obtain d where choice: "select (world s) = (q, d, world u)" by (rule outside_callE)
  have same: "relayed pending sent near far True (world s) (world u)"
    using duplex_select(1) [OF 1(3) choice] by (rule relayed_same)
  show ?case
  proof (cases q)
    case (Inl e)
    then have "y = (Inl e, u)" using 1(2) call by (simp add: bind_a_def)
    then show ?thesis using same by (simp add: relayed_weaken)
  next
    case (Inr es)
    obtain r v where copy: "copy_each wr timeout near far es u = (r, v)" by (rule prod.exhaust)
    have "relayed pending sent near far (\<forall>e. r \<noteq> Inl e) (world u) (world v)"
      by (rule copy_each_relays [OF 1(3,4) duplex_select(2) [OF 1(3) choice Inr] copy])
    then have one: "relayed pending sent near far (\<forall>e. r \<noteq> Inl e) (world s) (world v)" by (rule relayed_trans [OF same])
    have step: "bind_a (outside_call select) (copy_each wr timeout near far) s = (r, v)"
      using call copy Inr by (simp add: bind_a_def)
    show ?thesis
    proof (cases r)
      case (Inl e)
      then have "y = (Inl e, v)" using 1(2) step by simp
      then show ?thesis using one Inl by simp
    next
      case (Inr again)
      show ?thesis
      proof (cases again)
        case True
        then have "rec wr select timeout near far v = Some y" using 1(2) step Inr by simp
        from 1(1) [OF this 1(3,4)] one Inr show ?thesis by (simp add: relayed_trans)
      next
        case False
        then have "y = (Inr (), v)" using 1(2) step Inr by simp
        then show ?thesis using one Inr by simp
      qed
    qed
  qed
qed

text \<open>
  C31: forwarding invents, drops and reorders nothing. Between two connections over TCP, whichever
  end \<open>select\<close> finds readable and however the octets are cut, what either far side has been sent
  when forwarding stops is what came from the other end, in order, from the first octet on: all of it
  that was read, where an end closed; and where an end failed, all but the end of the last chunk read.
\<close>

theorem forward_relays:
  assumes "duplex wr select {near, far} pending sent" and "near \<noteq> far"
    and "forward wr select timeout near far s = Some (r, t)"
  shows "relayed pending sent near far (\<exists>u. forward_loop wr select timeout near far s = Some (Inr (), u))
      (world s) (world t)
    \<and> (r = Inr () \<or> (\<exists>e. r = Inl e \<and> (\<nexists>m. e = ConnectionError m)))"
proof -
  obtain q where loop: "forward_loop wr select timeout near far s = Some (q, t)"
    and r: "r = (case q of Inl (ConnectionError m) \<Rightarrow> Inr () | _ \<Rightarrow> q)"
    using assms(3) by (auto simp: forward_def)
  have whole: "(\<forall>e. q \<noteq> Inl e) \<longleftrightarrow> (\<exists>u. forward_loop wr select timeout near far s = Some (Inr (), u))"
    using loop by (cases q) auto
  have "relayed pending sent near far (\<forall>e. q \<noteq> Inl e) (world s) (world t)"
    using forward_loop_relays [OF loop assms(1,2)] by simp
  moreover have "r = Inr () \<or> (\<exists>e. r = Inl e \<and> (\<nexists>m. e = ConnectionError m))"
  proof (cases q)
    case (Inl e)
    then show ?thesis using r by (cases e) simp_all
  qed (use r in simp)
  ultimately show ?thesis unfolding whole by blast
qed

text \<open>Two connections of scripts: what each end still has to say, and what its far side has heard.\<close>

definition relay_wire :: "((nat \<Rightarrow> bytes) \<times> (nat \<Rightarrow> bytes)) wire" where
  "relay_wire = \<lparr>
     wr_recv = (\<lambda>sock n timeout (p, q). (Inr (take (min n 2) (p sock)), 0, p(sock := drop (min n 2) (p sock)), q)),
     wr_send = (\<lambda>sock data (p, q). (Inr (), 0, p, q(sock := q sock @ data))),
     wr_close = (\<lambda>sock w. (Inr (), 0, w)),
     wr_connect = (\<lambda>addr timeout w. (Inr 1, 0, w)),
     wr_accept = (\<lambda>sock timeout w. (Inr 0, 0, w)),
     wr_listen = (\<lambda>w. (Inr 0, 0, w)),
     wr_sockname = (\<lambda>sock w. (Inr (''127.0.0.1'', 1080), 0, w)),
     wr_randbelow = (\<lambda>n w. (Inr 0, 0, w)),
     wr_token_bytes = (\<lambda>n w. (Inr [], 0, w)),
     wr_ell_create = (\<lambda>n w. (Inr [], 0, w))\<rparr>"

definition relay_select :: "(nat \<Rightarrow> bytes) \<times> (nat \<Rightarrow> bytes) \<Rightarrow> nat list result \<times> rat \<times> (nat \<Rightarrow> bytes) \<times> (nat \<Rightarrow> bytes)" where
  "relay_select w = (Inr (if fst w 1 = [] then [0] else [0, 1]), 0, w)"

lemma relay_duplex: "duplex relay_wire relay_select {0, 1} (\<lambda>k w. fst w k) (\<lambda>k w. snd w k)"
  unfolding duplex_def relay_wire_def relay_select_def by auto

lemma forward_relays_witness:
  "\<exists>t. forward relay_wire relay_select 30 0 1 \<lparr>clock = 0, world = ((\<lambda>_. [])(0 := [1, 2, 3], 1 := [4]), \<lambda>_. [])\<rparr> = Some (Inr (), t)
     \<and> snd (world t) 1 = [1, 2, 3] \<and> snd (world t) 0 = [4]"
proof -
  let ?s = "\<lparr>clock = 0 :: rat, world = ((\<lambda>_. [])(0 := [1, 2, 3], 1 := [4]) :: nat \<Rightarrow> bytes, (\<lambda>_. []) :: nat \<Rightarrow> bytes)\<rparr>"
  have "map_option (\<lambda>(r, t). (r, fst (world t) 0, fst (world t) 1)) (forward relay_wire relay_select 30 0 1 ?s) = Some (Inr (), [], [])"
    "map_option fst (forward_loop relay_wire relay_select 30 0 1 ?s) = Some (Inr ())" by code_simp+
  then obtain t u where run: "forward relay_wire relay_select 30 0 1 ?s = Some (Inr (), t)" "fst (world t) 0 = []" "fst (world t) 1 = []"
    and loop: "forward_loop relay_wire relay_select 30 0 1 ?s = Some (Inr (), u)" by auto
  from forward_relays [OF relay_duplex _ run(1)] run loop show ?thesis
    by (auto simp: relayed_def carried_def)
qed

end
