(* ===== verification/Socks5_Server.thy ===== *)
theory Socks5_Server
  imports Socks5
begin

section \<open>The SOCKS5 server's threads\<close>

text \<open>
  The rest of \<open>Socks5Proxy\<close>: the thread that accepts and negotiates (\<open>_serve\<close>, \<open>_track\<close>,
  \<open>_forward_later\<close>), one thread per forwarded connection (\<open>_redirect\<close>), the caller's
  \<open>next_request\<close> and its \<open>close\<close>, as an interleaving. Each event is a statement, or the body of
  a \<open>with self._lock\<close> block, of one thread. What a negotiation or a forwarding ends in, and when, is
  the client's choice, so it is an argument of its event, of the classes \<open>negotiate_errors\<close> shows
  the negotiation raises; a join that runs out of time is an
  event of its own. Connections are numbered as they are accepted, and a forwarding thread has the
  number of its connection. A connection's octets are \<open>Socks5\<close>'s subject and not this theory's.
\<close>

subsection \<open>State and events\<close>

datatype serve_pc =
    Accepting
  | Accepted nat
  | Refusing nat
  | Admitted nat
  | Negotiating nat
  | Failing nat py_error
  | Reporting py_error
  | Answered nat socks_request
  | Placing nat
  | Holding nat
  | Forwarding nat
  | Starting nat
  | Finishing
  | Returned
  | Died

datatype forward_pc =
    Unstarted
  | Copying
  | Left "py_error option"
  | Queueing py_error
  | Discarding
  | Finished

datatype close_pc =
    NotCalled
  | Shutting "nat list"
  | ShuttingClient "nat option"
  | Waking
  | Joining
  | ReleasingSocket
  | ClosingHeld nat
  | JoiningForwarders nat
  | RemovingDirectory
  | CloseReturned
  | CloseRaised

record proxy =
  px_factory :: bool
  px_pc :: serve_pc
  px_forward :: "nat \<Rightarrow> forward_pc"
  px_close :: close_pc
  px_closing :: bool
  px_negotiating :: "nat option"
  px_held :: "nat list"
  px_forwarded :: "nat list"
  px_forwarders :: "nat list"
  px_results :: "socks_request result list"
  px_listening :: bool
  px_directory :: bool
  px_accepted :: nat
  px_open :: "nat set"
  px_shut :: "nat set"
  px_late :: bool

text \<open>
  \<open>px_open\<close> are the connections whose socket is open on this side, \<open>px_shut\<close> those \<open>close\<close> has
  shut down, and \<open>px_late\<close> says a join of \<open>close\<close> ran out of time.
\<close>

definition proxy_init :: "bool \<Rightarrow> bool \<Rightarrow> proxy" where
  "proxy_init unix factory =
     \<lparr>px_factory = factory, px_pc = Accepting, px_forward = (\<lambda>_. Unstarted), px_close = NotCalled,
      px_closing = False, px_negotiating = None, px_held = [], px_forwarded = [], px_forwarders = [],
      px_results = [], px_listening = True, px_directory = unix, px_accepted = 0, px_open = {},
      px_shut = {}, px_late = False\<rparr>"

datatype proxy_event =
    Accept | AcceptRaises | CheckClosing | Refuse | SetNegotiating | Negotiated "socks_request result"
  | CloseFailed | PutResult | Track | Hold | ListForwarder | StartForwarder | ClearNegotiating
  | ForwardEnds nat "py_error option" | ForwardCheck nat | ForwardPut nat | Discard nat
  | CloseCalled | CloseAgain | ShutOne | ReadNegotiating | ShutClient | Wake | JoinServe | JoinServeLate
  | ReleaseSocket | CloseHeld | JoinForwarder | JoinForwarderLate | RemoveDirectory
  | NextRequest

text \<open>\<open>_serve\<close>, up to the request or the failure of one connection.\<close>

fun serve_step :: "proxy_event \<Rightarrow> proxy \<Rightarrow> proxy option" where
  "serve_step Accept st =
     (if px_pc st = Accepting \<and> px_listening st
      then Some (st\<lparr>px_pc := Accepted (px_accepted st), px_open := insert (px_accepted st) (px_open st),
                    px_accepted := Suc (px_accepted st)\<rparr>) else None)"
| "serve_step AcceptRaises st =
     (if px_pc st = Accepting \<and> \<not> px_listening st then Some (st\<lparr>px_pc := Died\<rparr>) else None)"
| "serve_step CheckClosing st =
     (case px_pc st of
        Accepted c \<Rightarrow> Some (st\<lparr>px_pc := (if px_closing st then Refusing c else Admitted c)\<rparr>) | _ \<Rightarrow> None)"
| "serve_step Refuse st =
     (case px_pc st of
        Refusing c \<Rightarrow> Some (st\<lparr>px_pc := Returned, px_open := px_open st - {c}\<rparr>) | _ \<Rightarrow> None)"
| "serve_step SetNegotiating st =
     (case px_pc st of
        Admitted c \<Rightarrow> Some (st\<lparr>px_pc := Negotiating c, px_negotiating := Some c\<rparr>) | _ \<Rightarrow> None)"
| "serve_step (Negotiated r) st =
     (case px_pc st of
        Negotiating c \<Rightarrow>
          (case r of
             Inr q \<Rightarrow> Some (st\<lparr>px_pc := Answered c q\<rparr>)
           | Inl e \<Rightarrow> if negotiation_error e then Some (st\<lparr>px_pc := Failing c e\<rparr>) else None)
      | _ \<Rightarrow> None)"
| "serve_step CloseFailed st =
     (case px_pc st of
        Failing c e \<Rightarrow> Some (st\<lparr>px_pc := Reporting e, px_open := px_open st - {c}\<rparr>) | _ \<Rightarrow> None)"
| "serve_step PutResult st =
     (case px_pc st of
        Reporting e \<Rightarrow> Some (st\<lparr>px_pc := Finishing, px_results := px_results st @ [Inl e]\<rparr>)
      | Answered c q \<Rightarrow> Some (st\<lparr>px_pc := Placing c, px_results := px_results st @ [Inr q]\<rparr>)
      | _ \<Rightarrow> None)"
| "serve_step Track st =
     (case px_pc st of
        Placing c \<Rightarrow>
          if \<not> px_factory st \<or> px_closing st then Some (st\<lparr>px_pc := Holding c\<rparr>)
          else Some (st\<lparr>px_pc := Forwarding c, px_forwarded := c # px_forwarded st\<rparr>)
      | _ \<Rightarrow> None)"
| "serve_step Hold st =
     (case px_pc st of
        Holding c \<Rightarrow> Some (st\<lparr>px_pc := Finishing, px_held := px_held st @ [c]\<rparr>) | _ \<Rightarrow> None)"
| "serve_step ListForwarder st =
     (case px_pc st of
        Forwarding c \<Rightarrow> Some (st\<lparr>px_pc := Starting c, px_forwarders := px_forwarders st @ [c]\<rparr>)
      | _ \<Rightarrow> None)"
| "serve_step StartForwarder st =
     (case px_pc st of
        Starting c \<Rightarrow> Some (st\<lparr>px_pc := Finishing, px_forward := (px_forward st)(c := Copying)\<rparr>)
      | _ \<Rightarrow> None)"
| "serve_step ClearNegotiating st =
     (if px_pc st = Finishing then Some (st\<lparr>px_pc := Accepting, px_negotiating := None\<rparr>) else None)"
| "serve_step _ st = None"

text \<open>\<open>_redirect\<close>: the \<open>with connection\<close> closes it, whatever the body raised.\<close>

fun redirect_step :: "proxy_event \<Rightarrow> proxy \<Rightarrow> proxy option" where
  "redirect_step (ForwardEnds c e) st =
     (if px_forward st c = Copying
      then Some (st\<lparr>px_forward := (px_forward st)(c := Left e), px_open := px_open st - {c}\<rparr>) else None)"
| "redirect_step (ForwardCheck c) st =
     (case px_forward st c of
        Left e \<Rightarrow> Some (st\<lparr>px_forward := (px_forward st)(c :=
            (case e of None \<Rightarrow> Discarding | Some x \<Rightarrow> if px_closing st then Discarding else Queueing x))\<rparr>)
      | _ \<Rightarrow> None)"
| "redirect_step (ForwardPut c) st =
     (case px_forward st c of
        Queueing x \<Rightarrow> Some (st\<lparr>px_forward := (px_forward st)(c := Discarding), px_results := px_results st @ [Inl x]\<rparr>)
      | _ \<Rightarrow> None)"
| "redirect_step (Discard c) st =
     (if px_forward st c = Discarding
      then Some (st\<lparr>px_forward := (px_forward st)(c := Finished), px_forwarded := removeAll c (px_forwarded st)\<rparr>)
      else None)"
| "redirect_step _ st = None"

text \<open>
  \<open>close\<close>. A second caller finds \<open>_closing\<close> set and returns at once. The \<open>for\<close> loops over
  \<open>_held\<close> and \<open>_forwarders\<close> read the lists as they are, by position; joining a thread that was
  never started raises.
\<close>

fun close_step :: "proxy_event \<Rightarrow> proxy \<Rightarrow> proxy option" where
  "close_step CloseCalled st =
     (if px_closing st then None
      else Some (st\<lparr>px_closing := True, px_close := Shutting (px_forwarded st)\<rparr>))"
| "close_step CloseAgain st = (if px_closing st then Some st else None)"
| "close_step ShutOne st =
     (case px_close st of
        Shutting (c # cs) \<Rightarrow> Some (st\<lparr>px_close := Shutting cs, px_shut := insert c (px_shut st)\<rparr>) | _ \<Rightarrow> None)"
| "close_step ReadNegotiating st =
     (if px_close st = Shutting [] then Some (st\<lparr>px_close := ShuttingClient (px_negotiating st)\<rparr>) else None)"
| "close_step ShutClient st =
     (case px_close st of
        ShuttingClient c \<Rightarrow> Some (st\<lparr>px_close := Waking, px_shut := set_option c \<union> px_shut st\<rparr>) | _ \<Rightarrow> None)"
| "close_step Wake st = (if px_close st = Waking then Some (st\<lparr>px_close := Joining\<rparr>) else None)"
| "close_step JoinServe st =
     (if px_close st = Joining \<and> px_pc st \<in> {Returned, Died}
      then Some (st\<lparr>px_close := ReleasingSocket\<rparr>) else None)"
| "close_step JoinServeLate st =
     (if px_close st = Joining \<and> px_pc st \<notin> {Returned, Died}
      then Some (st\<lparr>px_close := ReleasingSocket, px_late := True\<rparr>) else None)"
| "close_step ReleaseSocket st =
     (if px_close st = ReleasingSocket then Some (st\<lparr>px_close := ClosingHeld 0, px_listening := False\<rparr>) else None)"
| "close_step CloseHeld st =
     (case px_close st of
        ClosingHeld i \<Rightarrow>
          if i < length (px_held st)
          then Some (st\<lparr>px_close := ClosingHeld (Suc i), px_open := px_open st - {px_held st ! i}\<rparr>)
          else Some (st\<lparr>px_close := JoiningForwarders 0\<rparr>)
      | _ \<Rightarrow> None)"
| "close_step JoinForwarder st =
     (case px_close st of
        JoiningForwarders i \<Rightarrow>
          if i < length (px_forwarders st)
          then (case px_forward st (px_forwarders st ! i) of
                  Finished \<Rightarrow> Some (st\<lparr>px_close := JoiningForwarders (Suc i)\<rparr>)
                | Unstarted \<Rightarrow> Some (st\<lparr>px_close := CloseRaised\<rparr>)
                | _ \<Rightarrow> None)
          else Some (st\<lparr>px_close := RemovingDirectory\<rparr>)
      | _ \<Rightarrow> None)"
| "close_step JoinForwarderLate st =
     (case px_close st of
        JoiningForwarders i \<Rightarrow>
          if i < length (px_forwarders st) \<and> px_forward st (px_forwarders st ! i) \<notin> {Unstarted, Finished}
          then Some (st\<lparr>px_close := JoiningForwarders (Suc i), px_late := True\<rparr>) else None
      | _ \<Rightarrow> None)"
| "close_step RemoveDirectory st =
     (if px_close st = RemovingDirectory then Some (st\<lparr>px_close := CloseReturned, px_directory := False\<rparr>) else None)"
| "close_step _ st = None"

text \<open>\<open>next_request\<close>: the oldest result; with none queued it waits, and times out.\<close>

fun next_request :: "proxy \<Rightarrow> socks_request result \<times> proxy" where
  "next_request st =
     (case px_results st of
        [] \<Rightarrow> (Inl (TimeoutError ''no SOCKS5 request within''), st)
      | r # rs \<Rightarrow> (r, st\<lparr>px_results := rs\<rparr>))"

fun proxy_step :: "proxy_event \<Rightarrow> proxy \<Rightarrow> proxy option" where
  "proxy_step ev st =
     (if ev = NextRequest then Some (snd (next_request st))
      else case serve_step ev st of
          Some st' \<Rightarrow> Some st'
        | None \<Rightarrow> (case redirect_step ev st of Some st' \<Rightarrow> Some st' | None \<Rightarrow> close_step ev st))"

fun proxy_run :: "proxy_event list \<Rightarrow> proxy \<Rightarrow> proxy option" where
  "proxy_run [] st = Some st"
| "proxy_run (ev # evs) st = (case proxy_step ev st of None \<Rightarrow> None | Some st' \<Rightarrow> proxy_run evs st')"

inductive proxy_reach :: "proxy \<Rightarrow> bool" where
  init: "proxy_reach (proxy_init unix factory)"
| step: "proxy_reach st \<Longrightarrow> proxy_step ev st = Some st' \<Longrightarrow> proxy_reach st'"

lemma proxy_run_reach: "proxy_run evs st = Some st' \<Longrightarrow> proxy_reach st \<Longrightarrow> proxy_reach st'"
  by (induction evs arbitrary: st) (auto split: option.splits intro: proxy_reach.step simp del: proxy_step.simps)

subsection \<open>The invariant\<close>

text \<open>The connection the serving thread has in hand; the phase \<open>close\<close> is in.\<close>

fun in_hand :: "serve_pc \<Rightarrow> nat option" where
  "in_hand (Accepted c) = Some c"
| "in_hand (Refusing c) = Some c"
| "in_hand (Admitted c) = Some c"
| "in_hand (Negotiating c) = Some c"
| "in_hand (Failing c e) = Some c"
| "in_hand (Answered c q) = Some c"
| "in_hand (Placing c) = Some c"
| "in_hand (Holding c) = Some c"
| "in_hand (Forwarding c) = Some c"
| "in_hand (Starting c) = Some c"
| "in_hand _ = None"

fun close_phase :: "close_pc \<Rightarrow> nat" where
  "close_phase NotCalled = 0"
| "close_phase (Shutting cs) = 1"
| "close_phase (ShuttingClient c) = 2"
| "close_phase Waking = 3"
| "close_phase Joining = 4"
| "close_phase ReleasingSocket = 5"
| "close_phase (ClosingHeld i) = 6"
| "close_phase (JoiningForwarders i) = 7"
| "close_phase RemovingDirectory = 8"
| "close_phase CloseReturned = 9"
| "close_phase CloseRaised = 7"

fun to_shut :: "close_pc \<Rightarrow> nat set" where
  "to_shut (Shutting cs) = set cs"
| "to_shut _ = {}"

definition numbered :: "proxy \<Rightarrow> bool" where
  "numbered st \<longleftrightarrow> (\<forall>c. in_hand (px_pc st) = Some c \<longrightarrow> c < px_accepted st \<and> px_forward st c = Unstarted)
     \<and> (\<forall>c \<in> set (px_held st). c < px_accepted st) \<and> (\<forall>c \<in> px_open st. c < px_accepted st)
     \<and> (\<forall>c. px_forward st c \<noteq> Unstarted \<longrightarrow> c < px_accepted st)"

definition placed :: "proxy \<Rightarrow> bool" where
  "placed st \<longleftrightarrow> (\<forall>c \<in> px_open st. in_hand (px_pc st) = Some c \<or> c \<in> set (px_held st)
        \<or> px_forward st c = Copying \<and> c \<in> set (px_forwarders st))
     \<and> (\<forall>c. px_pc st = Starting c \<or> px_forward st c \<noteq> Unstarted \<longrightarrow> c \<in> set (px_forwarders st))
     \<and> (\<forall>c. px_forward st c \<notin> {Unstarted, Copying} \<longrightarrow> c \<notin> px_open st)"

definition closed_in_turn :: "proxy \<Rightarrow> bool" where
  "closed_in_turn st \<longleftrightarrow> \<not> px_late st \<longrightarrow>
     (5 \<le> close_phase (px_close st) \<longrightarrow> px_pc st = Returned \<or> px_pc st = Died)
     \<and> (\<forall>i j. px_close st = ClosingHeld i \<longrightarrow> j < i \<longrightarrow> j < length (px_held st) \<longrightarrow> px_held st ! j \<notin> px_open st)
     \<and> (7 \<le> close_phase (px_close st) \<longrightarrow> (\<forall>c \<in> set (px_held st). c \<notin> px_open st))
     \<and> (\<forall>i j. px_close st = JoiningForwarders i \<longrightarrow> j < i \<longrightarrow> j < length (px_forwarders st)
           \<longrightarrow> px_forward st (px_forwarders st ! j) = Finished)
     \<and> (8 \<le> close_phase (px_close st) \<longrightarrow> (\<forall>c \<in> set (px_forwarders st). px_forward st c = Finished))"

definition tracked :: "proxy \<Rightarrow> bool" where
  "tracked st \<longleftrightarrow> (px_closing st \<longleftrightarrow> px_close st \<noteq> NotCalled)
     \<and> (6 \<le> close_phase (px_close st) \<longrightarrow> \<not> px_listening st) \<and> (px_close st = CloseReturned \<longrightarrow> \<not> px_directory st)
     \<and> (\<forall>c. px_pc st = Forwarding c \<or> px_pc st = Starting c \<or> px_forward st c \<notin> {Unstarted, Finished}
           \<longrightarrow> c \<in> set (px_forwarded st))
     \<and> (px_closing st \<longrightarrow> set (px_forwarded st) \<subseteq> px_shut st \<union> to_shut (px_close st))"

text \<open>Every event that happens is one of one thread.\<close>

lemma proxy_step_cases:
  assumes "proxy_step ev st = Some st'"
  obtains (serve) "serve_step ev st = Some st'" | (redirect) "redirect_step ev st = Some st'"
    | (close) "close_step ev st = Some st'" | (taken) rs where "st' = st\<lparr>px_results := rs\<rparr>"
proof (cases "ev = NextRequest")
  case True
  then show thesis using assms(1) taken [of "px_results st"] taken [of "tl (px_results st)"] by (cases "px_results st") simp_all
next
  case False
  then show thesis using assms(1) serve redirect close
    by (cases "serve_step ev st"; cases "redirect_step ev st") simp_all
qed

lemma serve_stepE:
  assumes "serve_step ev st = Some st'"
  obtains (accept) "px_pc st = Accepting" "px_listening st"
      "st' = st\<lparr>px_pc := Accepted (px_accepted st), px_open := insert (px_accepted st) (px_open st),
                 px_accepted := Suc (px_accepted st)\<rparr>"
  | (died) "px_pc st = Accepting" "\<not> px_listening st" "st' = st\<lparr>px_pc := Died\<rparr>"
  | (refusing) c where "px_pc st = Accepted c" "px_closing st" "st' = st\<lparr>px_pc := Refusing c\<rparr>"
  | (admitted) c where "px_pc st = Accepted c" "\<not> px_closing st" "st' = st\<lparr>px_pc := Admitted c\<rparr>"
  | (returned) c where "px_pc st = Refusing c" "st' = st\<lparr>px_pc := Returned, px_open := px_open st - {c}\<rparr>"
  | (negotiating) c where "px_pc st = Admitted c" "st' = st\<lparr>px_pc := Negotiating c, px_negotiating := Some c\<rparr>"
  | (failing) c e where "px_pc st = Negotiating c" "st' = st\<lparr>px_pc := Failing c e\<rparr>"
  | (answered) c q where "px_pc st = Negotiating c" "st' = st\<lparr>px_pc := Answered c q\<rparr>"
  | (reporting) c e where "px_pc st = Failing c e" "st' = st\<lparr>px_pc := Reporting e, px_open := px_open st - {c}\<rparr>"
  | (reported) e where "px_pc st = Reporting e" "st' = st\<lparr>px_pc := Finishing, px_results := px_results st @ [Inl e]\<rparr>"
  | (placing) c q where "px_pc st = Answered c q" "st' = st\<lparr>px_pc := Placing c, px_results := px_results st @ [Inr q]\<rparr>"
  | (holding) c where "px_pc st = Placing c" "\<not> px_factory st \<or> px_closing st" "st' = st\<lparr>px_pc := Holding c\<rparr>"
  | (forwarding) c where "px_pc st = Placing c" "px_factory st" "\<not> px_closing st"
      "st' = st\<lparr>px_pc := Forwarding c, px_forwarded := c # px_forwarded st\<rparr>"
  | (held) c where "px_pc st = Holding c" "st' = st\<lparr>px_pc := Finishing, px_held := px_held st @ [c]\<rparr>"
  | (starting) c where "px_pc st = Forwarding c" "st' = st\<lparr>px_pc := Starting c, px_forwarders := px_forwarders st @ [c]\<rparr>"
  | (started) c where "px_pc st = Starting c" "st' = st\<lparr>px_pc := Finishing, px_forward := (px_forward st)(c := Copying)\<rparr>"
  | (accepting) "px_pc st = Finishing" "st' = st\<lparr>px_pc := Accepting, px_negotiating := None\<rparr>"
proof (cases ev)
  case Accept
  with assms(1) accept show thesis by (simp split: if_splits)
next
  case AcceptRaises
  with assms(1) died show thesis by (simp split: if_splits)
next
  case CheckClosing
  with assms(1) refusing admitted show thesis by (cases "px_pc st"; cases "px_closing st") auto
next
  case Refuse
  with assms(1) returned show thesis by (cases "px_pc st") auto
next
  case SetNegotiating
  with assms(1) negotiating show thesis by (cases "px_pc st") auto
next
  case (Negotiated r)
  with assms(1) failing answered show thesis by (cases "px_pc st"; cases r) (auto split: if_splits)
next
  case CloseFailed
  with assms(1) reporting show thesis by (cases "px_pc st") auto
next
  case PutResult
  with assms(1) reported placing show thesis by (cases "px_pc st") auto
next
  case Track
  with assms(1) holding forwarding show thesis by (cases "px_pc st"; cases "px_factory st"; cases "px_closing st") auto
next
  case Hold
  with assms(1) held show thesis by (cases "px_pc st") auto
next
  case ListForwarder
  with assms(1) starting show thesis by (cases "px_pc st") auto
next
  case StartForwarder
  with assms(1) started show thesis by (cases "px_pc st") auto
next
  case ClearNegotiating
  with assms(1) accepting show thesis by (simp split: if_splits)
qed (insert assms(1), (simp only: serve_step.simps redirect_step.simps close_step.simps option.distinct)+)

lemma redirect_stepE:
  assumes "redirect_step ev st = Some st'"
  obtains (left) c e where "px_forward st c = Copying"
      "st' = st\<lparr>px_forward := (px_forward st)(c := Left e), px_open := px_open st - {c}\<rparr>"
  | (moved) c e p where "px_forward st c = Left e" "p = Discarding \<or> (\<exists>x. p = Queueing x)"
      "st' = st\<lparr>px_forward := (px_forward st)(c := p)\<rparr>"
  | (queued) c x where "px_forward st c = Queueing x"
      "st' = st\<lparr>px_forward := (px_forward st)(c := Discarding), px_results := px_results st @ [Inl x]\<rparr>"
  | (finished) c where "px_forward st c = Discarding"
      "st' = st\<lparr>px_forward := (px_forward st)(c := Finished), px_forwarded := removeAll c (px_forwarded st)\<rparr>"
proof (cases ev)
  case (ForwardEnds c e)
  with assms(1) left [of c e] show thesis by (simp split: if_splits)
next
  case (ForwardCheck c)
  with assms(1) moved show thesis by (cases "px_forward st c") (auto split: option.splits if_splits)
next
  case (ForwardPut c)
  with assms(1) queued show thesis by (cases "px_forward st c") auto
next
  case (Discard c)
  with assms(1) finished [of c] show thesis by (simp split: if_splits)
qed (insert assms(1), (simp only: serve_step.simps redirect_step.simps close_step.simps option.distinct)+)

lemma close_stepE:
  assumes "close_step ev st = Some st'"
  obtains (called) "\<not> px_closing st" "st' = st\<lparr>px_closing := True, px_close := Shutting (px_forwarded st)\<rparr>"
  | (again) "px_closing st" "st' = st"
  | (shut) c cs where "px_close st = Shutting (c # cs)" "st' = st\<lparr>px_close := Shutting cs, px_shut := insert c (px_shut st)\<rparr>"
  | (read) "px_close st = Shutting []" "st' = st\<lparr>px_close := ShuttingClient (px_negotiating st)\<rparr>"
  | (client) c where "px_close st = ShuttingClient c" "st' = st\<lparr>px_close := Waking, px_shut := set_option c \<union> px_shut st\<rparr>"
  | (woken) "px_close st = Waking" "st' = st\<lparr>px_close := Joining\<rparr>"
  | (joined) "px_close st = Joining" "px_pc st = Returned \<or> px_pc st = Died" "st' = st\<lparr>px_close := ReleasingSocket\<rparr>"
  | (late) "px_close st = Joining" "st' = st\<lparr>px_close := ReleasingSocket, px_late := True\<rparr>"
  | (released) "px_close st = ReleasingSocket" "st' = st\<lparr>px_close := ClosingHeld 0, px_listening := False\<rparr>"
  | (closed) i where "px_close st = ClosingHeld i" "i < length (px_held st)"
      "st' = st\<lparr>px_close := ClosingHeld (Suc i), px_open := px_open st - {px_held st ! i}\<rparr>"
  | (all_closed) i where "px_close st = ClosingHeld i" "\<not> i < length (px_held st)" "st' = st\<lparr>px_close := JoiningForwarders 0\<rparr>"
  | (forwarder) i where "px_close st = JoiningForwarders i" "i < length (px_forwarders st)"
      "px_forward st (px_forwarders st ! i) = Finished" "st' = st\<lparr>px_close := JoiningForwarders (Suc i)\<rparr>"
  | (raised) i where "px_close st = JoiningForwarders i" "st' = st\<lparr>px_close := CloseRaised\<rparr>"
  | (all_joined) i where "px_close st = JoiningForwarders i" "\<not> i < length (px_forwarders st)" "st' = st\<lparr>px_close := RemovingDirectory\<rparr>"
  | (forwarder_late) i where "px_close st = JoiningForwarders i" "st' = st\<lparr>px_close := JoiningForwarders (Suc i), px_late := True\<rparr>"
  | (removed) "px_close st = RemovingDirectory" "st' = st\<lparr>px_close := CloseReturned, px_directory := False\<rparr>"
proof (cases ev)
  case CloseCalled
  with assms(1) called show thesis by (simp split: if_splits)
next
  case CloseAgain
  with assms(1) again show thesis by (simp split: if_splits)
next
  case ShutOne
  with assms(1) shut show thesis by (cases "px_close st") (auto split: list.splits)
next
  case ReadNegotiating
  with assms(1) read show thesis by (simp split: if_splits)
next
  case ShutClient
  with assms(1) client show thesis by (cases "px_close st") auto
next
  case Wake
  with assms(1) woken show thesis by (simp split: if_splits)
next
  case JoinServe
  with assms(1) joined show thesis by (simp split: if_splits)
next
  case JoinServeLate
  with assms(1) late show thesis by (simp split: if_splits)
next
  case ReleaseSocket
  with assms(1) released show thesis by (simp split: if_splits)
next
  case CloseHeld
  with assms(1) closed all_closed show thesis by (cases "px_close st") (auto split: if_splits)
next
  case JoinForwarder
  with assms(1) forwarder raised all_joined show thesis by (cases "px_close st") (auto split: if_splits forward_pc.splits)
next
  case JoinForwarderLate
  with assms(1) forwarder_late show thesis by (cases "px_close st") (auto split: if_splits)
next
  case RemoveDirectory
  with assms(1) removed show thesis by (simp split: if_splits)
qed (insert assms(1), (simp only: serve_step.simps redirect_step.simps close_step.simps option.distinct)+)

lemma numbered_step:
  assumes "numbered st" and "proxy_step ev st = Some st'"
  shows "numbered st'"
  using assms(2)
proof (cases rule: proxy_step_cases)
  case serve
  then show ?thesis using assms(1) unfolding numbered_def
    by (cases rule: serve_stepE) auto
next
  case redirect
  then show ?thesis using assms(1) unfolding numbered_def
    by (cases rule: redirect_stepE) auto
next
  case close
  then show ?thesis using assms(1) unfolding numbered_def
    by (cases rule: close_stepE) auto
qed (use assms(1) in \<open>simp add: numbered_def\<close>)

lemma placed_step:
  assumes "numbered st" and "placed st" and "proxy_step ev st = Some st'"
  shows "placed st'"
  using assms(3)
proof (cases rule: proxy_step_cases)
  case serve
  then show ?thesis using assms(1,2) unfolding placed_def numbered_def
    by (cases rule: serve_stepE) auto
next
  case redirect
  then show ?thesis using assms(1,2) unfolding placed_def numbered_def
    by (cases rule: redirect_stepE) auto
next
  case close
  then show ?thesis using assms(2) unfolding placed_def
    by (cases rule: close_stepE) auto
qed (use assms(2) in \<open>simp add: placed_def\<close>)

lemma tracked_step:
  assumes "numbered st" and "tracked st" and "proxy_step ev st = Some st'"
  shows "tracked st'"
  using assms(3)
proof (cases rule: proxy_step_cases)
  case serve
  then show ?thesis using assms(1,2) unfolding tracked_def numbered_def
    by (cases rule: serve_stepE) auto
next
  case redirect
  then show ?thesis using assms(1,2) unfolding tracked_def numbered_def
    by (cases rule: redirect_stepE) auto
next
  case close
  then show ?thesis using assms(2) unfolding tracked_def
    by (cases rule: close_stepE) auto
qed (use assms(2) in \<open>simp add: tracked_def\<close>)

lemma serving_before:
  assumes "serve_step ev st = Some st'"
  shows "px_pc st \<noteq> Returned \<and> px_pc st \<noteq> Died \<and> px_close st' = px_close st \<and> px_late st' = px_late st"
  using assms by (cases rule: serve_stepE) simp_all

lemma closed_in_turn_early: "close_phase (px_close st) < 5 \<Longrightarrow> closed_in_turn st"
  by (cases "px_close st") (simp_all add: closed_in_turn_def)

lemma closed_in_turn_step:
  assumes "closed_in_turn st" and "proxy_step ev st = Some st'"
  shows "closed_in_turn st'"
  using assms(2)
proof (cases rule: proxy_step_cases)
  case serve
  note same = serving_before [OF serve]
  show ?thesis
  proof (cases "px_late st")
    case False
    then have "close_phase (px_close st') < 5" using assms(1) same unfolding closed_in_turn_def by auto
    then show ?thesis by (rule closed_in_turn_early)
  qed (use same in \<open>simp add: closed_in_turn_def\<close>)
next
  case redirect
  then show ?thesis using assms(1) unfolding closed_in_turn_def
    by (cases rule: redirect_stepE) auto
next
  case close
  then show ?thesis using assms(1) unfolding closed_in_turn_def
    by (cases rule: close_stepE) (auto simp: less_Suc_eq in_set_conv_nth)
qed (use assms(1) in \<open>simp add: closed_in_turn_def\<close>)

definition proxy_inv :: "proxy \<Rightarrow> bool" where
  "proxy_inv st \<longleftrightarrow> numbered st \<and> placed st \<and> tracked st \<and> closed_in_turn st"

lemma proxy_reach_inv: "proxy_reach st \<Longrightarrow> proxy_inv st"
proof (induction rule: proxy_reach.induct)
  case (init unix factory)
  show ?case
    by (simp add: proxy_inv_def numbered_def placed_def tracked_def closed_in_turn_def proxy_init_def)
next
  case (step st ev st')
  then show ?case unfolding proxy_inv_def
    using numbered_step placed_step tracked_step closed_in_turn_step by blast
qed

text \<open>
  C15: \<open>close\<close> leaves nothing open. However the threads interleave, whatever the clients do and
  whoever calls \<open>close\<close>: past its first loop every connection a thread forwards has been shut
  down, and none is handed to a thread after that; and where the call returns without a join having run out
  of time, the serving thread has ended, every forwarding thread too, the socket
  file's directory is gone, and no connection the proxy accepted is open.
\<close>

theorem close_leaves_nothing_open:
  assumes "proxy_reach st"
  shows "(1 < close_phase (px_close st) \<longrightarrow> (\<forall>c. px_pc st = Forwarding c \<or> px_pc st = Starting c
            \<or> px_forward st c \<notin> {Unstarted, Finished} \<longrightarrow> c \<in> px_shut st))
    \<and> (px_close st = CloseReturned \<and> \<not> px_late st \<longrightarrow>
         px_open st = {} \<and> (px_pc st = Returned \<or> px_pc st = Died) \<and> \<not> px_listening st \<and> \<not> px_directory st
         \<and> (\<forall>c. px_forward st c \<in> {Unstarted, Finished}))" (is "?shut \<and> ?closed")
proof
  have inv: "numbered st" "placed st" "tracked st" "closed_in_turn st"
    using proxy_reach_inv [OF assms] by (simp_all add: proxy_inv_def)
  show ?shut
  proof (intro impI allI)
    fix c
    assume past: "1 < close_phase (px_close st)" and "px_pc st = Forwarding c \<or> px_pc st = Starting c
            \<or> px_forward st c \<notin> {Unstarted, Finished}"
    then have "c \<in> set (px_forwarded st)" "px_closing st" using inv(3) by (auto simp: tracked_def)
    then have "c \<in> px_shut st \<union> to_shut (px_close st)" using inv(3) by (auto simp: tracked_def)
    then show "c \<in> px_shut st" using past by (cases "px_close st") auto
  qed
  show ?closed
  proof
    assume done_: "px_close st = CloseReturned \<and> \<not> px_late st"
    then have ended: "px_pc st = Returned \<or> px_pc st = Died" and held: "\<forall>c \<in> set (px_held st). c \<notin> px_open st"
      and forwarders: "\<forall>c \<in> set (px_forwarders st). px_forward st c = Finished"
      using inv(4) by (auto simp: closed_in_turn_def)
    have none: "px_forward st c \<in> {Unstarted, Finished}" for c
      using inv(2) forwarders by (auto simp: placed_def)
    have "c \<notin> px_open st" for c
    proof
      assume "c \<in> px_open st"
      then have "in_hand (px_pc st) = Some c \<or> px_forward st c = Copying" using inv(2) held by (auto simp: placed_def)
      then show False using ended none [of c] by auto
    qed
    then show "px_open st = {} \<and> (px_pc st = Returned \<or> px_pc st = Died) \<and> \<not> px_listening st \<and> \<not> px_directory st
        \<and> (\<forall>c. px_forward st c \<in> {Unstarted, Finished})"
      using ended none done_ inv(3) by (auto simp: tracked_def)
  qed
qed

text \<open>Two clients, one held and one forwarded, and a close that waits for both threads.\<close>

definition one_request :: "socks_request result" where
  "one_request = Inr asked"

definition served_events :: "proxy_event list" where
  "served_events = [CheckClosing, SetNegotiating, Negotiated one_request, PutResult, Track]"

definition full_close :: "proxy_event list" where
  "full_close =
     Accept # served_events @ [ListForwarder, StartForwarder, ClearNegotiating, Accept, CheckClosing, SetNegotiating,
       CloseCalled, ShutOne, ForwardEnds 0 None, ReadNegotiating, ShutClient, Wake, Negotiated one_request, PutResult,
       Track, Hold, ClearNegotiating, Accept, CheckClosing, Refuse, JoinServe, ReleaseSocket, CloseHeld, CloseHeld,
       ForwardCheck 0, Discard 0, JoinForwarder, JoinForwarder, RemoveDirectory]"

lemma close_leaves_nothing_open_witness:
  "\<exists>st. proxy_run full_close (proxy_init True True) = Some st \<and> px_close st = CloseReturned \<and> px_shut st = {0, 1}
     \<and> px_held st = [1] \<and> px_open st = {}"
proof -
  have "map_option (\<lambda>st. (px_close st, px_late st, px_shut st = {0, 1}, px_held st)) (proxy_run full_close (proxy_init True True))
      = Some (CloseReturned, False, True, [1])" by code_simp
  then obtain st where st: "proxy_run full_close (proxy_init True True) = Some st"
    "px_close st = CloseReturned" "\<not> px_late st" "px_shut st = {0, 1}" "px_held st = [1]" by auto
  from close_leaves_nothing_open [OF proxy_run_reach [OF st(1) proxy_reach.init]] st show ?thesis by auto
qed

text \<open>
  Read between the check of \<open>_closing\<close> and the assignment of \<open>_negotiating\<close>, the client in hand
  is not shut down: its negotiation outlives the join, it is held after the loop over \<open>_held\<close>, and
  its connection stays open after \<open>close\<close> has returned.
\<close>

definition missed_client :: "proxy_event list" where
  "missed_client =
     [Accept, CheckClosing, CloseCalled, ReadNegotiating, SetNegotiating, ShutClient, Wake, JoinServeLate, ReleaseSocket,
      CloseHeld, JoinForwarder, RemoveDirectory, Negotiated one_request, PutResult, Track, Hold, ClearNegotiating, AcceptRaises]"

lemma close_can_miss_a_client:
  "\<exists>st. proxy_run missed_client (proxy_init False False) = Some st \<and> px_close st = CloseReturned \<and> px_pc st = Died
     \<and> 0 \<in> px_open st \<and> 0 \<notin> px_shut st"
proof -
  have "map_option (\<lambda>st. (px_close st, px_pc st, 0 \<in> px_open st, 0 \<in> px_shut st)) (proxy_run missed_client (proxy_init False False))
      = Some (CloseReturned, Died, True, False)" by code_simp
  then show ?thesis by auto
qed

end
