(* ===== verification/Ledger_Text.thy ===== *)
theory Ledger_Text
  imports Skip_Tally
begin

section \<open>Reading TF2.md and a JUnit report\<close>

text \<open>
  What the scripts under \<open>.github/scripts\<close> share: the string operations they call, the rows of a
  Markdown table, the names of Core's test files, and the testcases of a JUnit report. The XML
  parser is not modelled: a report is the list of its \<open>testcase\<close> elements, each with the attributes
  and children the scripts read. Regular expressions are written out as the functions they are;
  their character classes and white space are ASCII.
\<close>

subsection \<open>Strings\<close>

text \<open>\<open>s.split(sep)\<close>, for a separator of at least one character.\<close>

fun split_from :: "string \<Rightarrow> nat \<Rightarrow> string \<Rightarrow> string \<Rightarrow> string list" where
  "split_from sep k acc [] = [rev acc]"
| "split_from sep k acc (c # cs) =
     (if 0 < k then split_from sep (k - 1) acc cs
      else if py_startswith (c # cs) sep then rev acc # split_from sep (length sep - 1) [] cs
      else split_from sep 0 (c # acc) cs)"

definition py_split :: "string \<Rightarrow> string \<Rightarrow> string list" where
  "py_split sep s = split_from sep 0 [] s"

text \<open>\<open>s.split(sep, 1)\<close>: what precedes the first \<open>sep\<close>, and what follows it where there is one.\<close>

definition split_once :: "string \<Rightarrow> string \<Rightarrow> string \<times> string option" where
  "split_once sep s =
     (case py_find sep s of
        None \<Rightarrow> (s, None) | Some i \<Rightarrow> (take i s, Some (drop (i + length sep) s)))"

definition is_line_break :: "char \<Rightarrow> bool" where
  "is_line_break c \<longleftrightarrow> (of_char c :: nat) \<in> {10, 11, 12, 13, 28, 29, 30}"

text \<open>\<open>s.splitlines()\<close>; the flag says the last character was a carriage return.\<close>

fun lines_from :: "bool \<Rightarrow> string \<Rightarrow> string \<Rightarrow> string list" where
  "lines_from cr acc [] = (if acc = [] then [] else [rev acc])"
| "lines_from cr acc (c # cs) =
     (if cr \<and> c = CHR 0x0A then lines_from False acc cs
      else if is_line_break c then rev acc # lines_from (c = CHR 0x0D) [] cs
      else lines_from False (c # acc) cs)"

definition splitlines :: "string \<Rightarrow> string list" where
  "splitlines s = lines_from False [] s"

definition strip_char :: "char \<Rightarrow> string \<Rightarrow> string" where
  "strip_char c s = rev (lstrip_char c (rev (lstrip_char c s)))"

definition py_endswith :: "string \<Rightarrow> string \<Rightarrow> bool" where
  "py_endswith s p \<longleftrightarrow> py_startswith (rev s) (rev p)"

definition removesuffix :: "string \<Rightarrow> string \<Rightarrow> string" where
  "removesuffix s p = (if py_endswith s p \<and> p \<noteq> [] then take (length s - length p) s else s)"

subsection \<open>Tables\<close>

text \<open>\<open>[cell.strip() for cell in line.strip().strip("|").split("|")]\<close>.\<close>

definition row_cells :: "string \<Rightarrow> string list" where
  "row_cells line = map py_strip (py_split ''|'' (strip_char CHR ''|'' (py_strip line)))"

definition PER_TEST_SECTION :: string where
  "PER_TEST_SECTION = ''## The per-test ledger''"

text \<open>\<open>text.split(_SECTION, 1)[1].split("\n## ", 1)[0]\<close>, \<open>None\<close> where the section is missing.\<close>

definition section_of :: "string \<Rightarrow> string option" where
  "section_of text =
     map_option (\<lambda>rest. fst (split_once (CHR 0x0A # ''## '') rest)) (snd (split_once PER_TEST_SECTION text))"

subsection \<open>Core's test files\<close>

definition is_word :: "char \<Rightarrow> bool" where
  "is_word c \<longleftrightarrow> is_digit c \<or> c = CHR ''_''
     \<or> 65 \<le> (of_char c :: nat) \<and> (of_char c :: nat) \<le> 90 \<or> 97 \<le> (of_char c :: nat) \<and> (of_char c :: nat) \<le> 122"

definition is_path_char :: "char \<Rightarrow> bool" where
  "is_path_char c \<longleftrightarrow> is_word c \<or> c \<in> set ''./-''"

definition is_hex :: "char \<Rightarrow> bool" where
  "is_hex c \<longleftrightarrow> is_digit c \<or> 97 \<le> (of_char c :: nat) \<and> (of_char c :: nat) \<le> 102"

text \<open>\<open>[\w./-]+\.py\<close> up to a backquote, which no such path holds: the path, and what follows it.\<close>

definition py_path :: "string \<Rightarrow> string option" where
  "py_path s =
     (let path = takeWhile is_path_char s
      in if drop (length path) s \<noteq> [] \<and> hd (drop (length path) s) = CHR ''`''
           \<and> 3 < length path \<and> py_endswith path ''.py''
         then Some path else None)"

text \<open>\<open>_ROW_FILE.match\<close>.\<close>

definition row_file :: "string \<Rightarrow> string option" where
  "row_file cell = (case cell of [] \<Rightarrow> None | c # cs \<Rightarrow> if c = CHR ''`'' then py_path cs else None)"

subsection \<open>JUnit reports\<close>

record testcase =
  tc_classname :: "string option"
  tc_name :: "string option"
  tc_failure :: bool
  tc_skipped :: bool
  tc_errors :: "string option list"

text \<open>\<open>f"{case.get('classname')}::{case.get('name')}"\<close>.\<close>

definition case_key :: "testcase \<Rightarrow> string" where
  "case_key tc =
     (let text = (\<lambda>a. case a of None \<Rightarrow> ''None'' | Some s \<Rightarrow> s)
      in text (tc_classname tc) @ ''::'' @ text (tc_name tc))"

datatype status = Pass | Skip | Fail

fun status_word :: "status \<Rightarrow> string" where
  "status_word Pass = ''pass''" | "status_word Skip = ''skip''" | "status_word Fail = ''fail''"

text \<open>A \<open>dict\<close> is the association list of its items in insertion order.\<close>

definition dict_set :: "'k \<Rightarrow> 'v \<Rightarrow> ('k \<times> 'v) list \<Rightarrow> ('k \<times> 'v) list" where
  "dict_set k v kvs = AList.update k v kvs"

subsection \<open>Splitting and joining\<close>

lemma split_from_skip:
  "length p = k \<Longrightarrow> split_from sep k acc (p @ s) = split_from sep 0 acc s"
  by (induction p arbitrary: k) (auto split: nat.splits)

lemma split_from_step:
  assumes "sep = d # ds" and "d \<notin> set x"
  shows "split_from sep 0 acc (x @ s) = split_from sep 0 (rev x @ acc) s"
  using assms(2) by (induction x arbitrary: acc) (auto simp: assms(1) py_startswith_Cons)

lemma py_split_single [str_simps]:
  assumes "sep = d # ds" and "d \<notin> set x"
  shows "py_split sep x = [x]"
  using split_from_step [OF assms, of "[]" "[]"] by (simp add: py_split_def)

lemma py_split_append [str_simps]:
  assumes "sep = d # ds" and "d \<notin> set x"
  shows "py_split sep (x @ sep @ s) = x # py_split sep s"
proof -
  have "py_split sep (x @ sep @ s) = split_from sep 0 (rev x) (sep @ s)"
    using split_from_step [OF assms, of "[]" "sep @ s"] by (simp add: py_split_def)
  also have "\<dots> = x # split_from sep (length ds) [] (ds @ s)"
    using py_startswith_append [of sep s] by (simp add: assms(1))
  also have "split_from sep (length ds) [] (ds @ s) = py_split sep s"
    unfolding py_split_def by (rule split_from_skip) simp
  finally show ?thesis .
qed

end
