(* ===== verification/Github.thy ===== *)
theory Github
  imports Waiting Ledger_Text
begin

section \<open>Asking GitHub\<close>

text \<open>
  What the scripts under \<open>.github/scripts\<close> do with the \<open>gh\<close> program: \<open>_gh_output\<close>, which three of
  them repeat, and the reads of a path's last commit and of a commit's place in another's history.
  \<open>gh\<close> is a parameter: the record \<open>github\<close> holds what a call answers, its standard error where it fails,
  and what \<open>json.loads\<close> makes of an output.
\<close>

record 'w github = "'w outside" +
  gh_run :: "string list \<Rightarrow> 'w \<Rightarrow> (string + string) \<times> rat \<times> 'w"
  gh_loads :: "string \<Rightarrow> json result"

subsection \<open>Calling, and calling again\<close>

definition ATTEMPTS :: nat where "ATTEMPTS = 3"

text \<open>\<open>_TRANSIENT.search\<close>: \<open>HTTP 5\d\d\<close> anywhere.\<close>

fun transient :: "string \<Rightarrow> bool" where
  "transient [] = False"
| "transient (c # cs) =
     (py_startswith (c # cs) ''HTTP 5'' \<and> 8 \<le> length (c # cs) \<and> list_all is_digit (take 2 (drop 6 (c # cs)))
      \<or> transient cs)"

definition CalledProcessError :: "string \<Rightarrow> py_error" where
  "CalledProcessError stderr = OtherError stderr"

definition gh_once :: "('w, 'z) github_scheme \<Rightarrow> string list \<Rightarrow> 'w timed \<Rightarrow> (string + string) \<times> 'w timed" where
  "gh_once gh args s =
     (case gh_run gh args (world s) of (r, d, w) \<Rightarrow> (r, \<lparr>clock = clock s + max 0 d, world = w\<rparr>))"

text \<open>\<open>attempt\<close> is the number of calls made before.\<close>

partial_function (option) gh_loop ::
  "('w, 'z) github_scheme \<Rightarrow> string list \<Rightarrow> nat \<Rightarrow> ('w timed, string) loop" where
  [code]: "gh_loop gh args attempt s =
     (case gh_once gh args s of
        (Inr out, t) \<Rightarrow> Some (Inr out, t)
      | (Inl stderr, t) \<Rightarrow>
          if attempt + 1 = ATTEMPTS \<or> \<not> transient stderr then Some (Inl (CalledProcessError stderr), t)
          else gh_loop gh args (attempt + 1) (sleep gh (5 * of_nat (attempt + 1)) t))"

definition gh_output :: "('w, 'z) github_scheme \<Rightarrow> string list \<Rightarrow> ('w timed, string) loop" where
  "gh_output gh args = gh_loop gh args 0"

definition gh_json :: "('w, 'z) github_scheme \<Rightarrow> string list \<Rightarrow> ('w timed, json) loop" where
  "gh_json gh args = bind_l (gh_output gh args) (\<lambda>out. once (lift_r (gh_loads gh out)))"

subsection \<open>Reading JSON\<close>

text \<open>\<open>x[key]\<close> and \<open>x[0]\<close>, and a string where one is needed.\<close>

definition json_item :: "string \<Rightarrow> json \<Rightarrow> json result" where
  "json_item key x =
     (case x of
        JObj kvs \<Rightarrow> (case map_of kvs key of Some v \<Rightarrow> Inr v | None \<Rightarrow> Inl (KeyError key))
      | _ \<Rightarrow> Inl (TypeError ''indices must be integers''))"

definition json_first :: "json \<Rightarrow> json result" where
  "json_first x =
     (case x of
        JList (y # ys) \<Rightarrow> Inr y | JList [] \<Rightarrow> Inl (IndexError ''list index out of range'')
      | JObj _ \<Rightarrow> Inl (KeyError ''0'') | _ \<Rightarrow> Inl (TypeError ''not subscriptable''))"

definition json_string :: "json \<Rightarrow> string result" where
  "json_string x = (case x of JStr s \<Rightarrow> Inr s | _ \<Rightarrow> Inl (TypeError ''not a string''))"

subsection \<open>Commits\<close>

text \<open>\<open>commits[0]["sha"]\<close> and \<open>commits[0]["commit"]["committer"]["date"][:10]\<close>, \<open>None\<close> for no commit.\<close>

definition first_commit :: "json \<Rightarrow> (string \<times> string) option result" where
  "first_commit commits =
     (if \<not> truthy commits then Inr None
      else bind_r (json_first commits)
        (\<lambda>c. bind_r (bind_r (json_item ''sha'' c) json_string)
          (\<lambda>sha. bind_r (bind_r (bind_r (bind_r (json_item ''commit'' c) (json_item ''committer'')) (json_item ''date'')) json_string)
            (\<lambda>date. Inr (Some (sha, take 10 date))))))"

definition IN_PIN_HISTORY :: "string set" where "IN_PIN_HISTORY = {''identical'', ''behind''}"

definition in_pin_history ::
  "('w, 'z) github_scheme \<Rightarrow> string \<Rightarrow> string \<Rightarrow> string \<Rightarrow> ('w timed, bool) loop" where
  "in_pin_history gh repo pin commit =
     bind_l (gh_output gh
       [''api'', ''--method'', ''GET'', ''repos/'' @ repo @ ''/compare/'' @ pin @ ''...'' @ commit,
        ''-f'', ''per_page=1'', ''--jq'', ''.status''])
       (\<lambda>out. once (ret (py_strip out \<in> IN_PIN_HISTORY)))"

subsection \<open>What a call comes to\<close>

lemma gh_output_unrolled:
  "gh_output gh args s =
     (case gh_once gh args s of
        (Inr out, t) \<Rightarrow> Some (Inr out, t)
      | (Inl err, t) \<Rightarrow> if \<not> transient err then Some (Inl (CalledProcessError err), t)
          else (case gh_once gh args (sleep gh 5 t) of
             (Inr out, u) \<Rightarrow> Some (Inr out, u)
           | (Inl err, u) \<Rightarrow> if \<not> transient err then Some (Inl (CalledProcessError err), u)
               else (case gh_once gh args (sleep gh 10 u) of
                  (Inr out, v) \<Rightarrow> Some (Inr out, v)
                | (Inl err, v) \<Rightarrow> Some (Inl (CalledProcessError err), v))))"
  unfolding gh_output_def
  by (subst gh_loop.simps, subst gh_loop.simps, subst gh_loop.simps)
    (simp add: ATTEMPTS_def split: prod.split sum.split)

lemma returns_gh_output [returns_intros]: "returns (gh_output gh args)"
  unfolding returns_def gh_output_unrolled by (auto split: prod.split sum.split)

lemma returns_gh_json [returns_intros]: "returns (gh_json gh args)"
  unfolding gh_json_def by (intro returns_intros)

lemma returns_in_pin_history [returns_intros]: "returns (in_pin_history gh repo pin commit)"
  unfolding in_pin_history_def by (intro returns_intros)

subsection \<open>Calls that always answer alike\<close>

text \<open>\<open>answers m x\<close>: \<open>m\<close> comes back with \<open>x\<close>, whatever the world.\<close>

definition answers :: "('s, 'a) loop \<Rightarrow> 'a \<Rightarrow> bool" where
  "answers m x \<longleftrightarrow> (\<forall>s. \<exists>t. m s = Some (Inr x, t))"

lemma answers_ret: "answers (once (ret x)) x"
  by (simp add: answers_def)

lemma answers_bind:
  assumes "answers m x" and "answers (f x) y"
  shows "answers (bind_l m f) y"
  unfolding answers_def
proof
  fix s
  obtain t where "m s = Some (Inr x, t)" using assms(1) unfolding answers_def by blast
  moreover obtain u where "f x t = Some (Inr y, u)" using assms(2) unfolding answers_def by blast
  ultimately show "\<exists>u. bind_l m f s = Some (Inr y, u)" by (simp add: bind_l_def)
qed

text \<open>A \<open>gh\<close> whose every path has one last commit, never in a pin's history.\<close>

definition still_github :: "unit github" where
  "still_github = \<lparr>o_sleep = (\<lambda>d w. (0, w)), o_rpc = (\<lambda>n m ps w. (Inr JNull, 0, w)),
     gh_run = (\<lambda>args w. (Inr (if ''--jq'' \<in> set args then ''ahead'' else ''[]''), 0, w)),
     gh_loads = (\<lambda>text. Inr (JList [JObj [(''sha'', JStr ''feedbeefcafe''),
       (''commit'', JObj [(''committer'', JObj [(''date'', JStr ''2026-01-02T03:04:05Z'')])])]]))\<rparr>"

lemma still_answers:
  "first_commit (JList [JObj [(''sha'', JStr ''feedbeefcafe''),
      (''commit'', JObj [(''committer'', JObj [(''date'', JStr ''2026-01-02T03:04:05Z'')])])]])
      = Inr (Some (''feedbeefcafe'', ''2026-01-02''))"
  "py_strip ''ahead'' \<notin> IN_PIN_HISTORY"
  by code_simp+

end
