(* ===== verification/Node_Verdict.thy ===== *)
theory Node_Verdict
  imports Ledger_Text
begin

section \<open>The verdict on a btclib-node run\<close>

text \<open>
  \<open>.github/scripts/btclib_node_verdict.py\<close>: a JUnit report of the btclib-node half of the tests is
  read against the verdicts of TF2.md's ledger. The pairing of tests and ledger rows, \<open>_ROWS\<close>, is
  an argument, \<open>rows\<close>.
\<close>

subsection \<open>Verdicts\<close>

datatype build = Release | Main

fun build_word :: "build \<Rightarrow> string" where
  "build_word Release = ''release''" | "build_word Main = ''main''"

text \<open>\<open>_ISS\<close>: \<open>[ISS \<close>, a name without a closing bracket, and a link, to the end of the text.\<close>

definition is_iss :: "string \<Rightarrow> bool" where
  "is_iss s =
     (py_startswith s ''[ISS '' \<and>
      (let t = drop 5 s;
           name = takeWhile (\<lambda>c. c \<noteq> CHR '']'') t;
           u = drop (length name) t
       in name \<noteq> [] \<and> py_startswith u ''](''
          \<and> (let link = takeWhile (\<lambda>c. c \<noteq> CHR '')'' \<and> \<not> is_space c) (drop 2 u)
             in link \<noteq> [] \<and> drop (length link) (drop 2 u) = '')'')))"

definition is_fail :: "string \<Rightarrow> bool" where
  "is_fail s \<longleftrightarrow> py_startswith s ''fail ('' \<and> py_endswith s '')'' \<and> is_iss (butlast (drop 6 s))"

definition is_skip :: "string \<Rightarrow> bool" where
  "is_skip s \<longleftrightarrow> s = ''skip'' \<or>
     py_startswith s ''skip ('' \<and> py_endswith s '')'' \<and> 7 < length s \<and> list_all is_word (butlast (drop 6 s))"

record expected_verdict =
  ev_text :: string
  ev_outcome :: status

definition LedgerError :: "string \<Rightarrow> py_error" where
  "LedgerError m = ValueError m"

definition verdict :: "string \<Rightarrow> expected_verdict result" where
  "verdict text =
     (let is = (\<lambda>outcome. Inr \<lparr>ev_text = text, ev_outcome = outcome\<rparr>)
      in if text = ''pass'' then is Pass
         else if text = ''not ported'' then is Fail
         else if is_fail text then is Fail
         else if is_skip text then is Skip
         else Inl (LedgerError ''no verdict reads''))"

text \<open>
  \<open>_ON_THE_BUILD\<close> and \<open>_ON_A_BUILD_PAST\<close>: the verdict before the qualifier, of at least one
  character and on one line; the second takes the longest there is.
\<close>

definition on_the_build :: "string \<Rightarrow> string option" where
  "on_the_build s =
     (let v = removesuffix s '' on the build''
      in if py_endswith s '' on the build'' \<and> v \<noteq> [] \<and> CHR 0x0A \<notin> set v then Some v else None)"

definition on_a_build_past :: "string \<Rightarrow> string option" where
  "on_a_build_past s =
     map_option (\<lambda>i. take i s) (List.find (\<lambda>i. CHR 0x0A \<notin> set (take i s)
        \<and> py_startswith (drop i s) '' on a build past '' \<and> is_iss (drop (i + 17) s)) (rev [1..<length s]))"

fun found_verdicts :: "build \<Rightarrow> string list \<Rightarrow> string list result" where
  "found_verdicts build [] = Inr []"
| "found_verdicts build (segment # segments) =
     (case on_the_build segment of
        Some v \<Rightarrow> bind_r (found_verdicts build segments) (\<lambda>vs. Inr (if build = Release then v # vs else vs))
      | None \<Rightarrow>
          (case on_a_build_past segment of
             Some v \<Rightarrow> bind_r (found_verdicts build segments) (\<lambda>vs. Inr (if build = Main then v # vs else vs))
           | None \<Rightarrow> Inl (LedgerError ''no build qualifier reads'')))"

definition expected :: "string \<Rightarrow> build \<Rightarrow> expected_verdict option result" where
  "expected cell build =
     (if cell = ''bitcoind only'' then Inr None
      else let segments = py_split ''; '' cell
           in if length segments = 1 \<and> \<not> py_contains '' on '' cell
              then bind_r (verdict cell) (\<lambda>v. Inr (Some v))
              else bind_r (found_verdicts build segments)
                (\<lambda>found. case found of
                    [v] \<Rightarrow> bind_r (verdict v) (\<lambda>e. Inr (Some e))
                  | _ \<Rightarrow> Inl (LedgerError ''gives the build verdicts'')))"

subsection \<open>The ledger's rows\<close>

fun ledger_rows :: "string list \<Rightarrow> (string \<times> string) list \<Rightarrow> (string \<times> string) list result" where
  "ledger_rows [] cells = Inr cells"
| "ledger_rows (line # rest) cells =
     (if \<not> py_startswith line ''| `'' then ledger_rows rest cells
      else case row_cells line of
          [first, pin, read_at, bitcoind, btclib_node] \<Rightarrow>
            if map_of cells first \<noteq> None then Inl (LedgerError ''two rows read'')
            else ledger_rows rest (cells @ [(first, btclib_node)])
        | _ \<Rightarrow> Inl (LedgerError ''a row of cells, not five''))"

definition ledger_cells :: "string \<Rightarrow> (string \<times> string) list result" where
  "ledger_cells text =
     (case section_of text of
        None \<Rightarrow> Inl (LedgerError ''no section'')
      | Some sec \<Rightarrow> ledger_rows (splitlines sec) [])"

subsection \<open>The report\<close>

definition outcome_of :: "status list \<Rightarrow> status" where
  "outcome_of statuses =
     (if Fail \<in> set statuses then Fail else if Skip \<in> set statuses then Skip else Pass)"

definition is_teardown_timeout :: "string option \<Rightarrow> bool" where
  "is_teardown_timeout message =
     py_startswith (case message of None \<Rightarrow> [] | Some s \<Rightarrow> s)
       ''failed on teardown with \"TimeoutError: node process ignored terminate for ''"

definition case_status :: "testcase \<Rightarrow> status" where
  "case_status tc =
     (if tc_failure tc \<or> filter (\<lambda>e. \<not> is_teardown_timeout e) (tc_errors tc) \<noteq> [] then Fail
      else if tc_skipped tc then Skip else Pass)"

fun parse_cases :: "testcase list \<Rightarrow> (string \<times> status) list \<Rightarrow> (string \<times> status) list" where
  "parse_cases [] results = results"
| "parse_cases (tc # tcs) results =
     parse_cases tcs (dict_set (case_key tc)
       (case map_of results (case_key tc) of
          Some old \<Rightarrow> outcome_of [old, case_status tc] | None \<Rightarrow> case_status tc) results)"

definition parse_junit :: "testcase list \<Rightarrow> (string \<times> status) list" where
  "parse_junit tcs = parse_cases tcs []"

definition teardown_timeouts :: "testcase list \<Rightarrow> string list" where
  "teardown_timeouts tcs =
     sort (map case_key (filter (\<lambda>tc. list_ex is_teardown_timeout (tc_errors tc)) tcs))"

text \<open>A key without \<open>::\<close> makes the unpacking of \<open>locate\<close> raise; \<open>case_key\<close> builds none.\<close>

definition locate :: "string \<Rightarrow> (string \<times> string) result" where
  "locate key =
     (case split_once ''::'' key of
        (classname, Some name) \<Rightarrow>
          Inr (removesuffix (last (py_split ''.'' classname)) ''_btclib_node_test'', before_char CHR ''['' name)
      | (_, None) \<Rightarrow> Inl (ValueError ''not enough values to unpack''))"

definition row_of :: "(string \<Rightarrow> string option) \<Rightarrow> string \<Rightarrow> string \<Rightarrow> string option" where
  "row_of rows stem function =
     (case rows (stem @ ''::'' @ function) of Some row \<Rightarrow> Some row | None \<Rightarrow> rows stem)"

definition NO_ROW :: "string set" where
  "NO_ROW = {''adapter_lifecycle'', ''chain_selection'', ''mempool_fill'', ''mixed_cluster_block_sync'',
             ''v2transport_option''}"

subsection \<open>What moved\<close>

text \<open>A line of the report: what it says, before it is spelled.\<close>

datatype move =
    UnknownTestcase string
  | UncoveredFailure string
  | MissingRow string
  | MovedRow string expected_verdict status "string list"

fun kind_word :: "status \<Rightarrow> status \<Rightarrow> string" where
  "kind_word Pass Fail = ''regression''"
| "kind_word Pass Skip = ''skipped''"
| "kind_word Fail Pass = ''fixed''"
| "kind_word Fail Skip = ''skipped''"
| "kind_word Skip Pass = ''ran''"
| "kind_word Skip Fail = ''ran, and failed''"
| "kind_word _ _ = ''''"

fun move_line :: "move \<Rightarrow> string" where
  "move_line (UnknownTestcase key) = ''- **no row**: `'' @ key @ ''` is a testcase `_ROWS` names no row for''"
| "move_line (UncoveredFailure key) = ''- **no row**: `'' @ key @ ''` fails, and no ledger row covers it''"
| "move_line (MissingRow row) = ''- **missing**: '' @ row @ '' -- no testcase of this report is its''"
| "move_line (MovedRow row v outcome names) =
     ''- **'' @ kind_word (ev_outcome v) outcome @ ''**: '' @ row @ '' -- TF2.md reads '' @ ev_text v
     @ ''; this run's outcome is '' @ status_word outcome @ '': '' @ py_join '', '' (map (\<lambda>n. ''`'' @ n @ ''`'') names)"

type_synonym by_row = "(string \<times> (string \<times> status) list) list"

text \<open>\<open>by_row.setdefault(row, {})[name] = status\<close>.\<close>

definition add_case :: "string \<Rightarrow> string \<Rightarrow> status \<Rightarrow> by_row \<Rightarrow> by_row" where
  "add_case row name st rows_seen =
     dict_set row (dict_set name st (case map_of rows_seen row of None \<Rightarrow> [] | Some cases \<Rightarrow> cases)) rows_seen"

fun sort_cases ::
  "(string \<Rightarrow> string option) \<Rightarrow> (string \<times> status) list \<Rightarrow> by_row \<Rightarrow> move list \<Rightarrow> (by_row \<times> move list) result" where
  "sort_cases rows [] seen moved = Inr (seen, moved)"
| "sort_cases rows ((key, st) # results) seen moved =
     bind_r (locate key)
       (\<lambda>(stem, function). case row_of rows stem function of
           Some row \<Rightarrow> sort_cases rows results
             (add_case row (case snd (split_once ''::'' key) of None \<Rightarrow> [] | Some n \<Rightarrow> n) st seen) moved
         | None \<Rightarrow>
             if stem \<notin> NO_ROW then sort_cases rows results seen (moved @ [UnknownTestcase key])
             else if st = Fail then sort_cases rows results seen (moved @ [UncoveredFailure key])
             else sort_cases rows results seen moved)"

fun judge_rows :: "build \<Rightarrow> by_row \<Rightarrow> (string \<times> string) list \<Rightarrow> move list result" where
  "judge_rows build seen [] = Inr []"
| "judge_rows build seen ((row, cell) # cells) =
     bind_r (expected cell build)
       (\<lambda>e. bind_r (judge_rows build seen cells)
         (\<lambda>moved. Inr (case e of
             None \<Rightarrow> moved
           | Some v \<Rightarrow>
               (let cases = (case map_of seen row of None \<Rightarrow> [] | Some cs \<Rightarrow> cs); outcome = outcome_of (map snd cases)
                in if cases = [] then MissingRow row # moved
                   else if outcome = ev_outcome v then moved
                   else MovedRow row v outcome (map fst (filter (\<lambda>c. snd c = outcome) cases)) # moved))))"

definition moves ::
  "(string \<Rightarrow> string option) \<Rightarrow> string \<Rightarrow> (string \<times> status) list \<Rightarrow> build \<Rightarrow> move list result" where
  "moves rows ledger results build =
     bind_r (sort_cases rows (sort_key fst results) [] [])
       (\<lambda>(seen, moved). bind_r (ledger_cells ledger)
         (\<lambda>cells. bind_r (judge_rows build seen cells) (\<lambda>judged. Inr (moved @ judged))))"

text \<open>\<open>main\<close> past its usage check: the lines printed, and the exit status.\<close>

definition verdict_main ::
  "(string \<Rightarrow> string option) \<Rightarrow> string \<Rightarrow> testcase list \<Rightarrow> build \<Rightarrow> (string list \<times> int) result" where
  "verdict_main rows ledger report build =
     bind_r (moves rows ledger (parse_junit report) build)
       (\<lambda>moved. let timeouts = teardown_timeouts report
         in Inr (
           [''### TF2.md's btclib-node column against the '' @ build_word build @ '' build'', '''']
           @ (if moved = [] then [''Nothing moved: every row agrees with TF2.md.'']
              else [''Moved since TF2.md:'', ''''] @ map move_line moved)
           @ (if timeouts = [] then []
              else ['''', ''### Teardown timeouts (btclib-org/btclib-node#1274), not verdicts'', '''']
                @ map (\<lambda>k. ''- `'' @ k @ ''`: the node ignored terminate; its call's outcome stands'') timeouts),
           if moved = [] then 0 else 1))"

subsection \<open>What is read from the report\<close>

lemma outcome_of_cases:
  "outcome_of ss = Fail \<longleftrightarrow> Fail \<in> set ss"
  "outcome_of ss = Skip \<longleftrightarrow> Fail \<notin> set ss \<and> Skip \<in> set ss"
  "outcome_of ss = Pass \<longleftrightarrow> Fail \<notin> set ss \<and> Skip \<notin> set ss"
  "Fail = outcome_of ss \<longleftrightarrow> Fail \<in> set ss"
  "Skip = outcome_of ss \<longleftrightarrow> Fail \<notin> set ss \<and> Skip \<in> set ss"
  by (auto simp: outcome_of_def)

lemma outcome_of_eqI:
  "(Fail \<in> set ss \<longleftrightarrow> Fail \<in> set ts) \<Longrightarrow> (Skip \<in> set ss \<longleftrightarrow> Skip \<in> set ts) \<Longrightarrow> outcome_of ss = outcome_of ts"
  by (simp add: outcome_of_def)

text \<open>Merging in turn is taking the worst at once.\<close>

lemma outcome_of_merge: "outcome_of (outcome_of [old, s] # ss) = outcome_of (old # s # ss)"
  by (cases old; cases s) (simp_all add: outcome_of_def)

lemma outcome_of_single [simp]: "outcome_of [s] = s"
  by (cases s) (simp_all add: outcome_of_def)

definition statuses_of :: "testcase list \<Rightarrow> string \<Rightarrow> status list" where
  "statuses_of tcs key = map case_status (filter (\<lambda>tc. case_key tc = key) tcs)"

lemma parse_cases_lookup:
  "map_of (parse_cases tcs results) key =
     (case (map_of results key, statuses_of tcs key) of
        (old, []) \<Rightarrow> old
      | (None, ss) \<Rightarrow> Some (outcome_of ss)
      | (Some old, ss) \<Rightarrow> Some (outcome_of (old # ss)))"
proof (induction tcs arbitrary: results)
  case Nil
  then show ?case by (simp add: statuses_of_def split: option.split)
next
  case (Cons tc tcs)
  let ?new = "case map_of results (case_key tc) of Some old \<Rightarrow> outcome_of [old, case_status tc] | None \<Rightarrow> case_status tc"
  have step: "map_of (dict_set (case_key tc) ?new results) key = (if case_key tc = key then Some ?new else map_of results key)"
    by (simp add: dict_set_def update_conv')
  show ?case
  proof (cases "case_key tc = key")
    case True
    then have all: "statuses_of (tc # tcs) key = case_status tc # statuses_of tcs key" by (simp add: statuses_of_def)
    show ?thesis unfolding parse_cases.simps Cons.IH step all using True
      by (cases "map_of results key"; cases "statuses_of tcs key") (simp_all add: outcome_of_merge)
  next
    case False
    then have all: "statuses_of (tc # tcs) key = statuses_of tcs key" by (simp add: statuses_of_def)
    show ?thesis unfolding parse_cases.simps Cons.IH step all using False by simp
  qed
qed

lemma parse_cases_distinct: "distinct (map fst results) \<Longrightarrow> distinct (map fst (parse_cases tcs results))"
  by (induction tcs arbitrary: results) (simp_all add: dict_set_def distinct_update)

lemma parse_junit_in:
  "(key, st) \<in> set (parse_junit tcs) \<longleftrightarrow> statuses_of tcs key \<noteq> [] \<and> st = outcome_of (statuses_of tcs key)"
proof -
  have "(key, st) \<in> set (parse_junit tcs) \<longleftrightarrow> map_of (parse_junit tcs) key = Some st"
    unfolding parse_junit_def by (simp add: map_of_eq_Some_iff parse_cases_distinct)
  also have "\<dots> \<longleftrightarrow> statuses_of tcs key \<noteq> [] \<and> st = outcome_of (statuses_of tcs key)"
    unfolding parse_junit_def parse_cases_lookup by (auto split: list.split)
  finally show ?thesis .
qed

lemma statuses_of_nonempty: "statuses_of tcs key \<noteq> [] \<longleftrightarrow> (\<exists>tc \<in> set tcs. case_key tc = key)"
  by (auto simp: statuses_of_def filter_empty_conv)

lemma split_once_case_key: "\<exists>c n. split_once ''::'' (case_key tc) = (c, Some n)"
proof -
  have "sublist ''::'' (case_key tc)"
    unfolding case_key_def Let_def by (intro sublist_appendI)
  then have "py_find ''::'' (case_key tc) \<noteq> None" by (simp add: py_find_None_iff)
  then show ?thesis by (auto simp: split_once_def)
qed

text \<open>The row a testcase's key is paired with, and its name.\<close>

definition row_key :: "(string \<Rightarrow> string option) \<Rightarrow> string \<Rightarrow> string option" where
  "row_key rows key = (case locate key of Inr (stem, function) \<Rightarrow> row_of rows stem function | Inl e \<Rightarrow> None)"

definition test_name :: "string \<Rightarrow> string" where
  "test_name key = (case snd (split_once ''::'' key) of None \<Rightarrow> [] | Some n \<Rightarrow> n)"

definition stray :: "(string \<Rightarrow> string option) \<Rightarrow> string \<times> status \<Rightarrow> move list" where
  "stray rows = (\<lambda>(key, st). case locate key of
       Inl e \<Rightarrow> []
     | Inr (stem, function) \<Rightarrow>
         if row_of rows stem function \<noteq> None then []
         else if stem \<notin> NO_ROW then [UnknownTestcase key] else if st = Fail then [UncoveredFailure key] else [])"

lemma located: "\<exists>stem function. locate (case_key tc) = Inr (stem, function)"
  using split_once_case_key [of tc] by (auto simp: locate_def)

text \<open>What \<open>by_row\<close> holds after some results: each row's named statuses.\<close>

definition seen_ok :: "(string \<Rightarrow> string option) \<Rightarrow> (string \<times> status) set \<Rightarrow> by_row \<Rightarrow> bool" where
  "seen_ok rows sofar seen \<longleftrightarrow> (\<forall>row.
     set (case map_of seen row of None \<Rightarrow> [] | Some cs \<Rightarrow> cs)
       = {(test_name key, st) |key st. (key, st) \<in> sofar \<and> row_key rows key = Some row})"

definition names_apart :: "(string \<Rightarrow> string option) \<Rightarrow> string set \<Rightarrow> bool" where
  "names_apart rows keys \<longleftrightarrow> (\<forall>k \<in> keys. \<forall>l \<in> keys. row_key rows k \<noteq> None \<longrightarrow> row_key rows k = row_key rows l
     \<longrightarrow> test_name k = test_name l \<longrightarrow> k = l)"

lemma names_apart_subset: "names_apart rows B \<Longrightarrow> A \<subseteq> B \<Longrightarrow> names_apart rows A"
  unfolding names_apart_def by blast

lemma set_update_fresh: "n \<notin> fst ` set cs \<Longrightarrow> set (AList.update n st cs) = insert (n, st) (set cs)"
  by (induction cs) auto

lemma seen_ok_add:
  assumes "seen_ok rows sofar seen" and "row_key rows key = Some row"
    and "names_apart rows (insert key (fst ` sofar))" and "key \<notin> fst ` sofar"
  shows "seen_ok rows (insert (key, st) sofar) (add_case row (test_name key) st seen)"
  unfolding seen_ok_def
proof
  fix r
  let ?old = "case map_of seen row of None \<Rightarrow> [] | Some cs \<Rightarrow> cs"
  have old: "set ?old = {(test_name key, st) |key st. (key, st) \<in> sofar \<and> row_key rows key = Some row}"
    using assms(1) unfolding seen_ok_def by blast
  have "test_name key \<notin> fst ` set ?old"
  proof
    assume "test_name key \<in> fst ` set ?old"
    then obtain k s where "(k, s) \<in> sofar" "row_key rows k = Some row" "test_name k = test_name key" using old by auto
    then have k: "k \<in> insert key (fst ` sofar)" "row_key rows k = row_key rows key" "row_key rows k \<noteq> None"
      using assms(2) by (simp_all add: rev_image_eqI)
    with assms(3) \<open>test_name k = test_name key\<close> have "k = key" unfolding names_apart_def by blast
    then show False using assms(4) \<open>(k, s) \<in> sofar\<close> by (simp add: rev_image_eqI)
  qed
  then have new: "set (AList.update (test_name key) st ?old) = insert (test_name key, st) (set ?old)"
    by (rule set_update_fresh)
  show "set (case map_of (add_case row (test_name key) st seen) r of None \<Rightarrow> [] | Some cs \<Rightarrow> cs)
      = {(test_name k, s) |k s. (k, s) \<in> insert (key, st) sofar \<and> row_key rows k = Some r}"
  proof (cases "r = row")
    case True
    then have "set (case map_of (add_case row (test_name key) st seen) r of None \<Rightarrow> [] | Some cs \<Rightarrow> cs)
        = insert (test_name key, st) (set ?old)"
      using new by (simp add: add_case_def dict_set_def update_conv')
    then show ?thesis unfolding old using True assms(2) by auto
  next
    case False
    then have "map_of (add_case row (test_name key) st seen) r = map_of seen r"
      by (simp add: add_case_def dict_set_def update_conv')
    then show ?thesis using assms(1,2) False unfolding seen_ok_def by auto
  qed
qed

lemma sort_cases_outcome:
  assumes "\<forall>(key, st) \<in> set results. \<exists>s f. locate key = Inr (s, f)"
    and "distinct (map fst results)" and "fst ` set results \<inter> fst ` sofar = {}"
    and "names_apart rows (fst ` set results \<union> fst ` sofar)" and "seen_ok rows sofar seen"
  shows "\<exists>seen'. sort_cases rows results seen moved = Inr (seen', moved @ concat (map (stray rows) results))
    \<and> seen_ok rows (set results \<union> sofar) seen'"
  using assms
proof (induction results arbitrary: sofar seen moved)
  case (Cons p results)
  obtain key st where p: "p = (key, st)" by (rule prod.exhaust)
  from Cons.prems(1) obtain s f where loc: "locate key = Inr (s, f)" by (auto simp: p)
  have fresh: "key \<notin> fst ` sofar" using Cons.prems(3) by (auto simp: p)
  let ?done = "insert (key, st) sofar"
  have rest: "\<forall>(key, st) \<in> set results. \<exists>s f. locate key = Inr (s, f)" "distinct (map fst results)"
    "fst ` set results \<inter> fst ` ?done = {}" "names_apart rows (fst ` set results \<union> fst ` ?done)"
    using Cons.prems(1-4) by (auto simp: p)
  show ?case
  proof (cases "row_of rows s f")
    case None
    then have "row_key rows key = None" by (simp add: row_key_def loc)
    then have "seen_ok rows ?done seen" using Cons.prems(5) unfolding seen_ok_def by auto
    from Cons.IH [OF rest this, of "moved @ stray rows p"]
    obtain seen' where "sort_cases rows results seen (moved @ stray rows p)
          = Inr (seen', (moved @ stray rows p) @ concat (map (stray rows) results))"
      "seen_ok rows (set results \<union> ?done) seen'" by blast
    moreover have "sort_cases rows (p # results) seen moved = sort_cases rows results seen (moved @ stray rows p)"
      using None loc by (simp add: p stray_def)
    ultimately show ?thesis by (simp add: p)
  next
    case (Some row)
    then have rk: "row_key rows key = Some row" by (simp add: row_key_def loc)
    have "names_apart rows (insert key (fst ` sofar))"
      by (rule names_apart_subset [OF rest(4)]) auto
    note IH = Cons.IH [OF rest seen_ok_add [OF Cons.prems(5) rk this fresh, of st], of moved]
    moreover have "stray rows p = []" using Some loc by (simp add: p stray_def)
    moreover have "sort_cases rows (p # results) seen moved = sort_cases rows results (add_case row (test_name key) st seen) moved"
      using Some loc by (simp add: p test_name_def)
    ultimately show ?thesis by (simp add: p)
  qed
qed simp

lemma judge_rows_agree:
  "judge_rows build seen cells = Inr [] \<longleftrightarrow> (\<forall>(row, cell) \<in> set cells. \<exists>e. expected cell build = Inr e
     \<and> (\<forall>v. e = Some v \<longrightarrow> (let ss = map snd (case map_of seen row of None \<Rightarrow> [] | Some cs \<Rightarrow> cs)
          in ss \<noteq> [] \<and> outcome_of ss = ev_outcome v)))"
proof (induction cells)
  case (Cons c cells)
  obtain row cell where c: "c = (row, cell)" by (rule prod.exhaust)
  show ?case
  proof (cases "expected cell build")
    case (Inr e)
    show ?thesis
    proof (cases "judge_rows build seen cells")
      case (Inr moved)
      then show ?thesis using Cons.IH \<open>expected cell build = Inr e\<close>
        by (cases e) (auto simp: c Let_def)
    qed (use Cons.IH Inr in \<open>auto simp: c\<close>)
  qed (simp add: c)
qed simp

lemma stray_Nil:
  "stray rows (case_key tc, st) = [] \<longleftrightarrow>
     row_key rows (case_key tc) \<noteq> None \<or> (\<exists>s f. locate (case_key tc) = Inr (s, f) \<and> s \<in> NO_ROW) \<and> st \<noteq> Fail"
  using located [of tc] by (auto simp: stray_def row_key_def split: if_splits)

text \<open>The statuses of a row's testcases, straight from the report.\<close>

definition row_statuses :: "(string \<Rightarrow> string option) \<Rightarrow> testcase list \<Rightarrow> string \<Rightarrow> status list" where
  "row_statuses rows report row = map case_status (filter (\<lambda>tc. row_key rows (case_key tc) = Some row) report)"

lemma row_outcome:
  assumes "set cs = {(test_name key, st) |key st. (key, st) \<in> set (parse_junit report) \<and> row_key rows key = Some row}"
  shows "(map snd cs = [] \<longleftrightarrow> row_statuses rows report row = [])
    \<and> outcome_of (map snd cs) = outcome_of (row_statuses rows report row)"
proof
  have statuses: "set (map snd cs) = {outcome_of (statuses_of report (case_key tc)) |tc.
      tc \<in> set report \<and> row_key rows (case_key tc) = Some row}"
  proof -
    have "set (map snd cs) = {st. \<exists>key. (key, st) \<in> set (parse_junit report) \<and> row_key rows key = Some row}"
      unfolding set_map assms by force
    then show ?thesis unfolding parse_junit_in statuses_of_nonempty by auto
  qed
  then show "map snd cs = [] \<longleftrightarrow> row_statuses rows report row = []"
    unfolding set_empty [symmetric] by (auto simp: row_statuses_def filter_empty_conv)
  have members: "st \<in> set (row_statuses rows report row) \<longleftrightarrow> (\<exists>tc \<in> set report. row_key rows (case_key tc) = Some row
      \<and> st \<in> set (statuses_of report (case_key tc)))" for st
    by (auto simp: row_statuses_def statuses_of_def)
  have fail: "Fail \<in> set (map snd cs) \<longleftrightarrow> Fail \<in> set (row_statuses rows report row)"
    unfolding statuses members by (auto simp: outcome_of_cases)
  have "Skip \<in> set (map snd cs) \<longleftrightarrow> Skip \<in> set (row_statuses rows report row)"
    if "Fail \<notin> set (row_statuses rows report row)"
    using that unfolding statuses members by (auto simp: outcome_of_cases)
  with fail show "outcome_of (map snd cs) = outcome_of (row_statuses rows report row)"
    by (simp add: outcome_of_def)
qed

text \<open>
  A green verdict means the whole column holds. Where no two testcases of one row share a
  name, the script exits 0 exactly where every testcase is a row's, or a harness module's that did
  not fail, and the ledger reads, every cell reads, and for every row with a verdict for the build the report holds a testcase and
  the worst outcome of all the row's testcases, a teardown timeout aside, is the one the cell
  gives that build.
\<close>

lemma verdict_main_agrees:
  assumes "names_apart rows (case_key ` set report)"
  shows "(\<exists>out. verdict_main rows ledger report build = Inr (out, 0)) \<longleftrightarrow>
    (\<forall>tc \<in> set report. row_key rows (case_key tc) \<noteq> None
       \<or> (\<exists>s f. locate (case_key tc) = Inr (s, f) \<and> s \<in> NO_ROW)
         \<and> outcome_of (statuses_of report (case_key tc)) \<noteq> Fail)
    \<and> (\<exists>cells. ledger_cells ledger = Inr cells \<and> (\<forall>(row, cell) \<in> set cells. \<exists>e. expected cell build = Inr e
       \<and> (\<forall>v. e = Some v \<longrightarrow> row_statuses rows report row \<noteq> []
            \<and> outcome_of (row_statuses rows report row) = ev_outcome v)))"
proof -
  let ?results = "sort_key fst (parse_junit report)"
  have keys: "fst ` set (parse_junit report) = case_key ` set report"
  proof (rule set_eqI)
    show "k \<in> fst ` set (parse_junit report) \<longleftrightarrow> k \<in> case_key ` set report" for k
      by (auto simp: image_iff Bex_def split_paired_Ex parse_junit_in statuses_of_nonempty)
  qed
  have "\<forall>(key, st) \<in> set ?results. \<exists>s f. locate key = Inr (s, f)"
    using located by (auto simp: parse_junit_in statuses_of_nonempty)
  moreover have "distinct (map fst ?results)"
    using parse_cases_distinct [of "[]" report] by (simp add: parse_junit_def distinct_map)
  moreover have "seen_ok rows {} []" by (simp add: seen_ok_def)
  moreover have "names_apart rows (fst ` set ?results \<union> fst ` {})" using assms keys by simp
  ultimately obtain seen where sorted: "sort_cases rows ?results [] [] = Inr (seen, concat (map (stray rows) ?results))"
    and seen: "seen_ok rows (set (parse_junit report)) seen"
    using sort_cases_outcome [where results = ?results and sofar = "{}" and seen = "[]" and moved = "[]" and rows = rows] by auto
  have moved: "(\<exists>out. verdict_main rows ledger report build = Inr (out, 0)) \<longleftrightarrow>
      concat (map (stray rows) ?results) = [] \<and> (\<exists>cells. ledger_cells ledger = Inr cells \<and> judge_rows build seen cells = Inr [])"
    by (auto simp: verdict_main_def moves_def sorted bind_r_Inr_iff Let_def split: if_splits)
  have strays: "concat (map (stray rows) ?results) = [] \<longleftrightarrow>
      (\<forall>tc \<in> set report. stray rows (case_key tc, outcome_of (statuses_of report (case_key tc))) = [])"
  proof -
    have "concat (map (stray rows) ?results) = [] \<longleftrightarrow> (\<forall>key st. (key, st) \<in> set (parse_junit report) \<longrightarrow> stray rows (key, st) = [])"
      by auto
    then show ?thesis by (auto simp: parse_junit_in statuses_of_nonempty)
  qed
  have row: "map snd (case map_of seen row of None \<Rightarrow> [] | Some cs \<Rightarrow> cs) = [] \<longleftrightarrow> row_statuses rows report row = []"
    "outcome_of (map snd (case map_of seen row of None \<Rightarrow> [] | Some cs \<Rightarrow> cs)) = outcome_of (row_statuses rows report row)" for row
    using row_outcome [OF spec [OF seen [unfolded seen_ok_def], of row]] by simp_all
  show ?thesis unfolding moved strays judge_rows_agree stray_Nil Let_def row ..
qed

definition one_row :: "string \<Rightarrow> string option" where
  "one_row key = (if key = ''rpc_uptime'' then Some ''`rpc_uptime.py`'' else None)"

definition one_case :: testcase where
  "one_case = \<lparr>tc_classname = Some ''tests.integration.rpc_uptime_btclib_node_test'', tc_name = Some ''test_uptime[a]'',
     tc_failure = False, tc_skipped = False,
     tc_errors = [Some ''failed on teardown with \"TimeoutError: node process ignored terminate for 60s\"'']\<rparr>"

definition one_ledger :: string where
  "one_ledger = ''## The per-test ledger'' @ [CHR 0x0A] @ ''| `rpc_uptime.py` | same | x | pass | pass |'' @ [CHR 0x0A]"

lemma verdict_main_agrees_witness:
  "(\<exists>out. verdict_main one_row one_ledger [one_case] Release = Inr (out, 0))
     \<and> outcome_of (row_statuses one_row [one_case] ''`rpc_uptime.py`'') = Pass"
proof -
  have "names_apart one_row (case_key ` set [one_case])" by (simp add: names_apart_def)
  note iff = verdict_main_agrees [OF this, of one_ledger Release]
  have "(case verdict_main one_row one_ledger [one_case] Release of Inr (out, status) \<Rightarrow> status = 0 | _ \<Rightarrow> False)"
    by code_simp
  then have exit: "\<exists>out. verdict_main one_row one_ledger [one_case] Release = Inr (out, 0)"
    by (auto split: sum.splits prod.splits)
  have cells: "ledger_cells one_ledger = Inr [(''`rpc_uptime.py`'', ''pass'')]"
    "expected ''pass'' Release = Inr (Some \<lparr>ev_text = ''pass'', ev_outcome = Pass\<rparr>)" by code_simp+
  show ?thesis using exit iff cells by auto
qed

subsection \<open>The spelling of a cell\<close>

lemma py_endswith_append [str_simps]: "py_endswith (s @ p) p"
  by (simp add: py_endswith_def)

lemma removesuffix_append [str_simps]: "p \<noteq> [] \<Longrightarrow> removesuffix (s @ p) p = s"
  by (simp add: removesuffix_def py_endswith_append)

lemma py_endswith_last: "py_endswith s p \<Longrightarrow> p \<noteq> [] \<Longrightarrow> s \<noteq> [] \<and> last s = last p"
proof -
  assume "py_endswith s p" "p \<noteq> []"
  then obtain t where "rev s = rev p @ t" by (metis py_endswith_def py_startswith_iff_prefix prefixE)
  then have "s = rev t @ p" by (metis rev_append rev_rev_ident)
  then show ?thesis using \<open>p \<noteq> []\<close> by simp
qed

lemma drop_past: "drop (length xs + k) (xs @ ys) = drop k ys"
  by simp

lemma find_last_index:
  assumes "P i" "1 \<le> i" "i < n" and "\<And>j. i < j \<Longrightarrow> j < n \<Longrightarrow> \<not> P j"
  shows "List.find P (rev [1..<n]) = Some i"
  using assms(3,4)
proof (induction n)
  case (Suc n)
  then show ?case using assms(1,2) by (cases "i = n") (auto simp: less_Suc_eq)
qed simp

lemma is_iss_ends: "is_iss s \<Longrightarrow> py_startswith s ''['' \<and> last s = CHR '')''"
proof -
  assume iss: "is_iss s"
  define t where "t = drop 5 s"
  define u where "u = drop (length (takeWhile (\<lambda>c. c \<noteq> CHR '']'') t)) t"
  define l where "l = length (takeWhile (\<lambda>c. c \<noteq> CHR '')'' \<and> \<not> is_space c) (drop 2 u))"
  have start: "py_startswith s ''[ISS ''" and stop: "drop l (drop 2 u) = '')''"
    using iss unfolding is_iss_def Let_def t_def u_def l_def by blast+
  have "\<exists>k. drop k s = '')''" using stop by (auto simp: t_def u_def)
  then obtain k where k: "drop k s = '')''" by blast
  then have "last s = last (drop k s)" by (metis drop_eq_Nil2 last_drop list.distinct(1) not_le)
  then show ?thesis using start k by (cases s) (simp_all add: py_startswith_Cons)
qed

lemma on_the_build_spelled: "v \<noteq> [] \<Longrightarrow> CHR 0x0A \<notin> set v \<Longrightarrow> on_the_build (v @ '' on the build'') = Some v"
  by (simp add: on_the_build_def removesuffix_append py_endswith_append)

lemma on_the_build_other: "last s \<noteq> CHR ''d'' \<Longrightarrow> on_the_build s = None"
  using py_endswith_last [of s "'' on the build''"] by (auto simp: on_the_build_def Let_def)

lemma on_a_build_past_spelled:
  assumes "is_iss iss" and "CHR ''['' \<notin> set (tl iss)" and "v \<noteq> []" and "CHR 0x0A \<notin> set v"
  shows "on_a_build_past (v @ '' on a build past '' @ iss) = Some v"
proof -
  let ?s = "v @ '' on a build past '' @ iss"
  have "List.find (\<lambda>i. CHR 0x0A \<notin> set (take i ?s) \<and> py_startswith (drop i ?s) '' on a build past ''
      \<and> is_iss (drop (i + 17) ?s)) (rev [1..<length ?s]) = Some (length v)"
  proof (rule find_last_index)
    show "CHR 0x0A \<notin> set (take (length v) ?s) \<and> py_startswith (drop (length v) ?s) '' on a build past ''
        \<and> is_iss (drop (length v + 17) ?s)"
      using assms(1,4) py_startswith_append [of "'' on a build past ''" iss] by simp
    show "1 \<le> length v" "length v < length ?s" using assms(3) by (cases v) simp_all
    fix j
    assume "length v < j"
    then obtain k where "j + 17 = length v + 17 + Suc k" by (metis add.commute add.left_commute less_imp_Suc_add add_Suc_right)
    then have "drop (j + 17) ?s = drop (length (v @ '' on a build past '') + Suc k) ((v @ '' on a build past '') @ iss)" by simp
    then have "drop (j + 17) ?s = drop (Suc k) iss" by (simp only: drop_past)
    then have drop: "drop (j + 17) ?s = drop k (tl iss)" by (cases iss) simp_all
    show "\<not> (CHR 0x0A \<notin> set (take j ?s) \<and> py_startswith (drop j ?s) '' on a build past '' \<and> is_iss (drop (j + 17) ?s))"
    proof
      assume "CHR 0x0A \<notin> set (take j ?s) \<and> py_startswith (drop j ?s) '' on a build past '' \<and> is_iss (drop (j + 17) ?s)"
      then have "is_iss (drop (j + 17) ?s)" by blast
      from is_iss_ends [OF this, THEN conjunct1] have "py_startswith (drop k (tl iss)) ''[''" unfolding drop .
      then have "CHR ''['' \<in> set (drop k (tl iss))" by (cases "drop k (tl iss)") (simp_all add: py_startswith_Cons)
      then show False using assms(2) by (meson in_set_dropD)
    qed
  qed
  then show ?thesis by (simp add: on_a_build_past_def)
qed

text \<open>
  A cell that gives each build its own verdict is read back as written: the release is
  judged by the first segment and \<open>main\<close> by the second, each by its own verdict alone.
\<close>

lemma expected_reads_each_build:
  assumes "is_iss iss" and "CHR ''['' \<notin> set (tl iss)" and "CHR '';'' \<notin> set iss"
    and "v \<noteq> []" and "CHR '';'' \<notin> set v \<and> CHR 0x0A \<notin> set v"
    and "w \<noteq> []" and "CHR '';'' \<notin> set w \<and> CHR 0x0A \<notin> set w"
  shows "expected (v @ '' on the build; '' @ w @ '' on a build past '' @ iss) build =
    bind_r (verdict (if build = Release then v else w)) (\<lambda>e. Inr (Some e))"
proof -
  let ?first = "v @ '' on the build''" and ?second = "w @ '' on a build past '' @ iss"
  have cell: "v @ '' on the build; '' @ ?second = ?first @ ''; '' @ ?second" by simp
  have "py_split ''; '' (?first @ ''; '' @ ?second) = ?first # py_split ''; '' ?second"
    by (rule py_split_append [where d = "CHR '';''"]) (use assms(5) in simp_all)
  also have "py_split ''; '' ?second = [?second]"
    by (rule py_split_single [where d = "CHR '';''"]) (use assms(3,7) in simp_all)
  finally have segments: "py_split ''; '' (v @ '' on the build; '' @ ?second) = [?first, ?second]" unfolding cell .
  have "iss \<noteq> []" "last iss = CHR '')''" using is_iss_ends [OF assms(1)] by (auto simp: py_startswith_Cons)
  then have "last ?second \<noteq> CHR ''d''" by simp
  then have second: "on_the_build ?second = None" "on_a_build_past ?second = Some w"
    using on_a_build_past_spelled [OF assms(1,2,6)] assms(7) on_the_build_other by blast+
  have "found_verdicts build [?first, ?second] = Inr [if build = Release then v else w]"
    using second on_the_build_spelled [OF assms(4)] assms(5) by (cases build) simp_all
  moreover have "v @ '' on the build; '' @ ?second \<noteq> ''bitcoind only''"
  proof
    assume eq: "v @ '' on the build; '' @ ?second = ''bitcoind only''"
    have "CHR '';'' \<in> set (v @ '' on the build; '' @ ?second)" by simp
    then show False unfolding eq by simp
  qed
  ultimately show ?thesis unfolding expected_def segments Let_def by simp
qed

lemma expected_reads_each_build_witness:
  "expected (''fail ([ISS 1](u))'' @ '' on the build; '' @ ''pass'' @ '' on a build past '' @ ''[ISS 1](u)'') Main
     = Inr (Some \<lparr>ev_text = ''pass'', ev_outcome = Pass\<rparr>)"
proof -
  have iss: "is_iss ''[ISS 1](u)''" and verdict: "verdict ''pass'' = Inr \<lparr>ev_text = ''pass'', ev_outcome = Pass\<rparr>" by code_simp+
  from expected_reads_each_build [OF iss, of "''fail ([ISS 1](u))''" "''pass''" Main] verdict
  show ?thesis by simp
qed

end
