(* ===== verification/Master_Verdict.thy ===== *)
theory Master_Verdict
  imports Github
begin

section \<open>The verdict on a failure against Core's master\<close>

text \<open>
  \<open>.github/scripts/tf2_master_verdict.py\<close>: a test failing against Core's \<open>master\<close> and not against
  the pinned release is a stale port where the Core file it was read from, or a data file that
  loads, has moved since the pin. The modules' own files are the parameter \<open>read_text\<close>.
\<close>

subsection \<open>Ledger and reports\<close>

definition UPSTREAM_REPO :: string where "UPSTREAM_REPO = ''bitcoin/bitcoin''"

definition DATA_FILES :: "(string \<times> string list) list" where
  "DATA_FILES = [(''feature_block.py'', [''data/invalid_txs.py'']),
                 (''rpc_createmultisig.py'', [''data/rpc_bip67.json'']),
                 (''rpc_getblockstats.py'', [''data/rpc_getblockstats.json''])]"

text \<open>\<open>_PIN.search\<close>: the first run of at least eight hexadecimal digits, up to forty of it.\<close>

fun pin_search :: "string \<Rightarrow> string option" where
  "pin_search [] = None"
| "pin_search (c # cs) =
     (if 8 \<le> length (takeWhile is_hex (c # cs)) then Some (take 40 (takeWhile is_hex (c # cs))) else pin_search cs)"

fun pins_of_lines :: "string list \<Rightarrow> (string \<times> string) list \<Rightarrow> (string \<times> string) list result" where
  "pins_of_lines [] pins = Inr pins"
| "pins_of_lines (line # rest) pins =
     (if \<not> py_startswith line ''| `'' then pins_of_lines rest pins
      else let cells = row_cells line in
        (case row_file (hd cells) of
           None \<Rightarrow> pins_of_lines rest pins
         | Some file \<Rightarrow>
             if map_of pins file \<noteq> None then pins_of_lines rest pins
             else if length cells < 2 then Inl (IndexError ''list index out of range'')
             else (case pin_search (cells ! 1) of
                 None \<Rightarrow> pins_of_lines rest pins
               | Some pin \<Rightarrow> pins_of_lines rest (pins @ [(file, pin)]))))"

definition ledger_pins :: "string \<Rightarrow> (string \<times> string) list result" where
  "ledger_pins text = pins_of_lines (splitlines text) []"

definition plain_status :: "testcase \<Rightarrow> status" where
  "plain_status tc = (if tc_failure tc \<or> tc_errors tc \<noteq> [] then Fail else if tc_skipped tc then Skip else Pass)"

definition master_junit :: "testcase list \<Rightarrow> (string \<times> status) list" where
  "master_junit tcs = fold (\<lambda>tc. dict_set (case_key tc) (plain_status tc)) tcs []"

definition master_only_failures :: "(string \<times> status) list \<Rightarrow> (string \<times> status) list \<Rightarrow> string list" where
  "master_only_failures master pinned =
     sort (map fst (filter (\<lambda>(key, st). st = Fail \<and> map_of pinned key \<noteq> Some Fail) master))"

text \<open>\<open>_CITATION.search\<close>.\<close>

definition CITATION :: string where
  "CITATION = ''Read from Core's `test/functional/''"

fun citation :: "string \<Rightarrow> string option" where
  "citation [] = None"
| "citation (c # cs) =
     (case (if py_startswith (c # cs) CITATION then py_path (drop (length CITATION) (c # cs)) else None) of
        Some path \<Rightarrow> Some path | None \<Rightarrow> citation cs)"

text \<open>\<open>None\<close> is a module that cannot be read, or that cites none.\<close>

definition core_file_for_test :: "(string list \<Rightarrow> string option) \<Rightarrow> string \<Rightarrow> string option" where
  "core_file_for_test read_text classname =
     (case read_text (py_split ''.'' classname) of None \<Rightarrow> None | Some text \<Rightarrow> citation text)"

subsection \<open>Whether a path has moved\<close>

definition latest_commit :: "('w, 'z) github_scheme \<Rightarrow> string \<Rightarrow> ('w timed, (string \<times> string) option) loop" where
  "latest_commit gh path =
     bind_l (gh_json gh [''api'', ''--method'', ''GET'', ''repos/'' @ UPSTREAM_REPO @ ''/commits'',
         ''-f'', ''path='' @ path, ''-f'', ''per_page=1''])
       (\<lambda>commits. once (lift_r (first_commit commits)))"

definition has_moved :: "('w, 'z) github_scheme \<Rightarrow> string \<Rightarrow> string \<Rightarrow> ('w timed, bool) loop" where
  "has_moved gh pin latest =
     (if py_startswith latest pin then once (ret False)
      else bind_l (in_pin_history gh UPSTREAM_REPO pin latest) (\<lambda>b. once (ret (\<not> b))))"

text \<open>The tips of the paths in turn, or the first path without one.\<close>

fun read_tips ::
  "('w, 'z) github_scheme \<Rightarrow> string list \<Rightarrow> (string \<times> string \<times> string) list
    \<Rightarrow> ('w timed, string + (string \<times> string \<times> string) list) loop" where
  "read_tips gh [] latest = once (ret (Inr latest))"
| "read_tips gh (path # paths) latest =
     bind_l (latest_commit gh (''test/functional/'' @ path))
       (\<lambda>found. case found of
           None \<Rightarrow> once (ret (Inl path))
         | Some tip \<Rightarrow> read_tips gh paths (latest @ [(path, tip)]))"

fun moved_paths ::
  "('w, 'z) github_scheme \<Rightarrow> string \<Rightarrow> (string \<times> string \<times> string) list
    \<Rightarrow> ('w timed, (string \<times> string \<times> string) list) loop" where
  "moved_paths gh pin [] = once (ret [])"
| "moved_paths gh pin ((path, sha, date) # rest) =
     bind_l (has_moved gh pin sha)
       (\<lambda>m. bind_l (moved_paths gh pin rest)
         (\<lambda>ms. once (ret (if m then (path, sha, date) # ms else ms))))"

subsection \<open>The report\<close>

text \<open>What a line says of its test, before it is spelled.\<close>

datatype verdict_line =
    NoCitation
  | NoLedgerRow string
  | PathGone string string string
  | StalePort string string "(string \<times> string \<times> string) list"
  | Unchanged string string "string \<times> string" "string list"

fun spell_verdict :: "string \<times> verdict_line \<Rightarrow> string" where
  "spell_verdict (key, NoCitation) = ''- `'' @ key @ ''`: no Core file citation found in its own module''"
| "spell_verdict (key, NoLedgerRow file) =
     ''- `'' @ key @ ''` (`'' @ file @ ''`): TF2.md's per-test ledger names no row for it''"
| "spell_verdict (key, PathGone file pin gone) =
     ''- `'' @ key @ ''` (`'' @ file @ ''`, pinned `'' @ pin @ ''`): `'' @ UPSTREAM_REPO
     @ ''` has no commit touching `'' @ gone @ ''` at all''"
| "spell_verdict (key, StalePort file pin changed) =
     ''- `'' @ key @ ''` (`'' @ file @ ''`): **stale port** -- TF2.md pins `'' @ pin @ ''`, and ''
     @ py_join ''; '' (map (\<lambda>(path, sha, date). ''`'' @ path @ ''` last changed on master in `'' @ sha @ ''` ('' @ date @ '')'') changed)"
| "spell_verdict (key, Unchanged file pin (sha, date) data_files) =
     ''- `'' @ key @ ''` (`'' @ file @ ''`): **file unchanged since the pin** -- TF2.md pins `'' @ pin
     @ ''`, its last commit on master is `'' @ sha @ ''` ('' @ date @ '')''
     @ (if data_files = [] then []
        else '', and no commit since the pin touches '' @ py_join '', '' (map (\<lambda>p. ''`'' @ p @ ''`'') data_files) @ '', which it loads'')
     @ '': the cause is not measured, and the port may never have matched the file; check the port against `''
     @ file @ ''` at `'' @ pin @ ''` first''"

definition data_files_of :: "string \<Rightarrow> string list" where
  "data_files_of file = (case map_of DATA_FILES file of None \<Rightarrow> [] | Some fs \<Rightarrow> fs)"

definition judge_failure ::
  "('w, 'z) github_scheme \<Rightarrow> (string list \<Rightarrow> string option) \<Rightarrow> (string \<times> string) list \<Rightarrow> string
    \<Rightarrow> ('w timed, verdict_line) loop" where
  "judge_failure gh read_text pins key =
     (case core_file_for_test read_text (fst (split_once ''::'' key)) of
        None \<Rightarrow> once (ret NoCitation)
      | Some file \<Rightarrow>
          (case map_of pins file of
             None \<Rightarrow> once (ret (NoLedgerRow file))
           | Some pin \<Rightarrow>
               bind_l (read_tips gh (file # data_files_of file) [])
                 (\<lambda>found. case found of
                     Inl gone \<Rightarrow> once (ret (PathGone file pin gone))
                   | Inr latest \<Rightarrow>
                       bind_l (moved_paths gh pin latest)
                         (\<lambda>moved. once (ret (if moved \<noteq> [] then StalePort file pin moved
                            else Unchanged file pin (snd (hd latest)) (data_files_of file)))))))"

fun judge_each ::
  "('w, 'z) github_scheme \<Rightarrow> (string list \<Rightarrow> string option) \<Rightarrow> (string \<times> string) list \<Rightarrow> string list
    \<Rightarrow> ('w timed, (string \<times> verdict_line) list) loop" where
  "judge_each gh read_text pins [] = once (ret [])"
| "judge_each gh read_text pins (key # keys) =
     bind_l (judge_failure gh read_text pins key)
       (\<lambda>v. bind_l (judge_each gh read_text pins keys) (\<lambda>vs. once (ret ((key, v) # vs))))"

definition verdicts ::
  "('w, 'z) github_scheme \<Rightarrow> (string list \<Rightarrow> string option) \<Rightarrow> string
    \<Rightarrow> (string \<times> status) list \<Rightarrow> (string \<times> status) list \<Rightarrow> ('w timed, (string \<times> verdict_line) list) loop" where
  "verdicts gh read_text ledger master pinned =
     bind_l (once (lift_r (ledger_pins ledger)))
       (\<lambda>pins. judge_each gh read_text pins (master_only_failures master pinned))"

subsection \<open>What a verdict says\<close>

text \<open>
  A history that does not change while it is asked about: \<open>tip\<close> is a path's last commit on
  \<open>master\<close>, \<open>older\<close> whether a commit is a pin or one of its ancestors. \<open>gh\<close> answers for it.
\<close>

definition steady ::
  "('w, 'z) github_scheme \<Rightarrow> (string \<Rightarrow> (string \<times> string) option) \<Rightarrow> (string \<Rightarrow> string \<Rightarrow> bool) \<Rightarrow> bool" where
  "steady gh tip older \<longleftrightarrow>
     (\<forall>path s. \<exists>t. latest_commit gh path s = Some (Inr (tip path), t))
     \<and> (\<forall>pin sha s. \<exists>t. in_pin_history gh UPSTREAM_REPO pin sha s = Some (Inr (older pin sha), t))"

lemma steady_answers:
  assumes "steady gh tip older"
  shows "answers (latest_commit gh path) (tip path)"
    and "answers (in_pin_history gh UPSTREAM_REPO pin sha) (older pin sha)"
  using assms unfolding steady_def answers_def by blast+

definition path_moved :: "(string \<Rightarrow> string \<Rightarrow> bool) \<Rightarrow> string \<Rightarrow> string \<Rightarrow> bool" where
  "path_moved older pin sha \<longleftrightarrow> \<not> prefix pin sha \<and> \<not> older pin sha"

definition upstream_tip :: "(string \<Rightarrow> (string \<times> string) option) \<Rightarrow> string \<Rightarrow> (string \<times> string) option" where
  "upstream_tip tip path = tip (''test/functional/'' @ path)"

text \<open>What a line should say, straight from the history.\<close>

definition verdict_spec ::
  "(string \<Rightarrow> (string \<times> string) option) \<Rightarrow> (string \<Rightarrow> string \<Rightarrow> bool) \<Rightarrow> (string list \<Rightarrow> string option)
    \<Rightarrow> (string \<times> string) list \<Rightarrow> string \<Rightarrow> verdict_line" where
  "verdict_spec tip older read_text pins key =
     (case core_file_for_test read_text (fst (split_once ''::'' key)) of
        None \<Rightarrow> NoCitation
      | Some file \<Rightarrow>
          (case map_of pins file of
             None \<Rightarrow> NoLedgerRow file
           | Some pin \<Rightarrow>
               let paths = file # data_files_of file;
                   changed = filter (\<lambda>(p, sha, date). path_moved older pin sha) (map (\<lambda>p. (p, the (upstream_tip tip p))) paths)
               in (case List.find (\<lambda>p. upstream_tip tip p = None) paths of
                     Some gone \<Rightarrow> PathGone file pin gone
                   | None \<Rightarrow> if changed \<noteq> [] then StalePort file pin changed
                       else Unchanged file pin (the (upstream_tip tip file)) (data_files_of file))))"

lemma answers_has_moved:
  assumes "steady gh tip older"
  shows "answers (has_moved gh pin sha) (path_moved older pin sha)"
proof (cases "prefix pin sha")
  case True
  then show ?thesis using answers_ret [of False]
    by (simp add: has_moved_def py_startswith_iff_prefix path_moved_def del: act_rewrites once_simps)
next
  case False
  then have "has_moved gh pin sha = bind_l (in_pin_history gh UPSTREAM_REPO pin sha) (\<lambda>b. once (ret (\<not> b)))"
    by (simp add: has_moved_def py_startswith_iff_prefix del: act_rewrites once_simps)
  moreover have "path_moved older pin sha = (\<not> older pin sha)" using False by (simp add: path_moved_def)
  ultimately show ?thesis by (simp only: answers_bind [OF steady_answers(2) [OF assms] answers_ret])
qed

lemma answers_read_tips:
  assumes "steady gh tip older"
  shows "answers (read_tips gh paths latest)
    (case List.find (\<lambda>p. upstream_tip tip p = None) paths of
       Some gone \<Rightarrow> Inl gone | None \<Rightarrow> Inr (latest @ map (\<lambda>p. (p, the (upstream_tip tip p))) paths))"
proof (induction paths arbitrary: latest)
  case Nil
  then show ?case using answers_ret by (simp del: act_rewrites once_simps)
next
  case (Cons p paths)
  have "answers (case upstream_tip tip p of None \<Rightarrow> once (ret (Inl p))
        | Some tip \<Rightarrow> read_tips gh paths (latest @ [(p, tip)]))
      (case List.find (\<lambda>p. upstream_tip tip p = None) (p # paths) of
         Some gone \<Rightarrow> Inl gone | None \<Rightarrow> Inr (latest @ map (\<lambda>p. (p, the (upstream_tip tip p))) (p # paths)))"
    using Cons.IH [of "latest @ [(p, the (upstream_tip tip p))]"] answers_ret
    by (cases "upstream_tip tip p"; cases "List.find (\<lambda>p. upstream_tip tip p = None) paths")
      (simp_all del: act_rewrites once_simps)
  then show ?case unfolding read_tips.simps
    by (intro answers_bind [OF steady_answers(1) [OF assms]]) (simp only: upstream_tip_def)
qed

lemma answers_moved_paths:
  assumes "steady gh tip older"
  shows "answers (moved_paths gh pin latest) (filter (\<lambda>(p, sha, date). path_moved older pin sha) latest)"
proof (induction latest)
  case Nil
  then show ?case using answers_ret by (simp del: act_rewrites once_simps)
next
  case (Cons l latest)
  obtain p sha date where l: "l = (p, sha, date)" by (rule prod_cases3)
  show ?case unfolding l moved_paths.simps
    by (rule answers_bind [OF answers_has_moved [OF assms]], rule answers_bind [OF Cons.IH])
      (auto intro: answers_ret simp del: act_rewrites once_simps)
qed

lemma answers_pinned:
  fixes gh :: "('w, 'z) github_scheme"
  assumes "steady gh tip older" and "paths = core # datas"
  shows "answers
    (bind_l (read_tips gh paths [])
       (\<lambda>found. case found of
           Inl gone \<Rightarrow> once (ret (PathGone core pin gone))
         | Inr latest \<Rightarrow>
             bind_l (moved_paths gh pin latest)
               (\<lambda>moved. once (ret (if moved \<noteq> [] then StalePort core pin moved
                  else Unchanged core pin (snd (hd latest)) datas)))))
    (let changed = filter (\<lambda>(p, sha, date). path_moved older pin sha) (map (\<lambda>p. (p, the (upstream_tip tip p))) paths)
     in (case List.find (\<lambda>p. upstream_tip tip p = None) paths of
           Some gone \<Rightarrow> PathGone core pin gone
         | None \<Rightarrow> if changed \<noteq> [] then StalePort core pin changed
             else Unchanged core pin (the (upstream_tip tip core)) datas))"
proof -
  let ?latest = "map (\<lambda>p. (p, the (upstream_tip tip p))) paths"
  have first: "snd (hd ?latest) = the (upstream_tip tip core)" using assms(2) by simp
  have judged: "answers (bind_l (moved_paths gh pin ?latest) (\<lambda>moved. once (ret (if moved \<noteq> [] then StalePort core pin moved
      else Unchanged core pin (snd (hd ?latest)) datas)) :: ('w timed, verdict_line) loop))
    (let changed = filter (\<lambda>(p, sha, date). path_moved older pin sha) ?latest
     in if changed \<noteq> [] then StalePort core pin changed else Unchanged core pin (snd (hd ?latest)) datas)"
    unfolding Let_def by (rule answers_bind [OF answers_moved_paths [OF assms(1)] answers_ret])
  show ?thesis
    apply (rule answers_bind [OF answers_read_tips [OF assms(1)]])
    apply (cases "List.find (\<lambda>p. upstream_tip tip p = None) paths")
     apply (simp only: option.case sum.case append_Nil Let_def first [symmetric])
     apply (rule judged [unfolded Let_def])
    apply (simp only: option.case sum.case Let_def)
    by (rule answers_ret)
qed

lemma answers_judge_failure:
  assumes "steady gh tip older"
  shows "answers (judge_failure gh read_text pins key) (verdict_spec tip older read_text pins key)"
proof (cases "core_file_for_test read_text (fst (split_once ''::'' key))")
  case (Some core)
  then show ?thesis
    using answers_pinned [OF assms, of "core # data_files_of core" core "data_files_of core" "the (map_of pins core)"] answers_ret
    unfolding judge_failure_def verdict_spec_def
    by (cases "map_of pins core") (simp_all only: option.case option.sel Let_def simp_thms)
qed (use answers_ret in \<open>simp add: judge_failure_def verdict_spec_def del: act_rewrites once_simps\<close>)

lemma answers_judge_each:
  assumes "steady gh tip older"
  shows "answers (judge_each gh read_text pins keys) (map (\<lambda>key. (key, verdict_spec tip older read_text pins key)) keys)"
proof (induction keys)
  case (Cons key keys)
  show ?case unfolding judge_each.simps
    by (rule answers_bind [OF answers_judge_failure [OF assms]], rule answers_bind [OF Cons.IH])
      (simp add: answers_ret del: act_rewrites once_simps)
qed (simp add: answers_ret del: act_rewrites once_simps)

text \<open>
  C14: the report says what the history says. Against a history that stands still, every test that
  fails on \<open>master\<close> and not against the pinned release gets exactly one line, in order, and no other
  test does; and the line calls the port stale exactly where every path has a commit and the tip of
  one is neither the pin nor in its history, naming just those paths.
\<close>

theorem verdicts_follow_history:
  assumes "steady gh tip older" and "ledger_pins ledger = Inr pins"
  shows "\<exists>t. verdicts gh read_text ledger master pinned s =
    Some (Inr (map (\<lambda>key. (key, verdict_spec tip older read_text pins key)) (master_only_failures master pinned)), t)"
proof -
  have "answers (once (lift_r (ledger_pins ledger))) pins" using assms(2) by (simp add: answers_def)
  then have "answers (verdicts gh read_text ledger master pinned)
      (map (\<lambda>key. (key, verdict_spec tip older read_text pins key)) (master_only_failures master pinned))"
    unfolding verdicts_def by (rule answers_bind) (rule answers_judge_each [OF assms(1)])
  then show ?thesis unfolding answers_def by blast
qed

lemma still_steady: "steady still_github (\<lambda>path. Some (''feedbeefcafe'', ''2026-01-02'')) (\<lambda>pin sha. False)"
proof -
  show ?thesis
    unfolding steady_def latest_commit_def in_pin_history_def gh_json_def bind_l_def gh_output_unrolled gh_once_def
    using still_answers by (simp add: still_github_def)
qed

lemma verdicts_follow_history_witness:
  "\<exists>t. verdicts still_github (\<lambda>parts. Some (''Read from Core's `test/functional/rpc_uptime.py`'')) ''| `rpc_uptime.py` | `deadbeef12` | x | pass | pass |''
      [(''tests.a_test::t'', Fail), (''tests.b_test::t'', Fail)] [(''tests.b_test::t'', Fail)] \<lparr>clock = 0, world = ()\<rparr>
    = Some (Inr [(''tests.a_test::t'', StalePort ''rpc_uptime.py'' ''deadbeef12'' [(''rpc_uptime.py'', ''feedbeefcafe'', ''2026-01-02'')])], t)"
proof -
  let ?read = "\<lambda>parts. Some (''Read from Core's `test/functional/rpc_uptime.py`'')"
  have pins: "ledger_pins ''| `rpc_uptime.py` | `deadbeef12` | x | pass | pass |'' = Inr [(''rpc_uptime.py'', ''deadbeef12'')]"
    by code_simp
  have keys: "master_only_failures [(''tests.a_test::t'', Fail), (''tests.b_test::t'', Fail)] [(''tests.b_test::t'', Fail)]
      = [''tests.a_test::t'']" by code_simp
  have spec: "verdict_spec (\<lambda>path. Some (''feedbeefcafe'', ''2026-01-02'')) (\<lambda>pin sha. False) ?read
      [(''rpc_uptime.py'', ''deadbeef12'')] ''tests.a_test::t''
      = StalePort ''rpc_uptime.py'' ''deadbeef12'' [(''rpc_uptime.py'', ''feedbeefcafe'', ''2026-01-02'')]" by code_simp
  show ?thesis using verdicts_follow_history [OF still_steady pins, of ?read
      "[(''tests.a_test::t'', Fail), (''tests.b_test::t'', Fail)]" "[(''tests.b_test::t'', Fail)]"]
    unfolding keys by (simp add: spec)
qed

end
