(* ===== verification/Ledger_Census.thy ===== *)
theory Ledger_Census
  imports Github
begin

section \<open>The census of the ledger\<close>

text \<open>
  \<open>.github/scripts/tf2_ledger_census.py\<close>: Core's test framework directory against TF2.md's entries,
  and each pin of the per-test table against its file's last commit; each read keeps one issue.
  An issue is opened, edited or closed by a \<open>gh\<close> call that is not repeated.
\<close>

subsection \<open>Issues\<close>

text \<open>\<open>subprocess.run([_GH, *args], check=True)\<close>.\<close>

definition gh_check :: "('w, 'z) github_scheme \<Rightarrow> string list \<Rightarrow> ('w timed, unit) act" where
  "gh_check gh args s =
     (case gh_once gh args s of (Inr out, t) \<Rightarrow> (Inr (), t) | (Inl err, t) \<Rightarrow> (Inl (CalledProcessError err), t))"

definition issue_list_args :: "string \<Rightarrow> string \<Rightarrow> string list" where
  "issue_list_args title wanted =
     [''issue'', ''list'', ''--state'', ''open'', ''--search'', CHR 0x22 # title @ CHR 0x22 # '' in:title'', ''--json'', wanted]"

text \<open>\<open>str(x)\<close> of an issue's number.\<close>

definition number_text :: "json \<Rightarrow> string result" where
  "number_text x = (case x of JInt n \<Rightarrow> Inr (py_str_int n) | JStr s \<Rightarrow> Inr s | _ \<Rightarrow> Inl (TypeError ''number''))"

fun exact_numbers :: "string \<Rightarrow> json list \<Rightarrow> string list result" where
  "exact_numbers title [] = Inr []"
| "exact_numbers title (issue # issues) =
     bind_r (json_item ''title'' issue)
       (\<lambda>t. if t = JStr title
          then bind_r (bind_r (json_item ''number'' issue) number_text)
            (\<lambda>n. bind_r (exact_numbers title issues) (\<lambda>ns. Inr (n # ns)))
          else exact_numbers title issues)"

definition json_items :: "json \<Rightarrow> json list result" where
  "json_items x = (case x of JList xs \<Rightarrow> Inr xs | _ \<Rightarrow> Inl (TypeError ''not a list''))"

definition open_issue_number :: "('w, 'z) github_scheme \<Rightarrow> string \<Rightarrow> ('w timed, string option) loop" where
  "open_issue_number gh title =
     bind_l (gh_json gh (issue_list_args title ''number,title''))
       (\<lambda>issues. once (lift_r (bind_r (bind_r (json_items issues) (exact_numbers title))
          (\<lambda>ns. Inr (case ns of [] \<Rightarrow> None | n # _ \<Rightarrow> Some n)))))"

definition track ::
  "('w, 'z) github_scheme \<Rightarrow> string \<Rightarrow> string option \<Rightarrow> string \<Rightarrow> ('w timed, unit) loop" where
  "track gh title body all_clear =
     bind_l (open_issue_number gh title)
       (\<lambda>number. once (case (body, number) of
           (None, None) \<Rightarrow> ret ()
         | (None, Some n) \<Rightarrow> gh_check gh [''issue'', ''close'', n, ''--comment'', all_clear]
         | (Some b, None) \<Rightarrow> gh_check gh [''issue'', ''create'', ''--title'', title, ''--body'', b]
         | (Some b, Some n) \<Rightarrow> gh_check gh [''issue'', ''edit'', n, ''--body'', b]))"

subsection \<open>The framework's files\<close>

definition UPSTREAM_DIR :: string where "UPSTREAM_DIR = ''test/functional/test_framework''"
definition CENSUS_REPO :: string where "CENSUS_REPO = ''bitcoin/bitcoin''"
definition TESTS_DIR :: string where "TESTS_DIR = ''test/functional''"

definition default_branch_tip :: "('w, 'z) github_scheme \<Rightarrow> string \<Rightarrow> ('w timed, string) loop" where
  "default_branch_tip gh repo =
     bind_l (gh_output gh [''api'', ''repos/'' @ repo @ ''/commits/HEAD'', ''--jq'', ''.sha''])
       (\<lambda>out. once (ret (py_strip out)))"

text \<open>The paths of the tree's Python files under a directory.\<close>

fun python_blobs :: "string \<Rightarrow> json list \<Rightarrow> string list result" where
  "python_blobs pre [] = Inr []"
| "python_blobs pre (entry # entries) =
     bind_r (json_item ''type'' entry)
       (\<lambda>kind. if kind \<noteq> JStr ''blob'' then python_blobs pre entries
          else bind_r (bind_r (json_item ''path'' entry) json_string)
            (\<lambda>path. bind_r (python_blobs pre entries)
              (\<lambda>paths. Inr (if py_startswith path pre \<and> py_endswith path ''.py''
                 then py_removeprefix path pre # paths else paths))))"

definition upstream_python_files ::
  "('w, 'z) github_scheme \<Rightarrow> string \<Rightarrow> string \<Rightarrow> string \<Rightarrow> ('w timed, string list) loop" where
  "upstream_python_files gh repo directory sha =
     bind_l (gh_json gh [''api'', ''--method'', ''GET'', ''repos/'' @ repo @ ''/git/trees/'' @ sha, ''-f'', ''recursive=1''])
       (\<lambda>tree. once (lift_r
          (if (case json_get tree ''truncated'' of None \<Rightarrow> False | Some v \<Rightarrow> truthy v)
           then Inl (RuntimeError ''reports truncated: true'')
           else bind_r (bind_r (bind_r (json_item ''tree'' tree) json_items) (python_blobs (directory @ ''/'')))
             (\<lambda>paths. Inr (sort paths)))))"

text \<open>\<open>_HEADING.findall\<close>: an entry's heading, at the start of a line and to its end.\<close>

definition heading_at :: "string \<Rightarrow> string option" where
  "heading_at s =
     (let lead = ''### `'' @ UPSTREAM_DIR @ ''/'';
          path = takeWhile (\<lambda>c. c \<noteq> CHR ''`'') (drop (length lead) s);
          after = drop (length lead + length path) s
      in if py_startswith s lead \<and> path \<noteq> [] \<and> after \<noteq> [] \<and> (tl after = [] \<or> hd (tl after) = CHR 0x0A)
         then Some path else None)"

fun headings_from :: "bool \<Rightarrow> nat \<Rightarrow> string \<Rightarrow> string list" where
  "headings_from bol k [] = []"
| "headings_from bol k (c # cs) =
     (if 0 < k then headings_from (c = CHR 0x0A) (k - 1) cs
      else case (if bol then heading_at (c # cs) else None) of
          Some path \<Rightarrow> path # headings_from False (length ''### `'' + length UPSTREAM_DIR + 1 + length path) cs
        | None \<Rightarrow> headings_from (c = CHR 0x0A) 0 cs)"

definition ledger_entries :: "string \<Rightarrow> string set" where
  "ledger_entries text = set (headings_from True 0 text)"

definition census_body :: "string \<Rightarrow> string list \<Rightarrow> string list \<Rightarrow> string" where
  "census_body sha gained removed =
     py_join [CHR 0x0A]
       ([''`test/functional/test_framework/` at `bitcoin/bitcoin@'' @ take 12 sha @ ''`'',
         ''disagrees with `TF2.md`'s own census. Deciding an entry for a'',
         ''gained file, or removing one for a file upstream no longer has,'',
         ''is not this report's to do.'', '''']
        @ (if gained = [] then [] else ''Gained upstream, no entry in TF2.md:'' # map (\<lambda>p. ''- `'' @ p @ ''`'') gained @ [''''])
        @ (if removed = [] then [] else ''An entry in TF2.md, gone from upstream:'' # map (\<lambda>p. ''- `'' @ p @ ''`'') removed))"

definition report_census ::
  "('w, 'z) github_scheme \<Rightarrow> string \<Rightarrow> string \<Rightarrow> string list \<Rightarrow> string list \<Rightarrow> ('w timed, unit) loop" where
  "report_census gh title sha gained removed =
     track gh title (if gained \<noteq> [] \<or> removed \<noteq> [] then Some (census_body sha gained removed) else None)
       (''Re-read at `'' @ take 12 sha @ ''`: TF2.md's census agrees with upstream.'')"

subsection \<open>The pins\<close>

record pin =
  pn_sha :: string
  pn_held :: bool

record drift =
  dr_path :: string
  dr_pin :: pin
  dr_tip :: "(string \<times> string) option"

definition drift_line :: "drift \<Rightarrow> string" where
  "drift_line d =
     ''`'' @ dr_path d @ ''`: `'' @ pn_sha (dr_pin d) @ ''` -> ''
     @ (case dr_tip d of Some (sha, date) \<Rightarrow> ''`'' @ take 12 sha @ ''` ('' @ date @ '')'' | None \<Rightarrow> ''no commit'')"

definition PER_TEST_HEADER :: "string list" where
  "PER_TEST_HEADER = [''Core test'', ''pin'', ''read at'', ''bitcoind'', ''btclib-node'']"

definition is_separator :: "string \<Rightarrow> bool" where
  "is_separator s \<longleftrightarrow> 3 \<le> length s \<and> list_all (\<lambda>c. c = CHR ''-'') s"

fun table_rows :: "string list \<Rightarrow> string list list result" where
  "table_rows [] = Inr []"
| "table_rows (line # rest) =
     (if \<not> py_startswith (py_strip line) ''|'' then table_rows rest
      else let cells = row_cells line
        in if cells = PER_TEST_HEADER \<or> list_all is_separator cells then table_rows rest
           else if length cells \<noteq> length PER_TEST_HEADER then Inl (ValueError ''a row of cells, not five'')
           else bind_r (table_rows rest) (\<lambda>rows. Inr (cells # rows)))"

definition sha_shaped :: "string \<Rightarrow> bool" where
  "sha_shaped h \<longleftrightarrow> list_all is_hex h \<and> 7 \<le> length h \<and> length h \<le> 40"

text \<open>\<open>_PIN_CELL.fullmatch\<close>: a bare sha, or one linked to its own commit, and the held marker.\<close>

definition pin_cell :: "string \<Rightarrow> pin option" where
  "pin_cell s =
     (let held = py_endswith s '' held'';
          body = (if held then removesuffix s '' held'' else s);
          bare = takeWhile is_hex (drop 1 body);
          linked = takeWhile is_hex (drop 2 body)
      in if sha_shaped bare \<and> body = ''`'' @ bare @ ''`'' then Some \<lparr>pn_sha = bare, pn_held = held\<rparr>
         else if sha_shaped linked
            \<and> body = ''[`'' @ linked @ ''`](https://github.com/bitcoin/bitcoin/commit/'' @ linked @ '')''
         then Some \<lparr>pn_sha = linked, pn_held = held\<rparr> else None)"

definition row_pin :: "string list \<Rightarrow> (string \<times> pin option) result" where
  "row_pin cells =
     (case row_file (cells ! 0) of
        None \<Rightarrow> Inl (ValueError ''no Core test file in'')
      | Some path \<Rightarrow>
          if cells ! 1 = ''same'' then Inr (path, None)
          else (case pin_cell (cells ! 1) of
              None \<Rightarrow> Inl (ValueError ''no pin reads'') | Some p \<Rightarrow> Inr (path, Some p)))"

fun pins_of_rows :: "string list list \<Rightarrow> (string \<times> pin) list \<Rightarrow> (string \<times> pin) list result" where
  "pins_of_rows [] pins = Inr pins"
| "pins_of_rows (cells # rows) pins =
     bind_r (row_pin cells)
       (\<lambda>(path, p). case (p, map_of pins path) of
           (None, None) \<Rightarrow> Inl (ValueError ''same with no row above it naming'')
         | (None, Some q) \<Rightarrow> pins_of_rows rows pins
         | (Some p, None) \<Rightarrow> pins_of_rows rows (pins @ [(path, p)])
         | (Some p, Some q) \<Rightarrow>
             if q \<noteq> p then Inl (ValueError ''where a row above pins'') else pins_of_rows rows pins)"

definition per_test_pins :: "string \<Rightarrow> (string \<times> pin) list result" where
  "per_test_pins text =
     (case section_of text of
        None \<Rightarrow> Inl (ValueError ''no section'')
      | Some sec \<Rightarrow> bind_r (table_rows (splitlines sec))
          (\<lambda>rows. bind_r (pins_of_rows rows [])
            (\<lambda>pins. if pins = [] then Inl (ValueError ''no row under'') else Inr pins)))"

definition tip_of ::
  "('w, 'z) github_scheme \<Rightarrow> string \<Rightarrow> string \<Rightarrow> string \<Rightarrow> ('w timed, (string \<times> string) option) loop" where
  "tip_of gh repo path sha =
     bind_l (gh_json gh [''api'', ''--method'', ''GET'', ''repos/'' @ repo @ ''/commits'',
         ''-f'', ''path='' @ path, ''-f'', ''sha='' @ sha, ''-f'', ''per_page=1''])
       (\<lambda>commits. once (lift_r (first_commit commits)))"

definition at_tip ::
  "('w, 'z) github_scheme \<Rightarrow> string \<Rightarrow> pin \<Rightarrow> (string \<times> string) option \<Rightarrow> ('w timed, bool) loop" where
  "at_tip gh repo p tip =
     (case tip of
        None \<Rightarrow> once (ret False)
      | Some (sha, date) \<Rightarrow>
          if py_startswith sha (pn_sha p) then once (ret True) else in_pin_history gh repo (pn_sha p) sha)"

fun drifts :: "('w, 'z) github_scheme \<Rightarrow> string \<Rightarrow> string \<Rightarrow> (string \<times> pin) list \<Rightarrow> ('w timed, drift list) loop" where
  "drifts gh repo sha [] = once (ret [])"
| "drifts gh repo sha ((path, p) # pins) =
     bind_l (tip_of gh repo (TESTS_DIR @ ''/'' @ path) sha)
       (\<lambda>tip. bind_l (at_tip gh repo p tip)
         (\<lambda>same. bind_l (drifts gh repo sha pins)
           (\<lambda>ds. once (ret (if same then ds else \<lparr>dr_path = path, dr_pin = p, dr_tip = tip\<rparr> # ds)))))"

definition pin_drift ::
  "('w, 'z) github_scheme \<Rightarrow> string \<Rightarrow> (string \<times> pin) list \<Rightarrow> string \<Rightarrow> ('w timed, drift list) loop" where
  "pin_drift gh repo pins sha = drifts gh repo sha (sort_key fst pins)"

definition pins_body :: "string \<Rightarrow> drift list \<Rightarrow> string list \<Rightarrow> string" where
  "pins_body sha behind stale =
     py_join [CHR 0x0A]
       ([''`TF2.md`'s per-test ledger, read at `bitcoin/bitcoin@'' @ take 12 sha @ ''`.'',
         ''Moving a pin means reading its port against the new revision'',
         ''first, which is not this report's to do.'', '''']
        @ (if behind = [] then [] else ''Behind the path's last commit upstream:'' # map (\<lambda>d. ''- '' @ drift_line d) behind @ [''''])
        @ (if stale = [] then [] else ''Marked `held`, and at the path's last commit upstream:'' # map (\<lambda>p. ''- `'' @ p @ ''`'') stale))"

definition report_pins ::
  "('w, 'z) github_scheme \<Rightarrow> string \<Rightarrow> string \<Rightarrow> drift list \<Rightarrow> string list \<Rightarrow> ('w timed, unit) loop" where
  "report_pins gh title sha behind stale =
     track gh title (if behind \<noteq> [] \<or> stale \<noteq> [] then Some (pins_body sha behind stale) else None)
       (''Re-read at `'' @ take 12 sha @ ''`: every per-test pin in TF2.md is at its path's tip or held.'')"

text \<open>What of a drift the pins' issue lists: the pins behind, and the held pins at their tips.\<close>

definition behind_of :: "drift list \<Rightarrow> drift list" where
  "behind_of ds = filter (\<lambda>d. \<not> pn_held (dr_pin d) \<or> dr_tip d = None) ds"

definition stale_of :: "(string \<times> pin) list \<Rightarrow> drift list \<Rightarrow> string list" where
  "stale_of pins ds = map fst (filter (\<lambda>(path, p). pn_held p \<and> path \<notin> dr_path ` set ds) (sort_key fst pins))"

text \<open>\<open>main\<close> past its usage check: the lines it prints.\<close>

definition census_main ::
  "('w, 'z) github_scheme \<Rightarrow> string \<Rightarrow> string \<Rightarrow> string \<Rightarrow> bool \<Rightarrow> ('w timed, string list) loop" where
  "census_main gh ledger title pins_title dry_run =
     bind_l (once (lift_r (per_test_pins ledger)))
       (\<lambda>pins. bind_l (default_branch_tip gh CENSUS_REPO)
       (\<lambda>sha. bind_l (upstream_python_files gh CENSUS_REPO UPSTREAM_DIR sha)
       (\<lambda>upstream.
          let entries = ledger_entries ledger;
              gained = sort (remdups (filter (\<lambda>p. p \<notin> entries) upstream));
              removed = sort (remdups (filter (\<lambda>p. p \<notin> set upstream) (headings_from True 0 ledger)))
          in bind_l (if dry_run then once (ret ()) else report_census gh title sha gained removed)
       (\<lambda>_. bind_l (pin_drift gh CENSUS_REPO pins sha)
       (\<lambda>ds. let behind = behind_of ds; stale = stale_of pins ds
          in bind_l (if dry_run then once (ret ()) else report_pins gh pins_title sha behind stale)
       (\<lambda>_. once (ret (
            map (\<lambda>p. ''GAINED: '' @ p) gained @ map (\<lambda>p. ''REMOVED: '' @ p) removed
            @ (if gained = [] \<and> removed = [] then [''TF2.md's census agrees with upstream at '' @ take 12 sha @ ''.''] else [])
            @ map (\<lambda>d. (if pn_held (dr_pin d) then ''HELD: '' else ''BEHIND: '') @ drift_line d) ds
            @ map (\<lambda>p. ''HELD AT TIP: '' @ p) stale
            @ (if behind = [] \<and> stale = []
               then [''Every per-test pin in TF2.md is at its tip or held at '' @ take 12 sha @ ''.''] else [])))))))))"

subsection \<open>What the table's pins are\<close>

lemma pins_of_rows_reads:
  assumes "pins_of_rows rows pins = Inr result"
  shows "\<exists>rs. map row_pin rows = map Inr rs
    \<and> (\<forall>path p. map_of result path = Some p \<longleftrightarrow> map_of pins path = Some p \<or> (path, Some p) \<in> set rs)
    \<and> (\<forall>i path. i < length rs \<longrightarrow> rs ! i = (path, None) \<longrightarrow>
         map_of pins path \<noteq> None \<or> (\<exists>p. (path, Some p) \<in> set (take i rs)))"
  using assms
proof (induction rows arbitrary: pins)
  case Nil
  then show ?case by simp
next
  case (Cons cells rows)
  from Cons.prems obtain path q where first: "row_pin cells = Inr (path, q)"
    by (auto simp: bind_r_Inr_iff)
  obtain pins' where rest: "pins_of_rows rows pins' = Inr result"
    and pins': "\<And>k p. map_of pins' k = Some p \<longleftrightarrow> map_of pins k = Some p \<or> (k, Some p) = (path, q)"
    and same: "q = None \<Longrightarrow> map_of pins path \<noteq> None"
  proof (cases q)
    case None
    then show thesis using Cons.prems first that [of pins] by (cases "map_of pins path") (auto split: if_splits)
  next
    case (Some p)
    show thesis
    proof (cases "map_of pins path")
      case None
      then have "pins_of_rows rows (pins @ [(path, p)]) = Inr result" using Cons.prems first Some by simp
      moreover have "map_of (pins @ [(path, p)]) k = Some r \<longleftrightarrow> map_of pins k = Some r \<or> (k, Some r) = (path, q)" for k r
        using Some None by (cases "map_of pins k") (auto simp: map_add_def)
      ultimately show thesis using that [of "pins @ [(path, p)]"] Some by blast
    next
      case (Some p')
      then have "p' = p" "pins_of_rows rows pins = Inr result"
        using Cons.prems first \<open>q = Some p\<close> by (simp_all split: if_splits)
      then show thesis using that [of pins] Some \<open>q = Some p\<close> by auto
    qed
  qed
  from Cons.IH [OF rest] obtain rs where rs: "map row_pin rows = map Inr rs"
    "\<And>k p. map_of result k = Some p \<longleftrightarrow> map_of pins' k = Some p \<or> (k, Some p) \<in> set rs"
    "\<And>i k. i < length rs \<Longrightarrow> rs ! i = (k, None) \<Longrightarrow> map_of pins' k \<noteq> None \<or> (\<exists>p. (k, Some p) \<in> set (take i rs))"
    by blast
  have "map_of pins k \<noteq> None \<or> (\<exists>p. (k, Some p) \<in> set (take i ((path, q) # rs)))"
    if "i < length ((path, q) # rs)" "((path, q) # rs) ! i = (k, None)" for i k
  proof (cases i)
    case 0
    then show ?thesis using that same by simp
  next
    case (Suc j)
    then have "map_of pins' k \<noteq> None \<or> (\<exists>p. (k, Some p) \<in> set (take j rs))" using rs(3) [of j k] that by simp
    then show ?thesis using pins' [of k] Suc by auto
  qed
  then show ?case using first rs(1,2) pins' by (intro exI [of _ "(path, q) # rs"]) auto
qed

text \<open>
  The pins the census reads are the table's. Where it reads any, the section is there, every
  row of its table is read, each file's pin is the one every row of it gives that gives one, and
  a row that says \<open>same\<close> stands below one of its file that does not.
\<close>

lemma per_test_pins_sound:
  assumes "per_test_pins text = Inr pins"
  shows "\<exists>sec rows rs. section_of text = Some sec \<and> table_rows (splitlines sec) = Inr rows
    \<and> map row_pin rows = map Inr rs \<and> rs \<noteq> []
    \<and> (\<forall>path p. map_of pins path = Some p \<longleftrightarrow> (path, Some p) \<in> set rs)
    \<and> (\<forall>i path. i < length rs \<longrightarrow> rs ! i = (path, None) \<longrightarrow> (\<exists>p. (path, Some p) \<in> set (take i rs)))"
proof -
  from assms obtain sec rows where sec: "section_of text = Some sec" "table_rows (splitlines sec) = Inr rows"
    and rows: "pins_of_rows rows [] = Inr pins" "pins \<noteq> []"
    by (auto simp: per_test_pins_def bind_r_Inr_iff split: option.splits if_splits)
  from pins_of_rows_reads [OF rows(1)] obtain rs where rs: "map row_pin rows = map Inr rs"
    "\<forall>path p. map_of pins path = Some p \<longleftrightarrow> (path, Some p) \<in> set rs"
    "\<forall>i path. i < length rs \<longrightarrow> rs ! i = (path, None) \<longrightarrow> (\<exists>p. (path, Some p) \<in> set (take i rs))"
    by auto
  have "rs \<noteq> []" using rows rs(1) by auto
  with sec rs show ?thesis by blast
qed

definition small_table :: string where
  "small_table = ''## The per-test ledger'' @ [CHR 0x0A] @ ''| `a.py` | `deadbeef` held | x | pass | pass |'' @ [CHR 0x0A]
     @ ''| `a.py` (log) | same | x | pass | pass |'' @ [CHR 0x0A]"

lemma per_test_pins_sound_witness:
  "per_test_pins small_table = Inr [(''a.py'', \<lparr>pn_sha = ''deadbeef'', pn_held = True\<rparr>)]
     \<and> (\<exists>sec rows. section_of small_table = Some sec \<and> table_rows (splitlines sec) = Inr rows \<and> rows \<noteq> [])"
proof -
  have "per_test_pins small_table = Inr [(''a.py'', \<lparr>pn_sha = ''deadbeef'', pn_held = True\<rparr>)]" by code_simp
  with per_test_pins_sound [OF this] show ?thesis by auto
qed

subsection \<open>Whose issue is written to\<close>

lemma exact_numbers_own:
  "exact_numbers title issues = Inr ns \<Longrightarrow> n \<in> set ns \<Longrightarrow>
    \<exists>issue \<in> set issues. json_item ''title'' issue = Inr (JStr title) \<and> bind_r (json_item ''number'' issue) number_text = Inr n"
proof (induction issues arbitrary: ns)
  case (Cons issue issues)
  from Cons.prems(1) obtain t where t: "json_item ''title'' issue = Inr t" by (auto simp: bind_r_Inr_iff)
  show ?case
  proof (cases "t = JStr title")
    case True
    then obtain m ms where "bind_r (json_item ''number'' issue) number_text = Inr m" "exact_numbers title issues = Inr ms" "ns = m # ms"
      using Cons.prems(1) t by (auto simp: bind_r_Inr_iff)
    then show ?thesis using Cons.IH [of ms] Cons.prems(2) t True by auto
  next
    case False
    then show ?thesis using Cons.IH [of ns] Cons.prems t by auto
  qed
qed simp

lemma exact_numbers_none:
  "exact_numbers title issues = Inr [] \<Longrightarrow> issue \<in> set issues \<Longrightarrow> json_item ''title'' issue \<noteq> Inr (JStr title)"
proof (induction issues)
  case (Cons i issues)
  then show ?case by (cases "json_item ''title'' i") (auto simp: bind_r_Inr_iff split: if_splits)
qed simp

text \<open>
  C32: a report writes to its own issue or to none. After the search, \<open>track\<close> makes at most one
  call: it edits or closes only an issue the search found whose title is exactly its own, opens
  one only where the search found none of that title, and where there is nothing to report and no
  such issue it makes no call.
\<close>

theorem track_writes_own_issue:
  assumes "gh_json gh (issue_list_args title ''number,title'') s = Some (Inr (JList issues), t)"
  shows "(\<exists>e. track gh title body all_clear s = Some (Inl e, t) \<and> exact_numbers title issues = Inl e)
    \<or> (\<exists>issue n. issue \<in> set issues \<and> json_item ''title'' issue = Inr (JStr title)
         \<and> bind_r (json_item ''number'' issue) number_text = Inr n
         \<and> track gh title body all_clear s = Some (gh_check gh
             (case body of None \<Rightarrow> [''issue'', ''close'', n, ''--comment'', all_clear]
                | Some b \<Rightarrow> [''issue'', ''edit'', n, ''--body'', b]) t))
    \<or> (\<forall>issue \<in> set issues. json_item ''title'' issue \<noteq> Inr (JStr title))
       \<and> track gh title body all_clear s = Some (case body of None \<Rightarrow> (Inr (), t)
             | Some b \<Rightarrow> gh_check gh [''issue'', ''create'', ''--title'', title, ''--body'', b] t)"
proof (cases "exact_numbers title issues")
  case (Inl e)
  then show ?thesis using assms by (simp add: track_def open_issue_number_def bind_l_def json_items_def)
next
  case (Inr ns)
  then have number: "open_issue_number gh title s = Some (Inr (case ns of [] \<Rightarrow> None | n # _ \<Rightarrow> Some n), t)"
    using assms by (simp add: open_issue_number_def bind_l_def json_items_def)
  show ?thesis
  proof (cases ns)
    case Nil
    then have "\<forall>issue \<in> set issues. json_item ''title'' issue \<noteq> Inr (JStr title)"
      using exact_numbers_none Inr by blast
    then show ?thesis using number Nil by (cases body) (simp_all add: track_def bind_l_def)
  next
    case (Cons n ms)
    then obtain issue where "issue \<in> set issues" "json_item ''title'' issue = Inr (JStr title)"
      "bind_r (json_item ''number'' issue) number_text = Inr n" using exact_numbers_own [OF Inr, of n] by auto
    moreover have "track gh title body all_clear s = Some (gh_check gh
             (case body of None \<Rightarrow> [''issue'', ''close'', n, ''--comment'', all_clear]
                | Some b \<Rightarrow> [''issue'', ''edit'', n, ''--body'', b]) t)"
      using number Cons by (cases body) (simp_all add: track_def bind_l_def)
    ultimately show ?thesis by blast
  qed
qed

subsection \<open>Which pins are reported\<close>

definition steady_at ::
  "('w, 'z) github_scheme \<Rightarrow> string \<Rightarrow> (string \<Rightarrow> (string \<times> string) option) \<Rightarrow> (string \<Rightarrow> string \<Rightarrow> bool) \<Rightarrow> bool" where
  "steady_at gh sha tip older \<longleftrightarrow>
     (\<forall>path. answers (tip_of gh CENSUS_REPO (TESTS_DIR @ ''/'' @ path) sha) (tip path))
     \<and> (\<forall>p c. answers (in_pin_history gh CENSUS_REPO p c) (older p c))"

definition current :: "(string \<Rightarrow> (string \<times> string) option) \<Rightarrow> (string \<Rightarrow> string \<Rightarrow> bool) \<Rightarrow> string \<Rightarrow> pin \<Rightarrow> bool" where
  "current tip older path p \<longleftrightarrow>
     (case tip path of None \<Rightarrow> False | Some (sha, date) \<Rightarrow> prefix (pn_sha p) sha \<or> older (pn_sha p) sha)"

lemma answers_at_tip:
  assumes "steady_at gh sha tip older"
  shows "answers (at_tip gh CENSUS_REPO p (tip path)) (current tip older path p)"
proof (cases "tip path")
  case None
  then show ?thesis by (simp add: at_tip_def current_def answers_ret del: act_rewrites once_simps)
next
  case (Some c)
  obtain c_sha date where c: "c = (c_sha, date)" by (rule prod.exhaust)
  have "answers (in_pin_history gh CENSUS_REPO (pn_sha p) c_sha) (older (pn_sha p) c_sha)"
    using assms by (simp add: steady_at_def)
  then show ?thesis using Some c answers_ret [of True]
    by (auto simp: at_tip_def current_def py_startswith_iff_prefix simp del: act_rewrites once_simps)
qed

lemma answers_drifts:
  assumes "steady_at gh sha tip older"
  shows "answers (drifts gh CENSUS_REPO sha pins)
    (map (\<lambda>(path, p). \<lparr>dr_path = path, dr_pin = p, dr_tip = tip path\<rparr>) (filter (\<lambda>(path, p). \<not> current tip older path p) pins))"
proof (induction pins)
  case (Cons q pins)
  obtain path p where q: "q = (path, p)" by (rule prod.exhaust)
  have tip: "answers (tip_of gh CENSUS_REPO (TESTS_DIR @ ''/'' @ path) sha) (tip path)"
    using assms by (simp add: steady_at_def)
  show ?case unfolding q drifts.simps
    by (rule answers_bind [OF tip], rule answers_bind [OF answers_at_tip [OF assms]], rule answers_bind [OF Cons.IH])
      (auto intro: answers_ret simp del: act_rewrites once_simps)
qed (simp add: answers_ret del: act_rewrites once_simps)

text \<open>
  C33: the pins' issue lists what needs a decision and nothing else. Against a history that
  stands still, the census finds exactly the pins whose path has no commit or one the pin's
  history does not hold; and with one pin to a file it has nothing to report exactly where every
  pin not held is at its path's last commit, and every held one is behind a commit that is there.
\<close>

theorem census_reports_pins:
  assumes "steady_at gh sha tip older" and "distinct (map fst pins)"
  shows "\<exists>ds t. pin_drift gh CENSUS_REPO pins sha s = Some (Inr ds, t)
    \<and> (\<forall>d. d \<in> set ds \<longleftrightarrow> (\<exists>path p. (path, p) \<in> set pins \<and> \<not> current tip older path p
          \<and> d = \<lparr>dr_path = path, dr_pin = p, dr_tip = tip path\<rparr>))
    \<and> (behind_of ds = [] \<and> stale_of pins ds = [] \<longleftrightarrow>
         (\<forall>path p. (path, p) \<in> set pins \<longrightarrow>
            (if pn_held p then \<not> current tip older path p \<and> tip path \<noteq> None else current tip older path p)))"
proof -
  define ds where "ds = map (\<lambda>(path, p). \<lparr>dr_path = path, dr_pin = p, dr_tip = tip path\<rparr>)
    (filter (\<lambda>(path, p). \<not> current tip older path p) (sort_key fst pins))"
  obtain t where run: "pin_drift gh CENSUS_REPO pins sha s = Some (Inr ds, t)"
    using answers_drifts [OF assms(1)] unfolding pin_drift_def ds_def answers_def by blast
  have members: "d \<in> set ds \<longleftrightarrow> (\<exists>path p. (path, p) \<in> set pins \<and> \<not> current tip older path p
      \<and> d = \<lparr>dr_path = path, dr_pin = p, dr_tip = tip path\<rparr>)" for d
    by (auto simp: ds_def image_iff)
  have behind: "behind_of ds = [] \<longleftrightarrow> (\<forall>path p. (path, p) \<in> set pins \<longrightarrow> \<not> current tip older path p
      \<longrightarrow> pn_held p \<and> tip path \<noteq> None)"
  proof -
    have "behind_of ds = [] \<longleftrightarrow> (\<forall>d. d \<in> set ds \<longrightarrow> pn_held (dr_pin d) \<and> dr_tip d \<noteq> None)"
      by (auto simp: behind_of_def filter_empty_conv)
    then show ?thesis unfolding members by fastforce
  qed
  have paths: "path \<in> dr_path ` set ds \<longleftrightarrow> \<not> current tip older path p" if "(path, p) \<in> set pins" for path p
  proof -
    have only: "(path, q) \<in> set pins \<Longrightarrow> q = p" for q using that assms(2) by (metis eq_key_imp_eq_value)
    show ?thesis
    proof
      assume "path \<in> dr_path ` set ds"
      then obtain d where "d \<in> set ds" "dr_path d = path" by blast
      then obtain q where "(path, q) \<in> set pins" "\<not> current tip older path q" unfolding members by auto
      with only show "\<not> current tip older path p" by blast
    next
      assume "\<not> current tip older path p"
      with that have "\<lparr>dr_path = path, dr_pin = p, dr_tip = tip path\<rparr> \<in> set ds" unfolding members by blast
      then show "path \<in> dr_path ` set ds" by (rule rev_image_eqI) simp
    qed
  qed
  have stale: "stale_of pins ds = [] \<longleftrightarrow> (\<forall>path p. (path, p) \<in> set pins \<longrightarrow> pn_held p \<longrightarrow> \<not> current tip older path p)"
    using paths by (fastforce simp: stale_of_def filter_empty_conv)
  have "behind_of ds = [] \<and> stale_of pins ds = [] \<longleftrightarrow> (\<forall>path p. (path, p) \<in> set pins \<longrightarrow>
      (if pn_held p then \<not> current tip older path p \<and> tip path \<noteq> None else current tip older path p))"
    unfolding behind stale by (metis (no_types, lifting))
  with run members show ?thesis by blast
qed

lemma census_reports_pins_witness:
  "\<exists>ds t. pin_drift still_github CENSUS_REPO
       [(''a.py'', \<lparr>pn_sha = ''deadbeef'', pn_held = True\<rparr>), (''b.py'', \<lparr>pn_sha = ''feedbee'', pn_held = False\<rparr>)] ''c0ffee''
       \<lparr>clock = 0, world = ()\<rparr> = Some (Inr ds, t)
     \<and> behind_of ds = [] \<and> \<lparr>dr_path = ''a.py'', dr_pin = \<lparr>pn_sha = ''deadbeef'', pn_held = True\<rparr>,
          dr_tip = Some (''feedbeefcafe'', ''2026-01-02'')\<rparr> \<in> set ds"
proof -
  let ?tip = "\<lambda>path. Some (''feedbeefcafe'', ''2026-01-02'')"
  let ?pins = "[(''a.py'', \<lparr>pn_sha = ''deadbeef'', pn_held = True\<rparr>), (''b.py'', \<lparr>pn_sha = ''feedbee'', pn_held = False\<rparr>)]"
  have steady: "steady_at still_github ''c0ffee'' ?tip (\<lambda>pin sha. False)"
    unfolding steady_at_def answers_def tip_of_def in_pin_history_def gh_json_def bind_l_def gh_output_unrolled gh_once_def
    using still_answers by (simp add: still_github_def)
  have "current ?tip (\<lambda>pin sha. False) ''b.py'' \<lparr>pn_sha = ''feedbee'', pn_held = False\<rparr>"
    "\<not> current ?tip (\<lambda>pin sha. False) ''a.py'' \<lparr>pn_sha = ''deadbeef'', pn_held = True\<rparr>" by (simp_all add: current_def)
  with census_reports_pins [OF steady, of ?pins "\<lparr>clock = 0, world = ()\<rparr>"] show ?thesis by fastforce
qed

definition two_issues :: "unit github" where
  "two_issues = still_github\<lparr>gh_loads := (\<lambda>text. Inr (JList
     [JObj [(''number'', JInt 7), (''title'', JStr ''More of the pins'')], JObj [(''number'', JInt 9), (''title'', JStr ''pins'')]]))\<rparr>"

lemma track_writes_own_issue_witness:
  "\<exists>t. track two_issues ''pins'' None ''clear'' \<lparr>clock = 0, world = ()\<rparr>
    = Some (gh_check two_issues [''issue'', ''close'', ''9'', ''--comment'', ''clear''] t)"
proof -
  let ?issues = "[JObj [(''number'', JInt 7), (''title'', JStr ''More of the pins'')], JObj [(''number'', JInt 9), (''title'', JStr ''pins'')]]"
  have run: "gh_json two_issues (issue_list_args ''pins'' ''number,title'') \<lparr>clock = 0, world = ()\<rparr>
      = Some (Inr (JList ?issues), \<lparr>clock = 0, world = ()\<rparr>)"
    unfolding gh_json_def bind_l_def gh_output_unrolled gh_once_def
    by (simp add: two_issues_def still_github_def issue_list_args_def)
  have "exact_numbers ''pins'' ?issues = Inr [''9'']" "number_text (JInt 9) = Inr ''9''" by code_simp+
  with track_writes_own_issue [OF run, of None "''clear''"] show ?thesis
    by (auto simp: json_item_def)
qed

end
