(* ===== verification/Vendored_Vectors.thy ===== *)
theory Vendored_Vectors
  imports Ledger_Census
begin

section \<open>The check of the ledger's own pins\<close>

text \<open>
  \<open>.github/scripts/check_vendored_vectors.py\<close>: each entry of the framework ledger with a block
  that pins a commit and says it is not behind is compared with its path's last commit; every other
  heading is named with the reason it was not checked; drift keeps one issue.
\<close>

subsection \<open>Entries\<close>

record entry =
  en_heading :: string
  en_repo :: string
  en_path :: string
  en_commit :: string
  en_ref :: "string option"

record entry_drift =
  ed_entry :: entry
  ed_commit :: string
  ed_date :: string

definition has_no_tip :: "entry_drift \<Rightarrow> bool" where
  "has_no_tip d \<longleftrightarrow> ed_commit d = []"

text \<open>\<open>_HEADING.findall\<close>: the lines \<open>### \<close> opens, with something behind it.\<close>

definition headings :: "string \<Rightarrow> string list" where
  "headings s =
     map (drop 4) (filter (\<lambda>l. py_startswith l ''### '' \<and> 4 < length l) (py_split [CHR 0x0A] s))"

definition FIELD_NAMES :: "string list" where
  "FIELD_NAMES = [''repo'', ''path'', ''ref'', ''commit'', ''blob'', ''pulled'', ''behind'']"

definition is_blank :: "char \<Rightarrow> bool" where
  "is_blank c \<longleftrightarrow> c = CHR '' '' \<or> c = CHR 0x09"

text \<open>\<open>_FIELD\<close> on one line: a name alone, or a name, blanks and a value.\<close>

definition field_of :: "string \<Rightarrow> (string \<times> string) option" where
  "field_of line =
     (case List.find (\<lambda>k. py_startswith line k \<and> (length line = length k \<or> is_blank (line ! length k))) FIELD_NAMES of
        None \<Rightarrow> None
      | Some k \<Rightarrow> Some (k, dropWhile is_blank (drop (length k) line)))"

text \<open>\<open>dict(_FIELD.findall(block))\<close>: the last line of a name counts.\<close>

definition block_fields :: "string \<Rightarrow> string \<Rightarrow> string option" where
  "block_fields block = map_of (rev (List.map_filter field_of (py_split [CHR 0x0A] block)))"

text \<open>\<open>s.split()[0]\<close>.\<close>

definition first_word :: "string \<Rightarrow> string result" where
  "first_word s =
     (case takeWhile (\<lambda>c. \<not> is_space c) (dropWhile is_space s) of
        [] \<Rightarrow> Inl (IndexError ''list index out of range'') | w \<Rightarrow> Inr w)"

text \<open>
  The blocks \<open>```text\<close> opens and \<open>```\<close> closes, in turn: what stands between the last one and
  this, and what it holds.
\<close>

lemma split_once_shorter [termination_simp]:
  assumes "(x, Some y) = split_once sep s" and "sep \<noteq> []"
  shows "length y < length s"
  using assms by (cases sep) (auto simp: split_once_def py_find_Some_iff split: option.splits)

definition FENCE_OPEN :: string where "FENCE_OPEN = ''```text'' @ [CHR 0x0A]"
definition FENCE_CLOSE :: string where "FENCE_CLOSE = CHR 0x0A # ''```''"

function fenced_blocks :: "string \<Rightarrow> (string \<times> string) list" where
  "fenced_blocks s =
     (case split_once FENCE_OPEN s of
        (before, Some rest) \<Rightarrow>
          (case split_once FENCE_CLOSE rest of
             (block, Some later) \<Rightarrow> (before, block) # fenced_blocks later
           | (_, None) \<Rightarrow> [])
      | (_, None) \<Rightarrow> [])"
  by pat_completeness auto
termination
proof (relation "measure length", simp)
  fix s before rest_option rest block later_option later
  assume "(before, rest_option) = split_once FENCE_OPEN s" "rest_option = Some rest"
    "(block, later_option) = split_once FENCE_CLOSE rest" "later_option = Some later"
  then have "length rest < length s" "length later < length rest"
    using split_once_shorter [of before rest FENCE_OPEN s] split_once_shorter [of block later FENCE_CLOSE rest]
    by (simp_all add: FENCE_OPEN_def FENCE_CLOSE_def)
  then show "(later, s) \<in> measure length" by simp
qed

declare fenced_blocks.simps [simp del]

datatype checked = Checkable entry | Unchecked string

definition judge_block :: "string \<Rightarrow> string \<Rightarrow> checked result" where
  "judge_block heading block =
     (let f = block_fields block; given = (\<lambda>k. case f k of None \<Rightarrow> [] | Some v \<Rightarrow> v)
      in if given ''repo'' = [] \<or> given ''path'' = [] \<or> given ''commit'' = []
         then Inr (Unchecked (heading @ '' (no commit to check against)''))
         else if CHR ''<'' \<in> set (given ''path'') then Inr (Unchecked (heading @ '' (one pin serves several files)''))
         else case f ''behind'' of
             None \<Rightarrow> Inr (Unchecked (heading @ '' (no behind line at all)''))
           | Some behind \<Rightarrow>
               if py_strip behind = [] then Inr (Unchecked (heading @ '' (behind line present but empty)''))
               else if \<not> py_startswith behind ''0'' then Inr (Unchecked (heading @ '' (already documented as behind)''))
               else bind_r (first_word (given ''commit''))
                 (\<lambda>commit. Inr (Checkable \<lparr>en_heading = heading, en_repo = given ''repo'', en_path = py_strip (given ''path''),
                    en_commit = commit, en_ref = (if given ''ref'' = [] then None else Some (py_strip (given ''ref'')))\<rparr>)))"

text \<open>The walk of the blocks: each one's heading, and what is made of it.\<close>

fun walk_blocks :: "(string \<times> string) list \<Rightarrow> string \<Rightarrow> (string \<times> checked) list result" where
  "walk_blocks [] heading = Inr []"
| "walk_blocks ((before, block) # blocks) heading =
     (let own = (if headings before = [] then heading else last (headings before))
      in bind_r (judge_block own block)
        (\<lambda>c. bind_r (walk_blocks blocks own) (\<lambda>cs. Inr ((own, c) # cs))))"

text \<open>\<open>list(dict.fromkeys(xs))\<close>.\<close>

definition dedupe :: "string list \<Rightarrow> string list" where
  "dedupe xs = rev (remdups (rev xs))"

definition entries_at_tip :: "string \<Rightarrow> (entry list \<times> string list) result" where
  "entries_at_tip ledger =
     bind_r (walk_blocks (fenced_blocks ledger) [])
       (\<lambda>walked.
          let entries = List.map_filter (\<lambda>(h, c). case c of Checkable e \<Rightarrow> Some e | Unchecked r \<Rightarrow> None) walked;
              skipped = List.map_filter (\<lambda>(h, c). case c of Checkable e \<Rightarrow> None | Unchecked r \<Rightarrow> Some r) walked;
              unowned = filter (\<lambda>h. h \<notin> fst ` set walked) (headings ledger)
          in Inr (entries, dedupe (skipped @ map (\<lambda>h. h @ '' (no fenced block)'') unowned)))"

subsection \<open>Drift\<close>

definition entry_tip :: "('w, 'z) github_scheme \<Rightarrow> entry \<Rightarrow> ('w timed, (string \<times> string) option) loop" where
  "entry_tip gh e =
     bind_l (gh_json gh ([''api'', ''--method'', ''GET'', ''repos/'' @ en_repo e @ ''/commits'',
         ''-f'', ''path='' @ en_path e, ''-f'', ''per_page=1'']
         @ (case en_ref e of None \<Rightarrow> [] | Some ref \<Rightarrow> [''-f'', ''sha='' @ ref])))
       (\<lambda>commits. once (lift_r (first_commit commits)))"

fun entry_drifts :: "('w, 'z) github_scheme \<Rightarrow> entry list \<Rightarrow> ('w timed, entry_drift list) loop" where
  "entry_drifts gh [] = once (ret [])"
| "entry_drifts gh (e # es) =
     bind_l (entry_tip gh e)
       (\<lambda>tip. bind_l (entry_drifts gh es)
         (\<lambda>ds. once (ret (case tip of
              None \<Rightarrow> \<lparr>ed_entry = e, ed_commit = [], ed_date = []\<rparr> # ds
            | Some (sha, date) \<Rightarrow>
                if sha \<noteq> en_commit e then \<lparr>ed_entry = e, ed_commit = sha, ed_date = date\<rparr> # ds else ds))))"

definition find_drift :: "('w, 'z) github_scheme \<Rightarrow> string \<Rightarrow> ('w timed, entry_drift list \<times> string list) loop" where
  "find_drift gh ledger =
     bind_l (once (lift_r (entries_at_tip ledger)))
       (\<lambda>(entries, skipped). bind_l (entry_drifts gh entries) (\<lambda>ds. once (ret (ds, skipped))))"

definition branch_of :: "entry \<Rightarrow> string" where
  "branch_of e = (case en_ref e of Some ref \<Rightarrow> if ref = [] then ''the default branch'' else ''`'' @ ref @ ''`'' | None \<Rightarrow> ''the default branch'')"

definition drift_text :: "entry_drift \<Rightarrow> string" where
  "drift_text d =
     (let e = ed_entry d
      in if has_no_tip d
         then ''- **'' @ en_heading e @ ''**: pinned to `'' @ en_commit e @ ''`, and no commit on '' @ branch_of e @ '' of `''
           @ en_repo e @ ''` touches `'' @ en_path e @ ''` -- a path that branch never held''
         else ''- **'' @ en_heading e @ ''**: pinned to `'' @ en_commit e @ ''`, the latest commit touching `'' @ en_path e
           @ ''` is now `'' @ ed_commit d @ ''` ('' @ ed_date d @ ''), `'' @ en_repo e
           @ ''` -- which may have deleted or renamed the file rather than changed it'')"

definition vendored_body :: "string \<Rightarrow> entry_drift list \<Rightarrow> string list \<Rightarrow> string" where
  "vendored_body ledger_path drifted skipped =
     py_join [CHR 0x0A]
       ([''`'' @ ledger_path @ ''` pins below are no longer at upstream's tip.'',
         ''Refreshing is a decision, not a chore -- this issue only reports it.'', '''']
        @ map drift_text drifted
        @ (if skipped = [] then [] else ['''', ''Not checked by this run, for the reason named:''] @ map (\<lambda>h. ''- '' @ h) skipped))"

text \<open>The first issue the search finds, whatever its title.\<close>

definition found_issue_number :: "('w, 'z) github_scheme \<Rightarrow> string \<Rightarrow> ('w timed, string option) loop" where
  "found_issue_number gh title =
     bind_l (gh_json gh (issue_list_args title ''number''))
       (\<lambda>issues. once (lift_r
          (if \<not> truthy issues then Inr None
           else bind_r (bind_r (bind_r (json_first issues) (json_item ''number'')) number_text) (\<lambda>n. Inr (Some n)))))"

definition report_drift ::
  "('w, 'z) github_scheme \<Rightarrow> string \<Rightarrow> string \<Rightarrow> entry_drift list \<Rightarrow> string list \<Rightarrow> ('w timed, unit) loop" where
  "report_drift gh ledger_path title drifted skipped =
     bind_l (found_issue_number gh title)
       (\<lambda>number. once
          (if drifted = []
           then (case number of
               None \<Rightarrow> ret ()
             | Some n \<Rightarrow> gh_check gh [''issue'', ''close'', n, ''--comment'',
                 ''Re-checked: every pin with behind: 0 is still at upstream's tip.''])
           else (case number of
               None \<Rightarrow> gh_check gh [''issue'', ''create'', ''--title'', title, ''--body'', vendored_body ledger_path drifted skipped]
             | Some n \<Rightarrow> gh_check gh [''issue'', ''edit'', n, ''--body'', vendored_body ledger_path drifted skipped])))"

definition drift_print :: "entry_drift \<Rightarrow> string" where
  "drift_print d =
     (let e = ed_entry d
      in if has_no_tip d
         then ''NO COMMIT: '' @ en_heading e @ '' pinned to '' @ en_commit e @ '', and no commit on '' @ branch_of e @ '' of ''
           @ en_repo e @ '' touches '' @ en_path e
         else ''BEHIND: '' @ en_heading e @ '' pinned to '' @ en_commit e @ '', latest commit touching it is '' @ ed_commit d
           @ '' ('' @ ed_date d @ ''), which may have deleted or renamed it'')"

definition vendored_main ::
  "('w, 'z) github_scheme \<Rightarrow> string \<Rightarrow> string \<Rightarrow> string \<Rightarrow> bool \<Rightarrow> ('w timed, string list) loop" where
  "vendored_main gh ledger_path ledger title dry_run =
     bind_l (find_drift gh ledger)
       (\<lambda>(drifted, skipped).
          bind_l (if dry_run then once (ret ()) else report_drift gh ledger_path title drifted skipped)
            (\<lambda>_. once (ret (map drift_print drifted @ map (\<lambda>h. ''SKIPPED: '' @ h) skipped
               @ (if drifted = [] then [''Every checked pin is still at upstream's tip.''] else [])))))"

subsection \<open>Nothing goes unread\<close>

lemma walk_blocks_heading:
  "walk_blocks blocks heading = Inr walked \<Longrightarrow> (h, c) \<in> set walked \<Longrightarrow>
    (case c of Checkable e \<Rightarrow> en_heading e = h | Unchecked r \<Rightarrow> prefix h r)"
proof (induction blocks arbitrary: heading walked)
  case (Cons b blocks)
  obtain before block where b: "b = (before, block)" by (rule prod.exhaust)
  have judged: "judge_block own blk = Inr c \<Longrightarrow> (case c of Checkable e \<Rightarrow> en_heading e = own | Unchecked r \<Rightarrow> prefix own r)" for own blk c
    by (auto simp: judge_block_def Let_def bind_r_Inr_iff split: if_splits option.splits)
  let ?own = "if headings before = [] then heading else last (headings before)"
  from Cons.prems(1) obtain d ds where "judge_block ?own block = Inr d" "walk_blocks blocks ?own = Inr ds" "walked = (?own, d) # ds"
    unfolding b walk_blocks.simps Let_def bind_r_Inr_iff by blast
  then show ?case using Cons.prems(2) Cons.IH judged by auto
qed simp


definition small_ledger :: string where
  "small_ledger = py_join [CHR 0x0A]
     [''### one'', ''```text'', ''repo a/b'', ''path x.json'', ''commit c0ffee of main'', ''behind 0 commits'', ''```'',
      ''### two'', ''```text'', ''repo a/b'', ''path y.json'', ''commit deadbeef'', ''behind'', ''```'',
      ''### three'', ''no block here'']"

lemma small_ledger_read:
  "entries_at_tip small_ledger = Inr
    ([\<lparr>en_heading = ''one'', en_repo = ''a/b'', en_path = ''x.json'', en_commit = ''c0ffee'', en_ref = None\<rparr>],
     [''two (behind line present but empty)'', ''three (no fenced block)''])"
  by code_simp


subsection \<open>What is drift\<close>

definition drift_of :: "(entry \<Rightarrow> (string \<times> string) option) \<Rightarrow> entry \<Rightarrow> entry_drift option" where
  "drift_of tip e =
     (case tip e of
        None \<Rightarrow> Some \<lparr>ed_entry = e, ed_commit = [], ed_date = []\<rparr>
      | Some (sha, date) \<Rightarrow>
          if sha = en_commit e then None else Some \<lparr>ed_entry = e, ed_commit = sha, ed_date = date\<rparr>)"

lemma answers_entry_drifts:
  assumes "\<And>e. answers (entry_tip gh e) (tip e)"
  shows "answers (entry_drifts gh es) (List.map_filter (drift_of tip) es)"
proof (induction es)
  case (Cons e es)
  show ?case unfolding entry_drifts.simps
    by (rule answers_bind [OF assms], rule answers_bind [OF Cons.IH])
      (cases "tip e"; auto intro: answers_ret simp: drift_of_def [of tip e] map_filter_simps simp del: act_rewrites once_simps)
qed (simp add: answers_ret map_filter_simps del: act_rewrites once_simps)

text \<open>
  A run reports every pin its path has moved past, and no other. Against tips that stand
  still, the drift found is each checkable entry whose path has another last commit, with that
  commit, or none, in the ledger's order; a dry run makes no other call, and says all is well
  exactly where every checkable entry is at its tip.
\<close>

lemma vendored_finds_drift:
  assumes "\<And>e. answers (entry_tip gh e) (tip e)" and "entries_at_tip ledger = Inr (entries, skipped)"
  shows "\<exists>t. find_drift gh ledger s = Some (Inr (List.map_filter (drift_of tip) entries, skipped), t)
    \<and> vendored_main gh ledger_path ledger title True s = Some (Inr
        (map drift_print (List.map_filter (drift_of tip) entries) @ map (\<lambda>h. ''SKIPPED: '' @ h) skipped
         @ (if \<forall>e \<in> set entries. \<exists>date. tip e = Some (en_commit e, date)
            then [''Every checked pin is still at upstream's tip.''] else [])), t)"
proof -
  obtain t where "entry_drifts gh entries s = Some (Inr (List.map_filter (drift_of tip) entries), t)"
    using answers_entry_drifts [of gh tip entries, OF assms(1)] unfolding answers_def by blast
  then have found: "find_drift gh ledger s = Some (Inr (List.map_filter (drift_of tip) entries, skipped), t)"
    by (simp add: find_drift_def bind_l_def assms(2))
  have "List.map_filter (drift_of tip) entries = [] \<longleftrightarrow> (\<forall>e \<in> set entries. drift_of tip e = None)"
    by (induction entries) (simp_all add: map_filter_simps split: option.split)
  also have "\<dots> \<longleftrightarrow> (\<forall>e \<in> set entries. \<exists>date. tip e = Some (en_commit e, date))"
  proof -
    have "drift_of tip e = None \<longleftrightarrow> (\<exists>date. tip e = Some (en_commit e, date))" for e
      by (cases "tip e") (auto simp: drift_of_def split: if_splits)
    then show ?thesis by simp
  qed
  finally show ?thesis using found by (simp add: vendored_main_def bind_l_def)
qed

lemma vendored_finds_drift_witness:
  "\<exists>t. find_drift still_github small_ledger \<lparr>clock = 0, world = ()\<rparr>
    = Some (Inr ([\<lparr>ed_entry = \<lparr>en_heading = ''one'', en_repo = ''a/b'', en_path = ''x.json'', en_commit = ''c0ffee'', en_ref = None\<rparr>,
        ed_commit = ''feedbeefcafe'', ed_date = ''2026-01-02''\<rparr>], [''two (behind line present but empty)'', ''three (no fenced block)'']), t)"
proof -
  have steady: "answers (entry_tip still_github e) (Some (''feedbeefcafe'', ''2026-01-02''))" for e
    unfolding answers_def entry_tip_def gh_json_def bind_l_def gh_output_unrolled gh_once_def
    using still_answers by (simp add: still_github_def)
  show ?thesis
    using vendored_finds_drift [where tip = "\<lambda>e. Some (''feedbeefcafe'', ''2026-01-02'')" and gh = still_github
        and s = "\<lparr>clock = 0, world = ()\<rparr>" and ledger_path = "[]" and title = "[]", OF steady small_ledger_read]
    by (auto simp: drift_of_def)
qed

text \<open>
  The search behind \<open>report\<close> matches words of a title, and the first issue it answers is taken as
  the ledger's own, another's as well.
\<close>

lemma another_ledgers_issue_is_taken:
  "\<exists>t. found_issue_number two_issues ''pins'' \<lparr>clock = 0, world = ()\<rparr> = Some (Inr (Some ''7''), t)"
proof -
  have "number_text (JInt 7) = Inr ''7''" by code_simp
  then show ?thesis
    unfolding found_issue_number_def gh_json_def bind_l_def gh_output_unrolled gh_once_def
    by (simp add: two_issues_def still_github_def issue_list_args_def json_item_def json_first_def)
qed

end
