(* ===== verification/Adapters.thy ===== *)
theory Adapters
  imports Lifecycle Timeouts Capabilities
begin

section \<open>What the adapters of the nodes share\<close>

text \<open>
  The arguments \<open>NodeAdapter.__init__\<close> keeps (\<open>node.py\<close>) and the RPC client a subclass answers:
  where it connects, how it authenticates and how long a call may take. \<open>BitcoinCoreRpcClient\<close>
  itself and the transport below it are not modelled. A path is a string, joined as \<open>pathlib\<close>
  joins one in normal form.
\<close>

record node_config =
  nc_executable :: string
  nc_datadir :: string
  nc_rpc_port :: nat
  nc_p2p_port :: nat
  nc_chain :: string
  nc_rpc_auth :: "(string \<times> string) option"

datatype credential = UserPassword string string | CookieFile string

record rpc_client =
  rc_url :: string
  rc_credential :: credential
  rc_timeout :: int

definition rpc_url :: "node_config \<Rightarrow> string" where
  "rpc_url cfg = ''http://127.0.0.1:'' @ dec (nc_rpc_port cfg)"

text \<open>\<open>directory / name\<close>.\<close>

definition under :: "string \<Rightarrow> string \<Rightarrow> string" where
  "under directory name = (if name = [] then directory else directory @ ''/'' @ name)"

definition client_with :: "node_config \<Rightarrow> factor_state \<Rightarrow> credential \<Rightarrow> rpc_client" where
  "client_with cfg st c = \<lparr>rc_url = rpc_url cfg, rc_credential = c, rc_timeout = rpc_client_timeout st\<rparr>"

text \<open>\<open>f"-name={value}"\<close>, after one dash or two.\<close>

definition assigned :: "string \<Rightarrow> string \<Rightarrow> string" where
  "assigned name val = name @ ''='' @ val"

definition dashed :: "string \<Rightarrow> string \<Rightarrow> string" where
  "dashed name val = ''-'' @ assigned name val"

subsection \<open>What a command's own tokens set\<close>

lemma knob_assigned:
  assumes "plain_option opt" and "0 < n"
  shows "knob (replicate n (CHR ''-'') @ assigned opt val) = Some opt"
  using knob_spelled [OF assms, of False "Some val"] by (simp add: spelled_def assigned_def)

lemma knob_dashed: "plain_option opt \<Longrightarrow> knob (dashed opt val) = Some opt"
  using knob_assigned [of opt 1 val] by (simp add: dashed_def)

lemma knob_flag:
  assumes "plain_option opt" and "0 < n"
  shows "knob (replicate n (CHR ''-'') @ opt) = Some opt"
  using knob_spelled [OF assms, of False None] by (simp add: spelled_def)

text \<open>Whatever passes the check sets no option of the command.\<close>

lemma checked_sets_none:
  assumes "check_extra_args command extra = Inr ()" and "a \<in> set extra" and "c \<in> set command" and "knob c = Some k"
  shows "knob a \<noteq> Some k" and "k \<in> CHAIN_SELECTORS \<Longrightarrow> knob a = Some m \<Longrightarrow> m \<notin> CHAIN_SELECTORS"
proof -
  have reserved: "\<And>m. knob a = Some m \<Longrightarrow> m \<notin> reserved_option_names command"
    using assms(1,2) by (auto simp: check_extra_args_def check_args_loop_eq split: if_splits)
  show "knob a \<noteq> Some k" using reserved assms(3,4) unfolding reserved_iff by blast
  assume "k \<in> CHAIN_SELECTORS" "knob a = Some m"
  then show "m \<notin> CHAIN_SELECTORS" using reserved assms(3,4) unfolding reserved_iff by blast
qed

text \<open>The tokens of an argv that set an option, and those that select a chain.\<close>

definition setting :: "string \<Rightarrow> string list \<Rightarrow> string list" where
  "setting k argv = filter (\<lambda>a. knob a = Some k) argv"

definition selecting :: "string list \<Rightarrow> string list" where
  "selecting argv = filter (\<lambda>a. \<exists>m \<in> CHAIN_SELECTORS. knob a = Some m) argv"

lemma setting_append: "setting k (xs @ ys) = setting k xs @ setting k ys"
  by (simp add: setting_def)

lemma selecting_append: "selecting (xs @ ys) = selecting xs @ selecting ys"
  by (simp add: selecting_def)

lemma setting_in: "setting k xs = [a] \<Longrightarrow> a \<in> set xs \<and> knob a = Some k"
proof -
  assume "setting k xs = [a]"
  then have "a \<in> set (filter (\<lambda>a. knob a = Some k) xs)" by (simp add: setting_def)
  then show ?thesis by simp
qed

text \<open>What passes the check of the extra arguments sets nothing the command sets.\<close>

lemma checked_settings:
  assumes "check_extra_args command extra = Inr ()" and "setting k (tl command) = [token]" and "command \<noteq> []"
  shows "setting k extra = []" and "k \<in> CHAIN_SELECTORS \<Longrightarrow> selecting extra = []"
proof -
  have token: "token \<in> set command" "knob token = Some k"
    using setting_in [OF assms(2)] assms(3) by (cases command; simp)+
  show "setting k extra = []"
    using checked_sets_none(1) [OF assms(1) _ token] by (auto simp: setting_def filter_empty_conv)
  show "selecting extra = []" if "k \<in> CHAIN_SELECTORS"
    using checked_sets_none(2) [OF assms(1) _ token that] by (auto simp: selecting_def filter_empty_conv)
qed

text \<open>
  What an adapter's own command promises: the settings no caller may change, each set once by a
  token of the command's own, and one token selecting the chain.
\<close>

locale adapter_command =
  fixes command :: "node_config \<Rightarrow> string list"
    and settings :: "node_config \<Rightarrow> (string \<times> string) list"
    and chain_token :: "node_config \<Rightarrow> string"
  assumes set_once: "(k, token) \<in> set (settings cfg) \<Longrightarrow> setting k (tl (command cfg)) = [token]"
    and chain_set: "setting ''chain'' (tl (command cfg)) = [chain_token cfg]"
    and selected_once: "selecting (tl (command cfg)) = [chain_token cfg]"
    and command_nonempty: "command cfg \<noteq> []"
begin

lemma stands:
  assumes "check_extra_args (command cfg) extra = Inr ()" and "(k, token) \<in> set (settings cfg)"
  shows "setting k (tl (command cfg) @ extra) = [token]" and "selecting (tl (command cfg) @ extra) = [chain_token cfg]"
proof -
  have "setting k extra = []" by (rule checked_settings(1) [OF assms(1) set_once [OF assms(2)] command_nonempty])
  then show "setting k (tl (command cfg) @ extra) = [token]" by (simp add: setting_append set_once [OF assms(2)])
  have "selecting extra = []"
    by (rule checked_settings(2) [OF assms(1) chain_set command_nonempty]) (simp add: CHAIN_SELECTORS_def)
  then show "selecting (tl (command cfg) @ extra) = [chain_token cfg]" by (simp add: selecting_append selected_once)
qed

end

end
