(* ===== verification/Btcd.thy ===== *)
theory Btcd
  imports Adapters Ledger_Text
begin

section \<open>btcd\<close>

text \<open>
  \<open>btcd.py\<close>: \<open>BtcdAdapter\<close>. btcd reads a single-dash word as a run of one-letter options, so the
  extra arguments are checked in that reading too, and Core's \<open>-whitelist\<close> is spelled anew; the
  credential is on the command line; and each reply of the RPC is given one of \<open>result\<close> and \<open>error\<close>.
  The password drawn where the caller names none is an argument. \<open>json.loads\<close> and \<open>json.dumps\<close>
  are parameters.
\<close>

subsection \<open>Arguments\<close>

definition BTCD_USER :: string where "BTCD_USER = ''tf2''"
definition BTCD_CHAIN_DIR :: string where "BTCD_CHAIN_DIR = ''regtest''"

definition SHORT_OPTIONS :: "(char \<times> string) list" where
  "SHORT_OPTIONS =
     [(CHR ''a'', ''addpeer''), (CHR ''C'', ''configfile''), (CHR ''b'', ''datadir''), (CHR ''d'', ''debuglevel''),
      (CHR ''P'', ''rpcpass''), (CHR ''u'', ''rpcuser''), (CHR ''V'', ''version''), (CHR ''s'', ''service'')]"

definition command_names :: "string list \<Rightarrow> string set" where
  "command_names command = set (map (\<lambda>token. before_char (CHR ''='') (lstrip_char (CHR ''-'') token)) command)"

fun check_letters :: "string set \<Rightarrow> string \<Rightarrow> unit result" where
  "check_letters names [] = Inr ()"
| "check_letters names (letter # letters) =
     (case map_of SHORT_OPTIONS letter of
        None \<Rightarrow> Inr ()
      | Some name \<Rightarrow>
          if name \<in> names then Inl (ValueError ''extra_args reuses'')
          else if name \<noteq> ''version'' then Inr () else check_letters names letters)"

fun check_aliases :: "string set \<Rightarrow> string list \<Rightarrow> unit result" where
  "check_aliases names [] = Inr ()"
| "check_aliases names (arg # args) =
     (if \<not> py_startswith arg ''-'' \<or> py_startswith arg ''--'' then check_aliases names args
      else bind_r (check_letters names (drop 1 arg)) (\<lambda>_. check_aliases names args))"

definition check_short_aliases :: "string list \<Rightarrow> string list \<Rightarrow> unit result" where
  "check_short_aliases command extra_args = check_aliases (command_names command) extra_args"

text \<open>The first and the last part of \<open>s.rpartition("@")\<close>.\<close>

definition rpartition_at :: "string \<Rightarrow> string \<times> string" where
  "rpartition_at s =
     (let tail = rev (takeWhile (\<lambda>c. c \<noteq> CHR ''@'') (rev s))
      in if CHR ''@'' \<in> set s then (take (length s - length tail - 1) s, tail) else ([], s))"

fun spelled_for_btcd :: "string list \<Rightarrow> string list result" where
  "spelled_for_btcd [] = Inr []"
| "spelled_for_btcd (arg # args) =
     (if \<not> py_startswith arg ''-whitelist='' then bind_r (spelled_for_btcd args) (\<lambda>rest. Inr (arg # rest))
      else case rpartition_at (py_removeprefix arg ''-whitelist='') of
          (flags, address) \<Rightarrow>
            if set (py_split '','' flags) - {''in'', ''out''} \<noteq> {''noban''}
            then Inl (ValueError ''whitelist grants no permission but noban'')
            else bind_r (spelled_for_btcd args) (\<lambda>rest. Inr ((''--whitelist='' @ address) # rest)))"

subsection \<open>The adapter\<close>

definition BTCD_CAPABILITIES :: "capability set" where
  "BTCD_CAPABILITIES = {MINE, CONNECT, INVALIDATE_BLOCK, CHAIN_TIPS, SIGN_MESSAGE_WITH_PRIVKEY}"

text \<open>\<open>password\<close> is what \<open>secrets.token_hex\<close> answers.\<close>

definition btcd_credential :: "node_config \<Rightarrow> string \<Rightarrow> string \<times> string" where
  "btcd_credential cfg password = (case nc_rpc_auth cfg of Some c \<Rightarrow> c | None \<Rightarrow> (BTCD_USER, password))"

definition btcd_command :: "node_config \<Rightarrow> string \<times> string \<Rightarrow> string list" where
  "btcd_command cfg credential =
     [nc_executable cfg,
      ''--regtest'',
      ''--'' @ assigned ''datadir'' (nc_datadir cfg),
      ''--'' @ assigned ''logdir'' (nc_datadir cfg),
      ''--'' @ assigned ''rpclisten'' (''127.0.0.1:'' @ dec (nc_rpc_port cfg)),
      ''--notls'',
      ''--'' @ assigned ''rpcuser'' (fst credential),
      ''--'' @ assigned ''rpcpass'' (snd credential),
      ''--'' @ assigned ''listen'' (''127.0.0.1:'' @ dec (nc_p2p_port cfg))]"

definition btcd_init :: "node_config \<Rightarrow> nat \<Rightarrow> string \<Rightarrow> string list \<Rightarrow> adapter result" where
  "btcd_init cfg node password extra_args =
     (let command = btcd_command cfg (btcd_credential cfg password)
      in bind_r (spelled_for_btcd extra_args)
        (\<lambda>respelled. bind_r (adapter_init {''regtest''} node command respelled (nc_chain cfg))
          (\<lambda>ad. bind_r (check_short_aliases command respelled) (\<lambda>_. Inr ad))))"

definition btcd_restart :: "'x fate \<Rightarrow> factor_state \<Rightarrow> string list option \<Rightarrow> ('x site, unit) loop" where
  "btcd_restart orc st extra_args s =
     (case extra_args of
        None \<Rightarrow> restart orc st None s
      | Some args \<Rightarrow>
          (case bind_r (spelled_for_btcd args)
              (\<lambda>respelled. bind_r (check_short_aliases (ad_command (fst s)) respelled) (\<lambda>_. Inr respelled)) of
             Inl e \<Rightarrow> Some (Inl e, s)
           | Inr respelled \<Rightarrow> restart orc st (Some respelled) s))"

definition btcd_client :: "node_config \<Rightarrow> string \<times> string \<Rightarrow> factor_state \<Rightarrow> rpc_client" where
  "btcd_client cfg credential st = client_with cfg st (UserPassword (fst credential) (snd credential))"

definition btcd_log_path :: "node_config \<Rightarrow> string" where
  "btcd_log_path cfg = under (under (nc_datadir cfg) BTCD_CHAIN_DIR) ''btcd.log''"

definition btcd_dial :: "('w, 'z) outside_scheme \<Rightarrow> nat \<Rightarrow> string \<Rightarrow> bool \<Rightarrow> ('w timed, unit) act" where
  "btcd_dial os node address v2transport =
     (if v2transport then raise (ValueError ''btcd's addnode cannot ask for BIP324'')
      else bind_a (rpc_call os node ''addnode'' [JStr address, JStr ''onetry'']) (\<lambda>_. ret ()))"

subsection \<open>Replies\<close>

definition one_member :: "json \<Rightarrow> json" where
  "one_member reply =
     (case reply of
        JObj kvs \<Rightarrow>
          if map_of kvs ''jsonrpc'' \<noteq> Some (JStr ''2.0'') then reply
          else (case (map_of kvs ''result'', map_of kvs ''error'') of
              (Some result, Some error) \<Rightarrow>
                let null = (if error = JNull then ''error'' else ''result'')
                in if map_of kvs null = Some JNull then JObj (filter (\<lambda>(k, v). k \<noteq> null) kvs) else reply
            | _ \<Rightarrow> reply)
      | _ \<Rightarrow> reply)"

definition v2_replies ::
  "(bytes \<Rightarrow> json option) \<Rightarrow> (json \<Rightarrow> bytes) \<Rightarrow> ('q \<Rightarrow> rat \<Rightarrow> ('s, nat \<times> bytes) act) \<Rightarrow> 'q \<Rightarrow> rat
    \<Rightarrow> ('s, nat \<times> bytes) act" where
  "v2_replies loads dumps transport request timeout =
     bind_a (transport request timeout)
       (\<lambda>(status, body). case loads body of
           None \<Rightarrow> ret (status, body)
         | Some (JList items) \<Rightarrow> ret (status, dumps (JList (map one_member items)))
         | Some reply \<Rightarrow> ret (status, dumps (one_member reply)))"

subsection \<open>What the check of short options refuses\<close>

text \<open>
  \<open>arg\<close> is a run of short options whose first one taking a value is \<open>n\<close>'s, or whose flags, all of
  them \<open>version\<close>'s, end in it.
\<close>

definition sets_short :: "string \<Rightarrow> string \<Rightarrow> bool" where
  "sets_short arg n \<longleftrightarrow>
     (\<exists>k letter rest. arg = CHR ''-'' # replicate k (CHR ''V'') @ letter # rest \<and> map_of SHORT_OPTIONS letter = Some n)"

lemma version_letter: "map_of SHORT_OPTIONS letter = Some ''version'' \<longleftrightarrow> letter = CHR ''V''"
  by (auto simp: SHORT_OPTIONS_def split: if_splits)

lemma check_letters_exact:
  "check_letters names letters = Inr () \<longleftrightarrow>
    (\<forall>k letter rest n. letters = replicate k (CHR ''V'') @ letter # rest \<longrightarrow> map_of SHORT_OPTIONS letter = Some n
      \<longrightarrow> n \<notin> names)"
proof (induction letters)
  case (Cons l ls)
  have split: "(\<forall>k letter rest n. l # ls = replicate k (CHR ''V'') @ letter # rest \<longrightarrow> map_of SHORT_OPTIONS letter = Some n \<longrightarrow> n \<notin> names)
      \<longleftrightarrow> (\<forall>n. map_of SHORT_OPTIONS l = Some n \<longrightarrow> n \<notin> names)
        \<and> (l = CHR ''V'' \<longrightarrow> (\<forall>k letter rest n. ls = replicate k (CHR ''V'') @ letter # rest \<longrightarrow> map_of SHORT_OPTIONS letter = Some n \<longrightarrow> n \<notin> names))"
    (is "?all \<longleftrightarrow> ?first \<and> ?later")
  proof
    assume all: ?all
    have ?first using all [rule_format, of 0 l ls] by simp
    moreover have ?later
    proof (intro impI allI)
      fix k letter rest n
      assume "l = CHR ''V''" "ls = replicate k (CHR ''V'') @ letter # rest" "map_of SHORT_OPTIONS letter = Some n"
      then show "n \<notin> names" using all [rule_format, of "Suc k" letter rest n] by simp
    qed
    ultimately show "?first \<and> ?later" ..
  next
    assume both: "?first \<and> ?later"
    show ?all
    proof (intro impI allI)
      fix k letter rest n
      assume eq: "l # ls = replicate k (CHR ''V'') @ letter # rest" and n: "map_of SHORT_OPTIONS letter = Some n"
      show "n \<notin> names" using both eq n by (cases k) auto
    qed
  qed
  show ?case
  proof (cases "map_of SHORT_OPTIONS l")
    case None
    then have "l \<noteq> CHR ''V''" using version_letter [of l] by auto
    then show ?thesis unfolding split using None by simp
  next
    case (Some n)
    then have "n = ''version'' \<longleftrightarrow> l = CHR ''V''" using version_letter [of l] by auto
    then show ?thesis unfolding split using Some Cons.IH by auto
  qed
qed simp

lemma short_aliases_raise:
  "check_short_aliases command extra_args =
    (if \<exists>arg \<in> set extra_args. \<exists>n \<in> command_names command. sets_short arg n
     then Inl (ValueError ''extra_args reuses'') else Inr ())"
proof -
  have raises: "check_letters names letters = Inr () \<or> check_letters names letters = Inl (ValueError ''extra_args reuses'')" for names letters
    by (induction letters) (auto split: option.split)
  have one: "(if \<not> py_startswith arg ''-'' \<or> py_startswith arg ''--'' then Inr () else check_letters names (drop 1 arg))
      = (if \<exists>n \<in> names. sets_short arg n then Inl (ValueError ''extra_args reuses'') else Inr ())" for names arg
  proof (cases "\<exists>letters. arg = CHR ''-'' # letters \<and> \<not> py_startswith letters ''-''")
    case True
    then obtain letters where arg: "arg = CHR ''-'' # letters" "\<not> py_startswith letters ''-''" by blast
    have "check_letters names letters = Inr () \<longleftrightarrow> \<not> (\<exists>n \<in> names. sets_short arg n)"
      unfolding check_letters_exact sets_short_def arg(1) by auto
    then show ?thesis using raises [of names letters] arg by (auto simp: py_startswith_Cons)
  next
    case False
    have "\<not> sets_short arg n" for n
    proof
      assume "sets_short arg n"
      then obtain k letter rest where s: "arg = CHR ''-'' # replicate k (CHR ''V'') @ letter # rest" "map_of SHORT_OPTIONS letter = Some n"
        by (auto simp: sets_short_def)
      have "letter \<noteq> CHR ''-''" using s(2) by (auto simp: SHORT_OPTIONS_def)
      then have "\<not> py_startswith (replicate k (CHR ''V'') @ letter # rest) ''-''"
        by (cases k) (auto simp: py_startswith_Cons)
      then show False using False s(1) by blast
    qed
    moreover have "\<not> py_startswith arg ''-'' \<or> py_startswith arg ''--''"
      using False by (cases arg) (auto simp: py_startswith_Cons)
    ultimately show ?thesis by auto
  qed
  show ?thesis unfolding check_short_aliases_def
  proof (induction extra_args)
    case (Cons arg args)
    have step: "check_aliases names (arg # args)
        = bind_r (if \<not> py_startswith arg ''-'' \<or> py_startswith arg ''--'' then Inr () else check_letters names (drop 1 arg))
            (\<lambda>_. check_aliases names args)" for names
      by simp
    show ?case unfolding step one Cons.IH by auto
  qed simp
qed

lemma short_aliases_iff:
  "check_short_aliases command extra_args = Inr () \<longleftrightarrow>
    (\<forall>arg \<in> set extra_args. \<forall>n \<in> command_names command. \<not> sets_short arg n)"
  unfolding short_aliases_raise by auto

subsection \<open>What reaches the command line\<close>

lemma rpartition_at_eq:
  "rpartition_at s = (flags, address) \<longleftrightarrow>
    (s = flags @ ''@'' @ address \<or> CHR ''@'' \<notin> set s \<and> flags = [] \<and> address = s) \<and> CHR ''@'' \<notin> set address"
proof -
  have last: "rpartition_at (f @ CHR ''@'' # a) = (f, a)" if "CHR ''@'' \<notin> set a" for f a
  proof -
    have "takeWhile (\<lambda>c. c \<noteq> CHR ''@'') (rev a @ CHR ''@'' # rev f) = rev a"
      using that by (subst takeWhile_append2) auto
    then show ?thesis by (simp add: rpartition_at_def)
  qed
  show ?thesis
  proof (cases "CHR ''@'' \<in> set s")
    case True
    then obtain f a where s: "s = f @ CHR ''@'' # a" "CHR ''@'' \<notin> set a" using split_list_last by metis
    have "f @ CHR ''@'' # a = flags @ ''@'' @ address \<and> CHR ''@'' \<notin> set address \<longleftrightarrow> flags = f \<and> address = a"
      using s(2) by (auto simp: append_eq_append_conv2 append_eq_Cons_conv Cons_eq_append_conv)
    then show ?thesis using s last [of a f] by auto
  next
    case False
    have "s \<noteq> flags @ ''@'' @ address" using False by (metis Un_iff append_Cons in_set_conv_decomp set_append)
    moreover have "rpartition_at s = ([], s)" using False
      by (simp add: rpartition_at_def takeWhile_eq_all_conv [THEN iffD2])
    ultimately show ?thesis using False by auto
  qed
qed

lemma py_join_simps [str_simps]:
  "py_join sep [] = []" "py_join sep [x] = x" "py_join sep (x # y # ys) = x @ sep @ py_join sep (y # ys)"
  by (simp_all add: py_join_def)

lemma split_from_append:
  "split_from sep 0 acc s = (rev acc @ hd (split_from sep 0 [] s)) # tl (split_from sep 0 [] s)"
  if "length sep = 1"
proof (induction s arbitrary: acc)
  case (Cons c cs)
  show ?case using Cons.IH [of "c # acc"] Cons.IH [of "[c]"] that by simp
qed simp

lemma py_split_Cons:
  "py_split [d] [] = [[]]"
  "py_split [d] (c # cs) = (if c = d then [] # py_split [d] cs else (c # hd (py_split [d] cs)) # tl (py_split [d] cs))"
  using split_from_append [of "[d]" "[c]" cs] by (simp_all add: py_split_def py_startswith_Cons)

lemma py_split_join_iff:
  "py_split [d] s = ps \<longleftrightarrow> ps \<noteq> [] \<and> (\<forall>p \<in> set ps. d \<notin> set p) \<and> py_join [d] ps = s"
proof -
  have ne: "py_split [d] s \<noteq> []" for s by (cases s) (simp_all add: py_split_Cons)
  have free: "\<forall>p \<in> set (py_split [d] s). d \<notin> set p" for s
  proof (induction s)
    case (Cons c cs)
    then show ?case using ne [of cs] by (cases "py_split [d] cs") (auto simp: py_split_Cons)
  qed (simp add: py_split_Cons)
  have join: "py_join [d] (py_split [d] s) = s" for s
  proof (induction s)
    case (Cons c cs)
    obtain p ps where "py_split [d] cs = p # ps" using ne [of cs] by (meson neq_Nil_conv)
    then show ?case using Cons by (cases ps) (simp_all add: py_split_Cons py_join_simps)
  qed (simp add: py_split_Cons py_join_simps)
  have joins: "py_split [d] (py_join [d] ps) = ps" if "ps \<noteq> []" "\<forall>p \<in> set ps. d \<notin> set p" for ps
    using that
  proof (induction ps)
    case (Cons p ps)
    show ?case
    proof (cases ps)
      case Nil
      then show ?thesis using Cons.prems py_split_single [of "[d]" d "[]" p] by (simp add: py_join_simps)
    next
      case (Cons q qs)
      then show ?thesis
        using Cons.IH Cons.prems py_split_append [of "[d]" d "[]" p "py_join [d] ps"] by (simp add: py_join_simps)
    qed
  qed simp
  show ?thesis using ne free join joins by metis
qed

text \<open>
  How an argument is spelled for btcd: as it is, or, where it is Core's \<open>-whitelist\<close>, which grants
  \<open>noban\<close> and nothing else, in either direction or both, with the address alone.
\<close>

lemma minus_pair_singleton: "a \<noteq> b \<Longrightarrow> a \<noteq> c \<Longrightarrow> X - {b, c} = {a} \<longleftrightarrow> a \<in> X \<and> X \<subseteq> {b, c, a}"
  by auto

definition btcd_spells :: "string \<Rightarrow> string \<Rightarrow> bool" where
  "btcd_spells arg spelling \<longleftrightarrow>
     (if py_startswith arg ''-whitelist=''
      then \<exists>flags address. arg = ''-whitelist='' @ py_join '','' flags @ ''@'' @ address \<and> CHR ''@'' \<notin> set address
             \<and> ''noban'' \<in> set flags \<and> set flags \<subseteq> {''in'', ''out'', ''noban''} \<and> spelling = ''--whitelist='' @ address
      else spelling = arg)"

lemma spelled_for_btcd_iff:
  "spelled_for_btcd extra_args = Inr respelled \<longleftrightarrow> list_all2 btcd_spells extra_args respelled"
proof (induction extra_args arbitrary: respelled)
  case (Cons arg args)
  show ?case
  proof (cases "py_startswith arg ''-whitelist=''")
    case False
    then show ?thesis using Cons.IH by (cases respelled) (auto simp: bind_r_Inr_iff btcd_spells_def)
  next
    case True
    then obtain body where arg: "arg = ''-whitelist='' @ body" by (auto simp: py_startswith_iff_prefix prefix_def)
    obtain flags address where parts: "rpartition_at body = (flags, address)" by (rule prod.exhaust)
    define perms where "perms = py_split '','' flags"
    have granted: "set perms - {''in'', ''out''} = {''noban''} \<longleftrightarrow> ''noban'' \<in> set perms \<and> set perms \<subseteq> {''in'', ''out'', ''noban''}"
      by (rule minus_pair_singleton) simp_all
    have spells: "btcd_spells arg x \<longleftrightarrow> set perms - {''in'', ''out''} = {''noban''} \<and> x = ''--whitelist='' @ address" for x
    proof
      assume "btcd_spells arg x"
      then obtain fs a where w: "body = py_join '','' fs @ ''@'' @ a" "CHR ''@'' \<notin> set a" "''noban'' \<in> set fs"
        "set fs \<subseteq> {''in'', ''out'', ''noban''}" "x = ''--whitelist='' @ a"
        using True by (auto simp: btcd_spells_def arg)
      have fa: "flags = py_join '','' fs" "address = a"
        using parts w(1,2) rpartition_at_eq [of body "py_join '','' fs" a] by auto
      have "perms = fs" unfolding perms_def fa(1) py_split_join_iff using w(3,4) by auto
      then show "set perms - {''in'', ''out''} = {''noban''} \<and> x = ''--whitelist='' @ address" using w(3-5) fa granted by auto
    next
      assume ok: "set perms - {''in'', ''out''} = {''noban''} \<and> x = ''--whitelist='' @ address"
      have join: "py_join '','' perms = flags" using py_split_join_iff [of "CHR '',''" flags "py_split '','' flags"] by (simp add: perms_def)
      have "flags \<noteq> []"
      proof
        assume "flags = []"
        then have "perms = [[]]" by (simp add: perms_def py_split_Cons)
        then show False using ok by simp
      qed
      then have "body = flags @ ''@'' @ address" "CHR ''@'' \<notin> set address" using parts unfolding rpartition_at_eq by auto
      then show "btcd_spells arg x" using ok True join granted by (auto simp: btcd_spells_def arg)
    qed
    have removed: "py_removeprefix arg ''-whitelist='' = body" by (simp only: arg py_removeprefix_append)
    have "spelled_for_btcd (arg # args) = (if set perms - {''in'', ''out''} \<noteq> {''noban''}
        then Inl (ValueError ''whitelist grants no permission but noban'')
        else bind_r (spelled_for_btcd args) (\<lambda>rest. Inr ((''--whitelist='' @ address) # rest)))"
      by (simp only: spelled_for_btcd.simps True removed parts prod.case perms_def not_True_eq_False if_False)
    then show ?thesis using Cons.IH spells by (cases respelled) (auto simp: bind_r_Inr_iff)
  qed
qed auto

text \<open>
  The check of short options is exact. It passes exactly where no extra argument, read as a
  run of btcd's one-letter options, sets an option the command sets; otherwise it raises.
\<close>

lemma short_aliases_exact:
  "check_short_aliases command extra_args =
    (if \<exists>arg \<in> set extra_args. \<exists>n \<in> command_names command. sets_short arg n
     then Inl (ValueError ''extra_args reuses'') else Inr ())"
  by (rule short_aliases_raise)

text \<open>
  What reaches btcd of the extra arguments. Each is passed on as it is, in its place, but for
  Core's \<open>-whitelist\<close> granting \<open>noban\<close> alone, which becomes btcd's; a \<open>-whitelist\<close> granting another
  permission, or none, refuses the whole list.
\<close>

lemma spelled_for_btcd_exact:
  "spelled_for_btcd extra_args = Inr respelled \<longleftrightarrow> list_all2 btcd_spells extra_args respelled"
  by (rule spelled_for_btcd_iff)

subsection \<open>What no caller can override\<close>

text \<open>The options the adapter sets itself, read as knobs: \<open>--notls\<close> is \<open>tls\<close> negated.\<close>

definition btcd_knobs :: "string list" where
  "btcd_knobs = [''regtest'', ''datadir'', ''logdir'', ''rpclisten'', ''tls'', ''rpcuser'', ''rpcpass'', ''listen'']"

lemma btcd_command_sets:
  "''--'' @ assigned ''datadir'' (nc_datadir cfg) \<in> set (btcd_command cfg credential)"
  "''--'' @ assigned ''logdir'' (nc_datadir cfg) \<in> set (btcd_command cfg credential)"
  "''--'' @ assigned ''rpclisten'' (''127.0.0.1:'' @ dec (nc_rpc_port cfg)) \<in> set (btcd_command cfg credential)"
  "''--'' @ assigned ''rpcuser'' (fst credential) \<in> set (btcd_command cfg credential)"
  "''--'' @ assigned ''rpcpass'' (snd credential) \<in> set (btcd_command cfg credential)"
  "''--'' @ assigned ''listen'' (''127.0.0.1:'' @ dec (nc_p2p_port cfg)) \<in> set (btcd_command cfg credential)"
  "''--regtest'' \<in> set (btcd_command cfg credential)"
  "''--notls'' \<in> set (btcd_command cfg credential)"
  unfolding btcd_command_def list.set by blast+

lemma btcd_token_knobs:
  "knob (''--'' @ assigned ''datadir'' v) = Some ''datadir''"
  "knob (''--'' @ assigned ''logdir'' v) = Some ''logdir''"
  "knob (''--'' @ assigned ''rpclisten'' v) = Some ''rpclisten''"
  "knob (''--'' @ assigned ''rpcuser'' v) = Some ''rpcuser''"
  "knob (''--'' @ assigned ''rpcpass'' v) = Some ''rpcpass''"
  "knob (''--'' @ assigned ''listen'' v) = Some ''listen''"
  "knob ''--regtest'' = Some ''regtest''"
  "knob ''--notls'' = Some ''tls''"
proof -
  have valued: "knob (''--'' @ assigned k v) = Some k" if "plain_option k" for k
    using knob_assigned [OF that, of 2 v] by (simp add: numeral_2_eq_2)
  show "knob (''--'' @ assigned ''datadir'' v) = Some ''datadir''" by (rule valued) code_simp
  show "knob (''--'' @ assigned ''logdir'' v) = Some ''logdir''" by (rule valued) code_simp
  show "knob (''--'' @ assigned ''rpclisten'' v) = Some ''rpclisten''" by (rule valued) code_simp
  show "knob (''--'' @ assigned ''rpcuser'' v) = Some ''rpcuser''" by (rule valued) code_simp
  show "knob (''--'' @ assigned ''rpcpass'' v) = Some ''rpcpass''" by (rule valued) code_simp
  show "knob (''--'' @ assigned ''listen'' v) = Some ''listen''" by (rule valued) code_simp
  show "knob ''--regtest'' = Some ''regtest''" "knob ''--notls'' = Some ''tls''" by code_simp+
qed

lemma btcd_command_knobs:
  assumes "k \<in> set btcd_knobs"
  shows "\<exists>c \<in> set (btcd_command cfg credential). knob c = Some k"
proof -
  have "k = ''regtest'' \<or> k = ''datadir'' \<or> k = ''logdir'' \<or> k = ''rpclisten'' \<or> k = ''tls'' \<or> k = ''rpcuser''
      \<or> k = ''rpcpass'' \<or> k = ''listen''"
    using assms by (simp only: btcd_knobs_def list.set insert_iff empty_iff simp_thms)
  then show ?thesis
  proof (elim disjE)
    assume "k = ''regtest''"
    then show ?thesis using btcd_token_knobs(7) btcd_command_sets(7) by (simp only:) (rule bexI)
  next
    assume "k = ''datadir''"
    then show ?thesis using btcd_token_knobs(1) btcd_command_sets(1) by (simp only:) (rule bexI)
  next
    assume "k = ''logdir''"
    then show ?thesis using btcd_token_knobs(2) btcd_command_sets(2) by (simp only:) (rule bexI)
  next
    assume "k = ''rpclisten''"
    then show ?thesis using btcd_token_knobs(3) btcd_command_sets(3) by (simp only:) (rule bexI)
  next
    assume "k = ''tls''"
    then show ?thesis using btcd_token_knobs(8) btcd_command_sets(8) by (simp only:) (rule bexI)
  next
    assume "k = ''rpcuser''"
    then show ?thesis using btcd_token_knobs(4) btcd_command_sets(4) by (simp only:) (rule bexI)
  next
    assume "k = ''rpcpass''"
    then show ?thesis using btcd_token_knobs(5) btcd_command_sets(5) by (simp only:) (rule bexI)
  next
    assume "k = ''listen''"
    then show ?thesis using btcd_token_knobs(6) btcd_command_sets(6) by (simp only:) (rule bexI)
  qed
qed

lemma command_names_btcd: "{''datadir'', ''rpcuser'', ''rpcpass''} \<subseteq> command_names (btcd_command cfg credential)"
proof -
  have name: "before_char (CHR ''='') (lstrip_char (CHR ''-'') (''--'' @ assigned n v)) = n"
    if "hd n \<noteq> CHR ''-''" "n \<noteq> []" "CHR ''='' \<notin> set n" for n v
    using lstrip_dashes [of "assigned n v" "CHR ''-''" 2] that before_char_append [of "CHR ''=''" n "Some v"]
    by (simp add: assigned_def numeral_2_eq_2)
  have "''--'' @ assigned n v \<in> set (btcd_command cfg credential) \<Longrightarrow> hd n \<noteq> CHR ''-'' \<Longrightarrow> n \<noteq> []
      \<Longrightarrow> CHR ''='' \<notin> set n \<Longrightarrow> n \<in> command_names (btcd_command cfg credential)" for n v
    unfolding command_names_def set_map using name by (metis (no_types, lifting) image_eqI)
  from this [of "''datadir''" "nc_datadir cfg"] this [of "''rpcuser''" "fst credential"] this [of "''rpcpass''" "snd credential"]
  show ?thesis by (simp add: btcd_command_def)
qed

text \<open>None of the arguments sets what the command sets, in any of btcd's readings.\<close>

definition btcd_untouched :: "string list \<Rightarrow> bool" where
  "btcd_untouched args \<longleftrightarrow>
     (\<forall>a \<in> set args. (\<forall>k. knob a = Some k \<longrightarrow> k \<notin> set btcd_knobs \<and> k \<notin> CHAIN_SELECTORS)
        \<and> \<not> sets_short a ''datadir'' \<and> \<not> sets_short a ''rpcuser'' \<and> \<not> sets_short a ''rpcpass'')"

lemma btcd_checked:
  assumes "check_extra_args (btcd_command cfg credential) args = Inr ()"
    and "check_short_aliases (btcd_command cfg credential) args = Inr ()"
  shows "btcd_untouched args"
  unfolding btcd_untouched_def
proof (intro ballI conjI allI impI)
  fix a assume a: "a \<in> set args"
  { fix k assume k: "knob a = Some k"
    show "k \<notin> set btcd_knobs"
      using btcd_command_knobs checked_sets_none(1) [OF assms(1) a] k by blast
    obtain c where "c \<in> set (btcd_command cfg credential)" "knob c = Some ''regtest''"
      using btcd_command_knobs [of "''regtest''" cfg credential] unfolding btcd_knobs_def by auto
    then show "k \<notin> CHAIN_SELECTORS"
      using checked_sets_none(2) [OF assms(1) a _ _ _ k] by (simp add: CHAIN_SELECTORS_def) }
  have none: "n \<in> command_names (btcd_command cfg credential) \<Longrightarrow> \<not> sets_short a n" for n
    using assms(2) a unfolding short_aliases_iff by blast
  show "\<not> sets_short a ''datadir''" "\<not> sets_short a ''rpcuser''" "\<not> sets_short a ''rpcpass''"
    using none command_names_btcd by blast+
qed

text \<open>
  C35: the node answers on the port, and for the credential, its adapter uses. No extra argument of
  a btcd adapter that was built sets the data directory, the RPC address, the user or the password,
  the peers' address or the chain, in the long or the short spelling; and a restart with other
  arguments either refuses them with the running node untouched, or stops it and starts on a list
  as clean.
\<close>

theorem btcd_credential_stands:
  assumes "btcd_init cfg node password extra_args = Inr ad" and "fst s = ad\<lparr>ad_running := running\<rparr>"
  shows "ad_command ad = btcd_command cfg (btcd_credential cfg password)
    \<and> list_all2 btcd_spells extra_args (ad_extra_args ad) \<and> btcd_untouched (ad_extra_args ad)
    \<and> ((\<exists>e. btcd_restart orc st (Some args) s = Some (Inl e, s))
       \<or> (\<exists>respelled. list_all2 btcd_spells args respelled \<and> btcd_untouched respelled
            \<and> btcd_restart orc st (Some args) s = bind_l (once (stop orc st)) (\<lambda>_. start_with orc st respelled) s))"
proof -
  let ?command = "btcd_command cfg (btcd_credential cfg password)"
  from assms(1) obtain respelled where built: "spelled_for_btcd extra_args = Inr respelled"
    "adapter_init {''regtest''} node ?command respelled (nc_chain cfg) = Inr ad" "check_short_aliases ?command respelled = Inr ()"
    by (auto simp: btcd_init_def Let_def bind_r_Inr_iff)
  have ad: "ad_command ad = ?command" "ad_extra_args ad = respelled" "check_extra_args ?command respelled = Inr ()"
    using built(2) by (auto simp: adapter_init_def bind_r_Inr_iff split: if_splits)
  have own: "list_all2 btcd_spells extra_args (ad_extra_args ad)" using built(1) ad(2) spelled_for_btcd_iff by simp
  have clean: "btcd_untouched (ad_extra_args ad)" using btcd_checked ad built(3) by simp
  have command: "ad_command (fst s) = ?command" using assms(2) ad(1) by simp
  show ?thesis
  proof (cases "bind_r (spelled_for_btcd args) (\<lambda>respelled. bind_r (check_short_aliases ?command respelled) (\<lambda>_. Inr respelled))")
    case (Inl e)
    then show ?thesis using ad own clean by (auto simp: btcd_restart_def command)
  next
    case (Inr r)
    then have r: "spelled_for_btcd args = Inr r" "check_short_aliases ?command r = Inr ()"
      by (auto simp: bind_r_Inr_iff)
    have restart: "btcd_restart orc st (Some args) s = restart orc st (Some r) s"
      using Inr by (simp add: btcd_restart_def command)
    show ?thesis
    proof (cases "check_extra_args ?command r")
      case (Inl e)
      then have "btcd_restart orc st (Some args) s = Some (Inl e, s)"
        by (simp add: restart restart_def restart_arguments_def command)
      then show ?thesis using ad own clean by blast
    next
      case (Inr u)
      then have "btcd_restart orc st (Some args) s = bind_l (once (stop orc st)) (\<lambda>_. start_with orc st r) s"
        by (simp add: restart restart_def restart_arguments_def command)
      moreover have "btcd_untouched r" using btcd_checked r(2) Inr by simp
      moreover have "list_all2 btcd_spells args r" using r(1) spelled_for_btcd_iff by simp
      ultimately show ?thesis using ad own clean by blast
    qed
  qed
qed

subsection \<open>One of result and error\<close>

text \<open>
  A reply has one of \<open>result\<close> and \<open>error\<close>. An object btcd answers in JSON-RPC 2.0 with both, one
  of them null, loses a null one and nothing else: the error where there is none, the result where
  there is one. Every other reply comes through as it is, and a reply once treated stays so.
\<close>

lemma one_member_keeps_one:
  "one_member reply = (if \<exists>kvs r e. reply = JObj kvs \<and> map_of kvs ''jsonrpc'' = Some (JStr ''2.0'')
        \<and> map_of kvs ''result'' = Some r \<and> map_of kvs ''error'' = Some e \<and> (e = JNull \<or> r = JNull)
      then case reply of JObj kvs \<Rightarrow>
          JObj (filter (\<lambda>kv. fst kv \<noteq> (if map_of kvs ''error'' = Some JNull then ''error'' else ''result'')) kvs)
        | _ \<Rightarrow> reply
      else reply)
   \<and> one_member (one_member reply) = one_member reply
   \<and> (\<forall>name. name \<noteq> ''result'' \<longrightarrow> name \<noteq> ''error'' \<longrightarrow> json_get (one_member reply) name = json_get reply name)"
proof (cases "\<exists>kvs r e. reply = JObj kvs \<and> map_of kvs ''jsonrpc'' = Some (JStr ''2.0'')
        \<and> map_of kvs ''result'' = Some r \<and> map_of kvs ''error'' = Some e \<and> (e = JNull \<or> r = JNull)")
  case True
  then obtain kvs r e where kvs: "reply = JObj kvs" "map_of kvs ''jsonrpc'' = Some (JStr ''2.0'')"
    "map_of kvs ''result'' = Some r" "map_of kvs ''error'' = Some e" "e = JNull \<or> r = JNull" by blast
  define null where "null = (if e = JNull then ''error'' else ''result'')"
  have out: "one_member reply = JObj (filter (\<lambda>kv. fst kv \<noteq> null) kvs)"
    using kvs by (auto simp: one_member_def null_def case_prod_unfold)
  have lookup: "map_of (filter (\<lambda>kv. fst kv \<noteq> null) kvs) name = (if name = null then None else map_of kvs name)" for name
    by (induction kvs) auto
  have "one_member (JObj (filter (\<lambda>kv. fst kv \<noteq> null) kvs)) = JObj (filter (\<lambda>kv. fst kv \<noteq> null) kvs)"
    unfolding one_member_def json.case lookup by (auto simp: null_def kvs split: option.split)
  moreover have "null = (if map_of kvs ''error'' = Some JNull then ''error'' else ''result'')" by (simp add: null_def kvs)
  ultimately show ?thesis using True out lookup kvs(1) by (auto simp: null_def)
next
  case False
  have "one_member reply = reply"
  proof (cases reply)
    case (JObj kvs)
    then show ?thesis using False by (auto simp: one_member_def Let_def split: option.splits)
  qed (simp_all add: one_member_def)
  then show ?thesis unfolding if_not_P [OF False] by simp
qed

definition small_config :: node_config where
  "small_config = \<lparr>nc_executable = ''/btcd'', nc_datadir = ''/d'', nc_rpc_port = 7, nc_p2p_port = 8,
     nc_chain = ''regtest'', nc_rpc_auth = None\<rparr>"

definition small_btcd :: adapter where
  "small_btcd = \<lparr>ad_node = 0, ad_chain = ''regtest'', ad_command = btcd_command small_config (''tf2'', ''s''),
     ad_extra_args = [''--whitelist=h'', ''-Vd''], ad_running = None\<rparr>"

lemma btcd_credential_stands_witness:
  "btcd_untouched [''--whitelist=h'', ''-Vd''] \<and> ad_command small_btcd = btcd_command small_config (''tf2'', ''s'')"
proof -
  have built: "btcd_init small_config 0 ''s'' [''-whitelist=in,noban@h'', ''-Vd''] = Inr small_btcd"
    by code_simp
  have "fst (small_btcd, empty_host) = small_btcd\<lparr>ad_running := None\<rparr>" by (simp add: small_btcd_def)
  from btcd_credential_stands [OF built this, of stubborn initial_factor "[]"] show ?thesis
    by (simp add: small_btcd_def)
qed

lemma one_member_keeps_one_witness:
  "one_member (JObj [(''jsonrpc'', JStr ''2.0''), (''result'', JNull), (''error'', JNull), (''id'', JInt 3)])
      = JObj [(''jsonrpc'', JStr ''2.0''), (''result'', JNull), (''id'', JInt 3)]
    \<and> json_get (one_member (JObj [(''id'', JInt 3)])) ''id'' = Some (JInt 3)"
  using one_member_keeps_one [of "JObj [(''id'', JInt 3)]"] by (simp add: one_member_def)

end
