(* ===== verification/Bitcoind.thy ===== *)
theory Bitcoind
  imports Adapters
begin

section \<open>bitcoind\<close>

text \<open>
  \<open>bitcoind.py\<close>: \<open>BitcoindAdapter\<close>. What the binary prints for \<open>-help\<close> and \<open>-help-debug\<close> is the
  parameter \<open>help\<close>, and \<open>lru_cache\<close> is left out: a probe answers the same again. The endpoint of a
  wallet of a node is a node of its own to the calls, which \<open>for_wallet\<close> names.
\<close>

subsection \<open>Capabilities\<close>

definition MINER_WALLET :: string where "MINER_WALLET = ''miner''"

definition BITCOIND_CHAIN_DIRS :: "(string \<times> string) list" where
  "BITCOIND_CHAIN_DIRS =
     [(''main'', ''''), (''test'', ''testnet3''), (''testnet4'', ''testnet4''), (''signet'', ''signet''), (''regtest'', ''regtest'')]"

definition BITCOIND_REGTEST_ONLY :: "capability set" where
  "BITCOIND_REGTEST_ONLY = set
     [MINE, CLOCK, TEST_ACTIVATION_HEIGHT, TYPED_OUTBOUND, REINDEX_AFTER_FAILURE, GENERATE,
      DNS_SEED, ADDRESS_FETCH, PRIVATE_BROADCAST, ADDRESS_TABLES]"

definition TEST_CHAIN_ONLY :: "capability set" where
  "TEST_CHAIN_ONLY = set [ACCEPT_NON_STANDARD]"

definition WALLET_ONLY :: "capability set" where
  "WALLET_ONLY = set [MINE, NODE_WALLET]"

definition CLUSTER_MEMPOOL_ONLY :: "capability set" where
  "CLUSTER_MEMPOOL_ONLY = set
     [CLUSTER_LINEARIZATION, CLUSTER_REPLACEMENT, LIMIT_CLUSTER_COUNT, LIMIT_CLUSTER_SIZE]"

definition BITCOIND_CAPABILITIES :: "capability set" where
  "BITCOIND_CAPABILITIES = set
     [MINE, CONNECT, DISCONNECT, BAN, RAW_MESSAGE, BLK_FILES, DEBUG_LOG, UA_COMMENT, CLOCK,
      RPC_AUTH_CONFIG, RPC_AUTH_NEGATION, TEST_ACTIVATION_HEIGHT, V2TRANSPORT, DATACARRIER,
      PERMIT_BARE_MULTISIG, DUST_RELAY_FEE, BYTES_PER_SIGOP, LIMIT_CLUSTER_COUNT,
      LIMIT_CLUSTER_SIZE, MAXMEMPOOL, DESCRIPTOR_ACTIVITY, BLOCK_STATS, FASTPRUNE,
      INBOUND_EVICTION, BLOCK_FILTER_INDEX, VALIDATE_ADDRESS, TYPED_OUTBOUND, RPC_WORK_QUEUE,
      BLOCKS_ONLY, BLOCK_FROM_PEER, ACCEPT_NON_STANDARD, SUSPEND_NETWORK, DESCRIPTOR_INFO,
      PEER_TIMEOUT, MEMPOOL_EXPIRY, SIGN_RAW_TRANSACTION, INVALIDATE_BLOCK,
      REINDEX_AFTER_FAILURE, GENERATE, SCAN_UTXO_SET, PROXY, PROXY_PER_NETWORK, CJDNS, I2P_SAM,
      ONLYNET, NODE_WALLET, TX_RECONCILIATION, PEER_BLOOM_FILTERS, REINDEX, CAPTURE_MESSAGES,
      BLOCKS_XOR, ORPHANAGE, BLOCK_PROPOSAL, DNS_SEED, ADDRESS_FETCH, KNOWN_ADDRESSES,
      EXTERNAL_IP, PRIVATE_BROADCAST, STARTUP_NOTIFY, DUMP_UTXO_SET, LOAD_BLOCK,
      LISTEN_ADDRESS, MAX_TIP_AGE, PEER_BLOCK_FILTERS, RPC_INFO, MIN_RELAY_TX_FEE,
      CLUSTER_LINEARIZATION, MINIMUM_CHAIN_WORK, MEMPOOL_GRAPH, ALERT_NOTIFY,
      PACKAGE_ACCEPTANCE, BLOCK_NOTIFY, SHUTDOWN_NOTIFY, SETTINGS_FILE, PRECIOUS_BLOCK,
      SIGN_MESSAGE_WITH_PRIVKEY, ESTIMATE_SMART_FEE, CHAIN_TIPS, ASSUME_VALID,
      INCREMENTAL_RELAY_FEE, PEER_PERMISSIONS, CLUSTER_REPLACEMENT, BLOCKS_DIR, INCLUDE_CONF,
      UTXO_SET_INFO, MEMPOOL_ENTRY, ADDRESS_TABLES]"

text \<open>\<open>help\<close> answers the standard output of the executable for its arguments.\<close>

definition help_shows :: "(string list \<Rightarrow> string) \<Rightarrow> string \<Rightarrow> string \<Rightarrow> bool" where
  "help_shows help flag shown = py_contains shown (help [flag, ''-nosettings''])"

definition has_wallet :: "(string list \<Rightarrow> string) \<Rightarrow> bool" where
  "has_wallet help = help_shows help ''-help'' ([CHR 0x0A] @ ''Wallet options:'')"

definition has_private_broadcast :: "(string list \<Rightarrow> string) \<Rightarrow> bool" where
  "has_private_broadcast help = help_shows help ''-help'' ([CHR 0x0A] @ ''  -privatebroadcast'' @ [CHR 0x0A])"

definition has_proxy_per_network :: "(string list \<Rightarrow> string) \<Rightarrow> bool" where
  "has_proxy_per_network help = help_shows help ''-help'' (''[=<network>]'' @ [CHR 0x0A])"

definition has_cluster_mempool :: "(string list \<Rightarrow> string) \<Rightarrow> bool" where
  "has_cluster_mempool help = help_shows help ''-help-debug'' ([CHR 0x0A] @ ''  -limitclustercount=<n>'' @ [CHR 0x0A])"

definition has_reindex_after_failure :: "(string list \<Rightarrow> string) \<Rightarrow> bool" where
  "has_reindex_after_failure help = help_shows help ''-help-debug'' ''reindex_after_failure_noninteractive_yes''"

definition has_deterministic_addrman :: "(string list \<Rightarrow> string) \<Rightarrow> bool" where
  "has_deterministic_addrman help = help_shows help ''-help-debug'' ''addrman (use deterministic''"

definition drop_unless :: "bool \<Rightarrow> capability set \<Rightarrow> capability set \<Rightarrow> capability set" where
  "drop_unless present dropped caps = (if present then caps else caps - dropped)"

definition bitcoind_capabilities :: "(string list \<Rightarrow> string) \<Rightarrow> string \<Rightarrow> capability set" where
  "bitcoind_capabilities help chain =
     drop_unless (chain \<noteq> ''main'') TEST_CHAIN_ONLY
     (drop_unless (chain = ''regtest'') BITCOIND_REGTEST_ONLY
     (drop_unless (has_deterministic_addrman help) {ADDRESS_TABLES}
     (drop_unless (has_proxy_per_network help) {PROXY_PER_NETWORK}
     (drop_unless (has_reindex_after_failure help) {REINDEX_AFTER_FAILURE}
     (drop_unless (has_cluster_mempool help) CLUSTER_MEMPOOL_ONLY
     (drop_unless (has_private_broadcast help) {PRIVATE_BROADCAST}
     (drop_unless (has_wallet help) WALLET_ONLY BITCOIND_CAPABILITIES)))))))"

subsection \<open>The command\<close>

definition bitcoind_command :: "node_config \<Rightarrow> string list" where
  "bitcoind_command cfg =
     [nc_executable cfg,
      dashed ''chain'' (nc_chain cfg),
      dashed ''datadir'' (nc_datadir cfg),
      dashed ''rpcport'' (dec (nc_rpc_port cfg)),
      dashed ''rpcbind'' ''127.0.0.1'',
      dashed ''rpcallowip'' ''127.0.0.1'',
      dashed ''bind'' (''127.0.0.1:'' @ dec (nc_p2p_port cfg)),
      dashed ''natpmp'' ''0'',
      dashed ''discover'' ''0'',
      dashed ''listenonion'' ''0'',
      dashed ''fallbackfee'' ''0.0002'',
      dashed ''printtoconsole'' ''0'',
      ''-unsafesqlitesync'',
      dashed ''rpcservertimeout'' ''99000'',
      dashed ''debug'' ''net'',
      dashed ''debug'' ''addrman'',
      dashed ''debug'' ''txreconciliation'',
      dashed ''debug'' ''reindex'',
      dashed ''debug'' ''validation'',
      dashed ''debug'' ''i2p'',
      dashed ''debug'' ''mempoolrej'',
      dashed ''debug'' ''http'']
     @ (if nc_chain cfg = ''regtest'' then []
        else [dashed ''connect'' ''0'', dashed ''dnsseed'' ''0'', dashed ''fixedseeds'' ''0''])"

definition bitcoind_init ::
  "(string list \<Rightarrow> string) \<Rightarrow> node_config \<Rightarrow> nat \<Rightarrow> string list \<Rightarrow> (adapter \<times> capability set) result" where
  "bitcoind_init help cfg node extra_args =
     bind_r (adapter_init (set (map fst BITCOIND_CHAIN_DIRS)) node (bitcoind_command cfg) extra_args (nc_chain cfg))
       (\<lambda>ad. Inr (ad, bitcoind_capabilities help (nc_chain cfg)))"

definition PRIVATE_BROADCAST_LOG :: string where
  "PRIVATE_BROADCAST_LOG = dashed ''debug'' ''privatebroadcast''"

text \<open>What \<open>_start\<close> makes of the arguments before \<open>NodeAdapter._start\<close> appends them.\<close>

definition with_broadcast_log :: "string list \<Rightarrow> string list" where
  "with_broadcast_log args =
     (if list_ex (\<lambda>a. before_char (CHR ''='') (lstrip_char (CHR ''-'') a) = ''privatebroadcast'') args
      then args @ [PRIVATE_BROADCAST_LOG] else args)"

definition bitcoind_start_with :: "'x fate \<Rightarrow> factor_state \<Rightarrow> string list \<Rightarrow> ('x site, unit) loop" where
  "bitcoind_start_with orc st args = start_with orc st (with_broadcast_log args)"

definition bitcoind_chain_dir :: "node_config \<Rightarrow> string result" where
  "bitcoind_chain_dir cfg =
     (case map_of BITCOIND_CHAIN_DIRS (nc_chain cfg) of
        None \<Rightarrow> Inl (KeyError (nc_chain cfg)) | Some d \<Rightarrow> Inr (under (nc_datadir cfg) d))"

definition bitcoind_client :: "node_config \<Rightarrow> factor_state \<Rightarrow> rpc_client result" where
  "bitcoind_client cfg st =
     (case nc_rpc_auth cfg of
        Some (user, password) \<Rightarrow> Inr (client_with cfg st (UserPassword user password))
      | None \<Rightarrow> bind_r (bitcoind_chain_dir cfg)
          (\<lambda>d. Inr (client_with cfg st (CookieFile (under d ''.cookie'')))))"

definition debug_log_path :: "node_config \<Rightarrow> string result" where
  "debug_log_path cfg = bind_r (bitcoind_chain_dir cfg) (\<lambda>d. Inr (under d ''debug.log''))"

subsection \<open>The miner's wallet\<close>

text \<open>What a \<open>for\<close> goes over: a list, the keys of a dict, the characters of a string.\<close>

definition json_iter :: "json \<Rightarrow> json list result" where
  "json_iter x =
     (case x of
        JList xs \<Rightarrow> Inr xs
      | JObj kvs \<Rightarrow> Inr (map (\<lambda>kv. JStr (fst kv)) kvs)
      | JStr s \<Rightarrow> Inr (map (\<lambda>c. JStr [c]) s)
      | _ \<Rightarrow> Inl (TypeError ''object is not iterable''))"

text \<open>The names of the entries that are objects; a list or an object as a name is not hashable.\<close>

fun names_on_disk :: "json list \<Rightarrow> json list result" where
  "names_on_disk [] = Inr []"
| "names_on_disk (JObj kvs # entries) =
     (case (case map_of kvs ''name'' of None \<Rightarrow> JNull | Some v \<Rightarrow> v) of
        JList _ \<Rightarrow> Inl (TypeError ''unhashable type'')
      | JObj _ \<Rightarrow> Inl (TypeError ''unhashable type'')
      | name \<Rightarrow> bind_r (names_on_disk entries) (\<lambda>names. Inr (name # names)))"
| "names_on_disk (_ # entries) = names_on_disk entries"

definition load_miner_wallet :: "('w, 'z) outside_scheme \<Rightarrow> nat \<Rightarrow> ('w timed, unit) act" where
  "load_miner_wallet os node =
     bind_a (rpc_call os node ''listwallets'' [])
       (\<lambda>loaded. if (case loaded of JList xs \<Rightarrow> JStr MINER_WALLET \<in> set xs | _ \<Rightarrow> False) then ret ()
         else bind_a (rpc_call os node ''listwalletdir'' [])
           (\<lambda>walletdir. bind_a
              (lift_r (bind_r (json_iter (case json_get walletdir ''wallets'' of None \<Rightarrow> JList [] | Some v \<Rightarrow> v)) names_on_disk))
              (\<lambda>names. bind_a
                 (rpc_call os node (if JStr MINER_WALLET \<in> set names then ''loadwallet'' else ''createwallet'') [JStr MINER_WALLET])
                 (\<lambda>_. ret ()))))"

definition bitcoind_mine ::
  "('w, 'z) outside_scheme \<Rightarrow> (nat \<Rightarrow> string \<Rightarrow> nat) \<Rightarrow> nat \<Rightarrow> int \<Rightarrow> ('w timed, json list) act" where
  "bitcoind_mine os for_wallet node count =
     bind_a (load_miner_wallet os node)
       (\<lambda>_. bind_a (rpc_call os (for_wallet node MINER_WALLET) ''getnewaddress'' [])
         (\<lambda>address. bind_a (rpc_call os node ''generatetoaddress'' [JInt count, address])
           (\<lambda>hashes. case hashes of
               JList hs \<Rightarrow> ret hs
             | _ \<Rightarrow> raise (TypeError ''generatetoaddress answered, not a list of hashes''))))"

subsection \<open>What sets what\<close>

lemma bitcoind_plain:
  "list_all plain_option [''chain'', ''datadir'', ''rpcport'', ''rpcbind'', ''rpcallowip'', ''bind'', ''natpmp'', ''discover'',
     ''listenonion'', ''fallbackfee'', ''printtoconsole'', ''rpcservertimeout'', ''debug'', ''connect'', ''dnsseed'', ''fixedseeds'']"
  by code_simp

lemma bitcoind_knobs:
  "knob (dashed ''chain'' v) = Some ''chain''" "knob (dashed ''datadir'' v) = Some ''datadir''"
  "knob (dashed ''rpcport'' v) = Some ''rpcport''" "knob (dashed ''rpcbind'' v) = Some ''rpcbind''"
  "knob (dashed ''rpcallowip'' v) = Some ''rpcallowip''" "knob (dashed ''bind'' v) = Some ''bind''"
  "knob (dashed ''natpmp'' v) = Some ''natpmp''" "knob (dashed ''discover'' v) = Some ''discover''"
  "knob (dashed ''listenonion'' v) = Some ''listenonion''" "knob (dashed ''fallbackfee'' v) = Some ''fallbackfee''"
  "knob (dashed ''printtoconsole'' v) = Some ''printtoconsole''" "knob (dashed ''rpcservertimeout'' v) = Some ''rpcservertimeout''"
  "knob (dashed ''debug'' v) = Some ''debug''" "knob (dashed ''connect'' v) = Some ''connect''"
  "knob (dashed ''dnsseed'' v) = Some ''dnsseed''" "knob (dashed ''fixedseeds'' v) = Some ''fixedseeds''"
  using bitcoind_plain [unfolded list.pred_inject] by (simp_all only: knob_dashed)

lemma knob_unsafe: "knob ''-unsafesqlitesync'' = Some ''unsafesqlitesync''"
  by code_simp

text \<open>
  The settings of a node no caller of its adapter may change, each with the token that sets it:
  the data directory, where it listens, and off regtest what keeps it off the network.
\<close>

definition bitcoind_settings :: "node_config \<Rightarrow> (string \<times> string) list" where
  "bitcoind_settings cfg =
     [(''datadir'', dashed ''datadir'' (nc_datadir cfg)),
      (''rpcport'', dashed ''rpcport'' (dec (nc_rpc_port cfg))),
      (''rpcbind'', dashed ''rpcbind'' ''127.0.0.1''),
      (''rpcallowip'', dashed ''rpcallowip'' ''127.0.0.1''),
      (''bind'', dashed ''bind'' (''127.0.0.1:'' @ dec (nc_p2p_port cfg)))]
     @ (if nc_chain cfg = ''regtest'' then []
        else [(''connect'', dashed ''connect'' ''0''), (''dnsseed'', dashed ''dnsseed'' ''0''),
              (''fixedseeds'', dashed ''fixedseeds'' ''0'')])"

lemma bitcoind_command_setting:
  "setting ''datadir'' (tl (bitcoind_command cfg)) = [dashed ''datadir'' (nc_datadir cfg)]"
  "setting ''rpcport'' (tl (bitcoind_command cfg)) = [dashed ''rpcport'' (dec (nc_rpc_port cfg))]"
  "setting ''rpcbind'' (tl (bitcoind_command cfg)) = [dashed ''rpcbind'' ''127.0.0.1'']"
  "setting ''rpcallowip'' (tl (bitcoind_command cfg)) = [dashed ''rpcallowip'' ''127.0.0.1'']"
  "setting ''bind'' (tl (bitcoind_command cfg)) = [dashed ''bind'' (''127.0.0.1:'' @ dec (nc_p2p_port cfg))]"
  "nc_chain cfg \<noteq> ''regtest'' \<Longrightarrow> setting ''connect'' (tl (bitcoind_command cfg)) = [dashed ''connect'' ''0'']"
  "nc_chain cfg \<noteq> ''regtest'' \<Longrightarrow> setting ''dnsseed'' (tl (bitcoind_command cfg)) = [dashed ''dnsseed'' ''0'']"
  "nc_chain cfg \<noteq> ''regtest'' \<Longrightarrow> setting ''fixedseeds'' (tl (bitcoind_command cfg)) = [dashed ''fixedseeds'' ''0'']"
  by (simp_all add: setting_def bitcoind_command_def bitcoind_knobs knob_unsafe)

lemma bitcoind_command_selecting: "selecting (tl (bitcoind_command cfg)) = [dashed ''chain'' (nc_chain cfg)]"
  by (simp add: selecting_def CHAIN_SELECTORS_def bitcoind_command_def bitcoind_knobs knob_unsafe)

lemma bitcoind_command_settings:
  "(k, token) \<in> set (bitcoind_settings cfg) \<Longrightarrow> setting k (tl (bitcoind_command cfg)) = [token]"
proof (cases "nc_chain cfg = ''regtest''")
  case True
  then show "(k, token) \<in> set (bitcoind_settings cfg) \<Longrightarrow> setting k (tl (bitcoind_command cfg)) = [token]"
    unfolding bitcoind_settings_def if_P [OF True] set_append list.set Un_iff insert_iff empty_iff prod.inject
    by (elim disjE conjE FalseE; simp only: bitcoind_command_setting)
next
  case False
  then show "(k, token) \<in> set (bitcoind_settings cfg) \<Longrightarrow> setting k (tl (bitcoind_command cfg)) = [token]"
    unfolding bitcoind_settings_def if_not_P [OF False] set_append list.set Un_iff insert_iff empty_iff prod.inject
    by (elim disjE conjE FalseE; simp only: bitcoind_command_setting False not_False_eq_True)
qed

interpretation bitcoind_argv: adapter_command bitcoind_command bitcoind_settings "\<lambda>cfg. dashed ''chain'' (nc_chain cfg)"
proof
  show "setting ''chain'' (tl (bitcoind_command cfg)) = [dashed ''chain'' (nc_chain cfg)]" for cfg
    by (simp add: setting_def bitcoind_command_def bitcoind_knobs knob_unsafe)
  show "bitcoind_command cfg \<noteq> []" for cfg by (simp add: bitcoind_command_def)
qed (erule bitcoind_command_settings, rule bitcoind_command_selecting)

lemma with_broadcast_log_settings:
  "k \<noteq> ''debug'' \<Longrightarrow> setting k (with_broadcast_log args) = setting k args"
  "selecting (with_broadcast_log args) = selecting args"
  by (simp_all add: with_broadcast_log_def setting_def selecting_def PRIVATE_BROADCAST_LOG_def bitcoind_knobs CHAIN_SELECTORS_def)

lemma debug_not_a_setting: "(k, token) \<in> set (bitcoind_settings cfg) \<Longrightarrow> k \<noteq> ''debug''"
  by (auto simp: bitcoind_settings_def split: if_splits)

text \<open>
  C36: a bitcoind under test stays on the chain, the data directory and the addresses its adapter
  gave it, and off regtest stays off the network. Whatever extra arguments the adapter was built
  with, each of those settings is set once on the line its process is started with, as the adapter
  sets it, and the chain is selected once; and the private broadcast log is added exactly where an
  extra argument names the option.
\<close>

theorem bitcoind_settings_stand:
  assumes "bitcoind_init help cfg node extra_args = Inr (ad, caps)"
    and "(k, token) \<in> set (bitcoind_settings cfg)"
  shows "setting k (tl (ad_command ad @ with_broadcast_log (ad_extra_args ad))) = [token]
    \<and> selecting (tl (ad_command ad @ with_broadcast_log (ad_extra_args ad))) = [dashed ''chain'' (nc_chain cfg)]
    \<and> (PRIVATE_BROADCAST_LOG \<in> set (tl (ad_command ad @ with_broadcast_log (ad_extra_args ad)))
        \<longleftrightarrow> (\<exists>a \<in> set extra_args. before_char (CHR ''='') (lstrip_char (CHR ''-'') a) = ''privatebroadcast''))"
proof -
  have ad: "ad_command ad = bitcoind_command cfg" "ad_extra_args ad = extra_args" "check_extra_args (bitcoind_command cfg) extra_args = Inr ()"
    using assms(1) by (auto simp: bitcoind_init_def adapter_init_def bind_r_Inr_iff split: if_splits)
  have argv: "tl (ad_command ad @ with_broadcast_log (ad_extra_args ad)) = tl (bitcoind_command cfg) @ with_broadcast_log extra_args"
    using ad bitcoind_argv.command_nonempty by simp
  have log: "PRIVATE_BROADCAST_LOG \<notin> set (tl (bitcoind_command cfg))" "PRIVATE_BROADCAST_LOG \<notin> set extra_args"
  proof -
    show "PRIVATE_BROADCAST_LOG \<notin> set (tl (bitcoind_command cfg))"
      by (auto simp: PRIVATE_BROADCAST_LOG_def bitcoind_command_def dashed_def assigned_def)
    have "dashed ''debug'' ''net'' \<in> set (bitcoind_command cfg)" by (simp add: bitcoind_command_def)
    from checked_sets_none(1) [OF ad(3) _ this bitcoind_knobs(13)]
    show "PRIVATE_BROADCAST_LOG \<notin> set extra_args" using bitcoind_knobs(13) unfolding PRIVATE_BROADCAST_LOG_def by blast
  qed
  have "setting k (tl (bitcoind_command cfg) @ with_broadcast_log extra_args) = setting k (tl (bitcoind_command cfg) @ extra_args)"
    by (simp add: setting_append with_broadcast_log_settings(1) [OF debug_not_a_setting [OF assms(2)]])
  moreover have "selecting (tl (bitcoind_command cfg) @ with_broadcast_log extra_args) = selecting (tl (bitcoind_command cfg) @ extra_args)"
    by (simp add: selecting_append with_broadcast_log_settings(2))
  ultimately show ?thesis
    using log unfolding argv by (auto simp: bitcoind_argv.stands [OF ad(3) assms(2)] with_broadcast_log_def list_ex_iff)
qed

definition bitcoind_small :: node_config where
  "bitcoind_small = \<lparr>nc_executable = ''/b'', nc_datadir = ''/d'', nc_rpc_port = 7, nc_p2p_port = 8, nc_chain = ''signet'',
     nc_rpc_auth = None\<rparr>"

lemma bitcoind_settings_stand_witness:
  "\<exists>ad caps. bitcoind_init (\<lambda>args. ''-privatebroadcast'') bitcoind_small 0 [''-privatebroadcast''] = Inr (ad, caps)
    \<and> setting ''connect'' (tl (ad_command ad @ with_broadcast_log (ad_extra_args ad))) = [dashed ''connect'' ''0'']"
proof -
  have passes: "check_extra_args (bitcoind_command bitcoind_small) [''-privatebroadcast''] = Inr ()" by code_simp
  obtain ad caps where built: "bitcoind_init (\<lambda>args. ''-privatebroadcast'') bitcoind_small 0 [''-privatebroadcast''] = Inr (ad, caps)"
    using passes by (auto simp: bitcoind_init_def adapter_init_def bitcoind_small_def BITCOIND_CHAIN_DIRS_def)
  have "(''connect'', dashed ''connect'' ''0'') \<in> set (bitcoind_settings bitcoind_small)"
    by (simp add: bitcoind_settings_def bitcoind_small_def)
  from bitcoind_settings_stand [OF built this] built show ?thesis by blast
qed

subsection \<open>What is declared\<close>

lemma drop_unless_iff: "c \<in> drop_unless b dropped caps \<longleftrightarrow> c \<in> caps \<and> (c \<in> dropped \<longrightarrow> b)"
  by (simp add: drop_unless_def)

lemma dropped_sets:
  "WALLET_ONLY = {MINE, NODE_WALLET}"
  "CLUSTER_MEMPOOL_ONLY = {CLUSTER_LINEARIZATION, CLUSTER_REPLACEMENT, LIMIT_CLUSTER_COUNT, LIMIT_CLUSTER_SIZE}"
  "BITCOIND_REGTEST_ONLY = {MINE, CLOCK, TEST_ACTIVATION_HEIGHT, TYPED_OUTBOUND, REINDEX_AFTER_FAILURE, GENERATE, DNS_SEED,
     ADDRESS_FETCH, PRIVATE_BROADCAST, ADDRESS_TABLES}"
  "TEST_CHAIN_ONLY = {ACCEPT_NON_STANDARD}"
  unfolding WALLET_ONLY_def CLUSTER_MEMPOOL_ONLY_def BITCOIND_REGTEST_ONLY_def TEST_CHAIN_ONLY_def list.set by (rule refl)+

lemma dnsseed_taken:
  assumes "\<not> py_startswith (nc_executable cfg) ''-''"
  shows "check_extra_args (bitcoind_command cfg) [dashed ''dnsseed'' v] = Inr () \<longleftrightarrow> nc_chain cfg = ''regtest''"
proof -
  have own: "knob (nc_executable cfg) = None" using assms by (simp add: knob_def option_name_def)
  have "(\<exists>c \<in> set (bitcoind_command cfg). knob c = Some ''dnsseed'') \<longleftrightarrow> nc_chain cfg \<noteq> ''regtest''"
    by (simp add: bitcoind_command_def own bitcoind_knobs knob_unsafe)
  then have "''dnsseed'' \<in> reserved_option_names (bitcoind_command cfg) \<longleftrightarrow> nc_chain cfg \<noteq> ''regtest''"
    unfolding reserved_iff by (simp add: CHAIN_SELECTORS_def)
  then show ?thesis by (simp add: check_extra_args_def check_args_loop_eq bitcoind_knobs)
qed

text \<open>
  C37: what a bitcoind adapter declares. A capability of the class is dropped exactly where its own
  condition fails: a wallet, the cluster mempool, an option of the build, regtest, a test chain; and
  \<open>DNS_SEED\<close> is declared exactly where the check lets a test pass \<open>-dnsseed\<close>.
\<close>

theorem bitcoind_declares:
  assumes "\<not> py_startswith (nc_executable cfg) ''-''"
  shows "(c \<in> bitcoind_capabilities help (nc_chain cfg) \<longleftrightarrow>
     c \<in> BITCOIND_CAPABILITIES
     \<and> (c \<in> {MINE, NODE_WALLET} \<longrightarrow> has_wallet help)
     \<and> (c \<in> {CLUSTER_LINEARIZATION, CLUSTER_REPLACEMENT, LIMIT_CLUSTER_COUNT, LIMIT_CLUSTER_SIZE} \<longrightarrow> has_cluster_mempool help)
     \<and> (c = PRIVATE_BROADCAST \<longrightarrow> has_private_broadcast help)
     \<and> (c = REINDEX_AFTER_FAILURE \<longrightarrow> has_reindex_after_failure help)
     \<and> (c = PROXY_PER_NETWORK \<longrightarrow> has_proxy_per_network help)
     \<and> (c = ADDRESS_TABLES \<longrightarrow> has_deterministic_addrman help)
     \<and> (c \<in> {MINE, CLOCK, TEST_ACTIVATION_HEIGHT, TYPED_OUTBOUND, REINDEX_AFTER_FAILURE, GENERATE, DNS_SEED, ADDRESS_FETCH,
             PRIVATE_BROADCAST, ADDRESS_TABLES} \<longrightarrow> nc_chain cfg = ''regtest'')
     \<and> (c = ACCEPT_NON_STANDARD \<longrightarrow> nc_chain cfg \<noteq> ''main''))
   \<and> (DNS_SEED \<in> bitcoind_capabilities help (nc_chain cfg)
      \<longleftrightarrow> check_extra_args (bitcoind_command cfg) [dashed ''dnsseed'' v] = Inr ())"
proof
  show "c \<in> bitcoind_capabilities help (nc_chain cfg) \<longleftrightarrow>
     c \<in> BITCOIND_CAPABILITIES
     \<and> (c \<in> {MINE, NODE_WALLET} \<longrightarrow> has_wallet help)
     \<and> (c \<in> {CLUSTER_LINEARIZATION, CLUSTER_REPLACEMENT, LIMIT_CLUSTER_COUNT, LIMIT_CLUSTER_SIZE} \<longrightarrow> has_cluster_mempool help)
     \<and> (c = PRIVATE_BROADCAST \<longrightarrow> has_private_broadcast help)
     \<and> (c = REINDEX_AFTER_FAILURE \<longrightarrow> has_reindex_after_failure help)
     \<and> (c = PROXY_PER_NETWORK \<longrightarrow> has_proxy_per_network help)
     \<and> (c = ADDRESS_TABLES \<longrightarrow> has_deterministic_addrman help)
     \<and> (c \<in> {MINE, CLOCK, TEST_ACTIVATION_HEIGHT, TYPED_OUTBOUND, REINDEX_AFTER_FAILURE, GENERATE, DNS_SEED, ADDRESS_FETCH,
             PRIVATE_BROADCAST, ADDRESS_TABLES} \<longrightarrow> nc_chain cfg = ''regtest'')
     \<and> (c = ACCEPT_NON_STANDARD \<longrightarrow> nc_chain cfg \<noteq> ''main'')"
    unfolding bitcoind_capabilities_def drop_unless_iff dropped_sets singleton_iff by argo
  have "DNS_SEED \<in> BITCOIND_CAPABILITIES" by (simp add: BITCOIND_CAPABILITIES_def)
  then show "DNS_SEED \<in> bitcoind_capabilities help (nc_chain cfg)
      \<longleftrightarrow> check_extra_args (bitcoind_command cfg) [dashed ''dnsseed'' v] = Inr ()"
    unfolding dnsseed_taken [OF assms] bitcoind_capabilities_def drop_unless_iff dropped_sets by simp
qed

lemma bitcoind_declares_witness:
  "MINE \<in> bitcoind_capabilities (\<lambda>args. CHR 0x0A # ''Wallet options:'') ''regtest''
    \<and> MINE \<notin> bitcoind_capabilities (\<lambda>args. CHR 0x0A # ''Wallet options:'') ''main''"
proof -
  let ?out = "\<lambda>args. CHR 0x0A # ''Wallet options:''" and ?cfg = "bitcoind_small\<lparr>nc_chain := ''regtest''\<rparr>"
  have start: "\<not> py_startswith (nc_executable bitcoind_small) ''-''" "\<not> py_startswith (nc_executable ?cfg) ''-''" by code_simp+
  have "has_wallet ?out" by code_simp
  moreover have "MINE \<in> BITCOIND_CAPABILITIES" by (simp add: BITCOIND_CAPABILITIES_def)
  ultimately have "MINE \<in> bitcoind_capabilities ?out ''regtest''"
    using bitcoind_declares [OF start(2), of MINE ?out] by simp
  moreover have "MINE \<notin> bitcoind_capabilities ?out ''main''"
    using bitcoind_declares [of "bitcoind_small\<lparr>nc_chain := ''main''\<rparr>" MINE ?out] start(1) by simp
  ultimately show ?thesis ..
qed

subsection \<open>The miner's wallet is loaded\<close>

text \<open>
  A node with wallets, as Core documents its calls: which are loaded and which are on disk is read
  off the world; \<open>listwallets\<close> and \<open>listwalletdir\<close> answer the names and change neither, \<open>loadwallet\<close>
  loads one that is on disk and not loaded, \<open>createwallet\<close> makes and loads one that is not on disk.
\<close>

definition answers_with ::
  "('w, 'z) outside_scheme \<Rightarrow> nat \<Rightarrow> string \<Rightarrow> json list \<Rightarrow> 'w \<Rightarrow> (json \<Rightarrow> bool) \<Rightarrow> ('w \<Rightarrow> bool) \<Rightarrow> bool" where
  "answers_with os node method params w reply after \<longleftrightarrow>
     (\<exists>x d w'. o_rpc os node method params w = (Inr x, d, w') \<and> reply x \<and> after w')"

definition wallet_host ::
  "('w, 'z) outside_scheme \<Rightarrow> nat \<Rightarrow> ('w \<Rightarrow> string set) \<Rightarrow> ('w \<Rightarrow> string set) \<Rightarrow> bool" where
  "wallet_host os node loaded disk \<longleftrightarrow>
     (\<forall>w. answers_with os node ''listwallets'' [] w
        (\<lambda>x. \<exists>names. x = JList (map JStr names) \<and> set names = loaded w)
        (\<lambda>w'. loaded w' = loaded w \<and> disk w' = disk w))
   \<and> (\<forall>w. answers_with os node ''listwalletdir'' [] w
        (\<lambda>x. \<exists>entries. json_get x ''wallets'' = Some (JList (map JObj entries))
             \<and> (\<forall>kvs \<in> set entries. \<exists>n. map_of kvs ''name'' = Some (JStr n))
             \<and> {n. \<exists>kvs \<in> set entries. map_of kvs ''name'' = Some (JStr n)} = disk w)
        (\<lambda>w'. loaded w' = loaded w \<and> disk w' = disk w))
   \<and> (\<forall>w n. n \<in> disk w \<longrightarrow> n \<notin> loaded w \<longrightarrow>
        answers_with os node ''loadwallet'' [JStr n] w (\<lambda>x. True) (\<lambda>w'. loaded w' = insert n (loaded w) \<and> disk w' = disk w))
   \<and> (\<forall>w n. n \<notin> disk w \<longrightarrow>
        answers_with os node ''createwallet'' [JStr n] w (\<lambda>x. True)
          (\<lambda>w'. loaded w' = insert n (loaded w) \<and> disk w' = insert n (disk w)))"

lemma answers_with_call:
  assumes "answers_with os node method params (world s) reply after"
  obtains x t where "rpc_call os node method params s = (Inr x, t)" and "reply x" and "after (world t)"
  using assms by (auto simp: answers_with_def rpc_call_def outside_call_def)

lemma names_on_disk_objects:
  "\<forall>kvs \<in> set entries. \<exists>n. map_of kvs ''name'' = Some (JStr n) \<Longrightarrow>
    \<exists>names. names_on_disk (map JObj entries) = Inr names
      \<and> (\<forall>n. JStr n \<in> set names \<longleftrightarrow> (\<exists>kvs \<in> set entries. map_of kvs ''name'' = Some (JStr n)))"
  by (induction entries) fastforce+

lemma wallet_hostD:
  assumes "wallet_host os node loaded disk"
  shows "n \<in> disk w \<Longrightarrow> n \<notin> loaded w \<Longrightarrow>
      answers_with os node ''loadwallet'' [JStr n] w (\<lambda>x. True) (\<lambda>w'. loaded w' = insert n (loaded w) \<and> disk w' = disk w)"
    and "n \<notin> disk w \<Longrightarrow> answers_with os node ''createwallet'' [JStr n] w (\<lambda>x. True)
      (\<lambda>w'. loaded w' = insert n (loaded w) \<and> disk w' = insert n (disk w))"
  using assms unfolding wallet_host_def by blast+

text \<open>
  C38: whatever wallets a node has, the miner's is loaded after \<open>_load_miner_wallet\<close>: one loaded is
  left alone, one on disk is loaded, one that is nowhere is created; it never raises, and every
  other wallet stays as it was.
\<close>

theorem miner_wallet_loaded:
  assumes "wallet_host os node loaded disk"
  shows "\<exists>t. load_miner_wallet os node s = (Inr (), t)
    \<and> loaded (world t) = insert MINER_WALLET (loaded (world s))
    \<and> disk (world t) = (if MINER_WALLET \<in> loaded (world s) then disk (world s) else insert MINER_WALLET (disk (world s)))"
proof -
  have "answers_with os node ''listwallets'' [] (world s)
        (\<lambda>x. \<exists>names. x = JList (map JStr names) \<and> set names = loaded (world s))
        (\<lambda>w'. loaded w' = loaded (world s) \<and> disk w' = disk (world s))"
    using assms unfolding wallet_host_def by blast
  then obtain names t1 where list: "rpc_call os node ''listwallets'' [] s = (Inr (JList (map JStr names)), t1)"
    "set names = loaded (world s)" "loaded (world t1) = loaded (world s)" "disk (world t1) = disk (world s)"
    by (elim answers_with_call) auto
  have seen: "JStr MINER_WALLET \<in> set (map JStr names) \<longleftrightarrow> MINER_WALLET \<in> loaded (world s)" using list(2) by auto
  show ?thesis
  proof (cases "MINER_WALLET \<in> loaded (world s)")
    case True
    then have "load_miner_wallet os node s = (Inr (), t1)"
      using seen by (simp add: load_miner_wallet_def bind_a_def list(1))
    then show ?thesis using True list(3,4) by (simp add: insert_absorb)
  next
    case False
    have "answers_with os node ''listwalletdir'' [] (world t1)
        (\<lambda>x. \<exists>entries. json_get x ''wallets'' = Some (JList (map JObj entries))
             \<and> (\<forall>kvs \<in> set entries. \<exists>n. map_of kvs ''name'' = Some (JStr n))
             \<and> {n. \<exists>kvs \<in> set entries. map_of kvs ''name'' = Some (JStr n)} = disk (world t1))
        (\<lambda>w'. loaded w' = loaded (world t1) \<and> disk w' = disk (world t1))"
      using assms unfolding wallet_host_def by blast
    then obtain x entries t2 where dir: "rpc_call os node ''listwalletdir'' [] t1 = (Inr x, t2)"
      "json_get x ''wallets'' = Some (JList (map JObj entries))" "\<forall>kvs \<in> set entries. \<exists>n. map_of kvs ''name'' = Some (JStr n)"
      "{n. \<exists>kvs \<in> set entries. map_of kvs ''name'' = Some (JStr n)} = disk (world s)"
      "loaded (world t2) = loaded (world s)" "disk (world t2) = disk (world s)"
      using list(3,4) by (elim answers_with_call) auto
    from names_on_disk_objects [OF dir(3)] obtain found where found: "names_on_disk (map JObj entries) = Inr found"
      "\<And>n. JStr n \<in> set found \<longleftrightarrow> n \<in> disk (world s)" using dir(4) by blast
    define how where "how = (if JStr MINER_WALLET \<in> set found then ''loadwallet'' else ''createwallet'')"
    have "answers_with os node how [JStr MINER_WALLET] (world t2) (\<lambda>x. True)
        (\<lambda>w'. loaded w' = insert MINER_WALLET (loaded (world s)) \<and> disk w' = insert MINER_WALLET (disk (world s)))"
    proof (cases "MINER_WALLET \<in> disk (world s)")
      case True
      then have "answers_with os node ''loadwallet'' [JStr MINER_WALLET] (world t2) (\<lambda>x. True)
          (\<lambda>w'. loaded w' = insert MINER_WALLET (loaded (world t2)) \<and> disk w' = disk (world t2))"
        using wallet_hostD(1) [OF assms, of MINER_WALLET "world t2"] False dir(5,6) by simp
      then show ?thesis using True found(2) dir(5,6) by (simp add: how_def insert_absorb)
    next
      case no: False
      then have "answers_with os node ''createwallet'' [JStr MINER_WALLET] (world t2) (\<lambda>x. True)
          (\<lambda>w'. loaded w' = insert MINER_WALLET (loaded (world t2)) \<and> disk w' = insert MINER_WALLET (disk (world t2)))"
        using wallet_hostD(2) [OF assms, of MINER_WALLET "world t2"] dir(6) by simp
      then show ?thesis using no found(2) dir(5,6) by (simp add: how_def)
    qed
    then obtain y t3 where made: "rpc_call os node how [JStr MINER_WALLET] t2 = (Inr y, t3)"
      "loaded (world t3) = insert MINER_WALLET (loaded (world s))" "disk (world t3) = insert MINER_WALLET (disk (world s))"
      by (elim answers_with_call) auto
    have "load_miner_wallet os node s = (Inr (), t3)"
      using seen False made(1)
      by (simp add: load_miner_wallet_def bind_a_def list(1) dir(1,2) json_iter_def found(1)
          how_def [symmetric])
    then show ?thesis using made(2,3) False by simp
  qed
qed

text \<open>A node with wallets of its own: the names loaded, and those on disk.\<close>

definition small_wallets :: "(string list \<times> string list) outside" where
  "small_wallets = \<lparr>o_sleep = (\<lambda>d w. (0, w)), o_rpc = (\<lambda>node method params w.
     if method = ''listwallets'' then (Inr (JList (map JStr (fst w))), 0, w)
     else if method = ''listwalletdir''
       then (Inr (JObj [(''wallets'', JList (map (\<lambda>n. JObj [(''name'', JStr n)]) (snd w)))]), 0, w)
     else (case params of
         [JStr n] \<Rightarrow>
           if method = ''loadwallet'' \<and> n \<in> set (snd w) \<and> n \<notin> set (fst w) then (Inr JNull, 0, (n # fst w, snd w))
           else if method = ''createwallet'' \<and> n \<notin> set (snd w) then (Inr JNull, 0, (n # fst w, n # snd w))
           else (Inl (RpcError (-4)), 0, w)
       | _ \<Rightarrow> (Inl (RpcError (-8)), 0, w)))\<rparr>"

lemma small_wallet_host: "wallet_host small_wallets node (\<lambda>w. set (fst w)) (\<lambda>w. set (snd w))"
proof -
  have dir: "\<exists>entries. JList (map (\<lambda>n. JObj [(''name'', JStr n)]) ns) = JList (map JObj entries)
      \<and> (\<forall>kvs \<in> set entries. \<exists>n. map_of kvs ''name'' = Some (JStr n))
      \<and> {n. \<exists>kvs \<in> set entries. map_of kvs ''name'' = Some (JStr n)} = set ns" for ns
    by (rule exI [of _ "map (\<lambda>n. [(''name'', JStr n)]) ns"]) (auto simp: comp_def)
  show ?thesis
    unfolding wallet_host_def answers_with_def
    using dir by (auto simp: small_wallets_def)
qed

lemma miner_wallet_loaded_witness:
  "\<exists>t. load_miner_wallet small_wallets 0 \<lparr>clock = 0, world = ([''alice''], [''alice'', ''miner''])\<rparr> = (Inr (), t)
    \<and> set (fst (world t)) = {''miner'', ''alice''}"
  using miner_wallet_loaded [OF small_wallet_host, of 0 "\<lparr>clock = 0, world = ([''alice''], [''alice'', ''miner''])\<rparr>"]
  by (auto simp: MINER_WALLET_def)

end
