(* ===== verification/Btclib_Node.thy ===== *)
theory Btclib_Node
  imports Bitcoind
begin

section \<open>btclib-node\<close>

text \<open>
  \<open>btclib_node.py\<close>: \<open>BtclibNodeAdapter\<close>. What a build can do is asked of the interpreter it is
  installed into, which runs a program and exits: the record \<open>interpreter\<close> is how it exits, with a
  home of its own or the caller's, what it prints, and what \<open>json.loads\<close> makes of that. \<open>lru_cache\<close>
  is left out: a probe answers the same again.
\<close>

record interpreter =
  ip_exits :: "bool \<Rightarrow> string \<Rightarrow> int"
  ip_prints :: "string \<Rightarrow> int \<times> string"
  ip_loads :: "string \<Rightarrow> json result"

definition program :: "string list \<Rightarrow> string" where
  "program ls = concat (map (\<lambda>l. l @ [CHR 0x0A]) ls)"

definition runs_clean :: "interpreter \<Rightarrow> string \<Rightarrow> bool" where
  "runs_clean ip code = (ip_exits ip False code = 0)"

definition config_probe_passes :: "interpreter \<Rightarrow> string \<Rightarrow> bool" where
  "config_probe_passes ip code = (ip_exits ip True code = 0)"

subsection \<open>Probes\<close>

definition writes_auth_cookie :: "interpreter \<Rightarrow> bool" where
  "writes_auth_cookie ip = runs_clean ip ''import btclib_node.rpc.auth''"

definition evicts_inbound :: "interpreter \<Rightarrow> bool" where
  "evicts_inbound ip = runs_clean ip ''import btclib_node.p2p.eviction''"

definition NEGATION_PROBE :: string where
  "NEGATION_PROBE = 
     ''from btclib_node.cli import build_config; '' @
     ''config = build_config([\"-regtest\", \"-noconf\", \"-rpcauth=tf2\", \"-norpcauth\"]); '' @
     ''raise SystemExit(1 if getattr(config, \"rpc_auth_invalid\", False) else 0)''"

definition negates_rpcauth :: "interpreter \<Rightarrow> bool" where
  "negates_rpcauth ip = config_probe_passes ip NEGATION_PROBE"

definition SOLO_CONNECT_PROBE :: string where
  "SOLO_CONNECT_PROBE = program
     [''from types import SimpleNamespace'',
      ''from btclib_node.constants import NodeStatus'',
      ''from btclib_node.main import update_chain'',
      ''def reached(): raise SystemExit(0)'',
      ''index = SimpleNamespace(get_first_candidate=reached)'',
      ''chainstate = SimpleNamespace(block_index=index)'',
      ''update_chain(SimpleNamespace(status=NodeStatus.SyncingHeaders, chainstate=chainstate))'',
      ''raise SystemExit(1)'']"

definition connects_alone :: "interpreter \<Rightarrow> bool" where
  "connects_alone ip = runs_clean ip SOLO_CONNECT_PROBE"

definition BAN_PROBE :: string where
  "BAN_PROBE = program
     [''from btclib_node.rpc.callbacks import callbacks'',
      ''ban_rpcs = {\"setban\", \"listbanned\", \"clearbanned\"}'',
      ''raise SystemExit(0 if ban_rpcs <= callbacks.keys() else 1)'']"

definition serves_ban_list :: "interpreter \<Rightarrow> bool" where
  "serves_ban_list ip = runs_clean ip BAN_PROBE"

definition MIN_RELAY_FEE_PROBE :: string where
  "MIN_RELAY_FEE_PROBE = program
     [''from btclib_node.cli import build_config'',
      ''config = build_config([\"-regtest\", \"-noconf\", \"-minrelaytxfee=0.00000010\"])'',
      ''raise SystemExit(0 if config.min_relay_feerate.sats_per_kvbyte == 10 else 1)'']"

definition sets_min_relay_fee :: "interpreter \<Rightarrow> bool" where
  "sets_min_relay_fee ip = config_probe_passes ip MIN_RELAY_FEE_PROBE"

definition BARE_MULTISIG_PROBE :: string where
  "BARE_MULTISIG_PROBE = program
     [''from btclib_node.cli import build_config'',
      ''config = build_config([\"-regtest\", \"-noconf\", \"-permitbaremultisig=0\"])'',
      ''raise SystemExit(0 if config.permit_bare_multisig is False else 1)'']"

definition permits_bare_multisig :: "interpreter \<Rightarrow> bool" where
  "permits_bare_multisig ip = config_probe_passes ip BARE_MULTISIG_PROBE"

definition V2_PROBE :: string where
  "V2_PROBE = program
     [''from btclib_node.cli import build_config'',
      ''config = build_config([\"-regtest\", \"-noconf\", \"-nov2transport\"])'',
      ''raise SystemExit(0 if config.v2transport is False else 1)'']"

definition build_speaks_v2 :: "interpreter \<Rightarrow> bool" where
  "build_speaks_v2 ip = config_probe_passes ip V2_PROBE"

definition V1_PROBE :: string where
  "V1_PROBE = program
     [''from btclib_node.cli import build_config'',
      ''config = build_config([\"-regtest\", \"-noconf\", \"-v1transport=1\"])'',
      ''raise SystemExit(0 if config.v1transport is True else 1)'']"

definition accepts_v1transport :: "interpreter \<Rightarrow> bool" where
  "accepts_v1transport ip = config_probe_passes ip V1_PROBE"

definition CHAIN_TIPS_PROBE :: string where
  "CHAIN_TIPS_PROBE = program
     [''from btclib_node.rpc.callbacks import callbacks'',
      ''raise SystemExit(0 if \"getchaintips\" in callbacks else 1)'']"

definition serves_chain_tips :: "interpreter \<Rightarrow> bool" where
  "serves_chain_tips ip = runs_clean ip CHAIN_TIPS_PROBE"

definition DISCONNECT_PROBE :: string where
  "DISCONNECT_PROBE = program
     [''from btclib_node.rpc.callbacks import callbacks'',
      ''raise SystemExit(0 if \"disconnectnode\" in callbacks else 1)'']"

definition serves_disconnect :: "interpreter \<Rightarrow> bool" where
  "serves_disconnect ip = runs_clean ip DISCONNECT_PROBE"

definition SUBMITPACKAGE_PROBE :: string where
  "SUBMITPACKAGE_PROBE = program
     [''from btclib_node.rpc.callbacks import callbacks'',
      ''raise SystemExit(0 if \"submitpackage\" in callbacks else 1)'']"

definition serves_submitpackage :: "interpreter \<Rightarrow> bool" where
  "serves_submitpackage ip = runs_clean ip SUBMITPACKAGE_PROBE"

definition CLUSTER_REPLACEMENT_PROBE :: string where
  "CLUSTER_REPLACEMENT_PROBE = program
     [''from btclib_node.mempool import Mempool'',
      ''raise SystemExit(0 if hasattr(Mempool, \"check_package_replacement\") else 1)'']"

definition replaces_by_cluster :: "interpreter \<Rightarrow> bool" where
  "replaces_by_cluster ip = runs_clean ip CLUSTER_REPLACEMENT_PROBE"

definition GETORPHANTXS_PROBE :: string where
  "GETORPHANTXS_PROBE = program
     [''from btclib_node.rpc.callbacks import callbacks'',
      ''raise SystemExit(0 if \"getorphantxs\" in callbacks else 1)'']"

definition serves_getorphantxs :: "interpreter \<Rightarrow> bool" where
  "serves_getorphantxs ip = runs_clean ip GETORPHANTXS_PROBE"

definition MEMPOOL_ENTRY_PROBE :: string where
  "MEMPOOL_ENTRY_PROBE = program
     [''from btclib_node.rpc.callbacks import callbacks'',
      ''raise SystemExit(0 if \"getmempoolentry\" in callbacks else 1)'']"

definition serves_mempool_entry :: "interpreter \<Rightarrow> bool" where
  "serves_mempool_entry ip = runs_clean ip MEMPOOL_ENTRY_PROBE"

definition SETMOCKTIME_PROBE :: string where
  "SETMOCKTIME_PROBE = program
     [''from btclib_node.rpc.callbacks import callbacks'',
      ''raise SystemExit(0 if \"setmocktime\" in callbacks else 1)'']"

definition serves_setmocktime :: "interpreter \<Rightarrow> bool" where
  "serves_setmocktime ip = runs_clean ip SETMOCKTIME_PROBE"

definition GENERATE_PROBE :: string where
  "GENERATE_PROBE = program
     [''from btclib_node.rpc.callbacks import callbacks'',
      ''generate_rpcs = {\"generatetoaddress\", \"generateblock\"}'',
      ''raise SystemExit(0 if generate_rpcs <= callbacks.keys() else 1)'']"

definition serves_generate :: "interpreter \<Rightarrow> bool" where
  "serves_generate ip = runs_clean ip GENERATE_PROBE"

definition INCLUDE_CONF_PROBE :: string where
  "INCLUDE_CONF_PROBE = program
     [''from btclib_node.cli import build_config'',
      ''build_config([\"-regtest\", \"-noconf\", \"-noincludeconf\"])'']"

definition reads_includeconf :: "interpreter \<Rightarrow> bool" where
  "reads_includeconf ip = config_probe_passes ip INCLUDE_CONF_PROBE"

definition BIND_PROBE :: string where
  "BIND_PROBE = program
     [''from btclib_node.cli import build_config'',
      ''config = build_config([\"-regtest\", \"-noconf\", \"-bind=127.0.0.1:18555\"])'',
      ''raise SystemExit(0 if config.bind else 1)'']"

definition binds_address :: "interpreter \<Rightarrow> bool" where
  "binds_address ip = config_probe_passes ip BIND_PROBE"

definition WHITELIST_PROBE :: string where
  "WHITELIST_PROBE = program
     [''from btclib_node.cli import build_config'',
      ''whitelist = \"-whitelist=noban@127.0.0.1\"'',
      ''whitebind = \"-whitebind=noban@127.0.0.1:18556\"'',
      ''config = build_config([\"-regtest\", \"-noconf\", whitelist, whitebind])'',
      ''raise SystemExit(0 if config.whitelist and config.whitebind else 1)'']"

definition reads_whitelist :: "interpreter \<Rightarrow> bool" where
  "reads_whitelist ip = config_probe_passes ip WHITELIST_PROBE"

definition SERVED_RPCS_PROBE :: string where
  "SERVED_RPCS_PROBE = program
     [''import json'',
      ''from btclib_node.rpc.callbacks import callbacks'',
      ''print(json.dumps(sorted(callbacks)))'']"

text \<open>The names the build's dispatch table holds, none where the program fails.\<close>

definition served_rpcs :: "interpreter \<Rightarrow> json list result" where
  "served_rpcs ip =
     (case ip_prints ip SERVED_RPCS_PROBE of
        (code, out) \<Rightarrow> if code \<noteq> 0 then Inr [] else bind_r (ip_loads ip out) json_iter)"

definition RPC_CAPABILITIES :: "(capability \<times> string list) list" where
  "RPC_CAPABILITIES =
     [(TYPED_OUTBOUND, [''addconnection'']),
      (SUSPEND_NETWORK, [''setnetworkactive'']),
      (SIGN_RAW_TRANSACTION, [''signrawtransactionwithkey'', ''combinerawtransaction'']),
      (INVALIDATE_BLOCK, [''invalidateblock'', ''reconsiderblock'']),
      (SCAN_UTXO_SET, [''scantxoutset'']),
      (BLOCK_PROPOSAL, [''getblocktemplate'']),
      (KNOWN_ADDRESSES, [''addpeeraddress'', ''getnodeaddresses'']),
      (RPC_INFO, [''getrpcinfo'']),
      (CLUSTER_LINEARIZATION, [''getmempoolcluster'', ''getmempoolfeeratediagram'']),
      (MEMPOOL_GRAPH, [''getmempoolancestors'', ''getmempooldescendants'', ''gettxspendingprevout'']),
      (PRECIOUS_BLOCK, [''preciousblock'']),
      (SIGN_MESSAGE_WITH_PRIVKEY, [''signmessagewithprivkey'', ''verifymessage'']),
      (ESTIMATE_SMART_FEE, [''estimatesmartfee'', ''estimaterawfee'']),
      (DUMP_UTXO_SET, [''dumptxoutset''])]"

definition PROBED :: "((interpreter \<Rightarrow> bool) \<times> capability) list" where
  "PROBED =
     [(writes_auth_cookie, RPC_AUTH_CONFIG),
      (negates_rpcauth, RPC_AUTH_NEGATION),
      (evicts_inbound, INBOUND_EVICTION),
      (serves_ban_list, BAN),
      (sets_min_relay_fee, MIN_RELAY_TX_FEE),
      (permits_bare_multisig, PERMIT_BARE_MULTISIG),
      (serves_chain_tips, CHAIN_TIPS),
      (serves_disconnect, DISCONNECT),
      (serves_submitpackage, PACKAGE_ACCEPTANCE),
      (serves_getorphantxs, ORPHANAGE),
      (replaces_by_cluster, CLUSTER_REPLACEMENT),
      (binds_address, LISTEN_ADDRESS),
      (reads_whitelist, PEER_PERMISSIONS),
      (serves_mempool_entry, MEMPOOL_ENTRY),
      (reads_includeconf, INCLUDE_CONF),
      (serves_setmocktime, CLOCK),
      (serves_generate, GENERATE),
      (build_speaks_v2, V2TRANSPORT),
      (connects_alone, MINE)]"

subsection \<open>What is declared\<close>

definition EVERY_BUILD :: "capability set" where
  "EVERY_BUILD = {CONNECT, BLOCKS_DIR, UTXO_SET_INFO}"

definition BTCLIB_REGTEST_ONLY :: "capability set" where
  "BTCLIB_REGTEST_ONLY = {MINE, CLOCK, GENERATE, TYPED_OUTBOUND}"

definition btclib_capabilities :: "interpreter \<Rightarrow> string \<Rightarrow> capability set result" where
  "btclib_capabilities ip chain =
     (let probed = set (map snd (filter (\<lambda>(probe, c). probe ip) PROBED))
      in bind_r (served_rpcs ip)
        (\<lambda>served. let all_probed = probed \<union> set (map fst (filter (\<lambda>(c, rpcs). JStr ` set rpcs \<subseteq> set served) RPC_CAPABILITIES));
                      kept = (if chain \<noteq> ''regtest'' then all_probed - BTCLIB_REGTEST_ONLY else all_probed)
                  in Inr (if kept = {} then EVERY_BUILD else EVERY_BUILD \<union> kept)))"

subsection \<open>The adapter\<close>

definition BTCLIB_CHAIN_DIRS :: "(string \<times> string) list" where
  "BTCLIB_CHAIN_DIRS = [(''main'', ''mainnet''), (''test'', ''testnet''), (''signet'', ''signet''), (''regtest'', ''regtest'')]"

definition BTCLIB_USER :: string where "BTCLIB_USER = ''tf2''"
definition BTCLIB_PASSWORD :: string where "BTCLIB_PASSWORD = ''tf2''"

definition btclib_command :: "interpreter \<Rightarrow> node_config \<Rightarrow> string list" where
  "btclib_command ip cfg =
     [nc_executable cfg,
      ''-m'',
      ''btclib_node'',
      dashed ''chain'' (nc_chain cfg),
      dashed ''datadir'' (nc_datadir cfg),
      dashed ''rpcport'' (dec (nc_rpc_port cfg)),
      dashed ''rpcbind'' ''127.0.0.1'',
      dashed ''port'' (dec (nc_p2p_port cfg))]
     @ (if nc_chain cfg = ''regtest'' then [] else [dashed ''connect'' ''0'', dashed ''listen'' ''1''])
     @ (if accepts_v1transport ip then [dashed ''v1transport'' ''1''] else [])"

definition btclib_init ::
  "interpreter \<Rightarrow> node_config \<Rightarrow> nat \<Rightarrow> string list \<Rightarrow> (adapter \<times> capability set) result" where
  "btclib_init ip cfg node extra_args =
     bind_r (adapter_init (set (map fst BTCLIB_CHAIN_DIRS)) node (btclib_command ip cfg) extra_args (nc_chain cfg))
       (\<lambda>ad. bind_r (btclib_capabilities ip (nc_chain cfg)) (\<lambda>caps. Inr (ad, caps)))"

definition btclib_chain_dir :: "node_config \<Rightarrow> string result" where
  "btclib_chain_dir cfg =
     (case map_of BTCLIB_CHAIN_DIRS (nc_chain cfg) of
        None \<Rightarrow> Inl (KeyError (nc_chain cfg)) | Some d \<Rightarrow> Inr (under (nc_datadir cfg) d))"

definition btclib_client :: "interpreter \<Rightarrow> node_config \<Rightarrow> factor_state \<Rightarrow> rpc_client result" where
  "btclib_client ip cfg st =
     (case nc_rpc_auth cfg of
        Some (user, password) \<Rightarrow> Inr (client_with cfg st (UserPassword user password))
      | None \<Rightarrow>
          if writes_auth_cookie ip
          then bind_r (btclib_chain_dir cfg) (\<lambda>d. Inr (client_with cfg st (CookieFile (under d ''.cookie''))))
          else Inr (client_with cfg st (UserPassword BTCLIB_USER BTCLIB_PASSWORD)))"

definition btclib_log_path :: "node_config \<Rightarrow> string result" where
  "btclib_log_path cfg = bind_r (btclib_chain_dir cfg) (\<lambda>d. Inr (under d ''history.log''))"

subsection \<open>What sets what\<close>

lemma btclib_plain: "list_all plain_option [''chain'', ''datadir'', ''rpcport'', ''rpcbind'', ''port'', ''connect'', ''listen'', ''v1transport'']"
  by code_simp

lemma btclib_knobs:
  "knob (dashed ''chain'' v) = Some ''chain''" "knob (dashed ''datadir'' v) = Some ''datadir''"
  "knob (dashed ''rpcport'' v) = Some ''rpcport''" "knob (dashed ''rpcbind'' v) = Some ''rpcbind''"
  "knob (dashed ''port'' v) = Some ''port''" "knob (dashed ''connect'' v) = Some ''connect''"
  "knob (dashed ''listen'' v) = Some ''listen''" "knob (dashed ''v1transport'' v) = Some ''v1transport''"
  using btclib_plain [unfolded list.pred_inject] by (simp_all only: knob_dashed)

lemma knob_module: "knob ''-m'' = Some ''m''" "knob ''btclib_node'' = None"
  by code_simp+

text \<open>
  The settings of a node no caller of its adapter may change, each with the token that sets it; off
  regtest what keeps it off the network, and listening all the same.
\<close>

definition btclib_settings :: "node_config \<Rightarrow> (string \<times> string) list" where
  "btclib_settings cfg =
     [(''datadir'', dashed ''datadir'' (nc_datadir cfg)),
      (''rpcport'', dashed ''rpcport'' (dec (nc_rpc_port cfg))),
      (''rpcbind'', dashed ''rpcbind'' ''127.0.0.1''),
      (''port'', dashed ''port'' (dec (nc_p2p_port cfg)))]
     @ (if nc_chain cfg = ''regtest'' then [] else [(''connect'', dashed ''connect'' ''0''), (''listen'', dashed ''listen'' ''1'')])"

lemma btclib_command_setting:
  "setting ''datadir'' (tl (btclib_command ip cfg)) = [dashed ''datadir'' (nc_datadir cfg)]"
  "setting ''rpcport'' (tl (btclib_command ip cfg)) = [dashed ''rpcport'' (dec (nc_rpc_port cfg))]"
  "setting ''rpcbind'' (tl (btclib_command ip cfg)) = [dashed ''rpcbind'' ''127.0.0.1'']"
  "setting ''port'' (tl (btclib_command ip cfg)) = [dashed ''port'' (dec (nc_p2p_port cfg))]"
  "nc_chain cfg \<noteq> ''regtest'' \<Longrightarrow> setting ''connect'' (tl (btclib_command ip cfg)) = [dashed ''connect'' ''0'']"
  "nc_chain cfg \<noteq> ''regtest'' \<Longrightarrow> setting ''listen'' (tl (btclib_command ip cfg)) = [dashed ''listen'' ''1'']"
  by (simp_all add: setting_def btclib_command_def btclib_knobs knob_module)

lemma btclib_command_selecting: "selecting (tl (btclib_command ip cfg)) = [dashed ''chain'' (nc_chain cfg)]"
  by (simp add: selecting_def CHAIN_SELECTORS_def btclib_command_def btclib_knobs knob_module)

lemma btclib_command_settings:
  "(k, token) \<in> set (btclib_settings cfg) \<Longrightarrow> setting k (tl (btclib_command ip cfg)) = [token]"
proof (cases "nc_chain cfg = ''regtest''")
  case True
  then show "(k, token) \<in> set (btclib_settings cfg) \<Longrightarrow> setting k (tl (btclib_command ip cfg)) = [token]"
    unfolding btclib_settings_def if_P [OF True] set_append list.set Un_iff insert_iff empty_iff prod.inject
    by (elim disjE conjE FalseE; simp only: btclib_command_setting)
next
  case False
  then show "(k, token) \<in> set (btclib_settings cfg) \<Longrightarrow> setting k (tl (btclib_command ip cfg)) = [token]"
    unfolding btclib_settings_def if_not_P [OF False] set_append list.set Un_iff insert_iff empty_iff prod.inject
    by (elim disjE conjE FalseE; simp only: btclib_command_setting False not_False_eq_True)
qed

interpretation btclib_argv: adapter_command "btclib_command ip" btclib_settings "\<lambda>cfg. dashed ''chain'' (nc_chain cfg)" for ip
proof
  show "setting ''chain'' (tl (btclib_command ip cfg)) = [dashed ''chain'' (nc_chain cfg)]" for cfg
    by (simp add: setting_def btclib_command_def btclib_knobs knob_module)
  show "btclib_command ip cfg \<noteq> []" for cfg by (simp add: btclib_command_def)
qed (erule btclib_command_settings, rule btclib_command_selecting)

text \<open>
  C39: a btclib-node under test stays on the chain, the data directory and the addresses its adapter
  gave it, whatever build it is and whatever extra arguments it is given; and a build that has a
  switch for unencrypted connections is always started with it.
\<close>

theorem btclib_settings_stand:
  assumes "btclib_init ip cfg node extra_args = Inr (ad, caps)"
    and "(k, token) \<in> set (btclib_settings cfg)"
  shows "setting k (tl (ad_command ad @ ad_extra_args ad)) = [token]
    \<and> selecting (tl (ad_command ad @ ad_extra_args ad)) = [dashed ''chain'' (nc_chain cfg)]
    \<and> (accepts_v1transport ip \<longrightarrow>
        setting ''v1transport'' (tl (ad_command ad @ ad_extra_args ad)) = [dashed ''v1transport'' ''1''])"
proof -
  have ad: "ad_command ad = btclib_command ip cfg" "ad_extra_args ad = extra_args" "check_extra_args (btclib_command ip cfg) extra_args = Inr ()"
    using assms(1) by (auto simp: btclib_init_def adapter_init_def bind_r_Inr_iff split: if_splits)
  have argv: "tl (ad_command ad @ ad_extra_args ad) = tl (btclib_command ip cfg) @ extra_args"
    using ad btclib_argv.command_nonempty by simp
  have own: "setting ''v1transport'' (tl (btclib_command ip cfg)) = [dashed ''v1transport'' ''1'']" if "accepts_v1transport ip"
    using that by (simp add: setting_def btclib_command_def btclib_knobs knob_module)
  have "setting ''v1transport'' (tl (btclib_command ip cfg) @ extra_args) = [dashed ''v1transport'' ''1'']" if "accepts_v1transport ip"
    using checked_settings(1) [OF ad(3) own [OF that] btclib_argv.command_nonempty]
    by (simp add: setting_append own [OF that])
  then show ?thesis unfolding argv by (simp add: btclib_argv.stands [OF ad(3) assms(2)])
qed

text \<open>An interpreter whose build exits 0 on the named programs only, and dispatches two calls.\<close>

definition small_build :: "string list \<Rightarrow> interpreter" where
  "small_build passing = \<lparr>ip_exits = (\<lambda>own_home code. if code \<in> set passing then 0 else 1), ip_prints = (\<lambda>code. (0, ''R'')),
     ip_loads = (\<lambda>out. Inr (JList [JStr ''invalidateblock'', JStr ''reconsiderblock'']))\<rparr>"

definition btclib_small :: node_config where
  "btclib_small = \<lparr>nc_executable = ''/p'', nc_datadir = ''/d'', nc_rpc_port = 7, nc_p2p_port = 8, nc_chain = ''signet'',
     nc_rpc_auth = None\<rparr>"

lemma btclib_settings_stand_witness:
  "\<exists>ad caps. btclib_init (small_build [V1_PROBE]) btclib_small 0 [''-debug''] = Inr (ad, caps)
    \<and> setting ''listen'' (tl (ad_command ad @ ad_extra_args ad)) = [dashed ''listen'' ''1'']
    \<and> setting ''v1transport'' (tl (ad_command ad @ ad_extra_args ad)) = [dashed ''v1transport'' ''1'']"
proof -
  have passes: "check_extra_args (btclib_command (small_build [V1_PROBE]) btclib_small) [''-debug''] = Inr ()" by code_simp
  obtain ad caps where built: "btclib_init (small_build [V1_PROBE]) btclib_small 0 [''-debug''] = Inr (ad, caps)"
    using passes by (auto simp: btclib_init_def adapter_init_def btclib_small_def BTCLIB_CHAIN_DIRS_def btclib_capabilities_def
      served_rpcs_def small_build_def json_iter_def Let_def)
  have setting: "(''listen'', dashed ''listen'' ''1'') \<in> set (btclib_settings btclib_small)"
    by (simp add: btclib_settings_def btclib_small_def)
  have "accepts_v1transport (small_build [V1_PROBE])" by (simp add: accepts_v1transport_def config_probe_passes_def small_build_def)
  with btclib_settings_stand [OF built setting] built show ?thesis by blast
qed

end
