(* ===== verification/Feature_Chain.thy ===== *)
theory Feature_Chain
  imports Transactions
begin

section \<open>Building Core's block sequence\<close>

text \<open>
  The first part of \<open>feature_block.py\<close>: the steps, the functions that build transactions and blocks,
  and \<open>_Chain\<close>, the bookkeeping the sequence is built on. Every method is an action on the record
  \<open>chain\<close>. What btclib computes is the record \<open>block_lib\<close>; \<open>BlockHeader.time\<close> is kept as the whole
  seconds it is built from and read back as.
\<close>

subsection \<open>Transactions and blocks\<close>

record spend_in =
  si_prev :: outpoint
  si_script_sig :: bytes
  si_sequence :: int

record ftx =
  ft_version :: int
  ft_lock_time :: int
  ft_vin :: "spend_in list"
  ft_vout :: "tx_out list"

record block_header =
  bh_version :: int
  bh_previous :: bytes
  bh_merkle_root :: bytes
  bh_time :: int
  bh_bits :: bytes
  bh_nonce :: int

record fblock =
  fb_header :: block_header
  fb_transactions :: "ftx list"

text \<open>What \<open>script.serialize\<close> takes: an op code's name, octets to push, a number to push.\<close>

datatype script_item = OpName string | PushData bytes | PushInt int

record block_lib =
  fl_genesis_hash :: bytes
  fl_pow_limit_bits :: bytes
  fl_max_sigops_cost :: int
  fl_max_weight :: int
  fl_max_future :: int
  fl_witness_scale :: int
  fl_max_element :: nat
  fl_max_script :: nat
  fl_halving :: int
  fl_subsidy :: "nat \<Rightarrow> int \<Rightarrow> int"
  fl_hash :: "block_header \<Rightarrow> bytes"
  fl_target :: "block_header \<Rightarrow> int"
  fl_mine :: "block_header \<Rightarrow> block_header option"
  fl_header_octets :: "block_header \<Rightarrow> bytes"
  fl_merkle_root :: "ftx list \<Rightarrow> bytes"
  fl_weight :: "fblock \<Rightarrow> int"
  fl_tx_id :: "ftx \<Rightarrow> bytes"
  fl_tx_octets :: "ftx \<Rightarrow> bytes"
  fl_tx_weight :: "ftx \<Rightarrow> int"
  fl_script :: "script_item list \<Rightarrow> bytes"
  fl_op_code :: "string \<Rightarrow> bytes"
  fl_sig_ops :: "bytes \<Rightarrow> int"
  fl_sig_hash :: "bytes \<Rightarrow> ftx \<Rightarrow> nat \<Rightarrow> octet \<Rightarrow> bytes"
  fl_sig_hash_all :: octet
  fl_nonce :: "bytes \<Rightarrow> string \<Rightarrow> int"
  fl_signature :: "bytes \<Rightarrow> int \<Rightarrow> bytes"
  fl_pub_sec :: bytes
  fl_pay_to_key :: bytes
  fl_pay_to_script :: "bytes \<Rightarrow> bytes"
  fl_check_out :: "tx_out \<Rightarrow> unit result"

subsection \<open>Constants\<close>

definition BIP34_HEIGHT :: nat where "BIP34_HEIGHT = 2"
definition COIN :: int where "COIN = 100000000"
definition MAX_BLOCK_SIGOPS :: "block_lib \<Rightarrow> int" where
  "MAX_BLOCK_SIGOPS lib = fl_max_sigops_cost lib div fl_witness_scale lib"
definition VERSION :: int where "VERSION = 4"
definition TX_VERSION :: int where "TX_VERSION = 2"
definition MAX_SEQUENCE_NONFINAL :: int where "MAX_SEQUENCE_NONFINAL = 0xFFFFFFFE"
definition SEQUENCE_FINAL :: int where "SEQUENCE_FINAL = 0xFFFFFFFF"
definition OP_TRUE :: "block_lib \<Rightarrow> bytes" where "OP_TRUE lib = fl_script lib [OpName ''OP_TRUE'']"
definition OP_RETURN :: "block_lib \<Rightarrow> bytes" where "OP_RETURN lib = fl_script lib [OpName ''OP_RETURN'']"
definition OP_CHECKSIG :: "block_lib \<Rightarrow> bytes" where "OP_CHECKSIG lib = fl_op_code lib ''OP_CHECKSIG''"
definition OP_CHECKSIGVERIFY :: "block_lib \<Rightarrow> bytes" where "OP_CHECKSIGVERIFY lib = fl_op_code lib ''OP_CHECKSIGVERIFY''"
definition OP_CHECKMULTISIG :: "block_lib \<Rightarrow> bytes" where "OP_CHECKMULTISIG lib = fl_op_code lib ''OP_CHECKMULTISIG''"
definition OP_CHECKMULTISIGVERIFY :: "block_lib \<Rightarrow> bytes" where
  "OP_CHECKMULTISIGVERIFY lib = fl_op_code lib ''OP_CHECKMULTISIGVERIFY''"
definition OP_PUSHDATA4 :: "block_lib \<Rightarrow> octet" where "OP_PUSHDATA4 lib = hd (fl_op_code lib ''OP_PUSHDATA4'')"
definition OP_INVALIDOPCODE :: bytes where "OP_INVALIDOPCODE = [0xff]"
definition DROPS :: "block_lib \<Rightarrow> bytes" where
  "DROPS lib = fl_script lib (concat (replicate 15 [OpName ''OP_TRUE'', OpName ''OP_DROP'']) @ [OpName ''OP_TRUE''])"
definition DUPLICATE_COINBASE_SCRIPT_SIG :: bytes where "DUPLICATE_COINBASE_SCRIPT_SIG = [0x01, 0x78]"
definition DUPLICATE_COINBASE_HEIGHT :: nat where "DUPLICATE_COINBASE_HEIGHT = 120"
definition PADDING_OVERHEAD :: int where "PADDING_OVERHEAD = 276"
definition BUFFER_BLOCKS :: nat where "BUFFER_BLOCKS = 99"
definition OUTPUTS_TO_COLLECT :: nat where "OUTPUTS_TO_COLLECT = 33"
definition BLOATED_COUNT_PREFIX :: bytes where "BLOATED_COUNT_PREFIX = [0xff]"
definition BOGUS_TX_ID :: bytes where
  "BOGUS_TX_ID = rev (take 32 (map (\<lambda>c. word_of_nat (of_char c)) ''23c70ed7c0506e9178fc1a987f40a33946d4ad4c962b5ae3a52546da53af0c5c''))"

subsection \<open>Building transactions and blocks\<close>

definition checked_that :: "bool \<Rightarrow> string \<Rightarrow> unit result" where
  "checked_that condition what = (if condition then Inr () else Inl (AssertionError what))"

text \<open>\<open>xs[i]\<close> for \<open>i\<close> not negative.\<close>

definition item_at :: "'a list \<Rightarrow> nat \<Rightarrow> 'a result" where
  "item_at xs i = (if i < length xs then Inr (xs ! i) else Inl (IndexError ''list index out of range''))"

definition solve :: "block_lib \<Rightarrow> block_header \<Rightarrow> block_header result" where
  "solve lib header =
     (case fl_mine lib (header\<lparr>bh_nonce := 0\<rparr>) of
        None \<Rightarrow> Inl (AssertionError ''no nonce solves the header'') | Some solved \<Rightarrow> Inr solved)"

definition make_block :: "block_lib \<Rightarrow> bytes \<Rightarrow> ftx list \<Rightarrow> int \<Rightarrow> int \<Rightarrow> bytes \<Rightarrow> fblock result" where
  "make_block lib previous transactions time version bits =
     bind_r (solve lib \<lparr>bh_version = version, bh_previous = previous, bh_merkle_root = fl_merkle_root lib transactions,
                         bh_time = time, bh_bits = bits, bh_nonce = 0\<rparr>)
       (\<lambda>header. Inr \<lparr>fb_header = header, fb_transactions = transactions\<rparr>)"

definition with_header :: "block_lib \<Rightarrow> fblock \<Rightarrow> bytes option \<Rightarrow> bytes option \<Rightarrow> fblock result" where
  "with_header lib block merkle_root bits =
     (let old = fb_header block;
          header = old\<lparr>bh_merkle_root := (case merkle_root of None \<Rightarrow> bh_merkle_root old | Some r \<Rightarrow> r),
                       bh_bits := (case bits of None \<Rightarrow> bh_bits old | Some b \<Rightarrow> b), bh_nonce := 0\<rparr>
      in bind_r (solve lib header) (\<lambda>solved. Inr \<lparr>fb_header = solved, fb_transactions = fb_transactions block\<rparr>))"

definition coinbase_script_sig :: "block_lib \<Rightarrow> nat \<Rightarrow> bytes" where
  "coinbase_script_sig lib height =
     (if height \<le> 16 then fl_script lib [OpName (''OP_'' @ dec height), OpName ''OP_0''] else fl_script lib [PushInt (int height)])"

definition null_outpoint :: outpoint where
  "null_outpoint = \<lparr>op_txid = replicate 32 0, op_vout = 0xFFFFFFFF\<rparr>"

definition fcoinbase ::
  "block_lib \<Rightarrow> nat \<Rightarrow> int option \<Rightarrow> int option \<Rightarrow> bytes option \<Rightarrow> int \<Rightarrow> tx_out list \<Rightarrow> ftx result" where
  "fcoinbase lib height val lock_time script_sig sequence extra_outputs =
     (let out = \<lparr>to_value = (case val of None \<Rightarrow> fl_subsidy lib height (fl_halving lib) | Some v \<Rightarrow> v),
                 to_script = fl_pay_to_key lib\<rparr>
      in bind_r (fl_check_out lib out)
        (\<lambda>_. Inr \<lparr>ft_version = TX_VERSION,
           ft_lock_time = (case lock_time of None \<Rightarrow> int height - 1 | Some t \<Rightarrow> t),
           ft_vin = [\<lparr>si_prev = null_outpoint,
                      si_script_sig = (case script_sig of None \<Rightarrow> coinbase_script_sig lib height | Some s \<Rightarrow> s),
                      si_sequence = sequence\<rparr>],
           ft_vout = out # extra_outputs\<rparr>))"

text \<open>A transaction of one input and one output, as the sequence spells most of its own.\<close>

definition one_to_one :: "int \<Rightarrow> bytes \<Rightarrow> nat \<Rightarrow> bytes \<Rightarrow> int \<Rightarrow> int \<Rightarrow> bytes \<Rightarrow> ftx" where
  "one_to_one lock_time txid n script_sig sequence val script =
     \<lparr>ft_version = TX_VERSION, ft_lock_time = lock_time,
      ft_vin = [\<lparr>si_prev = \<lparr>op_txid = txid, op_vout = n\<rparr>, si_script_sig = script_sig, si_sequence = sequence\<rparr>],
      ft_vout = [\<lparr>to_value = val, to_script = script\<rparr>]\<rparr>"

definition create_tx :: "block_lib \<Rightarrow> ftx \<Rightarrow> nat \<Rightarrow> int \<Rightarrow> bytes \<Rightarrow> ftx result" where
  "create_tx lib spend n val script =
     bind_r (checked_that (n < length (ft_vout spend)) ''no such output to spend'')
       (\<lambda>_. Inr (one_to_one 0 (fl_tx_id lib spend) n [] SEQUENCE_FINAL val script))"

definition with_script_sig :: "ftx \<Rightarrow> nat \<Rightarrow> bytes \<Rightarrow> ftx result" where
  "with_script_sig tx vin_i script_sig =
     bind_r (item_at (ft_vin tx) vin_i)
       (\<lambda>old. Inr (tx\<lparr>ft_vin := (ft_vin tx)[vin_i := old\<lparr>si_script_sig := script_sig\<rparr>]\<rparr>))"

definition with_outputs :: "ftx \<Rightarrow> tx_out list \<Rightarrow> ftx" where
  "with_outputs tx outputs = tx\<lparr>ft_vout := ft_vout tx @ outputs\<rparr>"

definition legacy_sig_op_count :: "block_lib \<Rightarrow> fblock \<Rightarrow> int" where
  "legacy_sig_op_count lib block =
     sum_list (concat (map (\<lambda>tx. map (\<lambda>out. fl_sig_ops lib (to_script out)) (ft_vout tx)) (fb_transactions block)))
     + sum_list (concat (map (\<lambda>tx. map (\<lambda>i. fl_sig_ops lib (si_script_sig i)) (ft_vin tx)) (fb_transactions block)))"

definition padding_tx :: "block_lib \<Rightarrow> fblock \<Rightarrow> int \<Rightarrow> ftx option \<Rightarrow> ftx result" where
  "padding_tx lib block extra spend =
     bind_r (case spend of None \<Rightarrow> item_at (fb_transactions block) 1 | Some tx \<Rightarrow> Inr tx)
       (\<lambda>spend. let script_length = (fl_max_weight lib - fl_weight lib block - PADDING_OVERHEAD) div 4
          in Inr (one_to_one 0 (fl_tx_id lib spend) 0 [] 0 0
                    (fl_script lib [PushData (replicate (nat (script_length + extra)) 0)])))"

subsection \<open>Steps\<close>

record block_step =
  bs_name :: string
  bs_block :: fblock
  bs_becomes_tip :: bool
  bs_reject_reason :: "string option"
  bs_unrequested :: bool
  bs_disconnects :: bool
  bs_serialized :: "bytes option"

datatype fstep =
    BlockStep block_step
  | TipStep string bytes
  | InvalidateStep string bytes
  | MockTimeStep int
  | MempoolStep "bytes set"
  | CoinStep bytes nat int

subsection \<open>The chain's bookkeeping\<close>

record chain =
  ch_start_time :: int
  ch_blocks :: "string \<Rightarrow> fblock option"
  ch_heights :: "bytes \<Rightarrow> nat option"
  ch_tip :: "fblock option"
  ch_spendable :: "fblock list"
  ch_steps :: "fstep list"
  ch_signing_for :: string

definition chain_init :: "block_lib \<Rightarrow> int \<Rightarrow> chain" where
  "chain_init lib start_time =
     \<lparr>ch_start_time = start_time, ch_blocks = (\<lambda>_. None), ch_heights = [fl_genesis_hash lib \<mapsto> 0], ch_tip = None,
      ch_spendable = [], ch_steps = [], ch_signing_for = []\<rparr>"

definition get_s :: "('s \<Rightarrow> 'a) \<Rightarrow> ('s, 'a) act" where
  "get_s f s = (Inr (f s), s)"

definition put_s :: "('s \<Rightarrow> 's) \<Rightarrow> ('s, unit) act" where
  "put_s f s = (Inr (), f s)"

text \<open>One statement after the other.\<close>

fun one_by_one :: "('s, unit) act list \<Rightarrow> ('s, unit) act" where
  "one_by_one [] = ret ()"
| "one_by_one (m # ms) = bind_a m (\<lambda>_. one_by_one ms)"

definition block_hash :: "block_lib \<Rightarrow> fblock \<Rightarrow> bytes" where
  "block_hash lib block = fl_hash lib (fb_header block)"

definition time_of :: "fblock \<Rightarrow> int" where
  "time_of block = bh_time (fb_header block)"

definition block_named :: "string \<Rightarrow> (chain, fblock) act" where
  "block_named name s =
     (case ch_blocks s name of None \<Rightarrow> (Inl (KeyError name), s) | Some block \<Rightarrow> (Inr block, s))"

definition signature_push :: "block_lib \<Rightarrow> ftx \<Rightarrow> nat \<Rightarrow> bytes \<Rightarrow> (chain, bytes) act" where
  "signature_push lib tx vin_i script =
     (let digest = fl_sig_hash lib script tx vin_i (fl_sig_hash_all lib)
      in bind_a (get_s ch_signing_for)
        (\<lambda>signing_for. ret (fl_script lib
           [PushData (fl_signature lib digest (fl_nonce lib digest signing_for) @ [fl_sig_hash_all lib])])))"

definition sign_tx :: "block_lib \<Rightarrow> ftx \<Rightarrow> ftx \<Rightarrow> (chain, ftx) act" where
  "sign_tx lib tx spend =
     bind_a (lift_r (item_at (ft_vout spend) 0))
       (\<lambda>out. if take 1 (to_script out) = OP_TRUE lib then lift_r (with_script_sig tx 0 [])
         else bind_a (signature_push lib tx 0 (to_script out)) (\<lambda>push. lift_r (with_script_sig tx 0 push)))"

definition create_and_sign :: "block_lib \<Rightarrow> ftx \<Rightarrow> int \<Rightarrow> bytes \<Rightarrow> (chain, ftx) act" where
  "create_and_sign lib spend val script =
     bind_a (lift_r (create_tx lib spend 0 val script)) (\<lambda>tx. sign_tx lib tx spend)"

definition height_of_hash :: "bytes \<Rightarrow> (chain, nat) act" where
  "height_of_hash h s = (case ch_heights s h of None \<Rightarrow> (Inl (KeyError ''heights''), s) | Some n \<Rightarrow> (Inr n, s))"

definition height_named :: "block_lib \<Rightarrow> string \<Rightarrow> (chain, nat) act" where
  "height_named lib name = bind_a (block_named name) (\<lambda>block. height_of_hash (block_hash lib block))"

definition register :: "block_lib \<Rightarrow> string \<Rightarrow> fblock \<Rightarrow> nat \<Rightarrow> (chain, fblock) act" where
  "register lib name block height =
     bind_a (put_s (\<lambda>s. s\<lparr>ch_tip := Some block, ch_heights := (ch_heights s)(block_hash lib block \<mapsto> height),
                          ch_blocks := (ch_blocks s)(name \<mapsto> block)\<rparr>))
       (\<lambda>_. ret block)"

text \<open>The block the next one is built on and its time, from the tip or from genesis.\<close>

definition parent_of_next :: "block_lib \<Rightarrow> (chain, bytes \<times> int) act" where
  "parent_of_next lib =
     get_s (\<lambda>s. case ch_tip s of
         None \<Rightarrow> (fl_genesis_hash lib, ch_start_time s + 1) | Some tip \<Rightarrow> (block_hash lib tip, time_of tip + 1))"

text \<open>The transaction a block spends a coinbase with, and what it adds to the coinbase's value.\<close>

definition spending :: "block_lib \<Rightarrow> ftx option \<Rightarrow> bytes \<Rightarrow> (chain, int \<times> ftx list) act" where
  "spending lib spend script =
     (case spend of
        None \<Rightarrow> ret (0, [])
      | Some tx \<Rightarrow> bind_a (lift_r (item_at (ft_vout tx) 0))
          (\<lambda>out. bind_a (create_and_sign lib tx 1 script) (\<lambda>new. ret (to_value out - 1, [new]))))"

definition next_block ::
  "block_lib \<Rightarrow> string \<Rightarrow> ftx option \<Rightarrow> int \<Rightarrow> bytes \<Rightarrow> int \<Rightarrow> bytes list \<Rightarrow> (chain, fblock) act" where
  "next_block lib name spend additional script version output_scripts =
     bind_a (get_s (\<lambda>s. ch_blocks s name))
       (\<lambda>built. bind_a (lift_r (checked_that (built = None) (name @ '' built twice'')))
         (\<lambda>_. bind_a (put_s (\<lambda>s. s\<lparr>ch_signing_for := name\<rparr>))
           (\<lambda>_. bind_a (parent_of_next lib)
             (\<lambda>(previous, block_time). bind_a (height_of_hash previous)
               (\<lambda>below. bind_a (spending lib spend script)
                 (\<lambda>(fees, transactions).
                    let height = below + 1;
                        val = fl_subsidy lib height (fl_halving lib) + additional + fees
                    in bind_a (lift_r (fcoinbase lib height (Some val) None None MAX_SEQUENCE_NONFINAL
                                         (map (\<lambda>scr. \<lparr>to_value = 0, to_script = scr\<rparr>) output_scripts)))
                      (\<lambda>coinbase. bind_a (lift_r (make_block lib previous (coinbase # transactions) block_time version
                                                     (fl_pow_limit_bits lib)))
                        (\<lambda>block. register lib name block height))))))))"

definition rebuild :: "block_lib \<Rightarrow> string \<Rightarrow> ftx list \<Rightarrow> int option \<Rightarrow> (chain, fblock) act" where
  "rebuild lib name transactions time =
     bind_a (block_named name)
       (\<lambda>old. bind_a (height_of_hash (block_hash lib old))
         (\<lambda>height. bind_a (put_s (\<lambda>s. s\<lparr>ch_heights := (ch_heights s)(block_hash lib old := None)\<rparr>))
           (\<lambda>_. bind_a (lift_r (make_block lib (bh_previous (fb_header old)) transactions
                                  (case time of None \<Rightarrow> time_of old | Some t \<Rightarrow> t)
                                  (bh_version (fb_header old)) (bh_bits (fb_header old))))
             (\<lambda>block. register lib name block height))))"

definition update_block :: "block_lib \<Rightarrow> string \<Rightarrow> ftx list \<Rightarrow> int option \<Rightarrow> (chain, fblock) act" where
  "update_block lib name new_transactions time =
     bind_a (block_named name) (\<lambda>old. rebuild lib name (fb_transactions old @ new_transactions) time)"

definition update_coinbase :: "block_lib \<Rightarrow> string \<Rightarrow> ftx \<Rightarrow> (chain, fblock) act" where
  "update_coinbase lib name coinbase =
     bind_a (block_named name) (\<lambda>old. rebuild lib name (coinbase # drop 1 (fb_transactions old)) None)"

definition move_tip :: "string \<Rightarrow> (chain, unit) act" where
  "move_tip name = bind_a (block_named name) (\<lambda>block. put_s (\<lambda>s. s\<lparr>ch_tip := Some block\<rparr>))"

definition save_spendable_output :: "(chain, unit) act" where
  "save_spendable_output =
     bind_a (get_s ch_tip)
       (\<lambda>tip. case tip of
           None \<Rightarrow> raise (AssertionError ''no block to save'')
         | Some block \<Rightarrow> put_s (\<lambda>s. s\<lparr>ch_spendable := ch_spendable s @ [block]\<rparr>))"

definition get_spendable_output :: "(chain, ftx) act" where
  "get_spendable_output =
     bind_a (get_s ch_spendable)
       (\<lambda>saved. case saved of
           [] \<Rightarrow> raise (IndexError ''pop from empty list'')
         | block # rest \<Rightarrow> bind_a (put_s (\<lambda>s. s\<lparr>ch_spendable := rest\<rparr>)) (\<lambda>_. lift_r (item_at (fb_transactions block) 0)))"

definition add_step :: "fstep \<Rightarrow> (chain, unit) act" where
  "add_step st = put_s (\<lambda>s. s\<lparr>ch_steps := ch_steps s @ [st]\<rparr>)"

definition send_block ::
  "string \<Rightarrow> bool \<Rightarrow> string option \<Rightarrow> bool \<Rightarrow> bool \<Rightarrow> fblock option \<Rightarrow> bytes option \<Rightarrow> (chain, unit) act" where
  "send_block name becomes_tip reject_reason unrequested disconnects block serialized =
     bind_a (case block of None \<Rightarrow> block_named name | Some b \<Rightarrow> ret b)
       (\<lambda>b. add_step (BlockStep \<lparr>bs_name = name, bs_block = b, bs_becomes_tip = becomes_tip, bs_reject_reason = reject_reason,
                                 bs_unrequested = unrequested, bs_disconnects = disconnects, bs_serialized = serialized\<rparr>))"

definition reject_block :: "string \<Rightarrow> string \<Rightarrow> bool \<Rightarrow> bool \<Rightarrow> fblock option \<Rightarrow> (chain, unit) act" where
  "reject_block name reject_reason unrequested disconnects block =
     send_block name False (Some reject_reason) unrequested disconnects block None"

text \<open>The calls as the sequence mostly makes them, the keywords at their defaults.\<close>

definition next_on :: "block_lib \<Rightarrow> string \<Rightarrow> (chain, fblock) act" where
  "next_on lib name = next_block lib name None 0 (OP_TRUE lib) VERSION []"

definition next_spending :: "block_lib \<Rightarrow> string \<Rightarrow> ftx \<Rightarrow> bytes \<Rightarrow> (chain, fblock) act" where
  "next_spending lib name spend script = next_block lib name (Some spend) 0 script VERSION []"

definition next_worth :: "block_lib \<Rightarrow> string \<Rightarrow> ftx option \<Rightarrow> int \<Rightarrow> (chain, fblock) act" where
  "next_worth lib name spend additional = next_block lib name spend additional (OP_TRUE lib) VERSION []"

definition forget :: "(chain, 'a) act \<Rightarrow> (chain, unit) act" where
  "forget m = bind_a m (\<lambda>_. ret ())"

definition send_tip :: "string \<Rightarrow> (chain, unit) act" where
  "send_tip name = send_block name True None False False None None"

definition send_side :: "string \<Rightarrow> (chain, unit) act" where
  "send_side name = send_block name False None False False None None"

definition refused :: "string \<Rightarrow> string \<Rightarrow> (chain, unit) act" where
  "refused name reject_reason = reject_block name reject_reason False True None"

end
