(* ===== verification/Feature_Runs.thy ===== *)
theory Feature_Runs
  imports Feature_Chain
begin

section \<open>Core's runs from b1 to b55\<close>

text \<open>
  The first half of the sequence of \<open>feature_block.py\<close>, one definition per function and per block or
  pair of blocks of the longer ones. \<open>out\<close> is the list of the collected coinbases. The two loops
  that end only where btclib's weights and hashes let them are partial functions.
\<close>

subsection \<open>Calls the runs share\<close>

definition next_out :: "block_lib \<Rightarrow> string \<Rightarrow> ftx list \<Rightarrow> nat \<Rightarrow> bytes \<Rightarrow> (chain, fblock) act" where
  "next_out lib name out i script =
     bind_a (lift_r (item_at out i)) (\<lambda>spend. next_spending lib name spend script)"

definition grow :: "block_lib \<Rightarrow> string \<Rightarrow> ftx list \<Rightarrow> nat \<Rightarrow> (chain, unit) act" where
  "grow lib name out i = forget (next_out lib name out i (OP_TRUE lib))"

definition grow_empty :: "block_lib \<Rightarrow> string \<Rightarrow> (chain, unit) act" where
  "grow_empty lib name = forget (next_on lib name)"

definition grow_worth :: "block_lib \<Rightarrow> string \<Rightarrow> ftx list \<Rightarrow> nat \<Rightarrow> int \<Rightarrow> (chain, unit) act" where
  "grow_worth lib name out i additional =
     bind_a (lift_r (item_at out i)) (\<lambda>spend. forget (next_worth lib name (Some spend) additional))"

definition pay_from :: "block_lib \<Rightarrow> ftx list \<Rightarrow> nat \<Rightarrow> int \<Rightarrow> bytes \<Rightarrow> (chain, ftx) act" where
  "pay_from lib out i val script = bind_a (lift_r (item_at out i)) (\<lambda>spend. create_and_sign lib spend val script)"

definition append_txs :: "block_lib \<Rightarrow> string \<Rightarrow> ftx list \<Rightarrow> (chain, unit) act" where
  "append_txs lib name txs = forget (update_block lib name txs None)"

definition assert_that :: "bool \<Rightarrow> string \<Rightarrow> (chain, unit) act" where
  "assert_that condition what = lift_r (checked_that condition what)"

definition octets_times :: "bytes \<Rightarrow> int \<Rightarrow> bytes" where
  "octets_times bs n = concat (replicate (nat n) bs)"

definition coinbase_value :: "fblock \<Rightarrow> int result" where
  "coinbase_value block =
     bind_r (item_at (fb_transactions block) 0) (\<lambda>tx. bind_r (item_at (ft_vout tx) 0) (\<lambda>out. Inr (to_value out)))"

definition replace_coinbase ::
  "block_lib \<Rightarrow> string \<Rightarrow> fblock \<Rightarrow> nat \<Rightarrow> int option \<Rightarrow> bytes option \<Rightarrow> int \<Rightarrow> (chain, fblock) act" where
  "replace_coinbase lib name block height lock_time script_sig sequence =
     bind_a (lift_r (coinbase_value block))
       (\<lambda>val. bind_a (lift_r (fcoinbase lib height (Some val) lock_time script_sig sequence []))
         (\<lambda>coinbase. update_coinbase lib name coinbase))"

subsection \<open>\<open>_fork_and_reorg\<close>\<close>

definition fork_and_reorg :: "block_lib \<Rightarrow> ftx list \<Rightarrow> (chain, unit) act" where
  "fork_and_reorg lib out = one_by_one
     [grow lib ''b1'' out 0, save_spendable_output,
      grow lib ''b2'' out 1, save_spendable_output,
      send_tip ''b1'', send_tip ''b2'',
      move_tip ''b1'', grow lib ''b3'' out 1, send_side ''b3'',
      grow lib ''b4'' out 2, send_tip ''b4'',
      move_tip ''b2'', grow lib ''b5'' out 2, save_spendable_output, send_side ''b5'',
      grow lib ''b6'' out 3, send_tip ''b6'',
      move_tip ''b5'', grow lib ''b7'' out 2, send_side ''b7'',
      grow lib ''b8'' out 4, send_block ''b8'' False None False True None None,
      move_tip ''b6'', grow_worth lib ''b9'' out 4 1, refused ''b9'' ''bad-cb-amount'',
      move_tip ''b5'', grow lib ''b10'' out 3, send_side ''b10'',
      grow_worth lib ''b11'' out 4 1, refused ''b11'' ''bad-cb-amount'',
      move_tip ''b5'', grow lib ''b12'' out 3, save_spendable_output,
      grow lib ''b13'' out 4, save_spendable_output,
      grow_worth lib ''b14'' out 5 1,
      send_side ''b12'', send_tip ''b13'', refused ''b14'' ''bad-cb-amount'',
      bind_a (block_named ''b13'') (\<lambda>b13. add_step (TipStep ''b13'' (block_hash lib b13)))]"

subsection \<open>\<open>_sigops_and_spends\<close>\<close>

definition spends_off_the_chain :: "block_lib \<Rightarrow> ftx list \<Rightarrow> ftx \<Rightarrow> (chain, unit) act" where
  "spends_off_the_chain lib out txout_b3 = one_by_one
     [move_tip ''b15'', forget (next_spending lib ''b17'' txout_b3 (OP_TRUE lib)),
      refused ''b17'' ''bad-txns-inputs-missingorspent'',
      move_tip ''b13'', forget (next_spending lib ''b18'' txout_b3 (OP_TRUE lib)), send_side ''b18'',
      grow lib ''b19'' out 6, refused ''b19'' ''bad-txns-inputs-missingorspent'',
      move_tip ''b15'', grow lib ''b20'' out 7, refused ''b20'' ''bad-txns-premature-spend-of-coinbase'',
      move_tip ''b13'', grow lib ''b21'' out 6, send_side ''b21'',
      grow lib ''b22'' out 5, refused ''b22'' ''bad-txns-premature-spend-of-coinbase'']"

definition sigops_and_spends :: "block_lib \<Rightarrow> ftx list \<Rightarrow> (chain, unit) act" where
  "sigops_and_spends lib out = one_by_one
     [move_tip ''b13'',
      forget (next_out lib ''b15'' out 5 (octets_times (OP_CHECKSIG lib) (MAX_BLOCK_SIGOPS lib - 1))),
      save_spendable_output, send_tip ''b15'',
      forget (next_out lib ''b16'' out 6 (octets_times (OP_CHECKSIG lib) (MAX_BLOCK_SIGOPS lib))),
      refused ''b16'' ''bad-blk-sigops'',
      bind_a (block_named ''b3'')
        (\<lambda>b3. bind_a (lift_r (item_at (fb_transactions b3) 1)) (spends_off_the_chain lib out))]"

subsection \<open>\<open>_weight_and_coinbase_length\<close>\<close>

text \<open>Answers b23's second transaction, whose output b24's padding spends.\<close>

definition full_block :: "block_lib \<Rightarrow> ftx list \<Rightarrow> (chain, fblock) act" where
  "full_block lib out =
     bind_a (move_tip ''b15'')
       (\<lambda>_. bind_a (next_out lib ''b23'' out 6 (OP_TRUE lib))
         (\<lambda>b23. bind_a (lift_r (padding_tx lib b23 0 None))
           (\<lambda>padding. bind_a (update_block lib ''b23'' [padding] None)
             (\<lambda>b23. bind_a (one_by_one
                 [assert_that (fl_weight lib b23 = fl_max_weight lib) ''b23 is not of MAX_BLOCK_WEIGHT'',
                  send_tip ''b23'', save_spendable_output])
               (\<lambda>_. ret b23)))))"

definition overfull_block :: "block_lib \<Rightarrow> ftx list \<Rightarrow> fblock \<Rightarrow> (chain, unit) act" where
  "overfull_block lib out b23 =
     bind_a (move_tip ''b15'')
       (\<lambda>_. bind_a (next_out lib ''b24'' out 6 (OP_TRUE lib))
         (\<lambda>b24. bind_a (lift_r (item_at (fb_transactions b23) 1))
           (\<lambda>spend. bind_a (lift_r (padding_tx lib b24 1 (Some spend)))
             (\<lambda>padding. bind_a (update_block lib ''b24'' [padding] None)
               (\<lambda>b24. one_by_one
                 [assert_that (fl_weight lib b24 = fl_max_weight lib + 4) ''b24 is not four over'',
                  refused ''b24'' ''bad-blk-length'', grow lib ''b25'' out 7, send_side ''b25''])))))"

definition coinbase_of_length ::
  "block_lib \<Rightarrow> ftx list \<Rightarrow> string \<Rightarrow> string \<Rightarrow> nat \<Rightarrow> (chain, unit) act" where
  "coinbase_of_length lib out name child len =
     bind_a (move_tip ''b15'')
       (\<lambda>_. bind_a (next_out lib name out 6 (OP_TRUE lib))
         (\<lambda>block. bind_a (height_named lib name)
           (\<lambda>height. bind_a (replace_coinbase lib name block height None (Some (replicate len 0)) MAX_SEQUENCE_NONFINAL)
             (\<lambda>_. one_by_one [refused name ''bad-cb-length'', grow lib child out 7, send_side child]))))"

definition coinbase_of_a_hundred :: "block_lib \<Rightarrow> (chain, unit) act" where
  "coinbase_of_a_hundred lib =
     bind_a (move_tip ''b23'')
       (\<lambda>_. bind_a (next_on lib ''b30'')
         (\<lambda>b30. bind_a (height_named lib ''b30'')
           (\<lambda>height. let start = coinbase_script_sig lib height
              in bind_a (replace_coinbase lib ''b30'' b30 height None (Some (start @ replicate (100 - length start) 0))
                           MAX_SEQUENCE_NONFINAL)
                (\<lambda>_. one_by_one [send_tip ''b30'', save_spendable_output]))))"

definition weight_and_coinbase_length :: "block_lib \<Rightarrow> ftx list \<Rightarrow> (chain, unit) act" where
  "weight_and_coinbase_length lib out =
     bind_a (full_block lib out)
       (\<lambda>b23. one_by_one
         [overfull_block lib out b23,
          coinbase_of_length lib out ''b26'' ''b27'' 1,
          coinbase_of_length lib out ''b28'' ''b29'' 101,
          coinbase_of_a_hundred lib])"

subsection \<open>\<open>_checkmultisig_sigops\<close>\<close>

definition multisig_blocks :: "block_lib \<Rightarrow> ftx list \<Rightarrow> (chain, unit) act" where
  "multisig_blocks lib out =
     (let lots = octets_times (OP_CHECKMULTISIG lib) ((MAX_BLOCK_SIGOPS lib - 1) div 20) @ octets_times (OP_CHECKSIG lib) 19;
          too_many = octets_times (OP_CHECKMULTISIG lib) (MAX_BLOCK_SIGOPS lib div 20)
      in bind_a (next_out lib ''b31'' out 8 lots)
        (\<lambda>b31. bind_a (one_by_one
            [assert_that (legacy_sig_op_count lib b31 = MAX_BLOCK_SIGOPS lib) ''b31 is not at the bound'',
             send_tip ''b31'', save_spendable_output])
          (\<lambda>_. bind_a (next_out lib ''b32'' out 9 too_many)
            (\<lambda>b32. one_by_one
              [assert_that (legacy_sig_op_count lib b32 = MAX_BLOCK_SIGOPS lib + 1) ''b32 is not one over'',
               refused ''b32'' ''bad-blk-sigops'']))))"

definition verify_blocks :: "block_lib \<Rightarrow> ftx list \<Rightarrow> (chain, unit) act" where
  "verify_blocks lib out = one_by_one
     [move_tip ''b31'',
      forget (next_out lib ''b33'' out 9
        (octets_times (OP_CHECKMULTISIGVERIFY lib) ((MAX_BLOCK_SIGOPS lib - 1) div 20) @ octets_times (OP_CHECKSIG lib) 19)),
      send_tip ''b33'', save_spendable_output,
      forget (next_out lib ''b34'' out 10 (octets_times (OP_CHECKMULTISIGVERIFY lib) (MAX_BLOCK_SIGOPS lib div 20))),
      refused ''b34'' ''bad-blk-sigops'',
      move_tip ''b33'',
      forget (next_out lib ''b35'' out 10 (octets_times (OP_CHECKSIGVERIFY lib) (MAX_BLOCK_SIGOPS lib - 1))),
      send_tip ''b35'', save_spendable_output,
      forget (next_out lib ''b36'' out 11 (octets_times (OP_CHECKSIGVERIFY lib) (MAX_BLOCK_SIGOPS lib))),
      refused ''b36'' ''bad-blk-sigops'']"

definition spends_of_a_failed_block :: "block_lib \<Rightarrow> ftx list \<Rightarrow> (chain, unit) act" where
  "spends_of_a_failed_block lib out =
     bind_a (move_tip ''b35'')
       (\<lambda>_. bind_a (next_out lib ''b37'' out 11 (OP_TRUE lib))
         (\<lambda>b37. bind_a (lift_r (item_at (fb_transactions b37) 1))
           (\<lambda>txout_b37. bind_a (pay_from lib out 11 0 (OP_TRUE lib))
             (\<lambda>again. one_by_one
               [append_txs lib ''b37'' [again], refused ''b37'' ''bad-txns-inputs-missingorspent'',
                move_tip ''b35'', forget (next_spending lib ''b38'' txout_b37 (OP_TRUE lib)),
                refused ''b38'' ''bad-txns-inputs-missingorspent'']))))"

definition checkmultisig_sigops :: "block_lib \<Rightarrow> ftx list \<Rightarrow> (chain, unit) act" where
  "checkmultisig_sigops lib out = one_by_one [multisig_blocks lib out, verify_blocks lib out, spends_of_a_failed_block lib out]"

end
