(* ===== verification/Feature_Loops.thy ===== *)
theory Feature_Loops
  imports Feature_Runs
begin

section \<open>Core's runs from b39 to b52\<close>

text \<open>
  \<open>_p2sh_sigops\<close> and \<open>_malformed\<close>, which loop: the one until a block is full, the other until a
  header misses its target. Whether they end is the weights' and the hashes' to say, so each is a
  \<open>partial_function\<close> whose \<open>None\<close> is not returning.
\<close>

subsection \<open>\<open>_p2sh_sigops\<close>\<close>

definition redeem_script :: "block_lib \<Rightarrow> bytes" where
  "redeem_script lib = fl_script lib
     ([PushData (fl_pub_sec lib)] @ concat (replicate 5 [OpName ''OP_2DUP'', OpName ''OP_CHECKSIGVERIFY'']) @ [OpName ''OP_CHECKSIG''])"

definition p2sh_script :: "block_lib \<Rightarrow> bytes" where
  "p2sh_script lib = fl_pay_to_script lib (redeem_script lib)"

definition sigops_per_output :: int where "sigops_per_output = 6"

definition rest_to_true :: "block_lib \<Rightarrow> tx_out \<Rightarrow> tx_out result" where
  "rest_to_true lib spent =
     (let rest = \<lparr>to_value = to_value spent - 1, to_script = OP_TRUE lib\<rparr> in bind_r (fl_check_out lib rest) (\<lambda>_. Inr rest))"

text \<open>\<open>b39\<close> with its first transaction: a satoshi to the P2SH script, the rest to \<open>OP_TRUE\<close>.\<close>

definition first_of_b39 :: "block_lib \<Rightarrow> ftx list \<Rightarrow> (chain, fblock \<times> ftx) act" where
  "first_of_b39 lib out =
     bind_a (move_tip ''b35'')
       (\<lambda>_. bind_a (next_on lib ''b39'')
         (\<lambda>_. bind_a (lift_r (item_at out 11))
           (\<lambda>spend. bind_a (lift_r (create_tx lib spend 0 1 (p2sh_script lib)))
             (\<lambda>tx. bind_a (lift_r (item_at (ft_vout spend) 0))
               (\<lambda>spent. bind_a (lift_r (rest_to_true lib spent))
                 (\<lambda>rest. bind_a (sign_tx lib (with_outputs tx [rest]) spend)
                   (\<lambda>tx. bind_a (update_block lib ''b39'' [tx] None) (\<lambda>b39. ret (b39, tx)))))))))"

text \<open>The transactions that follow it, until the next would fill the block.\<close>

definition next_filler :: "block_lib \<Rightarrow> ftx \<Rightarrow> ftx result" where
  "next_filler lib tx_last =
     bind_r (create_tx lib tx_last 1 1 (p2sh_script lib))
       (\<lambda>tx. bind_r (item_at (ft_vout tx_last) 1)
         (\<lambda>spent. bind_r (rest_to_true lib spent) (\<lambda>rest. Inr (with_outputs tx [rest]))))"

partial_function (option) fill_b39 :: "block_lib \<Rightarrow> ftx list \<Rightarrow> ftx \<Rightarrow> int \<Rightarrow> nat \<Rightarrow> (ftx list \<times> nat) result option" where
  [code]: "fill_b39 lib transactions tx_last total_weight outputs =
     (case next_filler lib tx_last of
        Inl e \<Rightarrow> Some (Inl e)
      | Inr tx_new \<Rightarrow>
          if fl_max_weight lib \<le> total_weight + fl_tx_weight lib tx_new then Some (Inr (transactions, outputs))
          else fill_b39 lib (transactions @ [tx_new]) tx_new (total_weight + fl_tx_weight lib tx_new) (outputs + 1))"

definition lift_o :: "'a result option \<Rightarrow> ('s, 'a) loop" where
  "lift_o r s = map_option (\<lambda>x. (x, s)) r"

definition whole_of_b39 :: "block_lib \<Rightarrow> fblock \<Rightarrow> ftx list \<Rightarrow> (chain, fblock) act" where
  "whole_of_b39 lib b39 transactions =
     bind_a (assert_that (fl_weight lib \<lparr>fb_header = fb_header b39, fb_transactions = transactions\<rparr> < fl_max_weight lib)
               ''b39 is not under MAX_BLOCK_WEIGHT'')
       (\<lambda>_. bind_a (rebuild lib ''b39'' transactions None)
         (\<lambda>b39. bind_a (one_by_one [send_tip ''b39'', save_spendable_output]) (\<lambda>_. ret b39)))"

text \<open>The transactions of \<open>b40\<close>, each spending the one before and one P2SH output of \<open>b39\<close>.\<close>

definition p2sh_spend :: "block_lib \<Rightarrow> fblock \<Rightarrow> outpoint \<Rightarrow> nat \<Rightarrow> (chain, ftx) act" where
  "p2sh_spend lib b39 last_out_point i =
     bind_a (lift_r (item_at (fb_transactions b39) i))
       (\<lambda>funding.
          let redeem_push = fl_script lib [PushData (redeem_script lib)];
              tx = \<lparr>ft_version = TX_VERSION, ft_lock_time = 0,
                    ft_vin = [\<lparr>si_prev = last_out_point, si_script_sig = [], si_sequence = 0\<rparr>,
                              \<lparr>si_prev = \<lparr>op_txid = fl_tx_id lib funding, op_vout = 0\<rparr>, si_script_sig = redeem_push, si_sequence = 0\<rparr>],
                    ft_vout = [\<lparr>to_value = 1, to_script = OP_TRUE lib\<rparr>]\<rparr>
          in bind_a (lift_r (fl_check_out lib \<lparr>to_value = 1, to_script = OP_TRUE lib\<rparr>))
            (\<lambda>_. bind_a (signature_push lib tx 1 (redeem_script lib))
              (\<lambda>push. lift_r (with_script_sig tx 1 (push @ redeem_push)))))"

fun p2sh_spends :: "block_lib \<Rightarrow> fblock \<Rightarrow> nat list \<Rightarrow> outpoint \<Rightarrow> ftx list \<Rightarrow> (chain, ftx list \<times> outpoint) act" where
  "p2sh_spends lib b39 [] last_out_point new_txs = ret (new_txs, last_out_point)"
| "p2sh_spends lib b39 (i # is) last_out_point new_txs =
     bind_a (p2sh_spend lib b39 last_out_point i)
       (\<lambda>tx. p2sh_spends lib b39 is \<lparr>op_txid = fl_tx_id lib tx, op_vout = 0\<rparr> (new_txs @ [tx]))"

definition sigops_filler :: "block_lib \<Rightarrow> outpoint \<Rightarrow> int \<Rightarrow> ftx" where
  "sigops_filler lib last_out_point count =
     one_to_one 0 (op_txid last_out_point) (op_vout last_out_point) [] 0 1 (octets_times (OP_CHECKSIG lib) count)"

definition p2sh_over_and_at :: "block_lib \<Rightarrow> ftx list \<Rightarrow> fblock \<Rightarrow> nat \<Rightarrow> (chain, unit) act" where
  "p2sh_over_and_at lib out b39 b39_outputs =
     bind_a (move_tip ''b39'')
       (\<lambda>_. bind_a (next_out lib ''b40'' out 12 (OP_TRUE lib))
         (\<lambda>b40.
            let sigops = legacy_sig_op_count lib b40;
                num_txs = (MAX_BLOCK_SIGOPS lib - sigops) div sigops_per_output
            in bind_a (assert_that (num_txs \<le> int b39_outputs) ''b39 holds too few P2SH outputs'')
              (\<lambda>_. bind_a (lift_r (item_at (fb_transactions b40) 1))
                (\<lambda>second. bind_a (p2sh_spends lib b39 [1..<nat (num_txs + 1)] \<lparr>op_txid = fl_tx_id lib second, op_vout = 0\<rparr> [])
                  (\<lambda>(new_txs, last_out_point).
                     let to_fill = MAX_BLOCK_SIGOPS lib - (num_txs * sigops_per_output + sigops) + 1
                     in bind_a (update_block lib ''b40'' (new_txs @ [sigops_filler lib last_out_point to_fill]) None)
                       (\<lambda>b40. one_by_one
                         [refused ''b40'' ''bad-blk-sigops'',
                          move_tip ''b39'', grow_empty lib ''b41'',
                          append_txs lib ''b41'' (butlast (drop 1 (fb_transactions b40)) @ [sigops_filler lib last_out_point (to_fill - 1)]),
                          send_tip ''b41'']))))))"

definition p2sh_fork :: "block_lib \<Rightarrow> ftx list \<Rightarrow> (chain, unit) act" where
  "p2sh_fork lib out = one_by_one
     [move_tip ''b39'', grow lib ''b42'' out 12, save_spendable_output,
      grow lib ''b43'' out 13, save_spendable_output, send_side ''b42'', send_tip ''b43'']"

definition p2sh_sigops :: "block_lib \<Rightarrow> ftx list \<Rightarrow> (chain, unit) loop" where
  "p2sh_sigops lib out =
     bind_l (once (first_of_b39 lib out))
       (\<lambda>(b39, tx). bind_l (lift_o (fill_b39 lib (fb_transactions b39) tx (fl_weight lib b39) 1))
         (\<lambda>(transactions, outputs). once
            (bind_a (whole_of_b39 lib b39 transactions)
              (\<lambda>b39. one_by_one [p2sh_over_and_at lib out b39 outputs, p2sh_fork lib out]))))"

subsection \<open>\<open>_malformed\<close>\<close>

definition int_of_octets :: "bytes \<Rightarrow> int" where
  "int_of_octets bs = foldl (\<lambda>n b. 256 * n + uint b) 0 bs"

text \<open>\<open>n.to_bytes(k, "big")\<close>.\<close>

fun octets_of_nat :: "nat \<Rightarrow> nat \<Rightarrow> bytes" where
  "octets_of_nat 0 n = []"
| "octets_of_nat (Suc k) n = octets_of_nat k (n div 256) @ [word_of_nat (n mod 256)]"

definition octets_of_int :: "nat \<Rightarrow> int \<Rightarrow> bytes result" where
  "octets_of_int k n =
     (if 0 \<le> n \<and> n < 256 ^ k then Inr (octets_of_nat k (nat n)) else Inl (OtherError ''OverflowError''))"

text \<open>\<open>b44\<close> and \<open>b45\<close>, built by hand, and \<open>b46\<close>, of no transaction.\<close>

definition blocks_by_hand :: "block_lib \<Rightarrow> ftx list \<Rightarrow> (chain, unit) act" where
  "blocks_by_hand lib out =
     bind_a (block_named ''b43'')
       (\<lambda>tip. bind_a (height_named lib ''b43'')
         (\<lambda>below. let height = below + 1
            in bind_a (put_s (\<lambda>s. s\<lparr>ch_signing_for := ''b44''\<rparr>))
              (\<lambda>_. bind_a (lift_r (fcoinbase lib height None None None MAX_SEQUENCE_NONFINAL []))
                (\<lambda>coinbase. bind_a (pay_from lib out 14 1 (OP_TRUE lib))
                  (\<lambda>tx. bind_a (lift_r (make_block lib (block_hash lib tip) [coinbase, tx] (time_of tip + 1) VERSION (fl_pow_limit_bits lib)))
                    (\<lambda>b44. bind_a (register lib ''b44'' b44 height)
                      (\<lambda>_. bind_a (send_tip ''b44'')
                        (\<lambda>_. bind_a (lift_r (bind_r (item_at out 15) (\<lambda>spend. create_tx lib spend 0 1 (DROPS lib))))
                          (\<lambda>tx. bind_a (lift_r (make_block lib (block_hash lib b44) [tx] (time_of b44 + 1) VERSION (fl_pow_limit_bits lib)))
                            (\<lambda>b45. bind_a (register lib ''b45'' b45 (height + 1))
                              (\<lambda>_. bind_a (refused ''b45'' ''bad-cb-missing'')
                                (\<lambda>_. bind_a (move_tip ''b44'')
                                  (\<lambda>_. bind_a (lift_r (make_block lib (block_hash lib b44) [] (time_of b44 + 1) VERSION (fl_pow_limit_bits lib)))
                                    (\<lambda>b46. bind_a (register lib ''b46'' b46 (height + 1))
                                      (\<lambda>_. refused ''b46'' ''bad-blk-length'')))))))))))))))"

text \<open>The first header, from the solved one's nonce up, whose hash is over the target.\<close>

partial_function (option) over_target :: "block_lib \<Rightarrow> int \<Rightarrow> block_header \<Rightarrow> block_header option" where
  [code]: "over_target lib target header =
     (if int_of_octets (fl_hash lib header) \<le> target
      then over_target lib target (header\<lparr>bh_nonce := bh_nonce header + 1\<rparr>) else Some header)"

definition b47_on_b44 :: "block_lib \<Rightarrow> (chain, fblock) act" where
  "b47_on_b44 lib = bind_a (move_tip ''b44'') (\<lambda>_. next_on lib ''b47'')"

definition block_too_new :: "block_lib \<Rightarrow> (chain, unit) act" where
  "block_too_new lib =
     bind_a (one_by_one [move_tip ''b44'', grow_empty lib ''b48''])
       (\<lambda>_. bind_a (block_named ''b48'')
         (\<lambda>b48. bind_a (get_s ch_start_time)
           (\<lambda>start_time. bind_a (rebuild lib ''b48'' (fb_transactions b48) (Some (start_time + 3 * 60 * 60)))
             (\<lambda>b48. one_by_one
               [assert_that (start_time + fl_max_future lib < time_of b48) ''b48 is not too far ahead'',
                reject_block ''b48'' ''time-too-new'' True False None]))))"

definition block_of_another_root :: "block_lib \<Rightarrow> (chain, unit) act" where
  "block_of_another_root lib =
     bind_a (move_tip ''b44'')
       (\<lambda>_. bind_a (next_on lib ''b49'')
         (\<lambda>b49. bind_a (lift_r (octets_of_int 32 (int_of_octets (bh_merkle_root (fb_header b49)) + 1)))
           (\<lambda>root. bind_a (lift_r (with_header lib b49 (Some root) None))
             (\<lambda>b49. reject_block ''b49'' ''bad-txnmrklroot'' False True (Some b49)))))"

definition block_of_another_target :: "block_lib \<Rightarrow> (chain, unit) act" where
  "block_of_another_target lib =
     bind_a (move_tip ''b44'')
       (\<lambda>_. bind_a (next_on lib ''b50'')
         (\<lambda>b50. bind_a (lift_r (octets_of_int 4 (int_of_octets (bh_bits (fb_header b50)) - 1)))
           (\<lambda>bits. bind_a (lift_r (with_header lib b50 None (Some bits)))
             (\<lambda>b50. reject_block ''b50'' ''bad-diffbits'' True True (Some b50)))))"

definition block_of_two_coinbases :: "block_lib \<Rightarrow> (chain, unit) act" where
  "block_of_two_coinbases lib =
     bind_a (one_by_one [move_tip ''b44'', grow_empty lib ''b51''])
       (\<lambda>_. bind_a (lift_r (fcoinbase lib 51 None None None MAX_SEQUENCE_NONFINAL []))
         (\<lambda>coinbase. one_by_one [append_txs lib ''b51'' [coinbase], refused ''b51'' ''bad-cb-multiple'']))"

definition block_of_a_repeated_tx :: "block_lib \<Rightarrow> ftx list \<Rightarrow> (chain, unit) act" where
  "block_of_a_repeated_tx lib out =
     bind_a (move_tip ''b44'')
       (\<lambda>_. bind_a (next_out lib ''b52'' out 15 (OP_TRUE lib))
         (\<lambda>b52. bind_a (lift_r (bind_r (item_at (fb_transactions b52) 1) (\<lambda>second. create_tx lib second 0 1 (DROPS lib))))
           (\<lambda>tx. one_by_one [append_txs lib ''b52'' [tx, tx], refused ''b52'' ''bad-txns-duplicate''])))"

definition malformed :: "block_lib \<Rightarrow> ftx list \<Rightarrow> (chain, unit) loop" where
  "malformed lib out =
     bind_l (once (bind_a (blocks_by_hand lib out) (\<lambda>_. b47_on_b44 lib)))
       (\<lambda>b47. bind_l (lift_o (map_option Inr (over_target lib (fl_target lib (fb_header b47)) (fb_header b47))))
         (\<lambda>header. once (one_by_one
            [reject_block ''b47'' ''high-hash'' True True (Some \<lparr>fb_header = header, fb_transactions = fb_transactions b47\<rparr>),
             block_too_new lib, block_of_another_root lib, block_of_another_target lib, block_of_two_coinbases lib,
             block_of_a_repeated_tx lib out])))"

end
