(* ===== verification/Feature_Late.thy ===== *)
theory Feature_Late
  imports Feature_Loops
begin

section \<open>Core's runs from b53 on, and the whole sequence\<close>

text \<open>The second half of \<open>feature_block.py\<close>, and \<open>steps\<close>, which runs the whole of it.\<close>

subsection \<open>\<open>_timestamps\<close>\<close>

definition at_the_median :: "block_lib \<Rightarrow> ftx list \<Rightarrow> int \<Rightarrow> (chain, unit) act" where
  "at_the_median lib out b35_time = one_by_one
     [grow lib ''b54'' out 15,
      bind_a (block_named ''b54'') (\<lambda>b54. forget (rebuild lib ''b54'' (fb_transactions b54) (Some (b35_time - 1)))),
      reject_block ''b54'' ''time-too-old'' True True None,
      move_tip ''b53'', grow lib ''b55'' out 15, forget (update_block lib ''b55'' [] (Some b35_time)),
      send_tip ''b55'', save_spendable_output]"

definition clock_moves :: "block_lib \<Rightarrow> (chain, unit) act" where
  "clock_moves lib = one_by_one
     [bind_a (get_s ch_start_time) (\<lambda>start_time. add_step (MockTimeStep (start_time + 2 * 60 * 60))),
      move_tip ''b48'', grow_empty lib ''b48p'', send_side ''b48'', send_tip ''b48p'',
      bind_a (block_named ''b48p'') (\<lambda>b48p. add_step (InvalidateStep ''b48p'' (block_hash lib b48p))),
      add_step (MockTimeStep 0)]"

definition timestamps :: "block_lib \<Rightarrow> ftx list \<Rightarrow> (chain, unit) act" where
  "timestamps lib out = one_by_one
     [move_tip ''b43'', grow lib ''b53'' out 14, send_side ''b53'', save_spendable_output,
      bind_a (block_named ''b35'') (\<lambda>b35. at_the_median lib out (time_of b35)),
      clock_moves lib]"

subsection \<open>\<open>_merkle_malleability\<close>\<close>

text \<open>A block under another's header, its transactions repeated: the same root, so the same hash.\<close>

definition malleated ::
  "block_lib \<Rightarrow> string \<Rightarrow> string \<Rightarrow> fblock \<Rightarrow> ftx list \<Rightarrow> string \<Rightarrow> (chain, unit) act" where
  "malleated lib name original block repeated what =
     bind_a (move_tip ''b55'')
       (\<lambda>_. let twin = \<lparr>fb_header = fb_header block, fb_transactions = fb_transactions block @ repeated\<rparr>
          in bind_a (assert_that (fl_merkle_root lib (fb_transactions twin) = bh_merkle_root (fb_header block)) what)
            (\<lambda>_. bind_a (height_named lib original)
              (\<lambda>height. bind_a (register lib name twin height)
                (\<lambda>_. refused name ''bad-txns-duplicate''))))"

definition one_repeated :: "block_lib \<Rightarrow> ftx list \<Rightarrow> (chain, unit) act" where
  "one_repeated lib out =
     bind_a (one_by_one [move_tip ''b55'', grow_empty lib ''b57''])
       (\<lambda>_. bind_a (pay_from lib out 16 1 (OP_TRUE lib))
         (\<lambda>tx. bind_a (lift_r (create_tx lib tx 0 1 (DROPS lib)))
           (\<lambda>tx1. bind_a (update_block lib ''b57'' [tx, tx1] None)
             (\<lambda>b57. malleated lib ''b56'' ''b57'' b57 [tx1] ''b56 commits to another root''))))"

definition two_repeated :: "block_lib \<Rightarrow> ftx list \<Rightarrow> (chain, unit) act" where
  "two_repeated lib out =
     bind_a (one_by_one [move_tip ''b55'', grow_empty lib ''b57p2''])
       (\<lambda>_. bind_a (pay_from lib out 16 1 (OP_TRUE lib))
         (\<lambda>tx. bind_a (lift_r (create_tx lib tx 0 1 (DROPS lib)))
           (\<lambda>tx1. bind_a (lift_r (create_tx lib tx1 0 1 (DROPS lib)))
             (\<lambda>tx2. bind_a (lift_r (create_tx lib tx2 0 1 (DROPS lib)))
               (\<lambda>tx3. bind_a (lift_r (create_tx lib tx3 0 1 (DROPS lib)))
                 (\<lambda>tx4. bind_a (update_block lib ''b57p2'' [tx, tx1, tx2, tx3, tx4] None)
                   (\<lambda>b57p2. malleated lib ''b56p2'' ''b57p2'' b57p2 [tx3, tx4] ''b56p2 commits to another root'')))))))"

definition invalid_spends :: "block_lib \<Rightarrow> ftx list \<Rightarrow> (chain, unit) act" where
  "invalid_spends lib out =
     bind_a (one_by_one [move_tip ''b57'', grow lib ''b58'' out 17])
       (\<lambda>_. bind_a (lift_r (item_at out 17))
         (\<lambda>out17. one_by_one
           [assert_that (length (ft_vout out17) < 42) ''out[17] has an output 42'',
            append_txs lib ''b58'' [one_to_one 0 (fl_tx_id lib out17) 42 (OP_TRUE lib) SEQUENCE_FINAL 0 []],
            refused ''b58'' ''bad-txns-inputs-missingorspent'',
            move_tip ''b57'', grow_empty lib ''b59'',
            bind_a (pay_from lib out 17 (51 * COIN) (OP_TRUE lib)) (\<lambda>tx. append_txs lib ''b59'' [tx]),
            refused ''b59'' ''bad-txns-in-belowout'',
            move_tip ''b57'', grow_empty lib ''b60'', send_tip ''b60'', save_spendable_output]))"

definition merkle_malleability :: "block_lib \<Rightarrow> ftx list \<Rightarrow> (chain, unit) act" where
  "merkle_malleability lib out = one_by_one
     [one_repeated lib out, two_repeated lib out,
      move_tip ''b57p2'', send_tip ''b57p2'',
      move_tip ''b57'', send_side ''b57'', save_spendable_output,
      invalid_spends lib out]"

subsection \<open>\<open>_duplicate_coinbase\<close>\<close>

text \<open>The next block under \<open>dup_cb\<close>'s coinbase: the same transaction, octet for octet.\<close>

definition with_duplicate :: "block_lib \<Rightarrow> string \<Rightarrow> fblock \<Rightarrow> ftx \<Rightarrow> string \<Rightarrow> (chain, unit) act" where
  "with_duplicate lib name block duplicate_tx what =
     bind_a (replace_coinbase lib name block DUPLICATE_COINBASE_HEIGHT (Some 0) (Some DUPLICATE_COINBASE_SCRIPT_SIG)
               MAX_SEQUENCE_NONFINAL)
       (\<lambda>block. bind_a (lift_r (item_at (fb_transactions block) 0))
         (\<lambda>coinbase. assert_that (fl_tx_octets lib coinbase = fl_tx_octets lib duplicate_tx) what))"

definition while_unspent :: "block_lib \<Rightarrow> ftx \<Rightarrow> (chain, unit) act" where
  "while_unspent lib duplicate_tx =
     bind_a (move_tip ''b60'')
       (\<lambda>_. bind_a (next_on lib ''b61'')
         (\<lambda>b61. bind_a (height_named lib ''b61'')
           (\<lambda>height. one_by_one
             [assert_that (height = DUPLICATE_COINBASE_HEIGHT) ''b61 is not at 120'',
              with_duplicate lib ''b61'' b61 duplicate_tx ''b61's coinbase is not dup_cb's'',
              refused ''b61'' ''bad-txns-BIP30''])))"

definition once_spent :: "block_lib \<Rightarrow> ftx \<Rightarrow> (chain, unit) act" where
  "once_spent lib duplicate_tx =
     bind_a (one_by_one [move_tip ''b57'', grow_empty lib ''spend_dup_cb''])
       (\<lambda>_. bind_a (lift_r (fl_check_out lib \<lparr>to_value = 0, to_script = OP_TRUE lib\<rparr>))
         (\<lambda>_. bind_a (sign_tx lib (one_to_one 0 (fl_tx_id lib duplicate_tx) 0 [] 0 0 (OP_TRUE lib)) duplicate_tx)
           (\<lambda>tx. bind_a (append_txs lib ''spend_dup_cb'' [tx])
             (\<lambda>_. bind_a (next_on lib ''dup_2'')
               (\<lambda>dup_2. one_by_one
                 [with_duplicate lib ''dup_2'' dup_2 duplicate_tx ''dup_2's coinbase is not dup_cb's'',
                  add_step (CoinStep (fl_tx_id lib duplicate_tx) 0 (int DUPLICATE_COINBASE_HEIGHT - 1)),
                  send_side ''spend_dup_cb'', send_tip ''dup_2'',
                  add_step (CoinStep (fl_tx_id lib duplicate_tx) 0 1)])))))"

definition not_final :: "block_lib \<Rightarrow> ftx list \<Rightarrow> (chain, unit) act" where
  "not_final lib out =
     bind_a (one_by_one [move_tip ''dup_2'', grow_empty lib ''b62''])
       (\<lambda>_. bind_a (lift_r (item_at out 18))
         (\<lambda>out18. bind_a (lift_r (fl_check_out lib \<lparr>to_value = 0, to_script = OP_TRUE lib\<rparr>))
           (\<lambda>_. bind_a (one_by_one
               [append_txs lib ''b62'' [one_to_one 0xFFFFFFFF (fl_tx_id lib out18) 0 [] 0 0 (OP_TRUE lib)],
                refused ''b62'' ''bad-txns-nonfinal'',
                move_tip ''dup_2''])
             (\<lambda>_. bind_a (next_on lib ''b63'')
               (\<lambda>b63. bind_a (height_named lib ''b63'')
                 (\<lambda>height. bind_a (replace_coinbase lib ''b63'' b63 height (Some 0xFFFFFFFF) None 0xDEADBEEF)
                   (\<lambda>_. refused ''b63'' ''bad-txns-nonfinal'')))))))"

definition duplicate_coinbase :: "block_lib \<Rightarrow> ftx list \<Rightarrow> ftx \<Rightarrow> (chain, unit) act" where
  "duplicate_coinbase lib out duplicate_tx = one_by_one [while_unspent lib duplicate_tx, once_spent lib duplicate_tx, not_final lib out]"

subsection \<open>\<open>_bloated_and_spends\<close>\<close>

text \<open>A coinbase spent whole but for \<open>short\<close> satoshis, as \<open>create_and_sign\<close> does.\<close>

definition pay_all :: "block_lib \<Rightarrow> ftx list \<Rightarrow> nat \<Rightarrow> int \<Rightarrow> bytes \<Rightarrow> (chain, ftx) act" where
  "pay_all lib out i short script =
     bind_a (lift_r (item_at out i))
       (\<lambda>spend. bind_a (lift_r (item_at (ft_vout spend) 0))
         (\<lambda>spent. create_and_sign lib spend (to_value spent - short) script))"

definition bloated_octets :: "block_lib \<Rightarrow> fblock \<Rightarrow> bytes" where
  "bloated_octets lib block =
     fl_header_octets lib (fb_header block) @ BLOATED_COUNT_PREFIX @ rev (octets_of_nat 8 (length (fb_transactions block)))
     @ concat (map (fl_tx_octets lib) (fb_transactions block))"

definition bloated_block :: "block_lib \<Rightarrow> ftx list \<Rightarrow> (chain, unit) act" where
  "bloated_block lib out =
     bind_a (move_tip ''dup_2'')
       (\<lambda>_. bind_a (next_out lib ''b64a'' out 18 (OP_TRUE lib))
         (\<lambda>regular. bind_a (lift_r (padding_tx lib regular 0 None))
           (\<lambda>padding. bind_a (update_block lib ''b64a'' [padding] None)
             (\<lambda>b64. bind_a (one_by_one
                 [assert_that (int (length (bloated_octets lib b64)) * fl_witness_scale lib = fl_max_weight lib + 8 * 4)
                    ''b64a is not eight octets over'',
                  send_block ''b64a'' False (Some ''non-canonical ReadCompactSize()'') False False None (Some (bloated_octets lib b64)),
                  move_tip ''dup_2'',
                  assert_that (fl_weight lib b64 = fl_max_weight lib) ''b64 is not of MAX_BLOCK_WEIGHT''])
               (\<lambda>_. bind_a (height_named lib ''b64a'')
                 (\<lambda>height. bind_a (register lib ''b64'' b64 height)
                   (\<lambda>_. one_by_one [send_tip ''b64'', save_spendable_output])))))))"

definition spends_in_order :: "block_lib \<Rightarrow> ftx list \<Rightarrow> (chain, unit) act" where
  "spends_in_order lib out =
     bind_a (one_by_one [move_tip ''b64'', grow_empty lib ''b65''])
       (\<lambda>_. bind_a (pay_all lib out 19 0 (OP_TRUE lib))
         (\<lambda>tx1. bind_a (create_and_sign lib tx1 0 (OP_TRUE lib))
           (\<lambda>tx2. one_by_one [append_txs lib ''b65'' [tx1, tx2], send_tip ''b65'', save_spendable_output])))"

definition spends_out_of_order :: "block_lib \<Rightarrow> ftx list \<Rightarrow> (chain, unit) act" where
  "spends_out_of_order lib out =
     bind_a (one_by_one [move_tip ''b65'', grow_empty lib ''b66''])
       (\<lambda>_. bind_a (pay_all lib out 20 0 (OP_TRUE lib))
         (\<lambda>tx1. bind_a (create_and_sign lib tx1 1 (OP_TRUE lib))
           (\<lambda>tx2. one_by_one [append_txs lib ''b66'' [tx2, tx1], refused ''b66'' ''bad-txns-inputs-missingorspent''])))"

definition spends_twice :: "block_lib \<Rightarrow> ftx list \<Rightarrow> (chain, unit) act" where
  "spends_twice lib out =
     bind_a (one_by_one [move_tip ''b65'', grow_empty lib ''b67''])
       (\<lambda>_. bind_a (pay_all lib out 20 0 (OP_TRUE lib))
         (\<lambda>tx1. bind_a (create_and_sign lib tx1 1 (OP_TRUE lib))
           (\<lambda>tx2. bind_a (create_and_sign lib tx1 2 (OP_TRUE lib))
             (\<lambda>tx3. one_by_one [append_txs lib ''b67'' [tx1, tx2, tx3], refused ''b67'' ''bad-txns-inputs-missingorspent'']))))"

definition fees_claimed :: "block_lib \<Rightarrow> ftx list \<Rightarrow> (chain, unit) act" where
  "fees_claimed lib out = one_by_one
     [move_tip ''b65'', forget (next_worth lib ''b68'' None 10),
      bind_a (pay_all lib out 20 9 (OP_TRUE lib)) (\<lambda>tx. append_txs lib ''b68'' [tx]),
      refused ''b68'' ''bad-cb-amount'',
      move_tip ''b65'', forget (next_worth lib ''b69'' None 10),
      bind_a (pay_all lib out 20 10 (OP_TRUE lib)) (\<lambda>tx. append_txs lib ''b69'' [tx]),
      send_tip ''b69'', save_spendable_output]"

definition bogus_input :: "block_lib \<Rightarrow> ftx list \<Rightarrow> (chain, unit) act" where
  "bogus_input lib out = one_by_one
     [move_tip ''b69'', grow lib ''b70'' out 21,
      append_txs lib ''b70'' [one_to_one 0 BOGUS_TX_ID 0 [] SEQUENCE_FINAL 1 []],
      refused ''b70'' ''bad-txns-inputs-missingorspent'']"

definition last_repeated :: "block_lib \<Rightarrow> ftx list \<Rightarrow> (chain, unit) act" where
  "last_repeated lib out =
     bind_a (one_by_one [move_tip ''b69'', grow_empty lib ''b72''])
       (\<lambda>_. bind_a (pay_from lib out 21 2 (OP_TRUE lib))
         (\<lambda>tx1. bind_a (create_and_sign lib tx1 1 (OP_TRUE lib))
           (\<lambda>tx2. bind_a (update_block lib ''b72'' [tx1, tx2] None)
             (\<lambda>b72. bind_a (height_named lib ''b69'')
               (\<lambda>below. bind_a (register lib ''b71''
                   \<lparr>fb_header = fb_header b72, fb_transactions = fb_transactions b72 @ [tx2]\<rparr> (below + 1))
                 (\<lambda>_. one_by_one
                   [refused ''b71'' ''bad-txns-duplicate'', move_tip ''b72'', send_tip ''b72'', save_spendable_output]))))))"

definition bloated_and_spends :: "block_lib \<Rightarrow> ftx list \<Rightarrow> (chain, unit) act" where
  "bloated_and_spends lib out = one_by_one
     [bloated_block lib out, spends_in_order lib out, spends_out_of_order lib out, spends_twice lib out, fees_claimed lib out,
      bogus_input lib out, last_repeated lib out]"

subsection \<open>\<open>_sigops_around_pushes\<close>\<close>

text \<open>\<open>script[i] = b\<close> and \<open>script[i:i + len(bs)] = bs\<close> on a \<open>bytearray\<close>, for \<open>i\<close> not negative.\<close>

definition set_octet :: "bytes \<Rightarrow> nat \<Rightarrow> octet \<Rightarrow> bytes result" where
  "set_octet script i b = (if i < length script then Inr (script[i := b]) else Inl (IndexError ''bytearray index out of range''))"

definition set_octets :: "bytes \<Rightarrow> nat \<Rightarrow> bytes \<Rightarrow> bytes" where
  "set_octets script i bs = take i script @ bs @ drop (i + length bs) script"

text \<open>A script of \<open>OP_CHECKSIG\<close>, a four-octet push at one place, and what its length reads.\<close>

definition push_at :: "block_lib \<Rightarrow> int \<Rightarrow> int \<Rightarrow> bytes \<Rightarrow> bytes result" where
  "push_at lib octets i len =
     bind_r (set_octet (octets_times (OP_CHECKSIG lib) octets) (nat i) (OP_PUSHDATA4 lib))
       (\<lambda>script. Inr (set_octets script (nat (i + 1)) len))"

definition push_block ::
  "block_lib \<Rightarrow> ftx list \<Rightarrow> string \<Rightarrow> string \<Rightarrow> nat \<Rightarrow> bytes result \<Rightarrow> (chain, fblock) act" where
  "push_block lib out parent name i script =
     bind_a (one_by_one [move_tip parent, grow_empty lib name])
       (\<lambda>_. bind_a (lift_r script)
         (\<lambda>script. bind_a (pay_from lib out i 1 script) (\<lambda>tx. update_block lib name [tx] None)))"

definition sigops_around_pushes :: "block_lib \<Rightarrow> ftx list \<Rightarrow> (chain, unit) act" where
  "sigops_around_pushes lib out =
     (let bound = MAX_BLOCK_SIGOPS lib; element = int (fl_max_element lib)
      in bind_a (push_block lib out ''b72'' ''b73'' 22
             (bind_r (octets_of_int 4 (element + 1)) (\<lambda>len. push_at lib (bound - 1 + element + 1 + 5 + 1) (bound - 1) (rev len))))
           (\<lambda>b73. one_by_one
             [assert_that (legacy_sig_op_count lib b73 = bound + 1) ''b73 is not one over'',
              refused ''b73'' ''bad-blk-sigops'',
              forget (push_block lib out ''b72'' ''b74'' 22 (push_at lib (bound - 1 + element + 42) bound [0xfe, 0xff, 0xff, 0xff])),
              refused ''b74'' ''bad-blk-sigops'',
              forget (push_block lib out ''b72'' ''b75'' 22 (push_at lib (bound - 1 + element + 42) (bound - 1) [0xff, 0xff, 0xff, 0xff])),
              send_tip ''b75'', save_spendable_output,
              forget (push_block lib out ''b75'' ''b76'' 23 (push_at lib (bound - 1 + element + 1 + 5) (bound - 1) [])),
              send_tip ''b76'', save_spendable_output]))"

subsection \<open>\<open>_resurrection_and_op_return\<close>\<close>

definition with_one :: "block_lib \<Rightarrow> string \<Rightarrow> ftx \<Rightarrow> (chain, unit) act" where
  "with_one lib name tx = one_by_one [append_txs lib name [tx], send_tip name]"

definition resurrection :: "block_lib \<Rightarrow> ftx list \<Rightarrow> (chain, unit) act" where
  "resurrection lib out =
     bind_a (one_by_one [move_tip ''b76'', grow_empty lib ''b77''])
       (\<lambda>_. bind_a (pay_from lib out 24 (10 * COIN) (fl_pay_to_key lib))
         (\<lambda>tx77. bind_a (one_by_one [with_one lib ''b77'' tx77, save_spendable_output, grow_empty lib ''b78''])
           (\<lambda>_. bind_a (create_and_sign lib tx77 (9 * COIN) (fl_pay_to_key lib))
             (\<lambda>tx78. bind_a (one_by_one [with_one lib ''b78'' tx78, grow_empty lib ''b79''])
               (\<lambda>_. bind_a (create_and_sign lib tx78 (8 * COIN) (fl_pay_to_key lib))
                 (\<lambda>tx79. one_by_one
                   [with_one lib ''b79'' tx79, add_step (MempoolStep {}),
                    move_tip ''b77'', grow lib ''b80'' out 25, send_block ''b80'' False None True False None None, save_spendable_output,
                    grow lib ''b81'' out 26, send_block ''b81'' False None True False None None, save_spendable_output,
                    grow lib ''b82'' out 27, send_tip ''b82'', save_spendable_output,
                    add_step (MempoolStep {fl_tx_id lib tx78, fl_tx_id lib tx79})]))))))"

definition branch_not_taken :: "block_lib \<Rightarrow> ftx list \<Rightarrow> (chain, unit) act" where
  "branch_not_taken lib out =
     bind_a (grow_empty lib ''b83'')
       (\<lambda>_. bind_a (pay_all lib out 28 0
             (fl_script lib [OpName ''OP_IF''] @ OP_INVALIDOPCODE @ fl_script lib [OpName ''OP_ELSE'', OpName ''OP_TRUE'', OpName ''OP_ENDIF'']))
         (\<lambda>tx1. bind_a (lift_r (bind_r (create_tx lib tx1 0 0 (OP_TRUE lib))
                                  (\<lambda>tx2. with_script_sig tx2 0 (fl_script lib [OpName ''OP_FALSE'']))))
           (\<lambda>tx2. one_by_one [append_txs lib ''b83'' [tx1, tx2], send_tip ''b83'', save_spendable_output])))"

definition nothing_to :: "block_lib \<Rightarrow> bytes \<Rightarrow> tx_out result" where
  "nothing_to lib script = (let out = \<lparr>to_value = 0, to_script = script\<rparr> in bind_r (fl_check_out lib out) (\<lambda>_. Inr out))"

definition spend_with :: "block_lib \<Rightarrow> ftx \<Rightarrow> nat \<Rightarrow> bytes \<Rightarrow> bytes \<Rightarrow> ftx result" where
  "spend_with lib tx n script other =
     bind_r (create_tx lib tx n 0 script) (\<lambda>new. bind_r (nothing_to lib other) (\<lambda>out. Inr (with_outputs new [out])))"

definition five_op_returns :: "block_lib \<Rightarrow> ftx \<Rightarrow> ftx list result" where
  "five_op_returns lib tx1 =
     bind_r (spend_with lib tx1 1 (OP_RETURN lib) (OP_RETURN lib))
       (\<lambda>tx2. bind_r (spend_with lib tx1 2 (OP_RETURN lib) (OP_TRUE lib))
         (\<lambda>tx3. bind_r (spend_with lib tx1 3 (OP_TRUE lib) (OP_RETURN lib))
           (\<lambda>tx4. bind_r (create_tx lib tx1 4 0 (OP_RETURN lib)) (\<lambda>tx5. Inr [tx1, tx2, tx3, tx4, tx5]))))"

definition op_return_outputs :: "block_lib \<Rightarrow> ftx list \<Rightarrow> (chain, ftx) act" where
  "op_return_outputs lib out =
     bind_a (grow_empty lib ''b84'')
       (\<lambda>_. bind_a (lift_r (item_at out 29))
         (\<lambda>spend. bind_a (lift_r (create_tx lib spend 0 0 (OP_RETURN lib)))
           (\<lambda>tx1. bind_a (lift_r (nothing_to lib (OP_TRUE lib)))
             (\<lambda>empty. bind_a (sign_tx lib (with_outputs tx1 (replicate 4 empty)) spend)
               (\<lambda>tx1. bind_a (lift_r (five_op_returns lib tx1))
                 (\<lambda>txs. bind_a (one_by_one [append_txs lib ''b84'' txs, send_tip ''b84'', save_spendable_output]) (\<lambda>_. ret tx1)))))))"

definition op_return_reorgs :: "block_lib \<Rightarrow> ftx list \<Rightarrow> ftx \<Rightarrow> (chain, unit) act" where
  "op_return_reorgs lib out tx1 = one_by_one
     [move_tip ''b83'', grow lib ''b85'' out 29, send_side ''b85'', grow lib ''b86'' out 30, send_tip ''b86'',
      move_tip ''b84'', grow lib ''b87'' out 30, send_side ''b87'', save_spendable_output,
      grow lib ''b88'' out 31, send_tip ''b88'', save_spendable_output,
      grow lib ''b89a'' out 32,
      bind_a (lift_r (create_tx lib tx1 0 0 (OP_TRUE lib))) (\<lambda>tx. append_txs lib ''b89a'' [tx]),
      refused ''b89a'' ''bad-txns-inputs-missingorspent'',
      move_tip ''b88'', forget (next_block lib ''b_v1'' None 0 (OP_TRUE lib) 1 []),
      reject_block ''b_v1'' ''bad-version(0x00000001)'' True True None]"

definition height_cut_short :: "block_lib \<Rightarrow> (chain, unit) act" where
  "height_cut_short lib =
     bind_a (move_tip ''b87'')
       (\<lambda>_. bind_a (next_on lib ''b_cb34'')
         (\<lambda>b_cb34. bind_a (lift_r (item_at (fb_transactions b_cb34) 0))
           (\<lambda>coinbase. bind_a (height_named lib ''b_cb34'')
             (\<lambda>height. bind_a (lift_r (item_at (ft_vin coinbase) 0))
               (\<lambda>vin. bind_a (replace_coinbase lib ''b_cb34'' b_cb34 height None (Some (butlast (si_script_sig vin))) MAX_SEQUENCE_NONFINAL)
                 (\<lambda>_. refused ''b_cb34'' ''bad-cb-height''))))))"

definition resurrection_and_op_return :: "block_lib \<Rightarrow> ftx list \<Rightarrow> (chain, unit) act" where
  "resurrection_and_op_return lib out = one_by_one
     [resurrection lib out, branch_not_taken lib out,
      bind_a (op_return_outputs lib out) (op_return_reorgs lib out),
      height_cut_short lib]"

subsection \<open>\<open>steps\<close>\<close>

definition duplicate_first :: "block_lib \<Rightarrow> (chain, ftx) act" where
  "duplicate_first lib =
     bind_a (next_on lib ''dup_cb'')
       (\<lambda>_. bind_a (lift_r (fcoinbase lib 1 None None (Some DUPLICATE_COINBASE_SCRIPT_SIG) MAX_SEQUENCE_NONFINAL []))
         (\<lambda>coinbase. bind_a (update_coinbase lib ''dup_cb'' coinbase)
           (\<lambda>b_dup_cb. bind_a (lift_r (item_at (fb_transactions b_dup_cb) 0))
             (\<lambda>duplicate_tx. bind_a (send_tip ''dup_cb'') (\<lambda>_. ret duplicate_tx)))))"

definition script_of_pushes :: "block_lib \<Rightarrow> nat \<Rightarrow> bytes" where
  "script_of_pushes lib last_len =
     fl_script lib (replicate 19 (PushData (replicate (fl_max_element lib) 1)) @ [PushData (replicate last_len 1)])"

definition script_sizes :: "block_lib \<Rightarrow> (chain, fblock) act" where
  "script_sizes lib =
     bind_a (one_by_one
         [assert_that (length (script_of_pushes lib 62) = fl_max_script lib) ''not MAX_SCRIPT_SIZE'',
          assert_that (length (script_of_pushes lib 63) = fl_max_script lib + 1) ''not one over''])
       (\<lambda>_. bind_a (next_block lib ''b0'' None 0 (OP_TRUE lib) VERSION [script_of_pushes lib 62, script_of_pushes lib 63])
         (\<lambda>b0. bind_a (one_by_one [save_spendable_output, send_tip ''b0'']) (\<lambda>_. ret b0)))"

definition buffer_name :: "nat \<Rightarrow> string" where
  "buffer_name i = ''maturitybuffer.'' @ dec i"

definition maturity_buffer :: "block_lib \<Rightarrow> (chain, unit) act" where
  "maturity_buffer lib = one_by_one
     (concat (map (\<lambda>i. [grow_empty lib (buffer_name i), save_spendable_output]) [0..<BUFFER_BLOCKS])
      @ map (\<lambda>i. send_tip (buffer_name i)) [0..<BUFFER_BLOCKS])"

definition spends_of_size :: "block_lib \<Rightarrow> fblock \<Rightarrow> (chain, unit) act" where
  "spends_of_size lib b0 =
     bind_a (grow_empty lib ''max_script_size'')
       (\<lambda>_. bind_a (lift_r (item_at (fb_transactions b0) 0))
         (\<lambda>coinbase. one_by_one
           [append_txs lib ''max_script_size'' [one_to_one 0 (fl_tx_id lib coinbase) 1 [] 0 0 []],
            send_tip ''max_script_size'',
            bind_a (block_named ''max_script_size'') (\<lambda>b. add_step (InvalidateStep ''max_script_size'' (block_hash lib b))),
            add_step (MempoolStep {}),
            move_tip (buffer_name (BUFFER_BLOCKS - 1)), grow_empty lib ''max_script_size_plus_one'',
            append_txs lib ''max_script_size_plus_one'' [one_to_one 0 (fl_tx_id lib coinbase) 2 [] 0 0 []],
            refused ''max_script_size_plus_one'' ''bad-txns-inputs-missingorspent'',
            move_tip (buffer_name (BUFFER_BLOCKS - 1))]))"

fun collect_outputs :: "nat \<Rightarrow> (chain, ftx list) act" where
  "collect_outputs 0 = ret []"
| "collect_outputs (Suc n) = bind_a get_spendable_output (\<lambda>tx. bind_a (collect_outputs n) (\<lambda>txs. ret (tx # txs)))"

definition opening_blocks :: "block_lib \<Rightarrow> (chain, ftx \<times> ftx list) act" where
  "opening_blocks lib =
     bind_a (duplicate_first lib)
       (\<lambda>duplicate_tx. bind_a (script_sizes lib)
         (\<lambda>b0. bind_a (one_by_one [maturity_buffer lib, spends_of_size lib b0])
           (\<lambda>_. bind_a (collect_outputs OUTPUTS_TO_COLLECT) (\<lambda>out. ret (duplicate_tx, out)))))"

definition all_runs :: "block_lib \<Rightarrow> (chain, fstep list) loop" where
  "all_runs lib =
     bind_l (once (opening_blocks lib))
       (\<lambda>(duplicate_tx, out). bind_l (once (one_by_one
           [fork_and_reorg lib out, sigops_and_spends lib out, weight_and_coinbase_length lib out, checkmultisig_sigops lib out]))
         (\<lambda>_. bind_l (p2sh_sigops lib out)
           (\<lambda>_. bind_l (malformed lib out)
             (\<lambda>_. bind_l (once (one_by_one
                 [timestamps lib out, merkle_malleability lib out, duplicate_coinbase lib out duplicate_tx, bloated_and_spends lib out,
                  sigops_around_pushes lib out, resurrection_and_op_return lib out]))
               (\<lambda>_. once (get_s ch_steps))))))"

definition steps :: "block_lib \<Rightarrow> int \<Rightarrow> (fstep list result \<times> chain) option" where
  "steps lib start_time = all_runs lib (chain_init lib start_time)"

end
