(* ===== verification/Feature_Plan.thy ===== *)
theory Feature_Plan
  imports Feature_Late
begin

section \<open>What the sequence of blocks is\<close>

text \<open>
  The sequence without its octets: which block is built on which, and what each step expects of the
  node. \<open>plan_run\<close> runs a list of such operations on the tree of the names; \<open>tracks\<close> ties the tree to
  the blocks of a chain, and \<open>triple\<close> says that an action of the chain does what a plan says.
\<close>

subsection \<open>Plans\<close>

datatype 'n deed = Sent 'n bool bool | TipIs 'n | Invalidated 'n | Other

text \<open>A block the node refuses is one it names a reason for, or drops the peer over.\<close>

fun deed_of :: "fstep \<Rightarrow> string deed" where
  "deed_of (BlockStep b) = Sent (bs_name b) (bs_becomes_tip b) (bs_reject_reason b \<noteq> None \<or> bs_disconnects b)"
| "deed_of (TipStep name h) = TipIs name"
| "deed_of (InvalidateStep name h) = Invalidated name"
| "deed_of _ = Other"

datatype 'n plan_op = Grow 'n | GrowOn 'n 'n | Twin 'n 'n | Rework 'n | Move 'n | Emit "'n deed"

type_synonym 'n tree = "('n \<times> 'n option \<times> nat) list"

record 'n plan =
  pl_tip :: "'n option"
  pl_tree :: "'n tree"
  pl_deeds :: "'n deed list"

definition plan_init :: "'n plan" where
  "plan_init = \<lparr>pl_tip = None, pl_tree = [], pl_deeds = []\<rparr>"

text \<open>The height of the block a new one is built on.\<close>

definition height_below :: "'n tree \<Rightarrow> 'n option \<Rightarrow> nat option" where
  "height_below tree parent = (case parent of None \<Rightarrow> Some 0 | Some p \<Rightarrow> map_option snd (map_of tree p))"

definition attach :: "'n \<Rightarrow> 'n option \<Rightarrow> nat \<Rightarrow> 'n plan \<Rightarrow> 'n plan option" where
  "attach name parent height k =
     (if map_of (pl_tree k) name \<noteq> None then None
      else Some (k\<lparr>pl_tip := Some name, pl_tree := (name, parent, height) # pl_tree k\<rparr>))"

fun plan_step :: "'n plan_op \<Rightarrow> 'n plan \<Rightarrow> 'n plan option" where
  "plan_step (Grow name) k =
     Option.bind (height_below (pl_tree k) (pl_tip k)) (\<lambda>h. attach name (pl_tip k) (Suc h) k)"
| "plan_step (GrowOn name parent) k =
     Option.bind (height_below (pl_tree k) (Some parent)) (\<lambda>h. attach name (Some parent) (Suc h) k)"
| "plan_step (Twin name original) k =
     Option.bind (map_of (pl_tree k) original) (\<lambda>(parent, h). attach name parent h k)"
| "plan_step (Rework name) k =
     (if map_of (pl_tree k) name = None \<or> list_ex (\<lambda>(_, p, _). p = Some name) (pl_tree k) then None
      else Some (k\<lparr>pl_tip := Some name\<rparr>))"
| "plan_step (Move name) k = (if map_of (pl_tree k) name = None then None else Some (k\<lparr>pl_tip := Some name\<rparr>))"
| "plan_step (Emit d) k = Some (k\<lparr>pl_deeds := pl_deeds k @ [d]\<rparr>)"

fun plan_run :: "'n plan_op list \<Rightarrow> 'n plan \<Rightarrow> 'n plan option" where
  "plan_run [] k = Some k"
| "plan_run (x # xs) k = Option.bind (plan_step x k) (plan_run xs)"

lemma plan_run_append: "plan_run (xs @ ys) k = Option.bind (plan_run xs k) (plan_run ys)"
  by (induction xs arbitrary: k) (auto simp: bind_eq_None_conv split: Option.bind_split)

subsection \<open>The tree of a chain\<close>

text \<open>How many headers deep a hash is, genesis at none.\<close>

inductive at_height :: "block_lib \<Rightarrow> bytes \<Rightarrow> nat \<Rightarrow> bool" for lib where
  at_genesis: "at_height lib (fl_genesis_hash lib) 0"
| above: "at_height lib (bh_previous header) n \<Longrightarrow> at_height lib (fl_hash lib header) (Suc n)"

text \<open>\<open>previous\<close> is the hash of the block of that name, of genesis where there is none.\<close>

definition hash_of_name :: "block_lib \<Rightarrow> (string \<Rightarrow> fblock option) \<Rightarrow> string option \<Rightarrow> bytes \<Rightarrow> bool" where
  "hash_of_name lib blocks parent previous \<longleftrightarrow>
     (case parent of
        None \<Rightarrow> previous = fl_genesis_hash lib
      | Some p \<Rightarrow> \<exists>b. blocks p = Some b \<and> previous = block_hash lib b)"

text \<open>A block that stands where the tree has its name: on the block the tree has it on, at its height.\<close>

definition stands_at :: "block_lib \<Rightarrow> (string \<Rightarrow> fblock option) \<Rightarrow> string tree \<Rightarrow> string \<Rightarrow> fblock \<Rightarrow> bool" where
  "stands_at lib blocks tree name b \<longleftrightarrow>
     (\<exists>parent h. map_of tree name = Some (parent, Suc h)
        \<and> hash_of_name lib blocks parent (bh_previous (fb_header b)) \<and> at_height lib (bh_previous (fb_header b)) h)"


definition tracks :: "block_lib \<Rightarrow> chain \<Rightarrow> string plan \<Rightarrow> bool" where
  "tracks lib s k \<longleftrightarrow>
     (\<forall>name. ch_blocks s name = None \<longleftrightarrow> map_of (pl_tree k) name = None)
   \<and> (\<forall>name b. ch_blocks s name = Some b \<longrightarrow> stands_at lib (ch_blocks s) (pl_tree k) name b)
   \<and> (\<forall>b. BlockStep b \<in> set (ch_steps s) \<longrightarrow> stands_at lib (ch_blocks s) (pl_tree k) (bs_name b) (bs_block b))
   \<and> (\<forall>h n. ch_heights s h = Some n \<longrightarrow> at_height lib h n)
   \<and> ch_tip s = Option.bind (pl_tip k) (ch_blocks s) \<and> (pl_tip k = None \<longleftrightarrow> ch_tip s = None)
   \<and> map deed_of (ch_steps s) = pl_deeds k"

subsection \<open>Blocks put into the tree\<close>

lemma tracks_ignores [simp]:
  "tracks lib (s\<lparr>ch_signing_for := n\<rparr>) k = tracks lib s k"
  "tracks lib (s\<lparr>ch_spendable := bs\<rparr>) k = tracks lib s k"
  by (simp_all add: tracks_def)

lemma tracksD:
  assumes "tracks lib s k"
  shows "ch_blocks s name = None \<longleftrightarrow> map_of (pl_tree k) name = None"
    and "ch_blocks s name = Some b \<Longrightarrow> stands_at lib (ch_blocks s) (pl_tree k) name b"
    and "BlockStep st \<in> set (ch_steps s) \<Longrightarrow> stands_at lib (ch_blocks s) (pl_tree k) (bs_name st) (bs_block st)"
    and "ch_heights s h = Some n \<Longrightarrow> at_height lib h n"
    and "ch_tip s = Option.bind (pl_tip k) (ch_blocks s)"
    and "pl_tip k = None \<longleftrightarrow> ch_tip s = None"
    and "map deed_of (ch_steps s) = pl_deeds k"
  using assms unfolding tracks_def by blast+

lemma stands_at_mono:
  assumes "stands_at lib blocks tree m c" and "blocks name = None" and "map_of tree name = None"
  shows "stands_at lib (blocks(name \<mapsto> b)) ((name, entry) # tree) m c"
proof -
  obtain parent h where at: "map_of tree m = Some (parent, Suc h)" "hash_of_name lib blocks parent (bh_previous (fb_header c))"
    "at_height lib (bh_previous (fb_header c)) h" using assms(1) by (auto simp: stands_at_def)
  have "hash_of_name lib (blocks(name \<mapsto> b)) parent (bh_previous (fb_header c))"
    using at(2) assms(2) by (auto simp: hash_of_name_def split: option.splits)
  then show ?thesis using at assms(3) by (auto simp: stands_at_def)
qed

lemma stands_at_reworked:
  assumes "stands_at lib blocks tree m c" and "\<not> list_ex (\<lambda>(_, p, _). p = Some name) tree"
  shows "stands_at lib (blocks(name \<mapsto> b)) tree m c"
proof -
  obtain parent h where at: "map_of tree m = Some (parent, Suc h)" "hash_of_name lib blocks parent (bh_previous (fb_header c))"
    "at_height lib (bh_previous (fb_header c)) h" using assms(1) by (auto simp: stands_at_def)
  have "parent \<noteq> Some name" using assms(2) map_of_SomeD [OF at(1)] by (auto simp: list_ex_iff)
  then have "hash_of_name lib (blocks(name \<mapsto> b)) parent (bh_previous (fb_header c))"
    using at(2) by (auto simp: hash_of_name_def split: option.splits)
  then show ?thesis using at by (auto simp: stands_at_def)
qed

lemma at_height_block: "at_height lib (bh_previous (fb_header b)) n \<Longrightarrow> at_height lib (block_hash lib b) (Suc n)"
  unfolding block_hash_def by (rule above)

text \<open>
  Hashes as a chain relies on them: no two headers share one, none is the null hash genesis is built
  on, and what hashes to genesis is built on the null hash.
\<close>

definition null_hash :: bytes where "null_hash = replicate 32 0"

definition ideal_hash :: "block_lib \<Rightarrow> bool" where
  "ideal_hash lib \<longleftrightarrow>
     inj (fl_hash lib) \<and> (\<forall>hd. fl_hash lib hd \<noteq> null_hash) \<and> fl_genesis_hash lib \<noteq> null_hash
     \<and> (\<forall>hd. fl_hash lib hd = fl_genesis_hash lib \<longrightarrow> bh_previous hd = null_hash)"

lemma null_hash_nowhere: "ideal_hash lib \<Longrightarrow> \<not> at_height lib null_hash n"
proof
  assume "ideal_hash lib" and "at_height lib null_hash n"
  from this(2) show False by cases (use \<open>ideal_hash lib\<close> in \<open>simp add: ideal_hash_def; metis\<close>)+
qed

lemma at_height_unique:
  assumes "ideal_hash lib"
  shows "at_height lib h m \<Longrightarrow> at_height lib h n \<Longrightarrow> m = n"
proof (induction arbitrary: n rule: at_height.induct)
  case at_genesis
  then show ?case
  proof cases
    case (above header n')
    then have "bh_previous header = null_hash" using assms by (simp add: ideal_hash_def)
    then show ?thesis using above null_hash_nowhere [OF assms] by simp
  qed simp
next
  case (above header m)
  from above.prems show ?case
  proof cases
    case at_genesis
    then have "bh_previous header = null_hash" using assms by (simp add: ideal_hash_def)
    then show ?thesis using above.hyps null_hash_nowhere [OF assms] by simp
  next
    case up: (above header' n')
    then have "header' = header" using assms by (auto simp: ideal_hash_def dest: injD)
    then show ?thesis using above.IH up by simp
  qed
qed

definition registered :: "block_lib \<Rightarrow> string \<Rightarrow> fblock \<Rightarrow> nat \<Rightarrow> chain \<Rightarrow> chain" where
  "registered lib name b n s =
     s\<lparr>ch_tip := Some b, ch_heights := (ch_heights s)(block_hash lib b \<mapsto> n), ch_blocks := (ch_blocks s)(name \<mapsto> b)\<rparr>"

lemma register_eq: "register lib name b n s = (Inr b, registered lib name b n s)"
  by (simp add: register_def registered_def bind_a_def put_s_def)

lemma tracks_attach:
  assumes "tracks lib s k" and "attach name parent (Suc h) k = Some k'"
    and "hash_of_name lib (ch_blocks s) parent (bh_previous (fb_header b))"
    and "at_height lib (bh_previous (fb_header b)) h" and "at_height lib (block_hash lib b) n"
  shows "tracks lib (registered lib name b n s) k'"
proof -
  have new: "map_of (pl_tree k) name = None" "k' = k\<lparr>pl_tip := Some name, pl_tree := (name, parent, Suc h) # pl_tree k\<rparr>"
    using assms(2) by (cases "map_of (pl_tree k) name"; simp add: attach_def)+
  have none: "ch_blocks s name = None" using new(1) tracksD(1) [OF assms(1)] by simp
  have mono: "stands_at lib ((ch_blocks s)(name \<mapsto> b)) ((name, parent, Suc h) # pl_tree k) m c"
    if "stands_at lib (ch_blocks s) (pl_tree k) m c" for m c
    by (rule stands_at_mono [OF that none new(1)])
  have own: "stands_at lib ((ch_blocks s)(name \<mapsto> b)) ((name, parent, Suc h) # pl_tree k) name b"
    using assms(3,4) none by (auto simp: stands_at_def hash_of_name_def split: option.splits)
  have "stands_at lib ((ch_blocks s)(name \<mapsto> b)) ((name, parent, Suc h) # pl_tree k) m c"
    if "((ch_blocks s)(name \<mapsto> b)) m = Some c" for m c
    using that own mono [OF tracksD(2) [OF assms(1)]] by (cases "m = name") auto
  moreover have "\<And>st. BlockStep st \<in> set (ch_steps s) \<Longrightarrow>
      stands_at lib ((ch_blocks s)(name \<mapsto> b)) ((name, parent, Suc h) # pl_tree k) (bs_name st) (bs_block st)"
    by (rule mono [OF tracksD(3) [OF assms(1)]])
  ultimately show ?thesis
    using tracksD(1,4,7) [OF assms(1)] assms(5) unfolding tracks_def registered_def new(2) by simp
qed

lemma tracks_rework:
  assumes "ideal_hash lib" and "tracks lib s k" and "plan_step (Rework name) k = Some k'"
    and "ch_blocks s name = Some old" and "bh_previous (fb_header b) = bh_previous (fb_header old)"
    and "ch_heights s (block_hash lib old) = Some n"
  shows "tracks lib (registered lib name b n (s\<lparr>ch_heights := (ch_heights s)(x := None)\<rparr>)) k'"
proof -
  have k': "k' = k\<lparr>pl_tip := Some name\<rparr>" "\<not> list_ex (\<lambda>(_, p, _). p = Some name) (pl_tree k)" "map_of (pl_tree k) name \<noteq> None"
    using assms(3) by (simp_all split: if_splits)
  have re: "stands_at lib ((ch_blocks s)(name \<mapsto> b)) (pl_tree k) m c"
    if "stands_at lib (ch_blocks s) (pl_tree k) m c" for m c
    by (rule stands_at_reworked [OF that k'(2)])
  have old: "stands_at lib (ch_blocks s) (pl_tree k) name old" by (rule tracksD(2) [OF assms(2,4)])
  then obtain h where h: "at_height lib (bh_previous (fb_header old)) h" by (auto simp: stands_at_def)
  have "n = Suc h"
    by (rule at_height_unique [OF assms(1) tracksD(4) [OF assms(2,6)] at_height_block [OF h]])
  then have height: "at_height lib (block_hash lib b) n" using at_height_block [of lib b h] h assms(5) by simp
  have own: "stands_at lib ((ch_blocks s)(name \<mapsto> b)) (pl_tree k) name b"
    using re [OF old] assms(5) by (simp add: stands_at_def)
  have "stands_at lib ((ch_blocks s)(name \<mapsto> b)) (pl_tree k) m c" if "((ch_blocks s)(name \<mapsto> b)) m = Some c" for m c
    using that own re [OF tracksD(2) [OF assms(2)]] by (cases "m = name") auto
  moreover have "\<And>st. BlockStep st \<in> set (ch_steps s) \<Longrightarrow> stands_at lib ((ch_blocks s)(name \<mapsto> b)) (pl_tree k) (bs_name st) (bs_block st)"
    by (rule re [OF tracksD(3) [OF assms(2)]])
  ultimately show ?thesis
    using tracksD(1,4,7) [OF assms(2)] height k'(3) unfolding tracks_def registered_def k'(1) by simp
qed

subsection \<open>Actions that do what a plan says\<close>

text \<open>Mining changes the nonce of a header and nothing else.\<close>

definition mines_nonce :: "block_lib \<Rightarrow> bool" where
  "mines_nonce lib \<longleftrightarrow> (\<forall>hd hd'. fl_mine lib hd = Some hd' \<longrightarrow> (\<exists>n. hd' = hd\<lparr>bh_nonce := n\<rparr>))"

definition sound_lib :: "block_lib \<Rightarrow> bool" where
  "sound_lib lib \<longleftrightarrow> ideal_hash lib \<and> mines_nonce lib"

definition triple ::
  "block_lib \<Rightarrow> (chain \<Rightarrow> bool) \<Rightarrow> (chain, 'a) act \<Rightarrow> string plan_op list \<Rightarrow> ('a \<Rightarrow> chain \<Rightarrow> bool) \<Rightarrow> bool" where
  "triple lib P m ops Q \<longleftrightarrow>
     (\<forall>s k k' x t. sound_lib lib \<longrightarrow> P s \<longrightarrow> tracks lib s k \<longrightarrow> plan_run ops k = Some k' \<longrightarrow> m s = (Inr x, t)
        \<longrightarrow> tracks lib t k' \<and> Q x t)"

abbreviation follows :: "block_lib \<Rightarrow> (chain, 'a) act \<Rightarrow> string plan_op list \<Rightarrow> bool" where
  "follows lib m ops \<equiv> triple lib (\<lambda>_. True) m ops (\<lambda>_ _. True)"

text \<open>An action that reads the chain and may raise.\<close>

definition quiet :: "(chain, 'a) act \<Rightarrow> bool" where
  "quiet m \<longleftrightarrow> (\<forall>s x t. m s = (Inr x, t) \<longrightarrow> t = s)"

named_theorems quiet_intros \<open>actions that only read the chain\<close>

lemma tripleD:
  assumes "triple lib P m ops Q" and "sound_lib lib" and "P s" and "tracks lib s k" and "plan_run ops k = Some k'" and "m s = (Inr x, t)"
  shows "tracks lib t k'" and "Q x t"
  using assms unfolding triple_def by blast+

lemma triple_bind:
  assumes "triple lib P m ops1 Q1" and "\<And>x. triple lib (Q1 x) (f x) ops2 Q"
  shows "triple lib P (bind_a m f) (ops1 @ ops2) Q"
  unfolding triple_def
proof (intro allI impI)
  fix s k k' y u
  assume prems: "sound_lib lib" "P s" "tracks lib s k" "plan_run (ops1 @ ops2) k = Some k'" "bind_a m f s = (Inr y, u)"
  obtain x t where run: "m s = (Inr x, t)" "f x t = (Inr y, u)" by (rule bind_a_InrD [OF prems(5)])
  obtain k1 where plan: "plan_run ops1 k = Some k1" "plan_run ops2 k1 = Some k'"
    using prems(4) unfolding plan_run_append by (auto simp: bind_eq_Some_conv)
  note first = tripleD [OF assms(1) prems(1-3) plan(1) run(1)]
  show "tracks lib u k' \<and> Q y u"
    using tripleD [OF assms(2) prems(1) first(2) first(1) plan(2) run(2)] ..
qed

lemma triple_weaken:
  assumes "triple lib P m ops Q" and "\<And>s. P' s \<Longrightarrow> P s" and "\<And>x s. Q x s \<Longrightarrow> Q' x s"
  shows "triple lib P' m ops Q'"
  using assms unfolding triple_def by blast

lemma triple_follows: "triple lib (\<lambda>_. True) m ops Q \<Longrightarrow> follows lib m ops"
  by (erule triple_weaken) simp_all

lemma triple_quiet: "quiet m \<Longrightarrow> triple lib P m [] (\<lambda>_. P)"
  by (fastforce simp: triple_def quiet_def)

lemma follows_bind:
  assumes "follows lib m ops1" and "\<And>x. follows lib (f x) ops2"
  shows "follows lib (bind_a m f) (ops1 @ ops2)"
  by (rule triple_bind [OF assms])

lemma follows_quiet:
  assumes "quiet m" and "\<And>x. follows lib (f x) ops"
  shows "follows lib (bind_a m f) ops"
  using follows_bind [OF triple_follows [OF triple_quiet [OF assms(1)]] assms(2)] by simp

lemma follows_then:
  assumes "follows lib m [x]" and "\<And>y. follows lib (f y) ops"
  shows "follows lib (bind_a m f) (x # ops)"
  using follows_bind [OF assms] by simp

lemma follows_pair: "(\<And>a b. follows lib (f a b) ops) \<Longrightarrow> follows lib (case p of (a, b) \<Rightarrow> f a b) ops"
  by (cases p) simp

lemma follows_ret: "follows lib (ret x) []"
  by (simp add: triple_def)

subsection \<open>Actions that only read\<close>

lemma quiet_bind [quiet_intros]: "quiet m \<Longrightarrow> (\<And>x. quiet (f x)) \<Longrightarrow> quiet (bind_a m f)"
  unfolding quiet_def by (metis bind_a_InrD)

lemma quiet_simple [quiet_intros]:
  "quiet (ret x)" "quiet (raise e)" "quiet (lift_r r)" "quiet (get_s f)" "quiet (block_named name)" "quiet (height_of_hash h)"
  by (auto simp: quiet_def get_s_def block_named_def height_of_hash_def split: option.splits)

lemma quiet_if [quiet_intros]: "quiet m \<Longrightarrow> quiet n \<Longrightarrow> quiet (if b then m else n)"
  by simp

lemma quiet_calls [quiet_intros]:
  "quiet (height_named lib name)" "quiet (signature_push lib tx i script)" "quiet (sign_tx lib tx spend)"
  "quiet (create_and_sign lib spend val script)" "quiet (pay_from lib out i val script)" "quiet (pay_all lib out i val script)"
  "quiet (assert_that c what)"
  unfolding height_named_def signature_push_def sign_tx_def create_and_sign_def pay_from_def pay_all_def assert_that_def Let_def
  by (intro quiet_intros)+

lemma quiet_spending [quiet_intros]: "quiet (spending lib spend script)"
  unfolding spending_def by (cases spend) (simp_all add: quiet_intros)

lemma quiet_parent_of_next [quiet_intros]: "quiet (parent_of_next lib)"
  unfolding parent_of_next_def by (rule quiet_intros)

lemma quiet_p2sh_spends [quiet_intros]: "quiet (p2sh_spends lib b39 is p txs)"
proof (induction "is" arbitrary: p txs)
  case (Cons i "is")
  have "quiet (p2sh_spend lib b39 p i)" unfolding p2sh_spend_def Let_def by (intro quiet_intros)
  then show ?case by (auto intro!: quiet_intros Cons.IH)
qed (simp add: quiet_intros)

end
