(* ===== verification/Feature_Steps.thy ===== *)
theory Feature_Steps
  imports Feature_Plan
begin

section \<open>What each call does to the tree\<close>

text \<open>
  A triple for every method of \<open>_Chain\<close> the sequence calls, and the rules that run a plan along a
  definition: \<open>plan_intros\<close>, one rule per call, applied by \<open>intro\<close>.
\<close>

named_theorems plan_intros \<open>what a call followed by more does to a plan\<close>

abbreviation named :: "string \<Rightarrow> fblock \<Rightarrow> chain \<Rightarrow> bool" where
  "named name b s \<equiv> ch_blocks s name = Some b"

subsection \<open>Building\<close>

lemma mined_previous: "sound_lib lib \<Longrightarrow> fl_mine lib header = Some mined \<Longrightarrow> bh_previous mined = bh_previous header"
  unfolding sound_lib_def mines_nonce_def by fastforce

lemma make_block_previous:
  assumes "sound_lib lib" and "make_block lib previous txs time version bits = Inr b"
  shows "bh_previous (fb_header b) = previous"
proof -
  obtain hd where "fl_mine lib \<lparr>bh_version = version, bh_previous = previous, bh_merkle_root = fl_merkle_root lib txs,
      bh_time = time, bh_bits = bits, bh_nonce = 0\<rparr> = Some hd" "b = \<lparr>fb_header = hd, fb_transactions = txs\<rparr>"
    using assms(2) by (auto simp: make_block_def solve_def bind_r_Inr_iff split: option.splits)
  then show ?thesis using mined_previous [OF assms(1)] by fastforce
qed

lemma with_header_previous:
  assumes "sound_lib lib" and "with_header lib b merkle bits = Inr c"
  shows "bh_previous (fb_header c) = bh_previous (fb_header b)"
proof -
  obtain hd where "fl_mine lib ((fb_header b)\<lparr>bh_merkle_root := (case merkle of None \<Rightarrow> bh_merkle_root (fb_header b) | Some r \<Rightarrow> r),
      bh_bits := (case bits of None \<Rightarrow> bh_bits (fb_header b) | Some b' \<Rightarrow> b'), bh_nonce := 0\<rparr>) = Some hd"
    "c = \<lparr>fb_header = hd, fb_transactions = fb_transactions b\<rparr>"
    using assms(2) by (auto simp: with_header_def solve_def bind_r_Inr_iff Let_def split: option.splits)
  then show ?thesis using mined_previous [OF assms(1)] by fastforce
qed

lemma hash_of_name_at:
  assumes "tracks lib s k" and "hash_of_name lib (ch_blocks s) parent previous"
  obtains h where "height_below (pl_tree k) parent = Some h" and "at_height lib previous h"
proof (cases parent)
  case None
  then show ?thesis using that [of 0] assms(2) by (simp add: height_below_def hash_of_name_def at_genesis)
next
  case (Some p)
  then obtain b where b: "ch_blocks s p = Some b" "previous = block_hash lib b" using assms(2) by (auto simp: hash_of_name_def)
  then obtain q h where at: "map_of (pl_tree k) p = Some (q, Suc h)" "at_height lib (bh_previous (fb_header b)) h"
    using tracksD(2) [OF assms(1) b(1)] by (auto simp: stands_at_def)
  show ?thesis by (rule that [of "Suc h"]) (simp_all add: Some height_below_def at(1) b(2) at_height_block [OF at(2)])
qed

text \<open>A block registered under a new name, on a block of the tree.\<close>

lemma tracks_grown:
  assumes "tracks lib s k" and "hash_of_name lib (ch_blocks s) parent (bh_previous (fb_header b))"
    and "Option.bind (height_below (pl_tree k) parent) (\<lambda>h. attach name parent (Suc h) k) = Some k'"
    and "at_height lib (block_hash lib b) n"
  shows "tracks lib (registered lib name b n s) k'"
proof -
  obtain h where h: "height_below (pl_tree k) parent = Some h" "at_height lib (bh_previous (fb_header b)) h"
    by (rule hash_of_name_at [OF assms(1,2)])
  show ?thesis by (rule tracks_attach [OF assms(1) _ assms(2) h(2) assms(4)]) (use assms(3) h(1) in simp)
qed

lemma next_block_InrD:
  assumes "next_block lib name spend additional script version outs s = (Inr b, t)"
  obtains previous block_time below fees txs coinbase where
    "(previous, block_time) = (case ch_tip s of None \<Rightarrow> (fl_genesis_hash lib, ch_start_time s + 1)
       | Some tip \<Rightarrow> (block_hash lib tip, time_of tip + 1))"
    "ch_blocks s name = None" "ch_heights s previous = Some below"
    "spending lib spend script (s\<lparr>ch_signing_for := name\<rparr>) = (Inr (fees, txs), s\<lparr>ch_signing_for := name\<rparr>)"
    "fcoinbase lib (Suc below) (Some (fl_subsidy lib (Suc below) (fl_halving lib) + additional + fees)) None None
       MAX_SEQUENCE_NONFINAL (map (\<lambda>scr. \<lparr>to_value = 0, to_script = scr\<rparr>) outs) = Inr coinbase"
    "make_block lib previous (coinbase # txs) block_time version (fl_pow_limit_bits lib) = Inr b"
    "t = registered lib name b (Suc below) (s\<lparr>ch_signing_for := name\<rparr>)"
proof -
  let ?s = "s\<lparr>ch_signing_for := name\<rparr>"
  obtain previous block_time where tip: "(previous, block_time) = (case ch_tip s of None \<Rightarrow> (fl_genesis_hash lib, ch_start_time s + 1)
       | Some tip \<Rightarrow> (block_hash lib tip, time_of tip + 1))" by (metis surj_pair)
  have parent: "parent_of_next lib ?s = (Inr (previous, block_time), ?s)"
    using tip by (simp add: parent_of_next_def get_s_def split: option.splits)
  have new: "ch_blocks s name = None"
    using assms by (auto simp: next_block_def checked_that_def get_s_def bind_a_def split: if_splits)
  obtain below where below: "ch_heights s previous = Some below"
    using assms new by (cases "ch_heights s previous")
      (simp_all add: next_block_def checked_that_def get_s_def put_s_def bind_a_def parent height_of_hash_def)
  obtain fees txs u where spent: "spending lib spend script ?s = (Inr (fees, txs), u)"
    using assms new below
    by (cases "spending lib spend script ?s" rule: prod.exhaust; rename_tac r u; case_tac r)
      (auto simp: next_block_def checked_that_def get_s_def put_s_def bind_a_def parent height_of_hash_def)
  then have u: "u = ?s" using quiet_spending [of lib spend script] unfolding quiet_def by blast
  show ?thesis
    using assms new below that [OF tip new below, of fees txs] spent u
    by (auto simp: next_block_def checked_that_def get_s_def put_s_def parent height_of_hash_def register_eq bind_a_def
        split: sum.splits)
qed

lemma triple_next_block:
  "triple lib (\<lambda>_. True) (next_block lib name spend additional script version outs) [Grow name] (\<lambda>b. named name b)"
  unfolding triple_def
proof (intro allI impI)
  fix s k k' b t
  assume prems: "sound_lib lib" "tracks lib s k" "plan_run [Grow name] k = Some k'"
    "next_block lib name spend additional script version outs s = (Inr b, t)"
  obtain previous block_time below fees txs coinbase where
    run: "(previous, block_time) = (case ch_tip s of None \<Rightarrow> (fl_genesis_hash lib, ch_start_time s + 1)
       | Some tip \<Rightarrow> (block_hash lib tip, time_of tip + 1))"
    "ch_blocks s name = None" "ch_heights s previous = Some below"
    "spending lib spend script (s\<lparr>ch_signing_for := name\<rparr>) = (Inr (fees, txs), s\<lparr>ch_signing_for := name\<rparr>)"
    "fcoinbase lib (Suc below) (Some (fl_subsidy lib (Suc below) (fl_halving lib) + additional + fees)) None None
       MAX_SEQUENCE_NONFINAL (map (\<lambda>scr. \<lparr>to_value = 0, to_script = scr\<rparr>) outs) = Inr coinbase"
    "make_block lib previous (coinbase # txs) block_time version (fl_pow_limit_bits lib) = Inr b"
    "t = registered lib name b (Suc below) (s\<lparr>ch_signing_for := name\<rparr>)"
    by (rule next_block_InrD [OF prems(4)])
  have previous: "bh_previous (fb_header b) = previous" by (rule make_block_previous [OF prems(1) run(6)])
  have at: "hash_of_name lib (ch_blocks s) (pl_tip k) (bh_previous (fb_header b))"
    using run(1) tracksD(5,6) [OF prems(2)] unfolding previous
    by (cases "pl_tip k"; cases "ch_tip s") (auto simp: hash_of_name_def)
  have "at_height lib (block_hash lib b) (Suc below)"
    using at_height_block [of lib b below] tracksD(4) [OF prems(2) run(3)] previous by simp
  then have "tracks lib t k'"
    unfolding run(7) using tracks_grown [of lib "s\<lparr>ch_signing_for := name\<rparr>" k] prems(2,3) at by (simp split: Option.bind_splits)
  then show "tracks lib t k' \<and> named name b t" by (simp add: run(7) registered_def)
qed

lemma rebuild_InrD:
  assumes "rebuild lib name txs time s = (Inr b, t)"
  obtains old n where "named name old s" "ch_heights s (block_hash lib old) = Some n"
    "make_block lib (bh_previous (fb_header old)) txs (case time of None \<Rightarrow> time_of old | Some u \<Rightarrow> u)
       (bh_version (fb_header old)) (bh_bits (fb_header old)) = Inr b"
    "t = registered lib name b n (s\<lparr>ch_heights := (ch_heights s)(block_hash lib old := None)\<rparr>)"
  using assms
  by (auto simp: rebuild_def block_named_def height_of_hash_def put_s_def register_eq elim!: bind_a_InrD split: option.splits)

lemma triple_rebuild: "triple lib (\<lambda>_. True) (rebuild lib name txs time) [Rework name] (\<lambda>b. named name b)"
  unfolding triple_def
proof (intro allI impI)
  fix s k k' b t
  assume prems: "sound_lib lib" "tracks lib s k" "plan_run [Rework name] k = Some k'" "rebuild lib name txs time s = (Inr b, t)"
  obtain old n where run: "named name old s" "ch_heights s (block_hash lib old) = Some n"
    "make_block lib (bh_previous (fb_header old)) txs (case time of None \<Rightarrow> time_of old | Some u \<Rightarrow> u)
       (bh_version (fb_header old)) (bh_bits (fb_header old)) = Inr b"
    "t = registered lib name b n (s\<lparr>ch_heights := (ch_heights s)(block_hash lib old := None)\<rparr>)"
    by (rule rebuild_InrD [OF prems(4)])
  have "plan_step (Rework name) k = Some k'" using prems(3) by (simp del: plan_step.simps split: Option.bind_splits)
  then have "tracks lib t k'"
    unfolding run(4)
    using tracks_rework [OF _ prems(2) _ run(1) make_block_previous [OF prems(1) run(3)] run(2)] prems(1)
    by (simp add: sound_lib_def)
  then show "tracks lib t k' \<and> named name b t" by (simp add: run(4) registered_def)
qed

lemma triple_update:
  "triple lib (\<lambda>_. True) (update_block lib name txs time) [Rework name] (\<lambda>b. named name b)"
  "triple lib (\<lambda>_. True) (update_coinbase lib name coinbase) [Rework name] (\<lambda>b. named name b)"
  unfolding update_block_def update_coinbase_def
  using triple_bind [OF triple_quiet [OF quiet_simple(5)] triple_rebuild] by fastforce+

lemma triple_replace_coinbase:
  "triple lib (\<lambda>_. True) (replace_coinbase lib name b h lock_time script_sig sequence) [Rework name] (\<lambda>b. named name b)"
  unfolding replace_coinbase_def
  using triple_bind [OF triple_quiet [OF quiet_simple(3)] triple_bind [OF triple_quiet [OF quiet_simple(3)] triple_update(2)]]
  by simp

subsection \<open>Moving the tip and sending\<close>

lemma put_signing: "triple lib P (put_s (\<lambda>s. s\<lparr>ch_signing_for := name\<rparr>)) [] (\<lambda>_ _. True)"
  by (auto simp: triple_def put_s_def)

lemma triple_move:
  assumes "\<And>s tip. P s \<Longrightarrow> P (s\<lparr>ch_tip := tip\<rparr>)"
  shows "triple lib P (move_tip name) [Move name] (\<lambda>_. P)"
  unfolding triple_def
proof (intro allI impI)
  fix s k k' x t
  assume prems: "P s" "tracks lib s k" "plan_run [Move name] k = Some k'" "move_tip name s = (Inr x, t)"
  obtain b where b: "named name b s" "t = s\<lparr>ch_tip := Some b\<rparr>"
    using prems(4) by (auto simp: move_tip_def block_named_def put_s_def elim!: bind_a_InrD split: option.splits)
  have "k' = k\<lparr>pl_tip := Some name\<rparr>" using prems(3) by (auto split: Option.bind_splits if_splits)
  then have "tracks lib t k'" using prems(2) b by (simp add: tracks_def)
  then show "tracks lib t k' \<and> P t" using assms [OF prems(1)] b(2) by simp
qed

lemma follows_save: "follows lib save_spendable_output []" "follows lib get_spendable_output []"
  by (auto simp: triple_def save_spendable_output_def get_spendable_output_def get_s_def put_s_def elim!: bind_a_InrD split: option.splits list.splits)

lemma follows_collect: "follows lib (collect_outputs n) []"
proof (induction n)
  case 0
  show ?case unfolding collect_outputs.simps by (rule follows_ret)
next
  case (Suc n)
  show ?case
    using follows_bind [OF follows_save(2) follows_bind [OF Suc follows_ret]] by simp
qed

text \<open>A block sent, under the name of one whose place it takes.\<close>

lemma tracks_sent:
  assumes "tracks lib s k" and "\<And>st. step = BlockStep st \<Longrightarrow> stands_at lib (ch_blocks s) (pl_tree k) (bs_name st) (bs_block st)"
  shows "tracks lib (s\<lparr>ch_steps := ch_steps s @ [step]\<rparr>) (k\<lparr>pl_deeds := pl_deeds k @ [deed_of step]\<rparr>)"
  using assms unfolding tracks_def by auto

lemma triple_add_step:
  assumes "\<And>st. step \<noteq> BlockStep st"
  shows "follows lib (add_step step) [Emit (deed_of step)]"
  using tracks_sent [of lib _ _ step] assms by (auto simp: triple_def add_step_def put_s_def)

lemma follows_notes:
  "follows lib (add_step (TipStep name h)) [Emit (TipIs name)]"
  "follows lib (add_step (InvalidateStep name h)) [Emit (Invalidated name)]"
  "follows lib (add_step (MockTimeStep time)) [Emit Other]"
  "follows lib (add_step (MempoolStep txs)) [Emit Other]"
  "follows lib (add_step (CoinStep txid n depth)) [Emit Other]"
  using triple_add_step [of "TipStep name h"] triple_add_step [of "InvalidateStep name h"] triple_add_step [of "MockTimeStep time"]
    triple_add_step [of "MempoolStep txs"] triple_add_step [of "CoinStep txid n depth"] by simp_all

text \<open>Whatever else is sent under a name, its header is built where the block of the name is.\<close>

definition in_place :: "string \<Rightarrow> fblock option \<Rightarrow> chain \<Rightarrow> bool" where
  "in_place name block s \<longleftrightarrow>
     (\<forall>b. block = Some b \<longrightarrow> (\<exists>c. named name c s \<and> bh_previous (fb_header b) = bh_previous (fb_header c)))"

lemma triple_send:
  "triple lib (in_place name block) (send_block name tip reason unrequested disconnects block serialized)
     [Emit (Sent name tip (reason \<noteq> None \<or> disconnects))] (\<lambda>_ _. True)"
  unfolding triple_def
proof (intro allI impI)
  fix s k k' x t
  let ?step = "\<lambda>b. \<lparr>bs_name = name, bs_block = b, bs_becomes_tip = tip, bs_reject_reason = reason, bs_unrequested = unrequested,
    bs_disconnects = disconnects, bs_serialized = serialized\<rparr>"
  assume prems: "in_place name block s" "tracks lib s k" "plan_run [Emit (Sent name tip (reason \<noteq> None \<or> disconnects))] k = Some k'"
    "send_block name tip reason unrequested disconnects block serialized s = (Inr x, t)"
  obtain b c where b: "t = s\<lparr>ch_steps := ch_steps s @ [BlockStep (?step b)]\<rparr>" "named name c s"
    "bh_previous (fb_header b) = bh_previous (fb_header c)"
    using prems(1,4)
    by (cases block) (auto simp: send_block_def in_place_def block_named_def add_step_def put_s_def elim!: bind_a_InrD split: option.splits)
  have "stands_at lib (ch_blocks s) (pl_tree k) name b"
    using tracksD(2) [OF prems(2) b(2)] b(3) by (simp add: stands_at_def)
  then show "tracks lib t k' \<and> True"
    using tracks_sent [OF prems(2), of "BlockStep (?step b)"] prems(3) unfolding b(1) by auto
qed

lemma follows_send_block:
  assumes "d = (reason \<noteq> None \<or> disconnects)"
  shows "follows lib (send_block name tip reason unrequested disconnects None serialized) [Emit (Sent name tip d)]"
  unfolding assms by (rule triple_weaken [OF triple_send]) (simp_all add: in_place_def)

lemma follows_send:
  "follows lib (send_block name tip (Some reason) unrequested disconnects None serialized) [Emit (Sent name tip True)]"
  "follows lib (send_block name tip None unrequested disconnects None serialized) [Emit (Sent name tip disconnects)]"
  "follows lib (send_tip name) [Emit (Sent name True False)]"
  "follows lib (send_side name) [Emit (Sent name False False)]"
  "follows lib (refused name why) [Emit (Sent name False True)]"
  "follows lib (reject_block name why unrequested disconnects None) [Emit (Sent name False True)]"
  unfolding send_tip_def send_side_def refused_def reject_block_def
  by (rule follows_send_block, simp)+

lemma send_keeps_named:
  "send_block name tip reason unrequested disconnects block serialized s = (Inr x, t) \<Longrightarrow> named n b s \<Longrightarrow> named n b t"
  by (cases block) (auto simp: send_block_def block_named_def add_step_def put_s_def elim!: bind_a_InrD split: option.splits)

subsection \<open>The rules\<close>

lemma follows_calls:
  "follows lib (next_block lib name spend additional script version outs) [Grow name]"
  "follows lib (next_on lib name) [Grow name]"
  "follows lib (next_spending lib name tx script) [Grow name]"
  "follows lib (next_worth lib name spend additional) [Grow name]"
  "follows lib (next_out lib name out i script) [Grow name]"
  "follows lib (rebuild lib name txs time) [Rework name]"
  "follows lib (update_block lib name txs time) [Rework name]"
  "follows lib (update_coinbase lib name coinbase) [Rework name]"
  "follows lib (replace_coinbase lib name b h lock_time script_sig sequence) [Rework name]"
  "follows lib (move_tip name) [Move name]"
  unfolding next_on_def next_spending_def next_worth_def next_out_def
  by (rule follows_quiet quiet_intros triple_follows [OF triple_next_block] triple_follows [OF triple_rebuild]
      triple_follows [OF triple_update(1)] triple_follows [OF triple_update(2)] triple_follows [OF triple_replace_coinbase]
      triple_follows [OF triple_move] TrueI)+

lemma follows_forget:
  assumes "follows lib m ops"
  shows "follows lib (forget m) ops"
  unfolding forget_def using follows_bind [OF assms follows_ret] unfolding append_Nil2 .

lemma follows_grow:
  "follows lib (grow lib name out i) [Grow name]"
  "follows lib (grow_empty lib name) [Grow name]"
  "follows lib (grow_worth lib name out i additional) [Grow name]"
  "follows lib (append_txs lib name txs) [Rework name]"
  unfolding grow_def grow_empty_def grow_worth_def append_txs_def
  by (rule follows_quiet quiet_intros follows_forget follows_calls)+

lemmas plan_calls = follows_calls follows_grow follows_notes follows_send

lemmas plan_rules [plan_intros] = plan_calls [THEN follows_then]

lemmas plan_quiet [plan_intros] =
  follows_bind [of lib _ "[]" for lib, simplified, OF follows_save(1)]
  follows_bind [of lib _ "[]" for lib, simplified, OF follows_save(2)]
  follows_bind [of lib _ "[]" for lib, simplified, OF follows_collect]

lemma bind_a_assoc: "bind_a (bind_a m f) g = bind_a m (\<lambda>x. bind_a (f x) g)"
  by (rule ext) (simp add: bind_a_def split: prod.splits sum.splits)

lemma bind_ret_left: "bind_a (ret x) f = f x"
  by (rule ext) simp

text \<open>A definition spelled as one sequence of calls.\<close>

lemma bind_a_pair: "bind_a (case p of (a, b) \<Rightarrow> f a b) g = (case p of (a, b) \<Rightarrow> bind_a (f a b) g)"
  by (cases p) simp

lemmas in_sequence = one_by_one.simps forget_def bind_a_assoc bind_a_pair bind_ret_left Let_def

subsection \<open>Where a block's value matters\<close>

text \<open>
  Some calls build on a block they were answered, or put it under a second name. The rules keep one
  fact about the chain, which block a name has.
\<close>

lemma triple_cons:
  assumes "triple lib P m [x] Q1" and "\<And>y. triple lib (Q1 y) (f y) ops Q"
  shows "triple lib P (bind_a m f) (x # ops) Q"
  using triple_bind [OF assms] by simp

lemma triple_none:
  assumes "triple lib P m [] Q1" and "\<And>y. triple lib (Q1 y) (f y) ops Q"
  shows "triple lib P (bind_a m f) ops Q"
  using triple_bind [OF assms] by simp

lemma triple_pure: "(C \<Longrightarrow> triple lib P m ops Q) \<Longrightarrow> triple lib (\<lambda>s. P s \<and> C) m ops Q"
  unfolding triple_def by blast

lemma follows_any: "follows lib m ops \<Longrightarrow> triple lib P m ops (\<lambda>_ _. True)"
  by (erule triple_weaken) simp_all

lemma keep_quiet: "quiet m \<Longrightarrow> (\<And>x. triple lib P (f x) ops Q) \<Longrightarrow> triple lib P (bind_a m f) ops Q"
  by (rule triple_none [OF triple_quiet])

lemma learn_block:
  assumes "\<And>b. triple lib (named n b) (f b) ops Q"
  shows "triple lib (\<lambda>_. True) (bind_a (block_named n) f) ops Q"
proof (rule triple_none)
  show "triple lib (\<lambda>_. True) (block_named n) [] (named n)"
    by (auto simp: triple_def block_named_def split: option.splits)
qed (rule assms)

lemma learn_height:
  assumes "\<And>h. at_height lib (block_hash lib b) h \<Longrightarrow> triple lib (named n b) (f h) ops Q"
  shows "triple lib (named n b) (bind_a (height_named lib n) f) ops Q"
proof (rule triple_none)
  show "triple lib (named n b) (height_named lib n) [] (\<lambda>h s. named n b s \<and> at_height lib (block_hash lib b) h)"
    by (auto simp: triple_def height_named_def block_named_def height_of_hash_def bind_a_def split: option.splits dest: tracksD(4))
qed (rule triple_pure, rule assms)

lemma learn_made:
  assumes "\<And>b. bh_previous (fb_header b) = previous \<Longrightarrow> triple lib P (f b) ops Q"
  shows "triple lib P (bind_a (lift_r (make_block lib previous txs time version bits)) f) ops Q"
proof (rule triple_none)
  show "triple lib P (lift_r (make_block lib previous txs time version bits)) []
      (\<lambda>b s. P s \<and> bh_previous (fb_header b) = previous)"
    by (auto simp: triple_def dest: make_block_previous)
qed (rule triple_pure, rule assms)

lemma learn_with_header:
  assumes "\<And>c. bh_previous (fb_header c) = bh_previous (fb_header b) \<Longrightarrow> triple lib P (f c) ops Q"
  shows "triple lib P (bind_a (lift_r (with_header lib b merkle bits)) f) ops Q"
proof (rule triple_none)
  show "triple lib P (lift_r (with_header lib b merkle bits)) []
      (\<lambda>c s. P s \<and> bh_previous (fb_header c) = bh_previous (fb_header b))"
    by (auto simp: triple_def dest: with_header_previous)
qed (rule triple_pure, rule assms)

lemma learn_next: "(\<And>b. triple lib (named n b) (f b) ops Q) \<Longrightarrow> triple lib (\<lambda>_. True) (bind_a (next_on lib n) f) (Grow n # ops) Q"
  unfolding next_on_def by (rule triple_cons [OF triple_next_block])

lemma learn_update:
  "(\<And>b. triple lib (named n b) (f b) ops Q) \<Longrightarrow> triple lib (\<lambda>_. True) (bind_a (update_block lib n txs time) f) (Rework n # ops) Q"
  by (rule triple_cons [OF triple_update(1)])

lemma keep_signing:
  "(\<And>x. triple lib (named n b) (f x) ops Q) \<Longrightarrow> triple lib (named n b) (bind_a (put_s (\<lambda>s. s\<lparr>ch_signing_for := name\<rparr>)) f) ops Q"
proof (rule triple_none)
  show "triple lib (named n b) (put_s (\<lambda>s. s\<lparr>ch_signing_for := name\<rparr>)) [] (\<lambda>_. named n b)"
    by (auto simp: triple_def put_s_def)
qed

lemma keep_move:
  "(\<And>x. triple lib (named n b) (f x) ops Q) \<Longrightarrow> triple lib (named n b) (bind_a (move_tip name) f) (Move name # ops) Q"
  by (rule triple_cons [OF triple_move]) simp_all

lemma keep_sent:
  assumes "follows lib (send_block name tip reason unrequested disconnects None serialized) [Emit d]"
    and "\<And>x. triple lib (named n b) (f x) ops Q"
  shows "triple lib (named n b) (bind_a (send_block name tip reason unrequested disconnects None serialized) f) (Emit d # ops) Q"
proof (rule triple_cons)
  show "triple lib (named n b) (send_block name tip reason unrequested disconnects None serialized) [Emit d] (\<lambda>_. named n b)"
    using assms(1) unfolding triple_def by (blast dest: send_keeps_named)
qed (rule assms(2))

lemma keep_send:
  assumes "\<And>x. triple lib (named n b) (f x) ops Q"
  shows "triple lib (named n b) (bind_a (send_tip name) f) (Emit (Sent name True False) # ops) Q"
    and "triple lib (named n b) (bind_a (refused name why) f) (Emit (Sent name False True) # ops) Q"
    and "triple lib (named n b) (bind_a (send_block name tip (Some why) unrequested disconnects None serialized) f)
      (Emit (Sent name tip True) # ops) Q"
  unfolding send_tip_def refused_def reject_block_def by (rule keep_sent [OF follows_send_block assms], simp)+

lemma send_in_place:
  assumes "bh_previous (fb_header c) = bh_previous (fb_header b)"
  shows "triple lib (named n b) (reject_block n why unrequested disconnects (Some c)) [Emit (Sent n False True)] (\<lambda>_ _. True)"
  unfolding reject_block_def using triple_send [of lib n "Some c" False "Some why" unrequested disconnects None]
  by (simp, elim triple_weaken) (auto simp: in_place_def assms)

text \<open>Registering a block on another, and under a second name.\<close>

lemma register_on:
  assumes "bh_previous (fb_header c) = block_hash lib b" and "at_height lib (block_hash lib b) h"
  shows "triple lib (named parent b) (register lib name c (h + 1)) [GrowOn name parent]
    (\<lambda>x s. x = c \<and> named name c s \<and> (name \<noteq> parent \<longrightarrow> named parent b s))"
  unfolding triple_def
proof (intro allI impI)
  fix s k k' x t
  assume prems: "named parent b s" "tracks lib s k" "plan_run [GrowOn name parent] k = Some k'" "register lib name c (h + 1) s = (Inr x, t)"
  have t: "t = registered lib name c (Suc h) s" "x = c" using prems(4) by (auto simp: register_eq)
  have "hash_of_name lib (ch_blocks s) (Some parent) (bh_previous (fb_header c))" using prems(1) assms(1) by (simp add: hash_of_name_def)
  moreover have "at_height lib (block_hash lib c) (Suc h)" using at_height_block [of lib c h] assms by simp
  ultimately have "tracks lib t k'" unfolding t
    using tracks_grown [OF prems(2), of "Some parent" c name k' "Suc h"] prems(3) by (simp split: Option.bind_splits)
  then show "tracks lib t k' \<and> x = c \<and> named name c t \<and> (name \<noteq> parent \<longrightarrow> named parent b t)"
    using prems(1) t by (simp add: registered_def)
qed

lemma register_twin:
  assumes "fb_header c = fb_header b" and "at_height lib (block_hash lib b) n"
  shows "triple lib (named original b) (register lib name c n) [Twin name original] (\<lambda>_ _. True)"
  unfolding triple_def
proof (intro allI impI)
  fix s k k' x t
  assume prems: "named original b s" "tracks lib s k" "plan_run [Twin name original] k = Some k'" "register lib name c n s = (Inr x, t)"
  have t: "t = registered lib name c n s" using prems(4) by (auto simp: register_eq)
  obtain parent h where at: "map_of (pl_tree k) original = Some (parent, Suc h)"
    "hash_of_name lib (ch_blocks s) parent (bh_previous (fb_header b))" "at_height lib (bh_previous (fb_header b)) h"
    using tracksD(2) [OF prems(2,1)] by (auto simp: stands_at_def)
  have "attach name parent (Suc h) k = Some k'" using prems(3) at(1) by (simp split: Option.bind_splits)
  then show "tracks lib t k' \<and> True"
    unfolding t using tracks_attach [OF prems(2), of name parent h k' c n] at(2,3) assms by (simp add: block_hash_def)
qed

lemma register_then:
  assumes "bh_previous (fb_header c) = block_hash lib b" and "at_height lib (block_hash lib b) h"
    and "\<And>x. triple lib (named name c) (f x) ops Q"
  shows "triple lib (named parent b) (bind_a (register lib name c (h + 1)) f) (GrowOn name parent # ops) Q"
proof (rule triple_cons)
  show "triple lib (named parent b) (register lib name c (h + 1)) [GrowOn name parent] (\<lambda>_. named name c)"
    by (rule triple_weaken [OF register_on [OF assms(1,2)]]) simp_all
qed (rule assms(3))

lemma register_keep:
  assumes "bh_previous (fb_header c) = block_hash lib b" and "at_height lib (block_hash lib b) h" and "name \<noteq> parent"
    and "\<And>x. triple lib (named parent b) (f x) ops Q"
  shows "triple lib (named parent b) (bind_a (register lib name c (h + 1)) f) (GrowOn name parent # ops) Q"
proof (rule triple_cons)
  show "triple lib (named parent b) (register lib name c (h + 1)) [GrowOn name parent] (\<lambda>_. named parent b)"
    by (rule triple_weaken [OF register_on [OF assms(1,2)]]) (use assms(3) in simp_all)
qed (rule assms(4))

lemma register_twin_then:
  assumes "fb_header c = fb_header b" and "at_height lib (block_hash lib b) n" and "\<And>x. follows lib (f x) ops"
  shows "triple lib (named original b) (bind_a (register lib name c n) f) (Twin name original # ops) (\<lambda>_ _. True)"
  by (rule triple_cons [OF register_twin [OF assms(1,2)] assms(3)])

end
