(* ===== verification/Feature_Forks.thy ===== *)
theory Feature_Forks
  imports Feature_Steps
begin

section \<open>The plan of Core's sequence\<close>

text \<open>
  Each function of the sequence with the plan it follows: what it builds on what, and what it expects
  of the node. \<open>follows_all_runs\<close> puts them together: whatever the sequence returns, it was built and
  sent as \<open>whole_plan\<close> says.
\<close>

abbreviation tip_sent :: "string \<Rightarrow> string plan_op" where "tip_sent name \<equiv> Emit (Sent name True False)"
abbreviation side_sent :: "string \<Rightarrow> string plan_op" where "side_sent name \<equiv> Emit (Sent name False False)"
abbreviation bad_sent :: "string \<Rightarrow> string plan_op" where "bad_sent name \<equiv> Emit (Sent name False True)"

subsection \<open>From \<open>b1\<close> to \<open>b38\<close>\<close>

definition fork_and_reorg_plan :: "string plan_op list" where
  "fork_and_reorg_plan =
     [Grow ''b1'', Grow ''b2'', tip_sent ''b1'', tip_sent ''b2'',
      Move ''b1'', Grow ''b3'', side_sent ''b3'', Grow ''b4'', tip_sent ''b4'',
      Move ''b2'', Grow ''b5'', side_sent ''b5'', Grow ''b6'', tip_sent ''b6'',
      Move ''b5'', Grow ''b7'', side_sent ''b7'', Grow ''b8'', bad_sent ''b8'',
      Move ''b6'', Grow ''b9'', bad_sent ''b9'',
      Move ''b5'', Grow ''b10'', side_sent ''b10'', Grow ''b11'', bad_sent ''b11'',
      Move ''b5'', Grow ''b12'', Grow ''b13'', Grow ''b14'', side_sent ''b12'', tip_sent ''b13'', bad_sent ''b14'',
      Emit (TipIs ''b13'')]"

definition sigops_and_spends_plan :: "string plan_op list" where
  "sigops_and_spends_plan =
     [Move ''b13'', Grow ''b15'', tip_sent ''b15'', Grow ''b16'', bad_sent ''b16'',
      Move ''b15'', Grow ''b17'', bad_sent ''b17'',
      Move ''b13'', Grow ''b18'', side_sent ''b18'', Grow ''b19'', bad_sent ''b19'',
      Move ''b15'', Grow ''b20'', bad_sent ''b20'',
      Move ''b13'', Grow ''b21'', side_sent ''b21'', Grow ''b22'', bad_sent ''b22'']"

definition weight_and_coinbase_length_plan :: "string plan_op list" where
  "weight_and_coinbase_length_plan =
     [Move ''b15'', Grow ''b23'', Rework ''b23'', tip_sent ''b23'',
      Move ''b15'', Grow ''b24'', Rework ''b24'', bad_sent ''b24'', Grow ''b25'', side_sent ''b25'',
      Move ''b15'', Grow ''b26'', Rework ''b26'', bad_sent ''b26'', Grow ''b27'', side_sent ''b27'',
      Move ''b15'', Grow ''b28'', Rework ''b28'', bad_sent ''b28'', Grow ''b29'', side_sent ''b29'',
      Move ''b23'', Grow ''b30'', Rework ''b30'', tip_sent ''b30'']"

definition checkmultisig_sigops_plan :: "string plan_op list" where
  "checkmultisig_sigops_plan =
     [Grow ''b31'', tip_sent ''b31'', Grow ''b32'', bad_sent ''b32'',
      Move ''b31'', Grow ''b33'', tip_sent ''b33'', Grow ''b34'', bad_sent ''b34'',
      Move ''b33'', Grow ''b35'', tip_sent ''b35'', Grow ''b36'', bad_sent ''b36'',
      Move ''b35'', Grow ''b37'', Rework ''b37'', bad_sent ''b37'',
      Move ''b35'', Grow ''b38'', bad_sent ''b38'']"

lemma follows_fork_and_reorg: "follows lib (fork_and_reorg lib out) fork_and_reorg_plan"
  unfolding fork_and_reorg_def fork_and_reorg_plan_def in_sequence
  by (rule plan_intros plan_calls follows_ret | (rule follows_quiet, (rule quiet_intros)+))+

lemma follows_sigops_and_spends: "follows lib (sigops_and_spends lib out) sigops_and_spends_plan"
  unfolding sigops_and_spends_def spends_off_the_chain_def sigops_and_spends_plan_def in_sequence
  by (rule plan_intros plan_calls follows_ret | (rule follows_quiet, (rule quiet_intros)+))+

lemma follows_weight_and_coinbase_length: "follows lib (weight_and_coinbase_length lib out) weight_and_coinbase_length_plan"
  unfolding weight_and_coinbase_length_def full_block_def overfull_block_def coinbase_of_length_def coinbase_of_a_hundred_def
    weight_and_coinbase_length_plan_def in_sequence
  by (rule plan_intros plan_calls follows_ret | (rule follows_quiet, (rule quiet_intros)+))+

lemma follows_checkmultisig_sigops: "follows lib (checkmultisig_sigops lib out) checkmultisig_sigops_plan"
  unfolding checkmultisig_sigops_def multisig_blocks_def verify_blocks_def spends_of_a_failed_block_def
    checkmultisig_sigops_plan_def in_sequence
  by (rule plan_intros plan_calls follows_ret | (rule follows_quiet, (rule quiet_intros)+))+

subsection \<open>From \<open>b39\<close> to \<open>b52\<close>\<close>

definition p2sh_rest_plan :: "string plan_op list" where
  "p2sh_rest_plan =
     [Rework ''b39'', tip_sent ''b39'',
      Move ''b39'', Grow ''b40'', Rework ''b40'', bad_sent ''b40'',
      Move ''b39'', Grow ''b41'', Rework ''b41'', tip_sent ''b41'',
      Move ''b39'', Grow ''b42'', Grow ''b43'', side_sent ''b42'', tip_sent ''b43'']"

definition p2sh_plan :: "string plan_op list" where
  "p2sh_plan = [Move ''b35'', Grow ''b39'', Rework ''b39''] @ p2sh_rest_plan"

definition by_hand_plan :: "string plan_op list" where
  "by_hand_plan =
     [GrowOn ''b44'' ''b43'', tip_sent ''b44'', GrowOn ''b45'' ''b44'', bad_sent ''b45'',
      Move ''b44'', GrowOn ''b46'' ''b44'', bad_sent ''b46'']"

definition headers_plan :: "string plan_op list" where
  "headers_plan =
     [Move ''b44'', Grow ''b48'', Rework ''b48'', bad_sent ''b48'',
      Move ''b44'', Grow ''b49'', bad_sent ''b49'',
      Move ''b44'', Grow ''b50'', bad_sent ''b50'',
      Move ''b44'', Grow ''b51'', Rework ''b51'', bad_sent ''b51'',
      Move ''b44'', Grow ''b52'', Rework ''b52'', bad_sent ''b52'']"

definition malformed_plan :: "string plan_op list" where
  "malformed_plan = (by_hand_plan @ [Move ''b44'', Grow ''b47'']) @ bad_sent ''b47'' # headers_plan"

lemma follows_first_of_b39: "follows lib (first_of_b39 lib out) [Move ''b35'', Grow ''b39'', Rework ''b39'']"
  unfolding first_of_b39_def in_sequence
  by (rule plan_intros plan_calls follows_ret | (rule follows_quiet, (rule quiet_intros)+))+

lemma follows_rest_of_b39:
  "follows lib (bind_a (whole_of_b39 lib b39 txs) (\<lambda>b39. one_by_one [p2sh_over_and_at lib out b39 outputs, p2sh_fork lib out]))
     p2sh_rest_plan"
  unfolding whole_of_b39_def p2sh_over_and_at_def p2sh_fork_def in_sequence p2sh_rest_plan_def
  by (rule plan_intros plan_calls follows_ret follows_pair | (rule follows_quiet, (rule quiet_intros)+))+

lemma follows_blocks_by_hand: "follows lib (blocks_by_hand lib out) by_hand_plan"
  unfolding blocks_by_hand_def by_hand_plan_def Let_def
  by (rule learn_block, rule learn_height, rule keep_signing, rule keep_quiet, rule quiet_intros, rule keep_quiet, rule quiet_intros, rule learn_made,
      rule register_then, assumption, assumption, rule keep_send, rule keep_quiet, rule quiet_intros, rule learn_made,
      rule register_keep, assumption, simp add: at_height_block, simp, rule keep_send, rule keep_move, rule learn_made,
      rule register_keep, assumption, simp add: at_height_block, simp, rule follows_any, rule plan_calls)

lemma over_target_previous: "over_target lib target header = Some found \<Longrightarrow> bh_previous found = bh_previous header"
  by (rule over_target.raw_induct [where P = "\<lambda>lib target header found. bh_previous found = bh_previous header", rotated])
    (auto split: if_splits)

lemma triple_b47: "triple lib (\<lambda>_. True) (b47_on_b44 lib) [Move ''b44'', Grow ''b47''] (\<lambda>b. named ''b47'' b)"
  unfolding b47_on_b44_def next_on_def by (rule triple_cons [OF triple_move]) (simp_all add: triple_next_block)

lemma follows_too_new: "follows lib (block_too_new lib) [Move ''b44'', Grow ''b48'', Rework ''b48'', bad_sent ''b48'']"
  unfolding block_too_new_def in_sequence
  by (rule plan_intros plan_calls follows_ret | (rule follows_quiet, (rule quiet_intros)+))+

lemma follows_another_header:
  "follows lib (block_of_another_root lib) [Move ''b44'', Grow ''b49'', bad_sent ''b49'']"
  "follows lib (block_of_another_target lib) [Move ''b44'', Grow ''b50'', bad_sent ''b50'']"
  unfolding block_of_another_root_def block_of_another_target_def
  by (rule plan_intros, rule learn_next, rule keep_quiet, rule quiet_intros, rule learn_with_header, rule send_in_place, assumption)+

lemma follows_two_coinbases: "follows lib (block_of_two_coinbases lib) [Move ''b44'', Grow ''b51'', Rework ''b51'', bad_sent ''b51'']"
  unfolding block_of_two_coinbases_def in_sequence
  by (rule plan_intros plan_calls follows_ret | (rule follows_quiet, (rule quiet_intros)+))+

lemma follows_repeated_tx: "follows lib (block_of_a_repeated_tx lib out) [Move ''b44'', Grow ''b52'', Rework ''b52'', bad_sent ''b52'']"
  unfolding block_of_a_repeated_tx_def in_sequence
  by (rule plan_intros plan_calls follows_ret | (rule follows_quiet, (rule quiet_intros)+))+

subsection \<open>From \<open>b53\<close> to \<open>b63\<close>\<close>

definition timestamps_plan :: "string plan_op list" where
  "timestamps_plan =
     [Move ''b43'', Grow ''b53'', side_sent ''b53'', Grow ''b54'', Rework ''b54'', bad_sent ''b54'',
      Move ''b53'', Grow ''b55'', Rework ''b55'', tip_sent ''b55'',
      Emit Other, Move ''b48'', Grow ''b48p'', side_sent ''b48'', tip_sent ''b48p'', Emit (Invalidated ''b48p''), Emit Other]"

definition merkle_malleability_plan :: "string plan_op list" where
  "merkle_malleability_plan =
     [Move ''b55'', Grow ''b57'', Rework ''b57'', Move ''b55'', Twin ''b56'' ''b57'', bad_sent ''b56'',
      Move ''b55'', Grow ''b57p2'', Rework ''b57p2'', Move ''b55'', Twin ''b56p2'' ''b57p2'', bad_sent ''b56p2'',
      Move ''b57p2'', tip_sent ''b57p2'', Move ''b57'', side_sent ''b57'',
      Move ''b57'', Grow ''b58'', Rework ''b58'', bad_sent ''b58'',
      Move ''b57'', Grow ''b59'', Rework ''b59'', bad_sent ''b59'',
      Move ''b57'', Grow ''b60'', tip_sent ''b60'']"

definition duplicate_coinbase_plan :: "string plan_op list" where
  "duplicate_coinbase_plan =
     [Move ''b60'', Grow ''b61'', Rework ''b61'', bad_sent ''b61'',
      Move ''b57'', Grow ''spend_dup_cb'', Rework ''spend_dup_cb'', Grow ''dup_2'', Rework ''dup_2'',
      Emit Other, side_sent ''spend_dup_cb'', tip_sent ''dup_2'', Emit Other,
      Move ''dup_2'', Grow ''b62'', Rework ''b62'', bad_sent ''b62'',
      Move ''dup_2'', Grow ''b63'', Rework ''b63'', bad_sent ''b63'']"

lemma follows_timestamps: "follows lib (timestamps lib out) timestamps_plan"
  unfolding timestamps_def at_the_median_def clock_moves_def timestamps_plan_def in_sequence
  by (rule plan_intros plan_calls follows_ret | (rule follows_quiet, (rule quiet_intros)+))+

lemma triple_malleated:
  "triple lib (named original b) (malleated lib name original b repeated what) [Move ''b55'', Twin name original, bad_sent name] (\<lambda>_ _. True)"
  unfolding malleated_def Let_def
  by (rule keep_move, rule keep_quiet, rule quiet_intros, rule learn_height, rule register_twin_then, simp, assumption, rule plan_calls)

lemma follows_repeated:
  "follows lib (one_repeated lib out) [Move ''b55'', Grow ''b57'', Rework ''b57'', Move ''b55'', Twin ''b56'' ''b57'', bad_sent ''b56'']"
  "follows lib (two_repeated lib out)
     [Move ''b55'', Grow ''b57p2'', Rework ''b57p2'', Move ''b55'', Twin ''b56p2'' ''b57p2'', bad_sent ''b56p2'']"
  unfolding one_repeated_def two_repeated_def in_sequence
  by (rule plan_intros, rule plan_intros, (rule follows_quiet, rule quiet_intros)+, rule learn_update, rule triple_malleated)+

lemma follows_invalid_spends:
  "follows lib (invalid_spends lib out)
     [Move ''b57'', Grow ''b58'', Rework ''b58'', bad_sent ''b58'', Move ''b57'', Grow ''b59'', Rework ''b59'', bad_sent ''b59'',
      Move ''b57'', Grow ''b60'', tip_sent ''b60'']"
  unfolding invalid_spends_def in_sequence
  by (rule plan_intros plan_calls follows_ret | (rule follows_quiet, (rule quiet_intros)+))+

lemma follows_merkle_malleability: "follows lib (merkle_malleability lib out) merkle_malleability_plan"
proof -
  note parts = follows_bind [OF follows_repeated(1), unfolded append_Cons append_Nil]
    follows_bind [OF follows_repeated(2), unfolded append_Cons append_Nil]
    follows_bind [OF follows_invalid_spends, unfolded append_Cons append_Nil]
  show ?thesis
    unfolding merkle_malleability_def merkle_malleability_plan_def one_by_one.simps by (rule parts plan_intros follows_ret)+
qed

lemma follows_with_duplicate: "follows lib (with_duplicate lib name b tx what) [Rework name]"
  unfolding with_duplicate_def
  by (rule plan_intros, rule follows_quiet, rule quiet_intros, rule triple_follows [OF triple_quiet], rule quiet_intros)

lemma follows_duplicate_coinbase: "follows lib (duplicate_coinbase lib out tx) duplicate_coinbase_plan"
  unfolding duplicate_coinbase_def while_unspent_def once_spent_def not_final_def duplicate_coinbase_plan_def in_sequence
  by (rule plan_intros plan_calls follows_ret follows_with_duplicate [THEN follows_then] | (rule follows_quiet, (rule quiet_intros)+))+

subsection \<open>From \<open>b64\<close> on\<close>

definition bloated_and_spends_plan :: "string plan_op list" where
  "bloated_and_spends_plan =
     [Move ''dup_2'', Grow ''b64a'', Rework ''b64a'', bad_sent ''b64a'', Move ''dup_2'', Twin ''b64'' ''b64a'', tip_sent ''b64'',
      Move ''b64'', Grow ''b65'', Rework ''b65'', tip_sent ''b65'',
      Move ''b65'', Grow ''b66'', Rework ''b66'', bad_sent ''b66'',
      Move ''b65'', Grow ''b67'', Rework ''b67'', bad_sent ''b67'',
      Move ''b65'', Grow ''b68'', Rework ''b68'', bad_sent ''b68'',
      Move ''b65'', Grow ''b69'', Rework ''b69'', tip_sent ''b69'',
      Move ''b69'', Grow ''b70'', Rework ''b70'', bad_sent ''b70'',
      Move ''b69'', Grow ''b72'', Rework ''b72'', GrowOn ''b71'' ''b69'', bad_sent ''b71'', Move ''b72'', tip_sent ''b72'']"

definition sigops_around_pushes_plan :: "string plan_op list" where
  "sigops_around_pushes_plan =
     [Move ''b72'', Grow ''b73'', Rework ''b73'', bad_sent ''b73'',
      Move ''b72'', Grow ''b74'', Rework ''b74'', bad_sent ''b74'',
      Move ''b72'', Grow ''b75'', Rework ''b75'', tip_sent ''b75'',
      Move ''b75'', Grow ''b76'', Rework ''b76'', tip_sent ''b76'']"

definition resurrection_and_op_return_plan :: "string plan_op list" where
  "resurrection_and_op_return_plan =
     [Move ''b76'', Grow ''b77'', Rework ''b77'', tip_sent ''b77'', Grow ''b78'', Rework ''b78'', tip_sent ''b78'',
      Grow ''b79'', Rework ''b79'', tip_sent ''b79'', Emit Other,
      Move ''b77'', Grow ''b80'', side_sent ''b80'', Grow ''b81'', side_sent ''b81'', Grow ''b82'', tip_sent ''b82'', Emit Other,
      Grow ''b83'', Rework ''b83'', tip_sent ''b83'',
      Grow ''b84'', Rework ''b84'', tip_sent ''b84'',
      Move ''b83'', Grow ''b85'', side_sent ''b85'', Grow ''b86'', tip_sent ''b86'',
      Move ''b84'', Grow ''b87'', side_sent ''b87'', Grow ''b88'', tip_sent ''b88'',
      Grow ''b89a'', Rework ''b89a'', bad_sent ''b89a'',
      Move ''b88'', Grow ''b_v1'', bad_sent ''b_v1'',
      Move ''b87'', Grow ''b_cb34'', Rework ''b_cb34'', bad_sent ''b_cb34'']"

lemma follows_bloated_block:
  "follows lib (bloated_block lib out)
     [Move ''dup_2'', Grow ''b64a'', Rework ''b64a'', bad_sent ''b64a'', Move ''dup_2'', Twin ''b64'' ''b64a'', tip_sent ''b64'']"
  unfolding bloated_block_def in_sequence
  by (rule plan_intros, rule plan_intros, rule follows_quiet, rule quiet_intros, rule learn_update, rule keep_quiet, rule quiet_intros,
      rule keep_send, rule keep_move, rule keep_quiet, rule quiet_intros, rule learn_height, rule register_twin_then, simp, assumption)
    (rule plan_intros plan_calls follows_ret)+

lemma follows_spends:
  "follows lib (spends_in_order lib out) [Move ''b64'', Grow ''b65'', Rework ''b65'', tip_sent ''b65'']"
  "follows lib (spends_out_of_order lib out) [Move ''b65'', Grow ''b66'', Rework ''b66'', bad_sent ''b66'']"
  "follows lib (spends_twice lib out) [Move ''b65'', Grow ''b67'', Rework ''b67'', bad_sent ''b67'']"
  "follows lib (fees_claimed lib out)
     [Move ''b65'', Grow ''b68'', Rework ''b68'', bad_sent ''b68'', Move ''b65'', Grow ''b69'', Rework ''b69'', tip_sent ''b69'']"
  "follows lib (bogus_input lib out) [Move ''b69'', Grow ''b70'', Rework ''b70'', bad_sent ''b70'']"
  unfolding spends_in_order_def spends_out_of_order_def spends_twice_def fees_claimed_def bogus_input_def in_sequence
  by (rule plan_intros plan_calls follows_ret | (rule follows_quiet, (rule quiet_intros)+))+

lemma follows_push_block: "follows lib (push_block lib out parent name i script) [Move parent, Grow name, Rework name]"
  unfolding push_block_def in_sequence
  by (rule plan_intros plan_calls follows_ret | (rule follows_quiet, (rule quiet_intros)+))+

lemma follows_pushes: "follows lib (sigops_around_pushes lib out) sigops_around_pushes_plan"
proof -
  note push = follows_bind [OF follows_push_block, unfolded append_Cons append_Nil]
  show ?thesis
    unfolding sigops_around_pushes_def sigops_around_pushes_plan_def in_sequence
    by (rule push plan_intros plan_calls follows_ret | (rule follows_quiet, (rule quiet_intros)+))+
qed

lemma follows_resurrection: "follows lib (resurrection_and_op_return lib out) resurrection_and_op_return_plan"
  unfolding resurrection_and_op_return_def resurrection_def with_one_def branch_not_taken_def op_return_outputs_def op_return_reorgs_def
    height_cut_short_def resurrection_and_op_return_plan_def in_sequence
  by (rule plan_intros plan_calls follows_ret | (rule follows_quiet, (rule quiet_intros)+))+

text \<open>\<open>b71\<close> is built on \<open>b69\<close> because \<open>b72\<close>, whose header it has, was.\<close>

definition built_on :: "block_lib \<Rightarrow> string \<Rightarrow> string \<Rightarrow> fblock \<Rightarrow> chain \<Rightarrow> bool" where
  "built_on lib name parent c s \<longleftrightarrow>
     named parent c s \<and> (\<exists>b. named name b s \<and> bh_previous (fb_header b) = block_hash lib c)"

lemma triple_ex: "(\<And>c. triple lib (P c) m ops Q) \<Longrightarrow> triple lib (\<lambda>s. \<exists>c. P c s) m ops Q"
  unfolding triple_def by blast

lemma triple_move_to: "triple lib (\<lambda>_. True) (move_tip m) [Move m] (\<lambda>_ s. \<exists>c. ch_tip s = Some c \<and> named m c s)"
  unfolding triple_def
proof (intro allI impI)
  fix s k k' x t
  assume prems: "tracks lib s k" "plan_run [Move m] k = Some k'" "move_tip m s = (Inr x, t)" "sound_lib lib"
  show "tracks lib t k' \<and> (\<exists>c. ch_tip t = Some c \<and> named m c t)"
    using tripleD(1) [OF follows_calls(10) prems(4) TrueI prems(1-3)] prems(3)
    by (auto simp: move_tip_def block_named_def put_s_def elim!: bind_a_InrD split: option.splits)
qed

lemma triple_next_built:
  assumes "name \<noteq> m"
  shows "triple lib (\<lambda>s. ch_tip s = Some c \<and> named m c s) (next_on lib name) [Grow name] (\<lambda>_ s. built_on lib name m c s)"
  unfolding triple_def
proof (intro allI impI)
  fix s k k' b t
  assume prems: "ch_tip s = Some c \<and> named m c s" "tracks lib s k" "plan_run [Grow name] k = Some k'" "next_on lib name s = (Inr b, t)"
    "sound_lib lib"
  obtain previous block_time below fees txs coinbase where
    run: "(previous, block_time) = (case ch_tip s of None \<Rightarrow> (fl_genesis_hash lib, ch_start_time s + 1)
       | Some tip \<Rightarrow> (block_hash lib tip, time_of tip + 1))"
    "make_block lib previous (coinbase # txs) block_time VERSION (fl_pow_limit_bits lib) = Inr b"
    "t = registered lib name b (Suc below) (s\<lparr>ch_signing_for := name\<rparr>)"
    using prems(4) unfolding next_on_def by (rule next_block_InrD)
  have "bh_previous (fb_header b) = block_hash lib c" using make_block_previous [OF prems(5) run(2)] run(1) prems(1) by simp
  then show "tracks lib t k' \<and> built_on lib name m c t"
    using tripleD(1) [OF follows_calls(2) prems(5) TrueI prems(2-4)] prems(1) assms by (auto simp: built_on_def run(3) registered_def)
qed

lemma triple_update_built:
  assumes "name \<noteq> m"
  shows "triple lib (built_on lib name m c) (update_block lib name txs time) [Rework name]
    (\<lambda>b s. named m c s \<and> bh_previous (fb_header b) = block_hash lib c)"
  unfolding triple_def
proof (intro allI impI)
  fix s k k' b t
  assume prems: "built_on lib name m c s" "tracks lib s k" "plan_run [Rework name] k = Some k'" "update_block lib name txs time s = (Inr b, t)"
    "sound_lib lib"
  obtain old where old: "named name old s" "rebuild lib name (fb_transactions old @ txs) time s = (Inr b, t)"
    using prems(4) by (auto simp: update_block_def block_named_def elim!: bind_a_InrD split: option.splits)
  obtain old' n where run: "named name old' s" "make_block lib (bh_previous (fb_header old')) (fb_transactions old @ txs)
       (case time of None \<Rightarrow> time_of old' | Some u \<Rightarrow> u) (bh_version (fb_header old')) (bh_bits (fb_header old')) = Inr b"
    "t = registered lib name b n (s\<lparr>ch_heights := (ch_heights s)(block_hash lib old' := None)\<rparr>)"
    by (rule rebuild_InrD [OF old(2)])
  show "tracks lib t k' \<and> named m c t \<and> bh_previous (fb_header b) = block_hash lib c"
    using tripleD(1) [OF follows_calls(7) prems(5) TrueI prems(2-4)] make_block_previous [OF prems(5) run(2)] run(1) prems(1) assms
    by (auto simp: built_on_def run(3) registered_def)
qed

lemma follows_last_repeated:
  "follows lib (last_repeated lib out)
     [Move ''b69'', Grow ''b72'', Rework ''b72'', GrowOn ''b71'' ''b69'', bad_sent ''b71'', Move ''b72'', tip_sent ''b72'']"
proof -
  have end_of: "triple lib (\<lambda>s. named ''b69'' c s \<and> bh_previous (fb_header b72) = block_hash lib c)
      (bind_a (height_named lib ''b69'') (\<lambda>below. bind_a (register lib ''b71''
         \<lparr>fb_header = fb_header b72, fb_transactions = fb_transactions b72 @ [tx2]\<rparr> (below + 1)) f))
      (GrowOn ''b71'' ''b69'' # ops) (\<lambda>_ _. True)" if "\<And>x. follows lib (f x) ops" for c b72 tx2 f ops
    by (rule triple_pure, rule learn_height, rule register_then) (simp_all add: that follows_any)
  have grown: "triple lib (\<lambda>s. \<exists>c. ch_tip s = Some c \<and> named ''b69'' c s) (next_on lib ''b72'') [Grow ''b72'']
      (\<lambda>_ s. \<exists>c. built_on lib ''b72'' ''b69'' c s)"
    by (rule triple_ex, rule triple_weaken [OF triple_next_built [where m = "''b69''"]]) auto
  have updated: "triple lib (\<lambda>s. \<exists>c. built_on lib ''b72'' ''b69'' c s) (update_block lib ''b72'' txs None) [Rework ''b72'']
      (\<lambda>b s. \<exists>c. named ''b69'' c s \<and> bh_previous (fb_header b) = block_hash lib c)" for txs
    by (rule triple_ex, rule triple_weaken [OF triple_update_built [where m = "''b69''"]]) auto
  show ?thesis
    unfolding last_repeated_def grow_empty_def in_sequence
    by (rule triple_cons [OF triple_move_to], rule triple_cons [OF grown], rule keep_quiet, rule quiet_intros, rule keep_quiet,
        rule quiet_intros, rule triple_cons [OF updated], rule triple_ex, rule end_of) (rule plan_intros plan_calls follows_ret)+
qed

lemma follows_bloated_and_spends: "follows lib (bloated_and_spends lib out) bloated_and_spends_plan"
proof -
  note parts = follows_bind [OF follows_bloated_block, unfolded append_Cons append_Nil]
    follows_bind [OF follows_spends(1), unfolded append_Cons append_Nil] follows_bind [OF follows_spends(2), unfolded append_Cons append_Nil]
    follows_bind [OF follows_spends(3), unfolded append_Cons append_Nil] follows_bind [OF follows_spends(4), unfolded append_Cons append_Nil]
    follows_bind [OF follows_spends(5), unfolded append_Cons append_Nil] follows_bind [OF follows_last_repeated, unfolded append_Cons append_Nil]
  show ?thesis
    unfolding bloated_and_spends_def bloated_and_spends_plan_def one_by_one.simps by (rule parts follows_ret)+
qed

subsection \<open>The whole sequence\<close>

definition buffer_plan :: "string plan_op list" where
  "buffer_plan = map (\<lambda>i. Grow (buffer_name i)) [0..<BUFFER_BLOCKS] @ map (\<lambda>i. tip_sent (buffer_name i)) [0..<BUFFER_BLOCKS]"

definition spends_of_size_plan :: "string plan_op list" where
  "spends_of_size_plan =
     [Grow ''max_script_size'', Rework ''max_script_size'', tip_sent ''max_script_size'', Emit (Invalidated ''max_script_size''),
      Emit Other,
      Move (buffer_name (BUFFER_BLOCKS - 1)), Grow ''max_script_size_plus_one'', Rework ''max_script_size_plus_one'',
      bad_sent ''max_script_size_plus_one'', Move (buffer_name (BUFFER_BLOCKS - 1))]"

definition opening_plan :: "string plan_op list" where
  "opening_plan =
     [Grow ''dup_cb'', Rework ''dup_cb'', tip_sent ''dup_cb''] @ [Grow ''b0'', tip_sent ''b0''] @ buffer_plan @ spends_of_size_plan"

definition whole_plan :: "string plan_op list" where
  "whole_plan =
     opening_plan
     @ (fork_and_reorg_plan @ sigops_and_spends_plan @ weight_and_coinbase_length_plan @ checkmultisig_sigops_plan)
     @ p2sh_plan @ malformed_plan
     @ (timestamps_plan @ merkle_malleability_plan @ duplicate_coinbase_plan @ bloated_and_spends_plan @ sigops_around_pushes_plan
        @ resurrection_and_op_return_plan)"

lemma one_by_one_append: "one_by_one (ms @ ns) = bind_a (one_by_one ms) (\<lambda>_. one_by_one ns)"
  by (induction ms) (simp_all only: append_Nil append_Cons one_by_one.simps bind_ret_left bind_a_assoc)

lemma follows_append:
  "follows lib (one_by_one ms) xs \<Longrightarrow> follows lib (one_by_one ns) ys \<Longrightarrow> follows lib (one_by_one (ms @ ns)) (xs @ ys)"
  unfolding one_by_one_append by (rule follows_bind)

lemma follows_each: "(\<And>i. follows lib (f i) [g i]) \<Longrightarrow> follows lib (one_by_one (map f js)) (map g js)"
proof (induction js)
  case Nil
  show ?case unfolding list.map one_by_one.simps by (rule follows_ret)
next
  case (Cons j js)
  show ?case unfolding list.map one_by_one.simps by (rule follows_then [OF Cons.prems Cons.IH [OF Cons.prems]])
qed

lemma follows_grow_all:
  "follows lib (one_by_one (concat (map (\<lambda>i. [grow_empty lib (buffer_name i), save_spendable_output]) js))) (map (\<lambda>i. Grow (buffer_name i)) js)"
proof (induction js)
  case Nil
  show ?case unfolding list.map concat.simps one_by_one.simps by (rule follows_ret)
next
  case (Cons j js)
  show ?case
    unfolding list.map concat.simps append_Cons append_Nil one_by_one.simps by (rule plan_intros Cons.IH)+
qed

lemma follows_maturity_buffer: "follows lib (maturity_buffer lib) buffer_plan"
  unfolding maturity_buffer_def buffer_plan_def by (rule follows_append [OF follows_grow_all follows_each], rule plan_calls)

lemma follows_spends_of_size: "follows lib (spends_of_size lib b0) spends_of_size_plan"
  unfolding spends_of_size_def spends_of_size_plan_def in_sequence
  by (rule plan_intros plan_calls follows_ret | (rule follows_quiet, (rule quiet_intros)+))+

lemma follows_opening: "follows lib (opening_blocks lib) opening_plan"
proof -
  have first: "follows lib (duplicate_first lib) [Grow ''dup_cb'', Rework ''dup_cb'', tip_sent ''dup_cb'']"
    unfolding duplicate_first_def by (rule plan_intros plan_calls follows_ret | (rule follows_quiet, (rule quiet_intros)+))+
  have sizes: "follows lib (script_sizes lib) [Grow ''b0'', tip_sent ''b0'']"
    unfolding script_sizes_def in_sequence by (rule plan_intros plan_calls follows_ret | (rule follows_quiet, (rule quiet_intros)+))+
  have buffers: "follows lib (bind_a (one_by_one [maturity_buffer lib, spends_of_size lib b0]) f) (buffer_plan @ spends_of_size_plan)"
    if "\<And>x. follows lib (f x) []" for b0 and f :: "unit \<Rightarrow> (chain, ftx \<times> ftx list) act"
    unfolding in_sequence
    using follows_bind [OF follows_maturity_buffer follows_bind [OF follows_spends_of_size that]] by (simp only: append_Nil2)
  have tail: "follows lib (bind_a (collect_outputs OUTPUTS_TO_COLLECT) (\<lambda>out. ret (tx, out))) []" for tx :: ftx
    by (rule plan_intros follows_ret)+
  show ?thesis
    unfolding opening_blocks_def opening_plan_def by (rule follows_bind first sizes buffers tail)+
qed

subsection \<open>Loops\<close>

definition triple_l ::
  "block_lib \<Rightarrow> (chain \<Rightarrow> bool) \<Rightarrow> (chain, 'a) loop \<Rightarrow> string plan_op list \<Rightarrow> ('a \<Rightarrow> chain \<Rightarrow> bool) \<Rightarrow> bool" where
  "triple_l lib P m ops Q \<longleftrightarrow>
     (\<forall>s k k' x t. sound_lib lib \<longrightarrow> P s \<longrightarrow> tracks lib s k \<longrightarrow> plan_run ops k = Some k' \<longrightarrow> m s = Some (Inr x, t)
        \<longrightarrow> tracks lib t k' \<and> Q x t)"

lemma triple_lD:
  assumes "triple_l lib P m ops Q" and "sound_lib lib" and "P s" and "tracks lib s k" and "plan_run ops k = Some k'" and "m s = Some (Inr x, t)"
  shows "tracks lib t k' \<and> Q x t"
  using assms unfolding triple_l_def by blast

lemma triple_l_once: "triple lib P m ops Q \<Longrightarrow> triple_l lib P (once m) ops Q"
  unfolding triple_l_def triple_def once_def by blast

lemma triple_l_bind:
  assumes "triple_l lib P m ops1 Q1" and "\<And>x. triple_l lib (Q1 x) (f x) ops2 Q"
  shows "triple_l lib P (bind_l m f) (ops1 @ ops2) Q"
  unfolding triple_l_def
proof (intro allI impI)
  fix s k k' y u
  assume prems: "sound_lib lib" "P s" "tracks lib s k" "plan_run (ops1 @ ops2) k = Some k'" "bind_l m f s = Some (Inr y, u)"
  obtain x t where run: "m s = Some (Inr x, t)" "f x t = Some (Inr y, u)" by (rule bind_l_InrD [OF prems(5)])
  obtain k1 where plan: "plan_run ops1 k = Some k1" "plan_run ops2 k1 = Some k'"
    using prems(4) unfolding plan_run_append by (auto simp: bind_eq_Some_conv)
  have "tracks lib t k1 \<and> Q1 x t" using assms(1) prems(1-3) plan(1) run(1) unfolding triple_l_def by blast
  then show "tracks lib u k' \<and> Q y u" using assms(2) prems(1) plan(2) run(2) unfolding triple_l_def by blast
qed

lemma triple_l_learn:
  assumes "\<And>x. r = Some (Inr x) \<Longrightarrow> triple_l lib P (f x) ops Q"
  shows "triple_l lib P (bind_l (lift_o r) f) ops Q"
  unfolding triple_l_def
proof (intro allI impI)
  fix s k k' y u
  assume prems: "sound_lib lib" "P s" "tracks lib s k" "plan_run ops k = Some k'" "bind_l (lift_o r) f s = Some (Inr y, u)"
  obtain x t where run: "lift_o r s = Some (Inr x, t)" "f x t = Some (Inr y, u)" by (rule bind_l_InrD [OF prems(5)])
  then have "r = Some (Inr x)" "t = s" by (auto simp: lift_o_def)
  then show "tracks lib u k' \<and> Q y u" using assms prems run(2) unfolding triple_l_def by blast
qed

lemma triple_l_pair: "(\<And>a b. triple_l lib P (f a b) ops Q) \<Longrightarrow> triple_l lib P (case p of (a, b) \<Rightarrow> f a b) ops Q"
  by (cases p) simp

lemma follows_p2sh: "triple_l lib (\<lambda>_. True) (p2sh_sigops lib out) p2sh_plan (\<lambda>_ _. True)"
  unfolding p2sh_sigops_def p2sh_plan_def
  by (rule triple_l_bind [OF triple_l_once [OF follows_first_of_b39]], rule triple_l_pair, rule triple_l_learn, rule triple_l_pair,
      rule triple_l_once, rule follows_rest_of_b39)

lemma follows_headers:
  "follows lib (one_by_one [block_too_new lib, block_of_another_root lib, block_of_another_target lib, block_of_two_coinbases lib,
     block_of_a_repeated_tx lib out]) headers_plan"
proof -
  note parts = follows_bind [OF follows_too_new, unfolded append_Cons append_Nil]
    follows_bind [OF follows_another_header(1), unfolded append_Cons append_Nil]
    follows_bind [OF follows_another_header(2), unfolded append_Cons append_Nil]
    follows_bind [OF follows_two_coinbases, unfolded append_Cons append_Nil]
    follows_bind [OF follows_repeated_tx, unfolded append_Cons append_Nil]
  show ?thesis unfolding headers_plan_def one_by_one.simps by (rule parts follows_ret)+
qed

lemma follows_malformed: "triple_l lib (\<lambda>_. True) (malformed lib out) malformed_plan (\<lambda>_ _. True)"
proof -
  have rest: "triple lib (named ''b47'' b47) (one_by_one
            [reject_block ''b47'' ''high-hash'' True True (Some \<lparr>fb_header = header, fb_transactions = fb_transactions b47\<rparr>),
             block_too_new lib, block_of_another_root lib, block_of_another_target lib, block_of_two_coinbases lib,
             block_of_a_repeated_tx lib out]) (bad_sent ''b47'' # headers_plan) (\<lambda>_ _. True)"
    if "bh_previous header = bh_previous (fb_header b47)" for b47 header
    unfolding one_by_one.simps(2) [of "reject_block _ _ _ _ _"]
    by (rule triple_cons [OF send_in_place follows_headers]) (simp add: that)
  show ?thesis
    unfolding malformed_def malformed_plan_def
    by (rule triple_l_bind [OF triple_l_once [OF triple_bind [OF follows_blocks_by_hand triple_b47]]], rule triple_l_learn,
        rule triple_l_once, rule rest) (auto dest: over_target_previous)
qed

text \<open>Whatever the sequence returns, it was built and sent as the plan says.\<close>

lemma follows_all_runs:
  "triple_l lib (\<lambda>_. True) (all_runs lib) whole_plan (\<lambda>sts s. sts = ch_steps s)"
proof -
  have early: "follows lib (one_by_one
      [fork_and_reorg lib out, sigops_and_spends lib out, weight_and_coinbase_length lib out, checkmultisig_sigops lib out])
      (fork_and_reorg_plan @ sigops_and_spends_plan @ weight_and_coinbase_length_plan @ checkmultisig_sigops_plan @ [])" for out
    unfolding one_by_one.simps
    by (rule follows_bind follows_fork_and_reorg follows_sigops_and_spends follows_weight_and_coinbase_length
        follows_checkmultisig_sigops follows_ret)+
  have late: "follows lib (one_by_one
      [timestamps lib out, merkle_malleability lib out, duplicate_coinbase lib out tx, bloated_and_spends lib out,
       sigops_around_pushes lib out, resurrection_and_op_return lib out])
      (timestamps_plan @ merkle_malleability_plan @ duplicate_coinbase_plan @ bloated_and_spends_plan @ sigops_around_pushes_plan
        @ resurrection_and_op_return_plan @ [])" for out tx
    unfolding one_by_one.simps
    by (rule follows_bind follows_timestamps follows_merkle_malleability follows_duplicate_coinbase follows_bloated_and_spends
        follows_pushes follows_resurrection follows_ret)+
  have answer: "triple_l lib (\<lambda>_. True) (once (get_s ch_steps)) [] (\<lambda>sts s. sts = ch_steps s)"
    by (rule triple_l_once) (auto simp: triple_def get_s_def)
  have plan: "whole_plan = opening_plan @ (fork_and_reorg_plan @ sigops_and_spends_plan @ weight_and_coinbase_length_plan
     @ checkmultisig_sigops_plan @ []) @ p2sh_plan @ malformed_plan @ (timestamps_plan @ merkle_malleability_plan
     @ duplicate_coinbase_plan @ bloated_and_spends_plan @ sigops_around_pushes_plan @ resurrection_and_op_return_plan @ []) @ []"
    by (simp only: whole_plan_def append_Nil2)
  show ?thesis
    unfolding all_runs_def plan
    by (rule triple_l_bind [OF triple_l_once [OF follows_opening]], rule triple_l_pair,
        rule triple_l_bind [OF triple_l_once [OF early]], rule triple_l_bind [OF follows_p2sh],
        rule triple_l_bind [OF follows_malformed], rule triple_l_bind [OF triple_l_once [OF late]], rule answer)
qed

end
