(* ===== verification/Feature_Choice.thy ===== *)
theory Feature_Choice
  imports Feature_Forks
begin

section \<open>The rule a node chooses its chain by\<close>

text \<open>
  What the sequence expects of the node, without the sequence: \<open>node_takes\<close> is a node that follows the
  first seen of the highest blocks it has no reason to refuse. It is stated on names of any type, and
  renaming the blocks changes nothing (\<open>node_takes_all_renamed\<close>), so the long names of the sequence
  can be evaluated as numbers.
\<close>

subsection \<open>A node's view of the tree\<close>

record 'n view =
  vw_best :: "'n option"
  vw_seen :: "'n list"
  vw_bad :: "'n list"

definition view_init :: "'n view" where
  "view_init = \<lparr>vw_best = None, vw_seen = [], vw_bad = []\<rparr>"

definition height_in :: "'n tree \<Rightarrow> 'n option \<Rightarrow> nat" where
  "height_in tree parent = (case height_below tree parent of None \<Rightarrow> 0 | Some h \<Rightarrow> h)"

text \<open>The highest of the blocks seen, the first of them where several are: the list has the last seen first.\<close>

fun first_highest :: "'n tree \<Rightarrow> 'n list \<Rightarrow> 'n option \<Rightarrow> 'n option" where
  "first_highest tree [] best = best"
| "first_highest tree (n # ns) best =
     first_highest tree ns (if height_in tree best \<le> height_in tree (Some n) then Some n else best)"

definition among :: "'n option \<Rightarrow> 'n list \<Rightarrow> bool" where
  "among parent names = (case parent of None \<Rightarrow> False | Some p \<Rightarrow> p \<in> set names)"

definition parent_in :: "'n tree \<Rightarrow> 'n \<Rightarrow> 'n option" where
  "parent_in tree name = Option.bind (map_of tree name) fst"

fun with_children :: "'n tree \<Rightarrow> 'n list \<Rightarrow> 'n list \<Rightarrow> 'n list" where
  "with_children tree bad [] = bad"
| "with_children tree bad (n # ns) = with_children tree (if among (parent_in tree n) bad then n # bad else bad) ns"

text \<open>
  A block the node refuses, or built on one it refused, is not seen; one on a block it has not seen is
  not expected at all. Any other becomes the tip exactly where it is higher than the best one.
\<close>

fun node_takes :: "'n tree \<Rightarrow> 'n deed \<Rightarrow> 'n view \<Rightarrow> 'n view option" where
  "node_takes tree (Sent n tip bad) v =
     Option.bind (map_of tree n) (\<lambda>(parent, h).
       if bad \<or> among parent (vw_bad v) then (if tip then None else Some (v\<lparr>vw_bad := n # vw_bad v\<rparr>))
       else if parent \<noteq> None \<and> \<not> among parent (vw_seen v) then None
       else if tip \<noteq> (height_in tree (vw_best v) < h) then None
       else Some \<lparr>vw_best = if tip then Some n else vw_best v, vw_seen = n # vw_seen v,
                  vw_bad = filter (\<lambda>m. m \<noteq> n) (vw_bad v)\<rparr>)"
| "node_takes tree (TipIs n) v = (if vw_best v = Some n then Some v else None)"
| "node_takes tree (Invalidated n) v =
     (let bad = with_children tree (n # vw_bad v) (rev (vw_seen v));
          seen = filter (\<lambda>m. m \<notin> set bad) (vw_seen v)
      in Some \<lparr>vw_best = first_highest tree seen None, vw_seen = seen, vw_bad = bad\<rparr>)"
| "node_takes tree Other v = Some v"

fun node_takes_all :: "'n tree \<Rightarrow> 'n deed list \<Rightarrow> 'n view \<Rightarrow> 'n view option" where
  "node_takes_all tree [] v = Some v"
| "node_takes_all tree (d # ds) v = Option.bind (node_takes tree d v) (node_takes_all tree ds)"

subsection \<open>Renaming the blocks\<close>

definition tree_as :: "('n \<Rightarrow> 'm) \<Rightarrow> 'n tree \<Rightarrow> 'm tree" where
  "tree_as f tree = map (\<lambda>(n, p, h). (f n, map_option f p, h)) tree"

definition plan_as :: "('n \<Rightarrow> 'm) \<Rightarrow> 'n plan \<Rightarrow> 'm plan" where
  "plan_as f k =
     \<lparr>pl_tip = map_option f (pl_tip k), pl_tree = tree_as f (pl_tree k), pl_deeds = map (map_deed f) (pl_deeds k)\<rparr>"

definition view_as :: "('n \<Rightarrow> 'm) \<Rightarrow> 'n view \<Rightarrow> 'm view" where
  "view_as f v =
     \<lparr>vw_best = map_option f (vw_best v), vw_seen = map f (vw_seen v), vw_bad = map f (vw_bad v)\<rparr>"

lemma view_as_simps [simp]:
  "vw_best (view_as f v) = map_option f (vw_best v)" "vw_seen (view_as f v) = map f (vw_seen v)" "vw_bad (view_as f v) = map f (vw_bad v)"
  "view_as f view_init = view_init"
  by (simp_all add: view_as_def view_init_def)

lemma map_of_tree_as:
  "inj f \<Longrightarrow> map_of (tree_as f tree) (f n) = map_option (map_prod (map_option f) id) (map_of tree n)"
  by (induction tree) (auto simp: tree_as_def inj_eq)

lemma height_below_as: "inj f \<Longrightarrow> height_below (tree_as f tree) (map_option f p) = height_below tree p"
  by (cases p) (simp_all add: height_below_def map_of_tree_as option.map_comp comp_def)

lemma height_below_as_Some: "inj f \<Longrightarrow> height_below (tree_as f tree) (Some (f p)) = height_below tree (Some p)"
  using height_below_as [of f tree "Some p"] by simp

lemma height_in_as: "inj f \<Longrightarrow> height_in (tree_as f tree) (map_option f p) = height_in tree p"
  by (simp add: height_in_def height_below_as)

lemma attach_as: "inj f \<Longrightarrow> attach (f n) (map_option f p) h (plan_as f k) = map_option (plan_as f) (attach n p h k)"
  by (simp add: attach_def plan_as_def map_of_tree_as) (simp add: tree_as_def)

lemma has_child_as:
  "inj f \<Longrightarrow> list_ex (\<lambda>(_, p, _). p = Some (f n)) (tree_as f tree) = list_ex (\<lambda>(_, p, _). p = Some n) tree"
  by (induction tree) (auto simp: tree_as_def inj_eq)

lemma plan_step_as: "inj f \<Longrightarrow> plan_step (map_plan_op f x) (plan_as f k) = map_option (plan_as f) (plan_step x k)"
proof (cases x)
  case (Grow n)
  assume f: "inj f"
  then show ?thesis
    by (simp add: Grow plan_as_def [of f k, THEN arg_cong [where f = pl_tree]] plan_as_def [of f k, THEN arg_cong [where f = pl_tip]]
        height_below_as attach_as map_option_bind comp_def)
next
  case (GrowOn n p)
  assume f: "inj f"
  have "attach (f n) (Some (f p)) h (plan_as f k) = map_option (plan_as f) (attach n (Some p) h k)" for h
    using attach_as [OF f, of n "Some p"] by simp
  then show ?thesis
    using f by (simp add: GrowOn plan_as_def [of f k, THEN arg_cong [where f = pl_tree]] height_below_as_Some map_option_bind comp_def)
next
  case (Twin n m)
  assume f: "inj f"
  show ?thesis
  proof (cases "map_of (pl_tree k) m")
    case None
    then show ?thesis using f by (simp add: Twin plan_as_def map_of_tree_as)
  next
    case (Some entry)
    then have "map_of (pl_tree (plan_as f k)) (f m) = Some (map_option f (fst entry), snd entry)"
      using f by (cases entry) (simp add: plan_as_def map_of_tree_as)
    then show ?thesis using Some attach_as [OF f] by (cases entry) (simp add: Twin)
  qed
next
  case (Rework n)
  assume "inj f"
  then show ?thesis by (simp add: Rework plan_as_def map_of_tree_as has_child_as)
qed (simp_all add: plan_as_def map_of_tree_as)

lemma plan_run_as: "inj f \<Longrightarrow> plan_run (map (map_plan_op f) xs) (plan_as f k) = map_option (plan_as f) (plan_run xs k)"
proof (induction xs arbitrary: k)
  case (Cons x xs)
  then show ?case by (cases "plan_step x k") (simp_all add: plan_step_as)
qed simp

lemma plan_init_as [simp]: "plan_as f plan_init = plan_init"
  by (simp add: plan_as_def plan_init_def tree_as_def)

lemma among_as: "inj f \<Longrightarrow> among (map_option f p) (map f ns) = among p ns"
  by (cases p) (simp_all add: among_def inj_image_mem_iff)

lemma parent_in_as: "inj f \<Longrightarrow> parent_in (tree_as f tree) (f n) = map_option f (parent_in tree n)"
  by (cases "map_of tree n") (auto simp: parent_in_def map_of_tree_as)

lemma first_highest_as:
  "inj f \<Longrightarrow> first_highest (tree_as f tree) (map f ns) (map_option f best) = map_option f (first_highest tree ns best)"
proof (induction ns arbitrary: best)
  case (Cons n ns)
  have "height_in (tree_as f tree) (Some (f n)) = height_in tree (Some n)"
    using height_in_as [OF Cons.prems, of tree "Some n"] by simp
  then show ?case
    using Cons.IH [OF Cons.prems, of best] Cons.IH [OF Cons.prems, of "Some n"] by (simp add: height_in_as [OF Cons.prems])
qed simp

lemma with_children_as:
  "inj f \<Longrightarrow> with_children (tree_as f tree) (map f bad) (map f ns) = map f (with_children tree bad ns)"
proof (induction ns arbitrary: bad)
  case (Cons n ns)
  then show ?case
    using Cons.IH [OF Cons.prems, of bad] Cons.IH [OF Cons.prems, of "n # bad"] by (simp add: parent_in_as among_as)
qed simp

lemma filter_as: "(\<And>x. P (f x) = Q x) \<Longrightarrow> filter P (map f xs) = map f (filter Q xs)"
  by (simp add: filter_map comp_def)

lemma node_takes_as:
  assumes f: "inj f"
  shows "node_takes (tree_as f tree) (map_deed f d) (view_as f v) = map_option (view_as f) (node_takes tree d v)"
proof (cases d)
  case (Sent n tip bad)
  show ?thesis
  proof (cases "map_of tree n")
    case (Some entry)
    obtain parent h where entry: "entry = (parent, h)" by (cases entry)
    have "filter (\<lambda>m. m \<noteq> f n) (map f ms) = map f (filter (\<lambda>m. m \<noteq> n) ms)" for ms
      by (rule filter_as) (simp add: inj_eq [OF f])
    then show ?thesis
      using Some entry by (simp add: Sent map_of_tree_as [OF f] among_as [OF f] height_in_as [OF f] view_as_def)
  qed (simp add: Sent map_of_tree_as [OF f])
next
  case (TipIs n)
  then show ?thesis by (cases "vw_best v") (simp_all add: inj_eq [OF f])
next
  case (Invalidated n)
  define bad where "bad = with_children tree (n # vw_bad v) (rev (vw_seen v))"
  have "with_children (tree_as f tree) (f n # map f (vw_bad v)) (rev (map f (vw_seen v))) = map f bad"
    using with_children_as [OF f, of tree "n # vw_bad v" "rev (vw_seen v)"] by (simp add: bad_def rev_map)
  moreover have "filter (\<lambda>m. \<not> List.member (map f bad) m) (map f ms) = map f (filter (\<lambda>m. m \<notin> set bad) ms)" for ms
    by (rule filter_as) (simp add: inj_image_mem_iff [OF f])
  moreover have "first_highest (tree_as f tree) (map f ms) None = map_option f (first_highest tree ms None)" for ms
    using first_highest_as [OF f, of tree ms None] by simp
  ultimately show ?thesis by (simp add: Invalidated view_as_def bad_def [symmetric] Let_def)
qed simp

lemma node_takes_all_as:
  assumes f: "inj f"
  shows "node_takes_all (tree_as f tree) (map (map_deed f) ds) (view_as f v) = map_option (view_as f) (node_takes_all tree ds v)"
proof (induction ds arbitrary: v)
  case (Cons d ds)
  then show ?case by (cases "node_takes tree d v") (simp_all add: node_takes_as [OF f])
qed simp

text \<open>A plan run and judged: what the node makes of all the plan says of it.\<close>

definition plan_verdict :: "'n plan_op list \<Rightarrow> 'n view option" where
  "plan_verdict ops = Option.bind (plan_run ops plan_init) (\<lambda>k. node_takes_all (pl_tree k) (pl_deeds k) view_init)"

lemma plan_verdict_as: "inj f \<Longrightarrow> plan_verdict (map (map_plan_op f) ops) = map_option (view_as f) (plan_verdict ops)"
proof (cases "plan_run ops plan_init")
  case (Some k)
  assume f: "inj f"
  have "plan_run (map (map_plan_op f) ops) plan_init = Some (plan_as f k)" using plan_run_as [OF f, of ops plan_init] Some by simp
  then show ?thesis using Some node_takes_all_as [OF f, of "pl_tree k" "pl_deeds k" view_init] by (simp add: plan_verdict_def plan_as_def)
next
  case None
  assume f: "inj f"
  have "plan_run (map (map_plan_op f) ops) plan_init = None" using plan_run_as [OF f, of ops plan_init] None by simp
  then show ?thesis using None by (simp add: plan_verdict_def)
qed

subsection \<open>Names as numbers\<close>

fun digits_of :: "string \<Rightarrow> int" where
  "digits_of [] = 0"
| "digits_of (c # cs) = 257 * digits_of cs + (of_char c + 1)"

definition number_of :: "string \<Rightarrow> int" where "number_of s = digits_of (rev s)"

lemma char_bounds: "0 \<le> (of_char c :: int)" "(of_char c :: int) < 256"
  using pos_mod_bound [of 256 "of_char c :: int"] pos_mod_sign [of 256 "of_char c :: int"] by simp_all

lemma digits_of_nonneg: "0 \<le> digits_of s"
  using char_bounds(1) by (induction s) (simp_all add: add_nonneg_nonneg)

lemma digits_of_Cons: "digits_of (c # cs) div 257 = digits_of cs" "digits_of (c # cs) mod 257 = of_char c + 1" "digits_of (c # cs) > 0"
  using char_bounds [of c] digits_of_nonneg [of cs] by (simp_all add: div_pos_pos_trivial)

lemma digits_of_inject: "digits_of s = digits_of t \<Longrightarrow> s = t"
proof (induction s arbitrary: t)
  case Nil
  then show ?case using digits_of_Cons(3) [of "t ! 0" "drop 1 t"] by (cases t) (simp_all del: digits_of.simps(2))
next
  case (Cons c cs)
  show ?case
  proof (cases t)
    case Nil
    then show ?thesis using Cons.prems digits_of_Cons(3) [of c cs] by (simp del: digits_of.simps(2))
  next
    case t: (Cons d ds)
    have "digits_of cs = digits_of ds" using digits_of_Cons(1) Cons.prems t by metis
    moreover have "of_char c + 1 = (of_char d + 1 :: int)" using digits_of_Cons(2) Cons.prems t by metis
    ultimately show ?thesis using Cons.IH t by simp
  qed
qed

lemma inj_number_of: "inj number_of"
  by (rule injI) (auto simp: number_of_def dest: digits_of_inject)

end
