(* ===== verification/Feature_Promises.thy ===== *)
theory Feature_Promises
  imports Feature_Forks
begin

section \<open>What the sequence promises\<close>

text \<open>
  What \<open>next_block\<close> builds, and that the first run of the sequence returns wherever mining and the
  amounts allow it. \<open>model_lib\<close> is a block library
  the hypotheses hold of: a header hashes to its own spelling, and the first nonce solves it.
\<close>

subsection \<open>A library the hypotheses hold of\<close>

fun spell_bytes :: "bytes \<Rightarrow> bytes" where
  "spell_bytes [] = [0]"
| "spell_bytes (b # bs) = 1 # b # spell_bytes bs"

definition spell_int :: "int \<Rightarrow> bytes" where
  "spell_int i = (if i < 0 then 0 else 1) # spell_bytes (replicate (nat \<bar>i\<bar>) 0)"

definition spell_header :: "block_header \<Rightarrow> bytes" where
  "spell_header header = 1 # spell_int (bh_version header) @ spell_bytes (bh_previous header) @ spell_bytes (bh_merkle_root header)
     @ spell_int (bh_time header) @ spell_bytes (bh_bits header) @ spell_int (bh_nonce header)"

lemma spell_bytes_inject: "spell_bytes xs @ r = spell_bytes ys @ r' \<longleftrightarrow> xs = ys \<and> r = r'"
  by (induction xs arbitrary: ys; case_tac ys) auto

lemma spell_int_inject: "spell_int i @ r = spell_int j @ r' \<longleftrightarrow> i = j \<and> r = r'"
  by (auto simp: spell_int_def spell_bytes_inject split: if_splits)

lemma spell_header_inject: "spell_header header = spell_header header' \<longleftrightarrow> header = header'"
proof
  assume "spell_header header = spell_header header'"
  then have "spell_int (bh_version header) @ spell_bytes (bh_previous header) @ spell_bytes (bh_merkle_root header)
     @ spell_int (bh_time header) @ spell_bytes (bh_bits header) @ spell_int (bh_nonce header) @ [] =
     spell_int (bh_version header') @ spell_bytes (bh_previous header') @ spell_bytes (bh_merkle_root header')
     @ spell_int (bh_time header') @ spell_bytes (bh_bits header') @ spell_int (bh_nonce header') @ []"
    by (simp add: spell_header_def)
  then show "header = header'" unfolding spell_int_inject spell_bytes_inject by (simp add: block_header.equality)
qed simp

definition model_lib :: block_lib where
  "model_lib =
     \<lparr>fl_genesis_hash = [0], fl_pow_limit_bits = [0x20, 0x7f, 0xff, 0xff], fl_max_sigops_cost = 80000, fl_max_weight = 4000000,
      fl_max_future = 7200, fl_witness_scale = 4, fl_max_element = 520, fl_max_script = 10000, fl_halving = 150,
      fl_subsidy = (\<lambda>h halving. 5000000000 div 2 ^ (h div nat halving)), fl_hash = spell_header, fl_target = (\<lambda>header. -1), fl_mine = Some,
      fl_header_octets = spell_header, fl_merkle_root = (\<lambda>txs. []), fl_weight = (\<lambda>b. 0), fl_tx_id = (\<lambda>tx. []),
      fl_tx_octets = (\<lambda>tx. []), fl_tx_weight = (\<lambda>tx. 0), fl_script = (\<lambda>items. []), fl_op_code = (\<lambda>name. [0]),
      fl_sig_ops = (\<lambda>script. 0), fl_sig_hash = (\<lambda>script tx i kind. []), fl_sig_hash_all = 1, fl_nonce = (\<lambda>digest name. 1),
      fl_signature = (\<lambda>digest nonce. []), fl_pub_sec = [], fl_pay_to_key = [], fl_pay_to_script = (\<lambda>script. []),
      fl_check_out = (\<lambda>out. if 0 \<le> to_value out \<and> to_value out \<le> 2100000000000000 then Inr () else Inl (ValueError ''value''))\<rparr>"

lemma model_lib_sound: "sound_lib model_lib"
proof -
  have "ideal_hash model_lib"
    by (simp add: ideal_hash_def model_lib_def inj_def spell_header_inject null_hash_def)
      (simp add: spell_header_def numeral_eq_Suc)
  moreover have "\<exists>n. header = header\<lparr>bh_nonce := n\<rparr>" for header :: block_header
    by (rule exI [where x = "bh_nonce header"]) simp
  then have "mines_nonce model_lib" by (simp add: mines_nonce_def model_lib_def)
  ultimately show ?thesis by (simp add: sound_lib_def)
qed

lemma tracks_init: "tracks lib (chain_init lib start_time) plan_init"
  by (auto simp: tracks_def chain_init_def plan_init_def intro: at_genesis split: if_splits)

subsection \<open>What a block is built on\<close>

text \<open>A chain whose blocks all have their heights.\<close>

definition stocked :: "block_lib \<Rightarrow> chain \<Rightarrow> bool" where
  "stocked lib s \<longleftrightarrow>
     ch_heights s (fl_genesis_hash lib) \<noteq> None
     \<and> (\<forall>name b. ch_blocks s name = Some b \<longrightarrow> ch_heights s (block_hash lib b) \<noteq> None)"

text \<open>A transaction whose first output a block can be built to spend, with one satoshi more or none.\<close>

definition spendable_coin :: "block_lib \<Rightarrow> ftx \<Rightarrow> bool" where
  "spendable_coin lib tx \<longleftrightarrow>
     (\<exists>out rest. ft_vout tx = out # rest
        \<and> (\<forall>h. \<forall>extra\<in>{0, 1}.
             fl_check_out lib \<lparr>to_value = fl_subsidy lib h (fl_halving lib) + extra + (to_value out - 1), to_script = fl_pay_to_key lib\<rparr>
               = Inr ()))"

lemma create_and_sign_returns:
  assumes "ft_vout tx = out # rest"
  shows "\<exists>new. create_and_sign lib tx val script s = (Inr new, s)"
  using assms
  by (auto simp: create_and_sign_def create_tx_def checked_that_def sign_tx_def item_at_def with_script_sig_def one_to_one_def
      signature_push_def get_s_def Let_def bind_a_def lift_r_def)

lemma spending_returns:
  assumes "ft_vout tx = out # rest"
  shows "\<exists>txs. spending lib (Some tx) script s = (Inr (to_value out - 1, txs), s)"
  using create_and_sign_returns [OF assms, of lib 1 script s] assms
  by (auto simp: spending_def item_at_def bind_a_def lift_r_def)

lemma next_block_returns:
  assumes "ch_blocks s name = None"
    and "(previous, block_time) = (case ch_tip s of None \<Rightarrow> (fl_genesis_hash lib, ch_start_time s + 1)
       | Some tip \<Rightarrow> (block_hash lib tip, time_of tip + 1))"
    and "ch_heights s previous = Some below"
    and "spending lib spend script (s\<lparr>ch_signing_for := name\<rparr>) = (Inr (fees, txs), s\<lparr>ch_signing_for := name\<rparr>)"
    and "fcoinbase lib (Suc below) (Some (fl_subsidy lib (Suc below) (fl_halving lib) + additional + fees)) None None
       MAX_SEQUENCE_NONFINAL (map (\<lambda>scr. \<lparr>to_value = 0, to_script = scr\<rparr>) outs) = Inr coinbase"
    and "make_block lib previous (coinbase # txs) block_time version (fl_pow_limit_bits lib) = Inr b"
  shows "next_block lib name spend additional script version outs s =
     (Inr b, registered lib name b (Suc below) (s\<lparr>ch_signing_for := name\<rparr>))"
proof -
  have parent: "parent_of_next lib (s\<lparr>ch_signing_for := name\<rparr>) = (Inr (previous, block_time), s\<lparr>ch_signing_for := name\<rparr>)"
    using assms(2) by (simp add: parent_of_next_def get_s_def split: option.splits)
  show ?thesis
    using assms(1,3-6)
    by (simp add: next_block_def checked_that_def get_s_def put_s_def parent height_of_hash_def register_eq bind_a_def lift_r_def)
qed

lemma make_block_returns:
  assumes "\<And>header. fl_mine lib header \<noteq> None"
  shows "\<exists>b. make_block lib previous txs time version bits = Inr b"
  using assms by (auto simp: make_block_def solve_def split: option.splits)

text \<open>The block below a new one has its height, in a stocked chain.\<close>

lemma parent_height:
  assumes "stocked lib s" and "tracks lib s k"
    and "(previous, block_time) = (case ch_tip s of None \<Rightarrow> (fl_genesis_hash lib, ch_start_time s + 1)
       | Some tip \<Rightarrow> (block_hash lib tip, time_of tip + 1))"
  obtains below where "ch_heights s previous = Some below"
proof (cases "ch_tip s")
  case None
  then show ?thesis using assms(1,3) that by (auto simp: stocked_def)
next
  case (Some tip)
  then obtain name where "ch_blocks s name = Some tip" using tracksD(5) [OF assms(2)] by (cases "pl_tip k") auto
  then show ?thesis using Some assms(1,3) that by (auto simp: stocked_def)
qed

subsection \<open>Actions that return\<close>

text \<open>
  An action that returns wherever the plan it follows can be run, and leaves a stocked chain.
\<close>

fun deed_known :: "'n tree \<Rightarrow> 'n deed \<Rightarrow> bool" where
  "deed_known tree (Sent n tip bad) = (map_of tree n \<noteq> None)"
| "deed_known tree (TipIs n) = (map_of tree n \<noteq> None)"
| "deed_known tree (Invalidated n) = (map_of tree n \<noteq> None)"
| "deed_known tree Other = True"

fun step_known :: "'n tree \<Rightarrow> 'n plan_op \<Rightarrow> bool" where
  "step_known tree (Emit d) = deed_known tree d"
| "step_known tree _ = True"

fun plan_sure :: "'n plan_op list \<Rightarrow> 'n plan \<Rightarrow> bool" where
  "plan_sure [] k = True"
| "plan_sure (x # xs) k = (step_known (pl_tree k) x \<and> (case plan_step x k of None \<Rightarrow> False | Some k' \<Rightarrow> plan_sure xs k'))"

lemma plan_sure_append: "plan_sure (xs @ ys) k \<longleftrightarrow> plan_sure xs k \<and> (\<forall>k'. plan_run xs k = Some k' \<longrightarrow> plan_sure ys k')"
  by (induction xs arbitrary: k) (auto split: option.splits)

lemma plan_sure_runs: "plan_sure xs k \<Longrightarrow> \<exists>k'. plan_run xs k = Some k'"
  by (induction xs arbitrary: k) (auto split: option.splits)

definition arrives :: "block_lib \<Rightarrow> (chain, 'a) act \<Rightarrow> string plan_op list \<Rightarrow> bool" where
  "arrives lib m ops \<longleftrightarrow>
     (\<forall>s k k'. stocked lib s \<longrightarrow> tracks lib s k \<longrightarrow> plan_sure ops k \<longrightarrow> plan_run ops k = Some k' \<longrightarrow>
        (\<exists>x t. m s = (Inr x, t) \<and> stocked lib t \<and> tracks lib t k'))"

text \<open>A library that mines, and mines nothing but nonces.\<close>

definition able_lib :: "block_lib \<Rightarrow> bool" where
  "able_lib lib \<longleftrightarrow> sound_lib lib \<and> (\<forall>header. fl_mine lib header \<noteq> None)"

lemma arrivesI:
  assumes "able_lib lib" and "follows lib m ops"
    and "\<And>s k k'. stocked lib s \<Longrightarrow> tracks lib s k \<Longrightarrow> plan_sure ops k \<Longrightarrow> \<exists>x t. m s = (Inr x, t) \<and> stocked lib t"
  shows "arrives lib m ops"
  unfolding arrives_def
proof (intro allI impI)
  fix s k k' assume prems: "stocked lib s" "tracks lib s k" "plan_run ops k = Some k'" "plan_sure ops k"
  obtain x t where "m s = (Inr x, t)" "stocked lib t" using assms(3) [OF prems(1,2,4)] by blast
  then show "\<exists>x t. m s = (Inr x, t) \<and> stocked lib t \<and> tracks lib t k'"
    using tripleD(1) [OF assms(2) _ TrueI prems(2,3)] assms(1) by (auto simp: able_lib_def)
qed

lemma arrives_bind:
  assumes "arrives lib m ops1" and "\<And>x. arrives lib (f x) ops2"
  shows "arrives lib (bind_a m f) (ops1 @ ops2)"
  unfolding arrives_def
proof (intro allI impI)
  fix s k k' assume prems: "stocked lib s" "tracks lib s k" "plan_run (ops1 @ ops2) k = Some k'" "plan_sure (ops1 @ ops2) k"
  obtain k1 where plan: "plan_run ops1 k = Some k1" "plan_run ops2 k1 = Some k'"
    using prems(3) unfolding plan_run_append by (auto simp: bind_eq_Some_conv)
  obtain x t where "m s = (Inr x, t)" "stocked lib t" "tracks lib t k1"
    using assms(1) prems(1,2,4) plan(1) unfolding arrives_def plan_sure_append by blast
  then show "\<exists>y u. bind_a m f s = (Inr y, u) \<and> stocked lib u \<and> tracks lib u k'"
    using assms(2) [of x] plan prems(4) unfolding arrives_def plan_sure_append by (fastforce simp: bind_a_def)
qed

lemma arrives_then: "arrives lib m [x] \<Longrightarrow> (\<And>y. arrives lib (f y) ops) \<Longrightarrow> arrives lib (bind_a m f) (x # ops)"
  using arrives_bind [of lib m "[x]" f ops] by simp

lemma arrives_ret: "arrives lib (ret x) []"
  by (auto simp: arrives_def)

lemma stocked_registered:
  "stocked lib s \<Longrightarrow> stocked lib (registered lib name b n s)"
  by (auto simp: stocked_def registered_def)

lemma stocked_ignores [simp]:
  "stocked lib (s\<lparr>ch_signing_for := n\<rparr>) = stocked lib s"
  "stocked lib (s\<lparr>ch_spendable := bs\<rparr>) = stocked lib s"
  "stocked lib (s\<lparr>ch_tip := tip\<rparr>) = stocked lib s"
  "stocked lib (s\<lparr>ch_steps := sts\<rparr>) = stocked lib s"
  by (simp_all add: stocked_def)

lemma next_worth_returns:
  assumes "able_lib lib" and "spendable_coin lib tx" and "additional \<in> {0, 1}"
  shows "arrives lib (next_block lib name (Some tx) additional script version []) [Grow name]"
proof (rule arrivesI [OF assms(1) follows_calls(1)])
  fix s k assume prems: "stocked lib s" "tracks lib s k" "plan_sure [Grow name] k"
  obtain out rest where out: "ft_vout tx = out # rest"
    "\<And>h. fl_check_out lib \<lparr>to_value = fl_subsidy lib h (fl_halving lib) + additional + (to_value out - 1), to_script = fl_pay_to_key lib\<rparr> = Inr ()"
    using assms(2,3) by (auto simp: spendable_coin_def)
  have new: "ch_blocks s name = None"
    using prems(3) tracksD(1) [OF prems(2), of name] by (auto simp: attach_def split: Option.bind_splits if_splits option.splits)
  obtain previous block_time where parent: "(previous, block_time) = (case ch_tip s of None \<Rightarrow> (fl_genesis_hash lib, ch_start_time s + 1)
       | Some tip \<Rightarrow> (block_hash lib tip, time_of tip + 1))" by (metis surj_pair)
  obtain below where below: "ch_heights s previous = Some below" by (rule parent_height [OF prems(1,2) parent])
  obtain txs where spent: "spending lib (Some tx) script (s\<lparr>ch_signing_for := name\<rparr>) = (Inr (to_value out - 1, txs), s\<lparr>ch_signing_for := name\<rparr>)"
    using spending_returns [OF out(1)] by blast
  obtain coinbase where "fcoinbase lib (Suc below) (Some (fl_subsidy lib (Suc below) (fl_halving lib) + additional + (to_value out - 1)))
      None None MAX_SEQUENCE_NONFINAL (map (\<lambda>scr. \<lparr>to_value = 0, to_script = scr\<rparr>) []) = Inr coinbase"
    using out(2) by (simp add: fcoinbase_def)
  moreover obtain b where "make_block lib previous (coinbase # txs) block_time version (fl_pow_limit_bits lib) = Inr b"
    using make_block_returns [of lib previous] assms(1) unfolding able_lib_def by blast
  ultimately show "\<exists>x t. next_block lib name (Some tx) additional script version [] s = (Inr x, t) \<and> stocked lib t"
    using next_block_returns [OF new parent below spent] stocked_registered [of lib "s\<lparr>ch_signing_for := name\<rparr>"] prems(1) by auto
qed

lemma arrives_forget: "arrives lib m ops \<Longrightarrow> arrives lib (forget m) ops"
  unfolding forget_def using arrives_bind [OF _ arrives_ret] by fastforce

lemma arrives_item:
  assumes "i < length xs" and "arrives lib (f (xs ! i)) ops"
  shows "arrives lib (bind_a (lift_r (item_at xs i)) f) ops"
  using assms by (simp add: item_at_def arrives_def bind_a_def lift_r_def)

lemma grow_returns:
  assumes "able_lib lib" and "i < length out" and "spendable_coin lib (out ! i)"
  shows "arrives lib (grow lib name out i) [Grow name]"
    and "arrives lib (grow_worth lib name out i 1) [Grow name]"
  unfolding grow_def grow_worth_def next_out_def next_spending_def next_worth_def
  by (rule arrives_forget arrives_item next_worth_returns assms | simp)+

lemma known_named: "tracks lib s k \<Longrightarrow> map_of (pl_tree k) name \<noteq> None \<Longrightarrow> \<exists>b. named name b s"
  using tracksD(1) [of lib s k name] by (cases "ch_blocks s name") auto

lemma send_returns:
  assumes "able_lib lib" and "d = (reason \<noteq> None \<or> disconnects)"
  shows "arrives lib (send_block name tip reason unrequested disconnects None serialized) [Emit (Sent name tip d)]"
proof (rule arrivesI [OF assms(1) follows_send_block [OF assms(2)]])
  fix s k assume prems: "stocked lib s" "tracks lib s k" "plan_sure [Emit (Sent name tip d)] k"
  then obtain b where "named name b s" using known_named [OF prems(2)] by auto
  then show "\<exists>x t. send_block name tip reason unrequested disconnects None serialized s = (Inr x, t) \<and> stocked lib t"
    using prems(1) by (simp add: send_block_def block_named_def add_step_def put_s_def bind_a_def)
qed

lemma move_returns:
  assumes "able_lib lib"
  shows "arrives lib (move_tip name) [Move name]"
proof (rule arrivesI [OF assms follows_calls(10)])
  fix s k assume prems: "stocked lib s" "tracks lib s k" "plan_sure [Move name] k"
  then obtain b where "named name b s" using known_named [OF prems(2)] by (auto split: option.splits if_splits)
  then show "\<exists>x t. move_tip name s = (Inr x, t) \<and> stocked lib t"
    using prems(1) by (simp add: move_tip_def block_named_def put_s_def bind_a_def)
qed

lemma note_returns:
  assumes "able_lib lib"
  shows "arrives lib (bind_a (block_named name) (\<lambda>b. add_step (TipStep name (block_hash lib b)))) [Emit (TipIs name)]"
proof (rule arrivesI [OF assms])
  show "follows lib (bind_a (block_named name) (\<lambda>b. add_step (TipStep name (block_hash lib b)))) [Emit (TipIs name)]"
    by (rule follows_quiet quiet_intros follows_notes)+
  fix s k assume prems: "stocked lib s" "tracks lib s k" "plan_sure [Emit (TipIs name)] k"
  then obtain b where "named name b s" using known_named [OF prems(2)] by auto
  then show "\<exists>x t. bind_a (block_named name) (\<lambda>b. add_step (TipStep name (block_hash lib b))) s = (Inr x, t) \<and> stocked lib t"
    using prems(1) by (simp add: block_named_def add_step_def put_s_def bind_a_def)
qed

text \<open>A block just built is there to save.\<close>

lemma arrives_saved:
  assumes "arrives lib m [Grow name]" and "arrives lib f ops"
  shows "arrives lib (bind_a m (\<lambda>_. bind_a save_spendable_output (\<lambda>_. f))) (Grow name # ops)"
proof -
  have "arrives lib (bind_a m (\<lambda>_. save_spendable_output)) [Grow name]"
    unfolding arrives_def
  proof (intro allI impI)
    fix s k k' assume prems: "stocked lib s" "tracks lib s k" "plan_sure [Grow name] k" "plan_run [Grow name] k = Some k'"
    obtain x t where run: "m s = (Inr x, t)" "stocked lib t" "tracks lib t k'"
      using assms(1) prems unfolding arrives_def by blast
    have "pl_tip k' = Some name" using prems(4) by (auto simp: attach_def split: Option.bind_splits if_splits)
    then obtain tip where "ch_tip t = Some tip" using tracksD(6) [OF run(3)] by (cases "ch_tip t") auto
    then show "\<exists>x t. bind_a m (\<lambda>_. save_spendable_output) s = (Inr x, t) \<and> stocked lib t \<and> tracks lib t k'"
      using run by (simp add: bind_a_def save_spendable_output_def get_s_def put_s_def)
  qed
  from arrives_then [OF this assms(2)] show ?thesis by (simp only: bind_a_assoc)
qed

lemma fork_and_reorg_runs:
  assumes "able_lib lib" and "6 \<le> length out" and "list_all (spendable_coin lib) out"
  shows "arrives lib (fork_and_reorg lib out) fork_and_reorg_plan"
proof -
  have grown: "arrives lib (grow lib name out i) [Grow name]" "arrives lib (grow_worth lib name out i 1) [Grow name]" if "i < 6" for name i
    using grow_returns [OF assms(1), of i out] assms(2,3) that by (simp_all add: list_all_length)
  have sent: "arrives lib (send_tip name) [Emit (Sent name True False)]" "arrives lib (send_side name) [Emit (Sent name False False)]"
    "arrives lib (refused name why) [Emit (Sent name False True)]"
    "arrives lib (send_block name tip None False True None None) [Emit (Sent name tip True)]" for name why tip
    unfolding send_tip_def send_side_def refused_def reject_block_def by (rule send_returns [OF assms(1)], simp)+
  note calls = grown sent move_returns [OF assms(1)] note_returns [OF assms(1)]
  show ?thesis
    unfolding fork_and_reorg_def fork_and_reorg_plan_def one_by_one.simps
    by (rule arrives_saved calls(1) arrives_then calls arrives_ret | simp only: | simp)+
qed

text \<open>The hypotheses hold of the model library.\<close>

definition model_coin :: ftx where
  "model_coin = \<lparr>ft_version = 2, ft_lock_time = 0, ft_vin = [], ft_vout = [\<lparr>to_value = 5000000000, to_script = []\<rparr>]\<rparr>"

lemma model_hypotheses:
  "able_lib model_lib" "list_all (spendable_coin model_lib) (replicate n model_coin)"
  "stocked model_lib (chain_init model_lib start_time)" "tracks model_lib (chain_init model_lib start_time) plan_init"
proof -
  show "able_lib model_lib" using model_lib_sound by (simp add: able_lib_def model_lib_def)
  have halved: "(5000000000 :: int) div 2 ^ n \<le> 5000000000" for n :: nat
    using zdiv_mono2 [of 5000000000 1 "2 ^ n"] by simp
  have "0 \<le> 5000000000 div (2 :: int) ^ n + 4999999999" "5000000000 div (2 :: int) ^ n \<le> 2099995000000000" for n :: nat
    using halved [of n] pos_imp_zdiv_nonneg_iff [of "2 ^ n" 5000000000] by simp_all
  moreover have "0 \<le> 5000000000 div (2 :: int) ^ n + 5000000000" "5000000000 div (2 :: int) ^ n \<le> 2099995000000001" for n :: nat
    using calculation [of n] by simp_all
  ultimately have "spendable_coin model_lib model_coin" by (simp add: spendable_coin_def model_coin_def model_lib_def)
  then show "list_all (spendable_coin model_lib) (replicate n model_coin)" by (simp add: list_all_length)
  show "stocked model_lib (chain_init model_lib start_time)" by (simp add: stocked_def chain_init_def)
  show "tracks model_lib (chain_init model_lib start_time) plan_init" by (rule tracks_init)
qed

subsection \<open>The properties\<close>

lemma make_block_InrD:
  assumes "sound_lib lib" and "make_block lib previous txs time version bits = Inr b"
  shows "bh_previous (fb_header b) = previous" "bh_time (fb_header b) = time" "bh_version (fb_header b) = version"
    "fb_transactions b = txs"
proof -
  let ?header = "\<lparr>bh_version = version, bh_previous = previous, bh_merkle_root = fl_merkle_root lib txs, bh_time = time, bh_bits = bits,
    bh_nonce = 0\<rparr>"
  obtain solved where "fl_mine lib ?header = Some solved" "b = \<lparr>fb_header = solved, fb_transactions = txs\<rparr>"
    using assms(2) by (auto simp: make_block_def solve_def bind_r_Inr_iff split: option.splits)
  moreover then obtain n where "solved = ?header\<lparr>bh_nonce := n\<rparr>" using assms(1) unfolding sound_lib_def mines_nonce_def by blast
  ultimately show "bh_previous (fb_header b) = previous" "bh_time (fb_header b) = time" "bh_version (fb_header b) = version"
    "fb_transactions b = txs" by simp_all
qed

lemma fcoinbase_outputs:
  assumes "fcoinbase lib height (Some val) lock_time script_sig sequence extra = Inr coinbase"
  shows "ft_vout coinbase = \<lparr>to_value = val, to_script = fl_pay_to_key lib\<rparr> # extra"
  using assms by (auto simp: fcoinbase_def bind_r_Inr_iff Let_def)

lemma spending_InrD:
  assumes "spending lib spend script s = (Inr (fees, txs), t)"
  shows "fees = (case spend of None \<Rightarrow> 0 | Some tx \<Rightarrow> to_value (ft_vout tx ! 0) - 1)" "length txs = (if spend = None then 0 else 1)"
  using assms by (auto simp: spending_def item_at_def elim!: bind_a_InrD split: option.splits if_splits)

text \<open>
  C7: A block \<open>next_block\<close> returns is built on the tip, or on genesis where there is none, a second
  after it, and one higher; its coinbase claims the subsidy of that height, what was asked for on top
  and all but one satoshi of the output spent; it takes the name and the tip, and nothing but them and
  its height is changed.
\<close>

theorem next_block_builds:
  assumes "sound_lib lib" and "next_block lib name spend additional script version outs s = (Inr b, t)"
  shows "(bh_previous (fb_header b), bh_time (fb_header b)) =
           (case ch_tip s of None \<Rightarrow> (fl_genesis_hash lib, ch_start_time s + 1) | Some tip \<Rightarrow> (block_hash lib tip, time_of tip + 1))
     \<and> ch_blocks s name = None \<and> bh_version (fb_header b) = version
     \<and> (\<exists>below coinbase txs. ch_heights s (bh_previous (fb_header b)) = Some below
         \<and> fb_transactions b = coinbase # txs \<and> length txs = (if spend = None then 0 else 1)
         \<and> ft_vout coinbase \<noteq> [] \<and> to_value (ft_vout coinbase ! 0) = fl_subsidy lib (Suc below) (fl_halving lib) + additional
              + (case spend of None \<Rightarrow> 0 | Some tx \<Rightarrow> to_value (ft_vout tx ! 0) - 1)
         \<and> map to_script (tl (ft_vout coinbase)) = outs \<and> list_all (\<lambda>out. to_value out = 0) (tl (ft_vout coinbase))
         \<and> t = s\<lparr>ch_tip := Some b, ch_heights := (ch_heights s)(block_hash lib b \<mapsto> Suc below),
                 ch_blocks := (ch_blocks s)(name \<mapsto> b), ch_signing_for := name\<rparr>)"
proof -
  obtain previous block_time below fees txs coinbase where
    run: "(previous, block_time) = (case ch_tip s of None \<Rightarrow> (fl_genesis_hash lib, ch_start_time s + 1)
       | Some tip \<Rightarrow> (block_hash lib tip, time_of tip + 1))"
    "ch_blocks s name = None" "ch_heights s previous = Some below"
    "spending lib spend script (s\<lparr>ch_signing_for := name\<rparr>) = (Inr (fees, txs), s\<lparr>ch_signing_for := name\<rparr>)"
    "fcoinbase lib (Suc below) (Some (fl_subsidy lib (Suc below) (fl_halving lib) + additional + fees)) None None
       MAX_SEQUENCE_NONFINAL (map (\<lambda>scr. \<lparr>to_value = 0, to_script = scr\<rparr>) outs) = Inr coinbase"
    "make_block lib previous (coinbase # txs) block_time version (fl_pow_limit_bits lib) = Inr b"
    "t = registered lib name b (Suc below) (s\<lparr>ch_signing_for := name\<rparr>)"
    by (rule next_block_InrD [OF assms(2)])
  note made = make_block_InrD [OF assms(1) run(6)] fcoinbase_outputs [OF run(5)] spending_InrD [OF run(4)]
  have "t = s\<lparr>ch_tip := Some b, ch_heights := (ch_heights s)(block_hash lib b \<mapsto> Suc below),
       ch_blocks := (ch_blocks s)(name \<mapsto> b), ch_signing_for := name\<rparr>" by (simp add: run(7) registered_def)
  then show ?thesis using run(1-3) made by (auto simp: comp_def list_all_iff)
qed

theorem next_block_builds_witness:
  "\<exists>b t. next_block model_lib ''b1'' (Some model_coin) 1 [] VERSION [] (chain_init model_lib 7) = (Inr b, t)
     \<and> bh_time (fb_header b) = 8 \<and> to_value (ft_vout (fb_transactions b ! 0) ! 0) = 10000000000"
proof -
  have "arrives model_lib (next_block model_lib ''b1'' (Some model_coin) 1 [] VERSION []) [Grow ''b1'']"
    using next_worth_returns [OF model_hypotheses(1)] model_hypotheses(2) [of 1] by simp
  moreover have "plan_sure [Grow ''b1''] (plan_init :: string plan)" by code_simp
  ultimately obtain b t where run: "next_block model_lib ''b1'' (Some model_coin) 1 [] VERSION [] (chain_init model_lib 7) = (Inr b, t)"
    using model_hypotheses(3,4) plan_sure_runs unfolding arrives_def by blast
  from next_block_builds [OF model_lib_sound run] show ?thesis
    using run by (auto simp: chain_init_def model_lib_def model_coin_def)
qed

text \<open>
  C9: Core's first run, the forks and reorganisations from \<open>b1\<close> to \<open>b14\<close>, returns from every chain
  its blocks can be put in, wherever the library mines and the six coinbases it spends have amounts
  the library takes; and it leaves the blocks where the plan of the run has them.
\<close>

theorem fork_and_reorg_returns:
  assumes "able_lib lib" and "6 \<le> length out" and "list_all (spendable_coin lib) out"
    and "stocked lib s" and "tracks lib s k" and "plan_sure fork_and_reorg_plan k"
  shows "\<exists>t k'. fork_and_reorg lib out s = (Inr (), t) \<and> stocked lib t \<and> plan_run fork_and_reorg_plan k = Some k' \<and> tracks lib t k'"
  using fork_and_reorg_runs [OF assms(1-3)] assms(4-6) plan_sure_runs [OF assms(6)] unfolding arrives_def by fastforce

theorem fork_and_reorg_returns_witness:
  "\<exists>t k'. fork_and_reorg model_lib (replicate 6 model_coin) (chain_init model_lib 0) = (Inr (), t) \<and> stocked model_lib t
     \<and> plan_run fork_and_reorg_plan plan_init = Some k' \<and> tracks model_lib t k'"
proof (rule fork_and_reorg_returns)
  show "plan_sure fork_and_reorg_plan (plan_init :: string plan)" by code_simp
qed (simp_all add: model_hypotheses)

end
