(* ===== verification/Feature_Verdict.thy ===== *)
theory Feature_Verdict
  imports Feature_Choice Feature_Promises
begin

section \<open>The whole sequence judged\<close>

text \<open>
  The verdict on the whole plan, evaluated. \<open>run_fast\<close> and \<open>judge_fast\<close> are \<open>plan_run\<close> and
  \<open>node_takes_all\<close> with every condition an argument, which is what the kernel evaluates without going
  over the tree again at each step.
\<close>

subsection \<open>Plans run and judged step by step\<close>

fun look :: "('n \<times> 'b) list \<Rightarrow> 'n \<Rightarrow> 'b option" and look_on :: "bool \<Rightarrow> 'b \<Rightarrow> ('n \<times> 'b) list \<Rightarrow> 'n \<Rightarrow> 'b option" where
  "look [] k = None"
| "look ((a, b) # ps) k = look_on (a = k) b ps k"
| "look_on True b ps k = Some b"
| "look_on False b ps k = look ps k"

text \<open>Heights are written in binary.\<close>

type_synonym 'n ftree = "('n \<times> 'n option \<times> int) list"

fun found_height :: "('n option \<times> int) option \<Rightarrow> int option" where
  "found_height None = None"
| "found_height (Some (p, h)) = Some h"

fun below_fast :: "'n ftree \<Rightarrow> 'n option \<Rightarrow> int option" where
  "below_fast tree None = Some 0"
| "below_fast tree (Some p) = found_height (look tree p)"

fun bears :: "'n ftree \<Rightarrow> 'n \<Rightarrow> bool" and bears_on :: "bool \<Rightarrow> 'n ftree \<Rightarrow> 'n \<Rightarrow> bool" where
  "bears [] n = False"
| "bears ((a, None, h) # tree) n = bears tree n"
| "bears ((a, Some p, h) # tree) n = bears_on (p = n) tree n"
| "bears_on True tree n = True"
| "bears_on False tree n = bears tree n"

type_synonym 'n run = "('n option \<times> 'n ftree \<times> 'n deed list) option"

fun put_on :: "'n \<Rightarrow> 'n option \<Rightarrow> int option \<Rightarrow> ('n option \<times> int) option \<Rightarrow> 'n ftree \<Rightarrow> 'n deed list \<Rightarrow> 'n run" where
  "put_on n p (Some h) None tree ds = Some (Some n, (n, p, h + 1) # tree, ds)"
| "put_on n p None e tree ds = None"
| "put_on n p (Some h) (Some e) tree ds = None"

fun put_beside :: "'n \<Rightarrow> ('n option \<times> int) option \<Rightarrow> ('n option \<times> int) option \<Rightarrow> 'n ftree \<Rightarrow> 'n deed list \<Rightarrow> 'n run" where
  "put_beside n (Some (p, h)) None tree ds = Some (Some n, (n, p, h) # tree, ds)"
| "put_beside n None e tree ds = None"
| "put_beside n (Some o') (Some e) tree ds = None"

fun turn_to :: "'n \<Rightarrow> ('n option \<times> int) option \<Rightarrow> bool \<Rightarrow> 'n ftree \<Rightarrow> 'n deed list \<Rightarrow> 'n run" where
  "turn_to n (Some e) False tree ds = Some (Some n, tree, ds)"
| "turn_to n (Some e) True tree ds = None"
| "turn_to n None b tree ds = None"

fun step_fast :: "'n plan_op \<Rightarrow> 'n run \<Rightarrow> 'n run" where
  "step_fast x None = None"
| "step_fast (Grow n) (Some (t, tree, ds)) = put_on n t (below_fast tree t) (look tree n) tree ds"
| "step_fast (GrowOn n p) (Some (t, tree, ds)) = put_on n (Some p) (found_height (look tree p)) (look tree n) tree ds"
| "step_fast (Twin n m) (Some (t, tree, ds)) = put_beside n (look tree m) (look tree n) tree ds"
| "step_fast (Rework n) (Some (t, tree, ds)) = turn_to n (look tree n) (bears tree n) tree ds"
| "step_fast (Move n) (Some (t, tree, ds)) = turn_to n (look tree n) False tree ds"
| "step_fast (Emit d) (Some (t, tree, ds)) = Some (t, tree, d # ds)"

fun run_fast :: "'n plan_op list \<Rightarrow> 'n run \<Rightarrow> 'n run" where
  "run_fast [] s = s"
| "run_fast (x # xs) s = run_fast xs (step_fast x s)"

definition in_binary :: "'n tree \<Rightarrow> 'n ftree" where
  "in_binary tree = map (\<lambda>(n, p, h). (n, p, int h)) tree"

definition as_run :: "'n plan \<Rightarrow> 'n option \<times> 'n ftree \<times> 'n deed list" where
  "as_run k = (pl_tip k, in_binary (pl_tree k), rev (pl_deeds k))"

lemma look_eq: "look ps k = map_of ps k" "look_on c b ps k = (if c then Some b else map_of ps k)"
  by (induction ps k and c b ps k rule: look_look_on.induct) simp_all

lemma look_binary: "look (in_binary tree) n = map_option (map_prod id int) (map_of tree n)"
  unfolding look_eq by (induction tree) (auto simp: in_binary_def)

lemma bears_eq: "bears tree n = list_ex (\<lambda>(_, p, _). p = Some n) tree" "bears_on c tree n = (c \<or> list_ex (\<lambda>(_, p, _). p = Some n) tree)"
  by (induction tree n and c tree n rule: bears_bears_on.induct) auto

lemma bears_binary: "bears (in_binary tree) n = list_ex (\<lambda>(_, p, _). p = Some n) tree"
  unfolding bears_eq by (induction tree) (auto simp: in_binary_def)

lemma found_height_eq: "found_height e = map_option snd e"
  by (cases e) auto

lemma below_fast_eq: "below_fast (in_binary tree) p = map_option int (height_below tree p)"
  by (cases p) (simp_all add: height_below_def look_binary found_height_eq option.map_comp comp_def)

lemma height_of_entry: "found_height (map_option (map_prod id int) e) = map_option int (map_option snd e)"
  by (cases e) auto

lemma put_on_eq:
  "put_on n p (map_option int e) (map_option (map_prod id int) (map_of (pl_tree k) n)) (in_binary (pl_tree k)) (rev (pl_deeds k)) =
     map_option as_run (Option.bind e (\<lambda>h. attach n p (Suc h) k))"
  by (cases e; cases "map_of (pl_tree k) n") (simp_all add: attach_def as_run_def in_binary_def add.commute)

lemma put_beside_eq:
  "put_beside n (map_option (map_prod id int) e) (map_option (map_prod id int) (map_of (pl_tree k) n)) (in_binary (pl_tree k))
       (rev (pl_deeds k)) =
     map_option as_run (Option.bind e (\<lambda>(p, h). attach n p h k))"
  by (cases e; cases "map_of (pl_tree k) n") (auto simp: attach_def as_run_def in_binary_def)

lemma turn_to_eq:
  "turn_to n (map_option (map_prod id int) (map_of (pl_tree k) n)) b (in_binary (pl_tree k)) (rev (pl_deeds k)) =
     map_option as_run (if map_of (pl_tree k) n = None \<or> b then None else Some (k\<lparr>pl_tip := Some n\<rparr>))"
  by (cases "map_of (pl_tree k) n"; cases b) (simp_all add: as_run_def)

lemmas fast_steps = look_binary below_fast_eq height_of_entry bears_binary put_on_eq put_beside_eq turn_to_eq

lemma step_fast_eq: "step_fast x (Some (as_run k)) = map_option as_run (plan_step x k)"
  by (cases x) (simp_all add: as_run_def [of k] fast_steps height_below_def [of _ "Some _"], simp add: as_run_def)

lemma run_fast_None: "run_fast xs None = None"
  by (induction xs) simp_all

lemma run_fast_eq: "run_fast xs (Some (as_run k)) = map_option as_run (plan_run xs k)"
proof (induction xs arbitrary: k)
  case (Cons x xs)
  then show ?case by (cases "plan_step x k") (simp_all add: step_fast_eq run_fast_None)
qed simp

fun held :: "'n list \<Rightarrow> 'n \<Rightarrow> bool" and held_on :: "bool \<Rightarrow> 'n list \<Rightarrow> 'n \<Rightarrow> bool" where
  "held [] n = False"
| "held (m # ms) n = held_on (m = n) ms n"
| "held_on True ms n = True"
| "held_on False ms n = held ms n"

fun held_parent :: "'n option \<Rightarrow> 'n list \<Rightarrow> bool" where
  "held_parent None ns = False"
| "held_parent (Some p) ns = held ns p"

fun known_parent :: "'n option \<Rightarrow> 'n list \<Rightarrow> bool" where
  "known_parent None ns = True"
| "known_parent (Some p) ns = held ns p"

fun keep_if :: "bool \<Rightarrow> 'n \<Rightarrow> 'n list \<Rightarrow> 'n list" where
  "keep_if True n ns = n # ns"
| "keep_if False n ns = ns"

fun without :: "'n \<Rightarrow> 'n list \<Rightarrow> 'n list" where
  "without n [] = []"
| "without n (m # ms) = keep_if (m \<noteq> n) m (without n ms)"

fun outside_of :: "'n list \<Rightarrow> 'n list \<Rightarrow> 'n list" where
  "outside_of bad [] = []"
| "outside_of bad (m # ms) = keep_if (\<not> held bad m) m (outside_of bad ms)"

fun height_or :: "int option \<Rightarrow> int" where
  "height_or None = 0"
| "height_or (Some h) = h"

type_synonym 'n sight = "('n option \<times> 'n list \<times> 'n list) option"

fun refused_by :: "bool \<Rightarrow> 'n \<Rightarrow> 'n option \<Rightarrow> 'n list \<Rightarrow> 'n list \<Rightarrow> 'n sight" where
  "refused_by True n b seen bad = None"
| "refused_by False n b seen bad = Some (b, seen, n # bad)"

fun taken_by :: "bool \<Rightarrow> bool \<Rightarrow> bool \<Rightarrow> 'n \<Rightarrow> 'n option \<Rightarrow> 'n list \<Rightarrow> 'n list \<Rightarrow> 'n sight" where
  "taken_by False higher tip n b seen bad = None"
| "taken_by True True True n b seen bad = Some (Some n, n # seen, without n bad)"
| "taken_by True False False n b seen bad = Some (b, n # seen, without n bad)"
| "taken_by True True False n b seen bad = None"
| "taken_by True False True n b seen bad = None"

fun sort_out :: "bool \<Rightarrow> bool \<Rightarrow> 'n option \<Rightarrow> bool \<Rightarrow> 'n \<Rightarrow> 'n option \<Rightarrow> 'n list \<Rightarrow> 'n list \<Rightarrow> 'n sight" where
  "sort_out True tip p higher n b seen bad = refused_by tip n b seen bad"
| "sort_out False tip p higher n b seen bad = taken_by (known_parent p seen) higher tip n b seen bad"

fun sent_fast :: "('n option \<times> int) option \<Rightarrow> bool \<Rightarrow> bool \<Rightarrow> int \<Rightarrow> 'n \<Rightarrow> 'n option \<Rightarrow> 'n list \<Rightarrow> 'n list \<Rightarrow> 'n sight" where
  "sent_fast None tip wrong best n b seen bad = None"
| "sent_fast (Some (p, h)) tip wrong best n b seen bad =
     sort_out (wrong \<or> held_parent p bad) tip p (best < h) n b seen bad"

fun stays :: "bool \<Rightarrow> 'n option \<Rightarrow> 'n list \<Rightarrow> 'n list \<Rightarrow> 'n sight" where
  "stays True b seen bad = Some (b, seen, bad)"
| "stays False b seen bad = None"

fun pick :: "bool \<Rightarrow> 'a \<Rightarrow> 'a \<Rightarrow> 'a" where
  "pick True x y = x"
| "pick False x y = y"

fun higher_fast :: "int \<Rightarrow> 'n \<Rightarrow> int \<times> 'n option \<Rightarrow> int \<times> 'n option" where
  "higher_fast h n (best, b) = pick (best \<le> h) (h, Some n) (best, b)"

fun highest_fast :: "'n ftree \<Rightarrow> 'n list \<Rightarrow> int \<times> 'n option \<Rightarrow> int \<times> 'n option" where
  "highest_fast tree [] v = v"
| "highest_fast tree (n # ns) v = highest_fast tree ns (higher_fast (height_or (found_height (look tree n))) n v)"

fun found_parent :: "('n option \<times> int) option \<Rightarrow> 'n option" where
  "found_parent None = None"
| "found_parent (Some (p, h)) = p"

fun children_fast :: "'n ftree \<Rightarrow> 'n list \<Rightarrow> 'n list \<Rightarrow> 'n list" where
  "children_fast tree bad [] = bad"
| "children_fast tree bad (n # ns) = children_fast tree (keep_if (held_parent (found_parent (look tree n)) bad) n bad) ns"

fun turned :: "'a list \<Rightarrow> 'a list \<Rightarrow> 'a list" where
  "turned [] ys = ys"
| "turned (x # xs) ys = turned xs (x # ys)"

fun chosen :: "'n ftree \<Rightarrow> 'n list \<Rightarrow> 'n list \<Rightarrow> 'n sight" where
  "chosen tree seen bad = Some (snd (highest_fast tree seen (0, None)), seen, bad)"

fun thrown_out :: "'n ftree \<Rightarrow> 'n list \<Rightarrow> 'n list \<Rightarrow> 'n sight" where
  "thrown_out tree seen bad = chosen tree (outside_of bad seen) bad"

fun deed_fast :: "'n ftree \<Rightarrow> 'n deed \<Rightarrow> 'n sight \<Rightarrow> 'n sight" where
  "deed_fast tree d None = None"
| "deed_fast tree (Sent n tip wrong) (Some (b, seen, bad)) =
     sent_fast (look tree n) tip wrong (height_or (below_fast tree b)) n b seen bad"
| "deed_fast tree (TipIs n) (Some (b, seen, bad)) = stays (b = Some n) b seen bad"
| "deed_fast tree (Invalidated n) (Some (b, seen, bad)) = thrown_out tree seen (children_fast tree (n # bad) (turned seen []))"
| "deed_fast tree Other (Some (b, seen, bad)) = Some (b, seen, bad)"

fun judge_fast :: "'n ftree \<Rightarrow> 'n deed list \<Rightarrow> 'n sight \<Rightarrow> 'n sight" where
  "judge_fast tree [] v = v"
| "judge_fast tree (d # ds) v = judge_fast tree ds (deed_fast tree d v)"

definition as_sight :: "'n view \<Rightarrow> 'n option \<times> 'n list \<times> 'n list" where
  "as_sight v = (vw_best v, vw_seen v, vw_bad v)"

lemma held_eq: "held ms n \<longleftrightarrow> n \<in> set ms" "held_on c ms n \<longleftrightarrow> c \<or> n \<in> set ms"
  by (induction ms n and c ms n rule: held_held_on.induct) auto

lemma lists_fast_eq:
  "held_parent p ns = among p ns" "known_parent p ns = (p = None \<or> among p ns)"
  "without n ms = filter (\<lambda>m. m \<noteq> n) ms" "outside_of bad ms = filter (\<lambda>m. m \<notin> set bad) ms"
  "height_or (below_fast (in_binary tree) p) = int (height_in tree p)"
proof -
  show "without n ms = filter (\<lambda>m. m \<noteq> n) ms" by (induction ms) auto
  show "outside_of bad ms = filter (\<lambda>m. m \<notin> set bad) ms" by (induction ms) (auto simp: held_eq)
  show "held_parent p ns = among p ns" by (cases p) (simp_all add: among_def held_eq)
  show "known_parent p ns = (p = None \<or> among p ns)" by (cases p) (simp_all add: among_def held_eq)
  show "height_or (below_fast (in_binary tree) p) = int (height_in tree p)"
    by (cases "height_below tree p") (simp_all add: below_fast_eq height_in_def)
qed

lemma turned_eq: "turned xs ys = rev xs @ ys"
  by (induction xs arbitrary: ys) simp_all

lemma height_of_Some: "height_or (found_height (look (in_binary tree) n)) = int (height_in tree (Some n))"
  using lists_fast_eq(5) [of tree "Some n"] by simp

lemma highest_fast_eq:
  "highest_fast (in_binary tree) ns (int (height_in tree b), b) =
     (int (height_in tree (first_highest tree ns b)), first_highest tree ns b)"
proof (induction ns arbitrary: b)
  case (Cons n ns)
  then show ?case by (cases "height_in tree b \<le> height_in tree (Some n)") (simp_all add: height_of_Some)
qed simp

lemma highest_of_all: "snd (highest_fast (in_binary tree) seen (0, None)) = first_highest tree seen None"
  using highest_fast_eq [of tree seen None] by (simp add: height_in_def height_below_def)

lemma children_fast_eq: "children_fast (in_binary tree) bad ns = with_children tree bad ns"
proof (induction ns arbitrary: bad)
  case (Cons n ns)
  have "found_parent (map_option (map_prod id int) e) = Option.bind e fst" for e :: "('a option \<times> nat) option" by (cases e) auto
  then show ?case using Cons by (simp add: look_binary lists_fast_eq parent_in_def)
qed simp

lemma deed_fast_eq: "deed_fast (in_binary tree) d (Some (as_sight v)) = map_option as_sight (node_takes tree d v)"
proof (cases d)
  case (Sent n tip wrong)
  show ?thesis
  proof (cases "map_of tree n")
    case (Some entry)
    obtain p h where entry: "entry = (p, h)" by (cases entry)
    show ?thesis
      using Some entry
      by (cases "wrong \<or> among p (vw_bad v)"; cases tip; cases p; cases "among p (vw_seen v)"; cases "height_in tree (vw_best v) < h")
        (simp_all add: Sent as_sight_def look_binary lists_fast_eq)
  qed (simp add: Sent as_sight_def look_binary)
next
  case (TipIs n)
  then show ?thesis by (cases "vw_best v = Some n") (simp_all add: as_sight_def)
qed (simp_all add: as_sight_def lists_fast_eq Let_def highest_of_all children_fast_eq turned_eq)

lemma judge_fast_None: "judge_fast tree ds None = None"
  by (induction ds) simp_all

lemma judge_fast_eq: "judge_fast (in_binary tree) ds (Some (as_sight v)) = map_option as_sight (node_takes_all tree ds v)"
proof (induction ds arbitrary: v)
  case (Cons d ds)
  then show ?case by (cases "node_takes tree d v") (simp_all add: deed_fast_eq judge_fast_None)
qed simp

text \<open>The two together: what a run of a plan comes to.\<close>

fun judged :: "'n run \<Rightarrow> 'n sight" where
  "judged None = None"
| "judged (Some (t, tree, ds)) = judge_fast tree (turned ds []) (Some (None, [], []))"

fun best_of :: "'n sight \<Rightarrow> 'n option" where
  "best_of None = None"
| "best_of (Some (b, seen, bad)) = b"

lemma judged_eq: "judged (run_fast ops (Some (None, [], []))) = map_option as_sight (plan_verdict ops)"
proof -
  have "run_fast ops (Some (None, [], [])) = map_option as_run (plan_run ops plan_init)"
    using run_fast_eq [of ops plan_init] by (simp add: as_run_def plan_init_def in_binary_def)
  moreover have "judge_fast (in_binary tree) ds (Some (None, [], [])) = map_option as_sight (node_takes_all tree ds view_init)"
    for tree :: "'a tree" and ds using judge_fast_eq [of tree ds view_init] by (simp add: as_sight_def view_init_def)
  ultimately show ?thesis
    by (cases "plan_run ops plan_init") (simp_all add: plan_verdict_def as_run_def turned_eq)
qed

subsection \<open>The names of the sequence as numbers\<close>

text \<open>The blocks of the maturity buffer go by their negated indices, every other by \<open>number_of\<close>.\<close>

definition short :: "string \<Rightarrow> int" where
  "short s = (let i = digits_val (drop 15 s) in if s = buffer_name i then - int i - 1 else number_of s)"

lemma short_buffer: "short (buffer_name i) = - int i - 1"
  by (simp add: short_def buffer_name_def)

lemma short_other: "take 3 s \<noteq> ''mat'' \<Longrightarrow> short s = number_of s"
proof (rule ccontr)
  assume "take 3 s \<noteq> ''mat''" and "short s \<noteq> number_of s"
  then obtain i where "s = buffer_name i" by (auto simp: short_def Let_def split: if_splits)
  then have "take 3 s = ''mat''" by (simp add: buffer_name_def)
  then show False using \<open>take 3 s \<noteq> ''mat''\<close> by simp
qed

lemma number_of_nonneg: "0 \<le> number_of s"
  by (simp add: number_of_def digits_of_nonneg)

lemma inj_short: "inj short"
proof (rule injI)
  fix s t assume eq: "short s = short t"
  have split: "(\<exists>i. u = buffer_name i \<and> short u = - int i - 1) \<or> short u = number_of u" for u by (auto simp: short_def Let_def)
  from split [of s] split [of t] eq number_of_nonneg [of s] number_of_nonneg [of t] show "s = t"
    using inj_number_of by (auto dest: injD)
qed

fun all_others :: "string list \<Rightarrow> bool" where
  "all_others [] = True"
| "all_others (n # ns) = (take 3 n \<noteq> ''mat'' \<and> all_others ns)"

fun names_of :: "string plan_op list \<Rightarrow> string list" where
  "names_of [] = []"
| "names_of (Grow n # xs) = n # names_of xs"
| "names_of (GrowOn n m # xs) = n # m # names_of xs"
| "names_of (Twin n m # xs) = n # m # names_of xs"
| "names_of (Rework n # xs) = n # names_of xs"
| "names_of (Move n # xs) = n # names_of xs"
| "names_of (Emit (Sent n tip bad) # xs) = n # names_of xs"
| "names_of (Emit (TipIs n) # xs) = n # names_of xs"
| "names_of (Emit (Invalidated n) # xs) = n # names_of xs"
| "names_of (Emit Other # xs) = names_of xs"

lemma renumber: "all_others (names_of xs) \<Longrightarrow> map (map_plan_op short) xs = map (map_plan_op number_of) xs"
  by (induction xs rule: names_of.induct) (simp_all add: short_other)

lemma upto_of_upt: "map (\<lambda>i. f (int i)) [0..<n] = map f [0..int n - 1]"
proof (induction n)
  case (Suc n)
  have "[0..int n] = [0..int n - 1] @ [int n]" by (rule upto_rec2) simp
  then show ?case using Suc by simp
qed simp

definition numbered_opening :: "int plan_op list" where
  "numbered_opening =
     map (map_plan_op number_of) [Grow ''dup_cb'', Rework ''dup_cb'', tip_sent ''dup_cb'', Grow ''b0'', tip_sent ''b0'']
     @ map (\<lambda>i. Grow (- i - 1)) [0..98] @ map (\<lambda>i. Emit (Sent (- i - 1) True False)) [0..98]
     @ map (map_plan_op number_of) (take 5 spends_of_size_plan) @ [Move (- 99)]
     @ map (map_plan_op number_of) (take 3 (drop 6 spends_of_size_plan)) @ [Move (- 99)]"

definition after_opening :: "string plan_op list" where
  "after_opening =
     (fork_and_reorg_plan @ sigops_and_spends_plan @ weight_and_coinbase_length_plan @ checkmultisig_sigops_plan)
     @ p2sh_plan @ malformed_plan
     @ (timestamps_plan @ merkle_malleability_plan @ duplicate_coinbase_plan @ bloated_and_spends_plan @ sigops_around_pushes_plan
        @ resurrection_and_op_return_plan)"

lemma short_literals:
  "short ''dup_cb'' = number_of ''dup_cb''" "short ''b0'' = number_of ''b0''"
  "short ''max_script_size'' = number_of ''max_script_size''"
  "short ''max_script_size_plus_one'' = number_of ''max_script_size_plus_one''"
  by (rule short_other, simp)+

lemma opening_numbered: "map (map_plan_op short) opening_plan = numbered_opening"
  using upto_of_upt [of "\<lambda>i. Grow (- i - 1)" 99] upto_of_upt [of "\<lambda>i. Emit (Sent (- i - 1) True False)" 99]
  by (simp add: opening_plan_def numbered_opening_def buffer_plan_def spends_of_size_plan_def short_literals short_buffer BUFFER_BLOCKS_def
      comp_def del: upt_rec_numeral upto_rec_numeral)

lemma rest_numbered: "map (map_plan_op short) after_opening = map (map_plan_op number_of) after_opening"
  by (rule renumber) code_simp

lemma plan_numbered: "map (map_plan_op short) whole_plan = numbered_opening @ map (map_plan_op number_of) after_opening"
proof -
  have plan: "whole_plan = opening_plan @ after_opening" by (simp only: whole_plan_def after_opening_def)
  show ?thesis unfolding plan map_append opening_numbered rest_numbered ..
qed

lemma numbers_judged:
  "best_of (judged (run_fast (numbered_opening @ map (map_plan_op number_of) after_opening) (Some (None, [], [])))) = Some (number_of ''b88'')"
  by code_simp

text \<open>The node agrees with every step of the plan, and ends on \<open>b88\<close>.\<close>

lemma whole_plan_judged: "\<exists>v. plan_verdict whole_plan = Some v \<and> vw_best v = Some ''b88''"
proof -
  have "best_of (map_option (as_sight \<circ> view_as short) (plan_verdict whole_plan)) = Some (short ''b88'')"
    using numbers_judged short_other [of "''b88''"]
    unfolding judged_eq plan_numbered [symmetric] plan_verdict_as [OF inj_short] by (simp add: option.map_comp)
  then show ?thesis
    by (cases "plan_verdict whole_plan") (auto simp: as_sight_def inj_eq [OF inj_short])
qed

subsection \<open>The property\<close>



end
