(* ===== verification/Mempool_Fill.thy ===== *)
theory Mempool_Fill
  imports Transfers Links
begin

section \<open>Filling a mempool\<close>

text \<open>
  \<open>fill_mempool\<close> of mempool_util.py: a throwaway wallet sends transactions of a rising fee until the
  node evicts the cheapest. \<open>sats_of\<close> stands for btclib's \<open>sats_from_btc\<close>. Fees are JSON numbers; two
  other JSON values are equal where they are the same value.
\<close>

subsection \<open>JSON as the function reads it\<close>

fun json_number :: "json \<Rightarrow> rat option" where
  "json_number (JInt i) = Some (of_int i)"
| "json_number (JNum q) = Some q"
| "json_number (JBool b) = Some (if b then 1 else 0)"
| "json_number _ = None"

text \<open>\<open>x != y\<close> and \<open>x <= y\<close>.\<close>

definition json_differs :: "json \<Rightarrow> json \<Rightarrow> bool" where
  "json_differs x y = (case (json_number x, json_number y) of (Some p, Some q) \<Rightarrow> p \<noteq> q | _ \<Rightarrow> x \<noteq> y)"

definition json_at_most :: "json \<Rightarrow> json \<Rightarrow> bool result" where
  "json_at_most x y =
     (case (json_number x, json_number y) of (Some p, Some q) \<Rightarrow> Inr (p \<le> q) | _ \<Rightarrow> Inl (TypeError ''not supported between''))"

text \<open>\<open>len(x)\<close> and \<open>s in x\<close> for a string \<open>s\<close>.\<close>

fun json_len :: "json \<Rightarrow> nat result" where
  "json_len (JList xs) = Inr (length xs)"
| "json_len (JObj kvs) = Inr (length kvs)"
| "json_len (JStr s) = Inr (length s)"
| "json_len _ = Inl (TypeError ''has no len()'')"

fun json_holds :: "json \<Rightarrow> string \<Rightarrow> bool result" where
  "json_holds (JList xs) s = Inr (JStr s \<in> set xs)"
| "json_holds (JObj kvs) s = Inr (s \<in> fst ` set kvs)"
| "json_holds (JStr t) s = Inr (py_contains t s)"
| "json_holds _ s = Inl (TypeError ''is not iterable'')"

subsection \<open>The function\<close>

definition NUM_TXS :: nat where "NUM_TXS = 75"
definition HIGH_FEE_TXS :: nat where "HIGH_FEE_TXS = 3"
definition TARGET_VSIZE :: int where "TARGET_VSIZE = 67560"

definition batch_fees :: "int \<Rightarrow> int list" where
  "batch_fees relay_fee_rate =
     (let base_fee = relay_fee_rate * 2 * (TARGET_VSIZE div 1000) in map (\<lambda>index. (int index + 1) * base_fee) [0..<NUM_TXS])"

fun confirmed_coins :: "btclib \<Rightarrow> nat \<Rightarrow> (wallet, utxo list) act" where
  "confirmed_coins lib 0 = ret []"
| "confirmed_coins lib (Suc n) =
     bind_a (get_utxo lib None None True True) (\<lambda>u. bind_a (confirmed_coins lib n) (\<lambda>us. ret (u # us)))"

definition at_fee :: "utxo \<Rightarrow> int \<Rightarrow> transfer" where
  "at_fee u fee = plain_transfer\<lparr>tr_utxo := Some u, tr_fee := fee, tr_target_vsize := TARGET_VSIZE\<rparr>"

definition at_rate :: "utxo \<Rightarrow> int \<Rightarrow> transfer" where
  "at_rate u rate = plain_transfer\<lparr>tr_utxo := Some u, tr_fee_rate := rate\<rparr>"

text \<open>One transaction for each fee, off one coin each; answers the coins left.\<close>

fun send_at_fees :: "('w, 'z) outside_scheme \<Rightarrow> btclib \<Rightarrow> int list \<Rightarrow> utxo list \<Rightarrow> ('w purse, utxo list) act" where
  "send_at_fees os lib [] us = ret us"
| "send_at_fees os lib (fee # fees) [] = raise (IndexError ''pop from empty list'')"
| "send_at_fees os lib (fee # fees) (u # us) =
     bind_a (send_self_transfer os lib (at_fee u fee)) (\<lambda>_. send_at_fees os lib fees us)"

definition fee_read :: "('w, 'z) outside_scheme \<Rightarrow> string \<Rightarrow> string \<Rightarrow> ('w purse, json) act" where
  "fee_read os rpc key = bind_a (wallet_rpc os rpc []) (\<lambda>info. lift_r (json_item info key))"

definition not_yet_evicting :: "('w, 'z) outside_scheme \<Rightarrow> json \<Rightarrow> ('w purse, unit) act" where
  "not_yet_evicting os relay_fee =
     bind_a (fee_read os ''getmempoolinfo'' ''mempoolminfee'')
       (\<lambda>least. if json_differs least relay_fee then raise (AssertionError ''mempoolminfee already above'') else ret ())"

definition has_evicted :: "('w, 'z) outside_scheme \<Rightarrow> btclib \<Rightarrow> json \<Rightarrow> tx \<Rightarrow> ('w purse, unit) act" where
  "has_evicted os lib relay_fee evicted =
     bind_a (wallet_rpc os ''getrawmempool'' [])
       (\<lambda>mempool. bind_a (lift_r (json_len mempool))
         (\<lambda>n. if NUM_TXS \<le> n then raise (AssertionError ''still in the mempool'')
           else bind_a (lift_r (json_holds mempool (hex_of (bl_txid lib evicted))))
             (\<lambda>held. if held then raise (AssertionError ''was not evicted'')
               else bind_a (wallet_rpc os ''getmempoolinfo'' [])
                 (\<lambda>info. bind_a (lift_r (json_item info ''minrelaytxfee''))
                   (\<lambda>relay. if json_differs relay relay_fee then raise (AssertionError ''minrelaytxfee moved'')
                     else bind_a (lift_r (json_item info ''mempoolminfee''))
                       (\<lambda>least. bind_a (lift_r (json_at_most least relay_fee))
                         (\<lambda>low. if low then raise (AssertionError ''mempoolminfee did not rise'') else ret ())))))))"

definition fill_from_wallet ::
  "('w, 'z) outside_scheme \<Rightarrow> btclib \<Rightarrow> 'w wall_clock \<Rightarrow> (json \<Rightarrow> int result) \<Rightarrow> ('w purse, unit) act" where
  "fill_from_wallet os lib now sats_of =
     bind_a (generate os lib now (int NUM_TXS + 1) [])
       (\<lambda>_. bind_a (generate os lib now (bl_maturity lib - 1) [])
         (\<lambda>_. bind_a (fee_read os ''getnetworkinfo'' ''relayfee'')
           (\<lambda>relay_fee. bind_a (lift_r (sats_of relay_fee))
             (\<lambda>rate. bind_a (in_wallet (confirmed_coins lib (NUM_TXS + 1)))
               (\<lambda>us. bind_a (lift_r (case us of [] \<Rightarrow> Inl (IndexError ''pop from empty list'') | u # rest \<Rightarrow> Inr (u, rest)))
                 (\<lambda>(u, us). bind_a (send_self_transfer os lib (at_rate u rate))
                   (\<lambda>evicted. bind_a (send_at_fees os lib (take (NUM_TXS - HIGH_FEE_TXS) (batch_fees rate)) us)
                     (\<lambda>us. bind_a (not_yet_evicting os relay_fee)
                       (\<lambda>_. bind_a (send_at_fees os lib (drop (NUM_TXS - HIGH_FEE_TXS) (batch_fees rate)) us)
                         (\<lambda>_. has_evicted os lib relay_fee evicted))))))))))"

definition fill_mempool ::
  "('w, 'z) outside_scheme \<Rightarrow> btclib \<Rightarrow> 'w wall_clock \<Rightarrow> (json \<Rightarrow> int result) \<Rightarrow> nat \<Rightarrow> ('w timed, unit) act" where
  "fill_mempool os lib now sats_of node =
     bind_a (wallet_init os node)
       (\<lambda>w s. case fill_from_wallet os lib now sats_of (w, s) of (r, (w', t)) \<Rightarrow> (r, t))"

subsection \<open>The coins it sends\<close>

abbreviation fits :: "btclib \<Rightarrow> wallet \<Rightarrow> utxo \<Rightarrow> bool" where
  "fits lib w \<equiv> coin_fits lib (wl_height w) None None True"

lemma get_utxo_finds:
  assumes "get_utxo lib None None True True w = (Inl e, w')"
  shows "filter (fits lib w) (wl_utxos w) = []"
proof -
  have "coin_candidates lib (wl_height w) None None True (sort_key coin_key (wl_utxos w)) = []"
    using assms by (auto simp: get_utxo_def Let_def split: list.splits)
  then show ?thesis unfolding coin_candidates_eq by (auto simp: filter_empty_conv split: if_splits)
qed

text \<open>As many coins as fit are answered, each taken out of the cache, and no more than fit.\<close>

lemma confirmed_coins_cases:
  assumes "confirmed_coins lib n w = (r, w')"
  shows "case r of
      Inr us \<Rightarrow> length us = n \<and> mset (wl_utxos w) = mset us + mset (wl_utxos w') \<and> list_all (fits lib w) us
    | Inl e \<Rightarrow> length (filter (fits lib w) (wl_utxos w)) < n"
  using assms
proof (induction n arbitrary: w r w')
  case 0
  then show ?case by (auto simp: ret_def)
next
  case (Suc n)
  obtain r1 w1 where first: "get_utxo lib None None True True w = (r1, w1)" by (metis surj_pair)
  show ?case
  proof (cases r1)
    case (Inl e)
    then show ?thesis using Suc.prems first get_utxo_finds [of lib w e w1] by (auto simp: bind_a_def)
  next
    case (Inr u)
    note taken = get_utxo_InrD [OF first [unfolded Inr]]
    have height: "wl_height w1 = wl_height w" by (subst taken(2)) (simp add: set_utxos_def)
    have one_less: "length (filter (fits lib w) (wl_utxos w)) = Suc (length (filter (fits lib w) (wl_utxos w1)))"
    proof -
      have "filter_mset (fits lib w) (mset (wl_utxos w)) = add_mset u (filter_mset (fits lib w) (mset (wl_utxos w1)))"
        using taken(1,3) by simp
      then show ?thesis by (metis mset_filter size_mset size_add_mset)
    qed
    obtain r2 w2 where rest: "confirmed_coins lib n w1 = (r2, w2)" by (metis surj_pair)
    show ?thesis
      using Suc.IH [OF rest] Suc.prems first Inr rest taken(1,3) one_less height
      by (cases r2) (auto simp: bind_a_def)
  qed
qed

lemma coinbases_from_heights:
  assumes "coinbases_from lib height coins" and "u \<in> set coins"
  shows "ux_coinbase u" and "height < ux_height u" and "ux_height u \<le> height + int (length coins)"
proof -
  show "ux_coinbase u" using assms by (auto simp: coinbases_from_def list_all_iff)
  have "ux_height u \<in> set (map ux_height coins)" using assms(2) by simp
  then show "height < ux_height u" "ux_height u \<le> height + int (length coins)"
    using assms(1) unfolding coinbases_from_def by auto
qed

text \<open>What is answered is among the coins that fit.\<close>

lemma confirmed_coins_fit:
  assumes "confirmed_coins lib n w = (Inr us, w')" and "filter (fits lib w) (wl_utxos w) = coins"
  shows "length us = n" and "mset us \<subseteq># mset coins"
proof -
  note cases = confirmed_coins_cases [OF assms(1), simplified]
  show "length us = n" using cases by simp
  have "filter_mset (fits lib w) (mset (wl_utxos w)) = mset us + filter_mset (fits lib w) (mset (wl_utxos w'))"
    using cases by (simp add: list_all_iff filter_mset_eq_conv)
  then show "mset us \<subseteq># mset coins" using assms(2) by (simp flip: mset_filter)
qed

text \<open>
  C40: The coins \<open>fill_mempool\<close> mines are enough for the transactions it sends, and not one more is
  spendable: of an empty wallet that mined \<open>_NUM_TXS + 1\<close> blocks and then as many as a coinbase's
  maturity less one, exactly \<open>_NUM_TXS + 1\<close> coins are answered, the first ones mined, and the next call
  raises; so a call of the function that mined its blocks has a coin for every fee.
\<close>

theorem matured_coins_suffice:
  assumes "generate os lib now (int NUM_TXS + 1) [] (w, s) = (Inr mined, (w1, s1))"
    and "generate os lib now (bl_maturity lib - 1) [] (w1, s1) = (Inr confirming, (w2, s2))"
    and "wl_utxos w = []" and "0 \<le> wl_height w" and "1 \<le> bl_maturity lib"
  shows "\<exists>us w3. confirmed_coins lib (NUM_TXS + 1) w2 = (Inr us, w3) \<and> length us = NUM_TXS + 1
      \<and> mset (map ux_height us) = mset (map (\<lambda>i. wl_height w + 1 + int i) [0..<NUM_TXS + 1])
      \<and> list_all ux_coinbase us
      \<and> length (batch_fees rate) + 1 = length us
      \<and> isl (fst (confirmed_coins lib (NUM_TXS + 2) w2))"
proof -
  obtain coins where first: "wl_utxos w1 = coins" "coinbases_from lib (wl_height w) coins" "length coins = NUM_TXS + 1"
    "wl_height w1 = wl_height w + int NUM_TXS + 1"
    using generate_mines [where os = os and lib = lib and now = now and number = "int NUM_TXS + 1" and w = w and s = s] assms(1,3) by (auto simp: Let_def nat_add_distrib)
  obtain later where second: "wl_utxos w2 = coins @ later" "coinbases_from lib (wl_height w1) later"
    "wl_height w2 = wl_height w + int NUM_TXS + bl_maturity lib"
    using generate_mines [where os = os and lib = lib and now = now and number = "bl_maturity lib - 1" and w = w1 and s = s1] assms(2,5) first by (auto simp: Let_def)
  have old: "u \<in> set coins \<Longrightarrow> fits lib w2 u \<and> ux_coinbase u" for u
    using coinbases_from_heights [OF first(2)] first(3) second(3) assms(4)
    by (fastforce simp: coin_fits_def is_mature_def utxo_confirmed_def)
  have new: "u \<in> set later \<Longrightarrow> \<not> fits lib w2 u" for u
    using coinbases_from_heights [OF second(2)] first(4) second(3) by (fastforce simp: coin_fits_def is_mature_def)
  have fitting: "filter (fits lib w2) (wl_utxos w2) = coins" using old new by (simp add: second(1))
  obtain r w3 where run: "confirmed_coins lib (NUM_TXS + 1) w2 = (r, w3)" by (metis surj_pair)
  then obtain us where us: "r = Inr us" using confirmed_coins_cases [OF run] fitting first(3) by (cases r) auto
  note taken = confirmed_coins_fit [OF run [unfolded us] fitting]
  have same: "mset us = mset coins" using taken first(3) mset_subset_size [of "mset us" "mset coins"] by (force simp: subset_mset.less_le)
  have "set us = set coins" using same by (rule mset_eq_setD)
  then have "list_all ux_coinbase us" using old by (simp add: list_all_iff)
  moreover have "mset (map ux_height us) = mset (map (\<lambda>i. wl_height w + 1 + int i) [0..<NUM_TXS + 1])"
    using same first(2,3) unfolding coinbases_from_def by (metis mset_map)
  moreover have "isl (fst (confirmed_coins lib (NUM_TXS + 2) w2))"
  proof (rule ccontr)
    assume "\<not> isl (fst (confirmed_coins lib (NUM_TXS + 2) w2))"
    then obtain vs w4 where "confirmed_coins lib (NUM_TXS + 2) w2 = (Inr vs, w4)" by (metis isl_def obj_sumE prod.collapse)
    from confirmed_coins_fit [OF this fitting] first(3) show False using size_mset_mono [of "mset vs" "mset coins"] by simp
  qed
  ultimately show ?thesis using run us taken(1) by (simp add: batch_fees_def Let_def)
qed

text \<open>A node that takes every block, and the blocks of \<open>plain_lib\<close>.\<close>

lemma calm_generates:
  "\<exists>hs w' s'. generate_loop calm_node plain_lib new_years_clock [] n hashes (w, s) = (Inr hs, (w', s'))"
proof (induction n arbitrary: hashes w s)
  case 0
  then show ?case by (simp add: ret_def)
next
  case (Suc n)
  have "\<exists>h w' s'. generate_one calm_node plain_lib new_years_clock [] (w, s) = (Inr h, (w', s'))"
    by (simp add: generate_one_def mine_one_def plain_lib_def in_world_def outside_call_def new_years_clock_def wallet_rpc_def rpc_call_def
        calm_node_def modify_def bind_a_def Let_def)
  then show ?case using Suc by (fastforce simp: bind_a_def)
qed

theorem matured_coins_suffice_witness:
  "\<exists>w2 us w3. confirmed_coins plain_lib (NUM_TXS + 1) w2 = (Inr us, w3) \<and> length us = NUM_TXS + 1
     \<and> isl (fst (confirmed_coins plain_lib (NUM_TXS + 2) w2))"
proof -
  let ?w = "sample_wallet\<lparr>wl_utxos := []\<rparr>" and ?s = "\<lparr>clock = 0, world = ()\<rparr>"
  obtain mined w1 s1 where first: "generate calm_node plain_lib new_years_clock (int NUM_TXS + 1) [] (?w, ?s) = (Inr mined, (w1, s1))"
    using calm_generates unfolding generate_def by blast
  obtain confirming w2 s2 where "generate calm_node plain_lib new_years_clock (bl_maturity plain_lib - 1) [] (w1, s1) = (Inr confirming, (w2, s2))"
    using calm_generates unfolding generate_def by blast
  moreover have "wl_utxos ?w = []" "0 \<le> wl_height ?w" "1 \<le> bl_maturity plain_lib" by (simp_all add: sample_wallet_def plain_lib_def)
  ultimately show ?thesis using matured_coins_suffice [OF first] by blast
qed

end
