(* ===== verification/Ledger_Rows.thy ===== *)
theory Ledger_Rows
  imports Node_Verdict
begin

section \<open>The rows the testcases are of\<close>

text \<open>
  \<open>_ROWS\<close> of btclib_node_verdict.py, the table that pairs a test module, or one function of it, with the
  row of the per-test ledger its testcases are. The dictionary is the list of its items in the order
  of the source, cut in six; with it as \<open>rows\<close> of Node_Verdict the script is judged as it runs.
\<close>

definition ROWS_1 :: "(string \<times> string) list" where
  "ROWS_1 = [
    (''feature_blocksdir'', ''`feature_blocksdir.py`''),
    (''feature_filelock'', ''`feature_filelock.py`''),
    (''rpc_whitelist'', ''`rpc_whitelist.py`''),
    (''rpc_whitelist::test_a_rejected_method_is_logged_as_named'', ''`rpc_whitelist.py` (rejected method, log)''),
    (''rpc_users'', ''`rpc_users.py`''),
    (''rpc_users::test_norpcauth_disables_previous_rpcauth'', ''`rpc_users.py` (`-norpcauth`)''),
    (''rpc_users::test_rpcuser_rpcpassword_authenticates_without_a_cookie'', ''`rpc_users.py` (`-rpcuser`/`-rpcpassword`)''),
    (''rpc_users::test_norpccookiefile_writes_no_cookie_and_rpcauth_still_authenticates'', ''`rpc_users.py` (`-norpccookiefile`)''),
    (''p2p_block_sync'', ''`p2p_block_sync.py`''),
    (''p2p_compactblocks_hb'', ''`p2p_compactblocks_hb.py`''),
    (''p2p_getdata'', ''`p2p_getdata.py`''),
    (''p2p_invalid_locator'', ''`p2p_invalid_locator.py`''),
    (''p2p_invalid_messages::test_wrong_magic_bytes_disconnects_the_peer'', ''`p2p_invalid_messages.py` (wire)''),
    (''p2p_invalid_messages::test_wrong_magic_bytes_is_logged'', ''`p2p_invalid_messages.py` (log)''),
    (''p2p_invalid_messages::test_oversized_message_disconnects_the_peer'', ''`p2p_invalid_messages.py` (size, wire)''),
    (''p2p_invalid_messages::test_oversized_message_is_logged'', ''`p2p_invalid_messages.py` (size, log)''),
    (''p2p_invalid_messages_misbehaving::test_oversized_inv_disconnects_the_peer'', ''`p2p_invalid_messages.py` (inv, wire)''),
    (''p2p_invalid_messages_misbehaving::test_oversized_inv_is_logged'', ''`p2p_invalid_messages.py` (inv, log)''),
    (''p2p_invalid_messages_misbehaving::test_oversized_getdata_disconnects_the_peer'', ''`p2p_invalid_messages.py` (getdata, wire)''),
    (''p2p_invalid_messages_misbehaving::test_oversized_getdata_is_logged'', ''`p2p_invalid_messages.py` (getdata, log)''),
    (''p2p_invalid_messages_misbehaving::test_oversized_headers_disconnects_the_peer'', ''`p2p_invalid_messages.py` (headers, wire)''),
    (''p2p_invalid_messages_misbehaving::test_oversized_headers_is_logged'', ''`p2p_invalid_messages.py` (headers, log)''),
    (''p2p_invalid_messages_misbehaving::test_invalid_pow_header_disconnects_the_peer'', ''`p2p_invalid_messages.py` (invalid pow, wire)''),
    (''p2p_invalid_messages_misbehaving::test_invalid_pow_header_is_logged'', ''`p2p_invalid_messages.py` (invalid pow, log)''),
    (''p2p_invalid_messages_misbehaving::test_noncontinuous_headers_disconnects_the_peer'', ''`p2p_invalid_messages.py` (noncontinuous, wire)''),
    (''p2p_invalid_messages_misbehaving::test_noncontinuous_headers_is_logged'', ''`p2p_invalid_messages.py` (noncontinuous, log)''),
    (''p2p_invalid_messages_dropped::test_duplicate_version_keeps_the_connection'', ''`p2p_invalid_messages.py` (dup version, wire)''),
    (''p2p_invalid_messages_dropped::test_duplicate_version_is_logged'', ''`p2p_invalid_messages.py` (dup version, log)''),
    (''p2p_invalid_messages_dropped::test_wrong_checksum_keeps_the_connection'', ''`p2p_invalid_messages.py` (checksum, wire)''),
    (''p2p_invalid_messages_dropped::test_wrong_checksum_is_logged'', ''`p2p_invalid_messages.py` (checksum, log)''),
    (''p2p_invalid_messages_dropped::test_invalid_msgtype_keeps_the_connection'', ''`p2p_invalid_messages.py` (msgtype, wire)''),
    (''p2p_invalid_messages_dropped::test_invalid_msgtype_is_logged'', ''`p2p_invalid_messages.py` (msgtype, log)''),
    (''p2p_invalid_messages_addrv2::test_addrv2_empty_keeps_the_connection'', ''`p2p_invalid_messages.py` (addrv2 empty, wire)''),
    (''p2p_invalid_messages_addrv2::test_addrv2_empty_is_logged'', ''`p2p_invalid_messages.py` (addrv2 empty, log)''),
    (''p2p_invalid_messages_addrv2::test_addrv2_no_addresses_keeps_the_connection'', ''`p2p_invalid_messages.py` (addrv2 no addr, wire)''),
    (''p2p_invalid_messages_addrv2::test_addrv2_no_addresses_is_logged'', ''`p2p_invalid_messages.py` (addrv2 no addr, log)''),
    (''p2p_invalid_messages_addrv2::test_addrv2_too_long_address_keeps_the_connection'', ''`p2p_invalid_messages.py` (addrv2 long, wire)''),
    (''p2p_invalid_messages_addrv2::test_addrv2_too_long_address_is_logged'', ''`p2p_invalid_messages.py` (addrv2 long, log)''),
    (''p2p_invalid_messages_addrv2::test_addrv2_unrecognized_network_keeps_the_connection'', ''`p2p_invalid_messages.py` (addrv2 net id, wire)''),
    (''p2p_invalid_messages_addrv2::test_addrv2_unrecognized_network_is_logged'', ''`p2p_invalid_messages.py` (addrv2 net id, log)''),
    (''p2p_leak::test_obsolete_version_disconnects_the_peer'', ''`p2p_leak.py` (wire)''),
    (''p2p_leak::test_obsolete_version_is_logged'', ''`p2p_leak.py` (log)''),
    (''p2p_leak::test_feature_negotiation_starts_at_the_wtxid_version'', ''`p2p_leak.py` (version boundary)''),
    (''p2p_handshake::test_redundant_verack_keeps_the_connection'', ''`p2p_handshake.py` (wire)''),
    (''p2p_handshake::test_redundant_verack_is_logged'', ''`p2p_handshake.py` (log)''),
    (''p2p_handshake::test_outbound_services_decide_the_connection'', ''`p2p_handshake.py` (services, wire)''),
    (''p2p_handshake::test_outbound_services_refusal_is_logged'', ''`p2p_handshake.py` (services, log)''),
    (''p2p_handshake::test_limited_peer_is_kept_only_near_the_tip'', ''`p2p_handshake.py` (limited, wire)''),
    (''p2p_handshake::test_limited_peer_refusal_is_logged'', ''`p2p_handshake.py` (limited, log)''),
    (''p2p_handshake::test_feeler_is_dropped_after_its_version'', ''`p2p_handshake.py` (feeler, wire)''),
    (''p2p_handshake::test_feeler_completion_is_logged'', ''`p2p_handshake.py` (feeler, log)''),
    (''p2p_handshake::test_self_connection_is_dropped'', ''`p2p_handshake.py` (self, wire)''),
    (''p2p_handshake::test_self_connection_is_logged'', ''`p2p_handshake.py` (self, log)''),
    (''p2p_addr_relay::test_oversized_addr_disconnects_the_peer'', ''`p2p_addr_relay.py` (wire)''),
    (''p2p_addr_relay::test_oversized_addr_is_logged'', ''`p2p_addr_relay.py` (log)''),
    (''p2p_addrv2_relay::test_sendaddrv2_after_verack_disconnects_the_peer'', ''`p2p_addrv2_relay.py` (wire)''),
    (''p2p_addrv2_relay::test_sendaddrv2_after_verack_is_logged'', ''`p2p_addrv2_relay.py` (log)''),
    (''p2p_net_deadlock'', ''`p2p_net_deadlock.py`''),
    (''feature_uacomment'', ''`feature_uacomment.py`'')]"

definition ROWS_2 :: "(string \<times> string) list" where
  "ROWS_2 = [
    (''rpc_uptime'', ''`rpc_uptime.py`''),
    (''feature_framework_miniwallet'', ''`feature_framework_miniwallet.py`''),
    (''feature_framework_miniwallet::test_mini_wallet_confirmed_only_tells_mined_coins_from_mempool_ones'', ''`feature_framework_miniwallet.py` (`confirmed_only`)''),
    (''feature_framework_miniwallet::test_mini_wallet_fee_rate_is_the_fee_the_node_reports'', ''`feature_framework_miniwallet.py` (`fee_rate`)''),
    (''feature_framework_miniwallet::test_mini_wallet_version_3_is_held_to_truc_policy'', ''`feature_framework_miniwallet.py` (TRUC)''),
    (''mempool_resurrect'', ''`mempool_resurrect.py`''),
    (''mempool_spend_coinbase'', ''`mempool_spend_coinbase.py`''),
    (''feature_dersig::test_dersig_activates_one_block_before_the_configured_height'', ''`feature_dersig.py`''),
    (''feature_dersig::test_a_block_below_the_minimum_version_is_refused'', ''`feature_dersig.py` (wire)''),
    (''feature_dersig::test_a_block_below_the_minimum_version_is_logged'', ''`feature_dersig.py` (log)''),
    (''feature_dersig::test_a_non_der_signature_is_refused_once_active'', ''`feature_dersig.py` (signature)''),
    (''feature_cltv::test_cltv_activates_one_block_before_the_configured_height'', ''`feature_cltv.py`''),
    (''feature_cltv::test_a_version_3_block_is_refused_once_active'', ''`feature_cltv.py` (wire)''),
    (''feature_cltv::test_a_version_3_block_is_logged_once_active'', ''`feature_cltv.py` (log)''),
    (''feature_cltv::test_cltv_failures_are_mined_until_the_configured_height'', ''`feature_cltv.py` (failures, activation)''),
    (''feature_cltv::test_cltv_failures_are_refused_by_the_mempool'', ''`feature_cltv.py` (failures, mempool)''),
    (''feature_cltv::test_cltv_failures_are_refused_in_a_block'', ''`feature_cltv.py` (failures, block)''),
    (''feature_csv_activation::test_csv_activates_one_block_before_the_configured_height'', ''`feature_csv_activation.py`''),
    (''feature_csv_activation::test_csv_rules_are_enforced_from_the_configured_height'', ''`feature_csv_activation.py` (lock times)''),
    (''feature_nulldummy'', ''`feature_nulldummy.py`''),
    (''feature_dirsymlinks'', ''`feature_dirsymlinks.py`''),
    (''feature_posix_fs_permissions'', ''`feature_posix_fs_permissions.py`''),
    (''rpc_createmultisig'', ''`rpc_createmultisig.py` (spend)''),
    (''rpc_setban::test_a_ban_drops_the_connection_it_matches'', ''`rpc_setban.py` (ban)''),
    (''rpc_setban::test_a_ban_survives_a_restart_until_it_is_removed'', ''`rpc_setban.py` (restart)''),
    (''rpc_setban::test_a_noban_permission_reconnects_a_banned_peer'', ''`rpc_setban.py` (noban)''),
    (''rpc_setban::test_a_non_ip_address_can_be_banned_and_unbanned'', ''`rpc_setban.py` (non-IP)''),
    (''rpc_setban::test_bantime_given_at_a_restart_sets_a_new_ban_s_duration'', ''`rpc_setban.py` (bantime)''),
    (''p2p_disconnect_ban'', ''`p2p_disconnect_ban.py` (disconnectnode)''),
    (''mempool_datacarrier'', ''`mempool_datacarrier.py`''),
    (''mempool_dust'', ''`mempool_dust.py`''),
    (''mempool_sigoplimit'', ''`mempool_sigoplimit.py`''),
    (''mempool_package_limits'', ''`mempool_package_limits.py`''),
    (''mempool_updatefromblock'', ''`mempool_updatefromblock.py`''),
    (''p2p_leak_tx::test_tx_in_block'', ''`p2p_leak_tx.py` (in block)''),
    (''p2p_leak_tx::test_notfound_on_replaced_tx'', ''`p2p_leak_tx.py` (replaced)''),
    (''p2p_leak_tx::test_notfound_on_unannounced_tx'', ''`p2p_leak_tx.py` (unannounced)''),
    (''feature_utxo_set_hash'', ''`feature_utxo_set_hash.py`''),
    (''rpc_getdescriptoractivity'', ''`rpc_getdescriptoractivity.py`''),
    (''rpc_getdescriptoractivity::test_activity_in_block'', ''`rpc_getdescriptoractivity.py` (mempool)''),
    (''rpc_getdescriptoractivity::test_no_mempool_inclusion'', ''`rpc_getdescriptoractivity.py` (mempool)''),
    (''rpc_getdescriptoractivity::test_multiple_addresses'', ''`rpc_getdescriptoractivity.py` (mempool)''),
    (''rpc_getdescriptoractivity::test_confirmed_and_unconfirmed'', ''`rpc_getdescriptoractivity.py` (mempool)''),
    (''rpc_getdescriptoractivity::test_receive_then_spend'', ''`rpc_getdescriptoractivity.py` (mempool)''),
    (''rpc_getdescriptoractivity::test_no_address'', ''`rpc_getdescriptoractivity.py` (mempool)''),
    (''rpc_getblockstats'', ''`rpc_getblockstats.py`''),
    (''feature_fastprune'', ''`feature_fastprune.py`''),
    (''rpc_scanblocks'', ''`rpc_scanblocks.py`''),
    (''rpc_scanblocks::test_scanblocks_refuses_without_the_index'', ''`rpc_scanblocks.py` (no index)''),
    (''p2p_eviction'', ''`p2p_eviction.py`''),
    (''feature_presegwit_node_upgrade'', ''`feature_presegwit_node_upgrade.py`''),
    (''rpc_validateaddress'', ''`rpc_validateaddress.py`''),
    (''p2p_addrfetch'', ''`p2p_addrfetch.py`''),
    (''rpc_echo_payload'', ''`rpc_echo_payload.py`''),
    (''p2p_compactblocks_blocksonly'', ''`p2p_compactblocks_blocksonly.py`''),
    (''rpc_getblockfilter'', ''`rpc_getblockfilter.py`''),
    (''rpc_getblockfrompeer'', ''`rpc_getblockfrompeer.py`''),
    (''p2p_node_network_limited'', ''`p2p_node_network_limited.py`''),
    (''rpc_getdescriptorinfo'', ''`rpc_getdescriptorinfo.py`''),
    (''p2p_timeouts::test_peers_that_never_finish_the_handshake_are_dropped'', ''`p2p_timeouts.py` (wire)''),
    (''p2p_timeouts::test_handshake_timeouts_are_logged'', ''`p2p_timeouts.py` (log)''),
    (''p2p_timeouts::test_a_non_positive_peertimeout_is_refused'', ''`p2p_timeouts.py` (refusal)''),
    (''p2p_ping::test_ping_replies_are_reported_on_rpc'', ''`p2p_ping.py` (wire)''),
    (''p2p_ping::test_ping_replies_are_logged'', ''`p2p_ping.py` (log)''),
    (''mempool_expiry'', ''`mempool_expiry.py`''),
    (''p2p_add_connections'', ''`p2p_add_connections.py`''),
    (''p2p_add_connections::test_manual_connection_past_the_outbound_capacity'', ''`p2p_add_connections.py` (`manual`)''),
    (''p2p_v2_encrypted::test_inbound_connections_and_blocks'', ''`p2p_v2_encrypted.py` (inbound)''),
    (''p2p_v2_encrypted::test_outbound_connections'', ''`p2p_v2_encrypted.py` (outbound)''),
    (''feature_includeconf::test_includeconf_files_are_read_in_order'', ''`feature_includeconf.py` (order)''),
    (''feature_includeconf::test_noincludeconf_0_on_the_command_line_is_refused'', ''`feature_includeconf.py` (double negative)''),
    (''feature_includeconf::test_includeconf_on_the_command_line_is_refused'', ''`feature_includeconf.py` (`-includeconf`)''),
    (''feature_includeconf::test_a_nested_includeconf_is_ignored_with_a_warning'', ''`feature_includeconf.py` (nested)''),
    (''feature_includeconf::test_a_missing_included_file_is_refused'', ''`feature_includeconf.py` (missing)''),
    (''feature_reindex_init'', ''`feature_reindex_init.py`''),
    (''rpc_generate'', ''`rpc_generate.py`''),
    (''rpc_signrawtransactionwithkey'', ''`rpc_signrawtransactionwithkey.py`'')]"

definition ROWS_3 :: "(string \<times> string) list" where
  "ROWS_3 = [
    (''rpc_scantxoutset'', ''`rpc_scantxoutset.py`''),
    (''feature_proxy'', ''`feature_proxy.py`''),
    (''feature_proxy::test_cjdnsreachable_reaches_cjdns_through_the_proxy'', ''`feature_proxy.py` (`-cjdnsreachable`)''),
    (''feature_proxy::test_i2psam_is_the_proxy_of_i2p_alone'', ''`feature_proxy.py` (`-i2psam`)''),
    (''feature_proxy::test_malformed_i2psam_is_refused'', ''`feature_proxy.py` (`-i2psam`)''),
    (''feature_proxy::test_onlynet_refuses_a_network_it_cannot_reach'', ''`feature_proxy.py` (`-onlynet`)''),
    (''wallet_signmessagewithaddress'', ''`wallet_signmessagewithaddress.py`''),
    (''wallet_blank'', ''`wallet_blank.py`''),
    (''wallet_coinbase_category'', ''`wallet_coinbase_category.py`''),
    (''p2p_initial_headers_sync'', ''`p2p_initial_headers_sync.py`''),
    (''p2p_initial_headers_sync::test_headers_timeout_drops_the_peer'', ''`p2p_initial_headers_sync.py` (stall, wire)''),
    (''p2p_initial_headers_sync::test_headers_timeout_is_logged'', ''`p2p_initial_headers_sync.py` (stall, log)''),
    (''p2p_initial_headers_sync::test_headers_timeout_keeps_a_noban_peer'', ''`p2p_initial_headers_sync.py` (noban, wire)''),
    (''p2p_initial_headers_sync::test_headers_timeout_of_a_noban_peer_is_logged'', ''`p2p_initial_headers_sync.py` (noban, log)''),
    (''p2p_sendtxrcncl'', ''`p2p_sendtxrcncl.py`''),
    (''p2p_sendtxrcncl::test_sendtxrcncl_is_not_sent_with_bloom_filters_and_no_relay'', ''`p2p_sendtxrcncl.py` (bloom)''),
    (''p2p_sendtxrcncl::test_sendtxrcncl_is_sent_to_full_relay_outbound_peers'', ''`p2p_sendtxrcncl.py` (outbound)''),
    (''p2p_sendtxrcncl::test_sendtxrcncl_on_block_relay_only_is_logged'', ''`p2p_sendtxrcncl.py` (outbound, log)''),
    (''p2p_sendtxrcncl::test_sendtxrcncl_is_not_sent_in_blocks_only_mode'', ''`p2p_sendtxrcncl.py` (blocksonly)''),
    (''p2p_sendtxrcncl::test_sendtxrcncl_is_ignored_without_the_option'', ''`p2p_sendtxrcncl.py` (off)''),
    (''p2p_sendtxrcncl::test_sendtxrcncl_is_ignored_without_the_option_in_the_log'', ''`p2p_sendtxrcncl.py` (off, log)''),
    (''p2p_sendtxrcncl::test_sendtxrcncl_violations_drop_the_peer'', ''`p2p_sendtxrcncl.py` (violations, wire)''),
    (''p2p_sendtxrcncl::test_sendtxrcncl_violations_are_logged'', ''`p2p_sendtxrcncl.py` (violations, log)''),
    (''p2p_sendtxrcncl::test_sendtxrcncl_kept_peers_stay_connected'', ''`p2p_sendtxrcncl.py` (kept, wire)''),
    (''p2p_sendtxrcncl::test_sendtxrcncl_kept_peers_are_logged'', ''`p2p_sendtxrcncl.py` (kept, log)''),
    (''feature_reindex::test_a_reindex_restores_the_height'', ''`feature_reindex.py` (reindex)''),
    (''feature_reindex::test_blocks_out_of_order_are_reindexed'', ''`feature_reindex.py` (out of order)''),
    (''feature_reindex::test_an_interrupted_reindex_keeps_its_index'', ''`feature_reindex.py` (interrupted)''),
    (''feature_reindex_readonly'', ''`feature_reindex_readonly.py`''),
    (''p2p_feefilter'', ''`p2p_feefilter.py`''),
    (''p2p_feefilter::test_feefilter_is_not_sent_to_a_forcerelay_peer'', ''`p2p_feefilter.py` (forcerelay)''),
    (''p2p_feefilter::test_feefilter_filters_announcements'', ''`p2p_feefilter.py` (filter)''),
    (''p2p_feefilter::test_feefilter_is_not_sent_to_a_block_relay_only_peer'', ''`p2p_feefilter.py` (block-relay-only)''),
    (''p2p_feefilter::test_feefilter_is_not_sent_in_blocks_only_mode'', ''`p2p_feefilter.py` (blocksonly)''),
    (''p2p_mutated_blocks::test_mutated_block_keeps_the_honest_request'', ''`p2p_mutated_blocks.py` (wire)''),
    (''p2p_mutated_blocks::test_mutated_block_is_logged'', ''`p2p_mutated_blocks.py` (log)''),
    (''p2p_mutated_blocks::test_block_missing_its_parent_drops_the_peer'', ''`p2p_mutated_blocks.py` (missing parent, wire)''),
    (''p2p_mutated_blocks::test_block_missing_its_parent_is_logged'', ''`p2p_mutated_blocks.py` (missing parent, log)''),
    (''feature_anchors::test_block_relay_only_peers_are_the_anchors'', ''`feature_anchors.py`''),
    (''feature_anchors::test_onion_anchor_is_dumped_and_dialled'', ''`feature_anchors.py` (onion)''),
    (''p2p_addr_selfannouncement::test_self_announcement_to_inbound_peers'', ''`p2p_addr_selfannouncement.py` (inbound, wire)''),
    (''p2p_addr_selfannouncement::test_self_announcement_to_inbound_peers_is_logged'', ''`p2p_addr_selfannouncement.py` (inbound, log)''),
    (''p2p_addr_selfannouncement::test_self_announcement_to_outbound_peers'', ''`p2p_addr_selfannouncement.py` (outbound, wire)''),
    (''p2p_addr_selfannouncement::test_self_announcement_to_outbound_peers_is_logged'', ''`p2p_addr_selfannouncement.py` (outbound, log)''),
    (''p2p_addr_selfannouncement::test_externalip_bypasses_onlynet'', ''`p2p_addr_selfannouncement.py` (`-onlynet`)''),
    (''p2p_message_capture'', ''`p2p_message_capture.py`''),
    (''feature_blocksxor'', ''`feature_blocksxor.py`''),
    (''wallet_createwalletdescriptor'', ''`wallet_createwalletdescriptor.py`''),
    (''wallet_sendmany'', ''`wallet_sendmany.py`''),
    (''wallet_timelock'', ''`wallet_timelock.py`''),
    (''mempool_accept_wtxid'', ''`mempool_accept_wtxid.py`''),
    (''rpc_orphans'', ''`rpc_orphans.py`''),
    (''wallet_simulaterawtx'', ''`wallet_simulaterawtx.py`''),
    (''wallet_rescan_unconfirmed'', ''`wallet_rescan_unconfirmed.py`''),
    (''mining_template_verification'', ''`mining_template_verification.py`''),
    (''feature_remove_pruned_files_on_startup'', ''`feature_remove_pruned_files_on_startup.py`''),
    (''feature_prune_stale_fork'', ''`feature_prune_stale_fork.py`''),
    (''p2p_i2p_ports'', ''`p2p_i2p_ports.py`''),
    (''p2p_i2p_sessions'', ''`p2p_i2p_sessions.py`''),
    (''p2p_dns_seeds'', ''`p2p_dns_seeds.py`''),
    (''p2p_seednode'', ''`p2p_seednode.py`''),
    (''p2p_ibd_stalling::test_stalling_drops_the_staller'', ''`p2p_ibd_stalling.py` (wire)''),
    (''p2p_ibd_stalling::test_stalling_is_logged'', ''`p2p_ibd_stalling.py` (log)''),
    (''p2p_ibd_stalling::test_manual_peer_stalling_pauses_the_peer'', ''`p2p_ibd_stalling.py` (`manual`, wire)''),
    (''p2p_ibd_stalling::test_manual_peer_stalling_is_logged'', ''`p2p_ibd_stalling.py` (`manual`, log)''),
    (''p2p_private_broadcast'', ''`p2p_private_broadcast.py`''),
    (''p2p_tx_download::test_an_expired_request_falls_back_to_another_peer'', ''`p2p_tx_download.py` (expiry)'')]"

definition ROWS_4 :: "(string \<times> string) list" where
  "ROWS_4 = [
    (''p2p_tx_download::test_a_disconnect_falls_back_to_another_peer'', ''`p2p_tx_download.py` (disconnect)''),
    (''p2p_tx_download::test_a_notfound_falls_back_to_another_peer'', ''`p2p_tx_download.py` (notfound)''),
    (''p2p_tx_download::test_a_ready_preferred_peer_is_asked_first'', ''`p2p_tx_download.py` (tiebreak)''),
    (''p2p_tx_download::test_an_inbound_peer_is_asked_after_the_delay'', ''`p2p_tx_download.py` (inbound)''),
    (''p2p_tx_download::test_an_outbound_peer_is_asked_at_once'', ''`p2p_tx_download.py` (outbound)''),
    (''p2p_tx_download::test_a_noban_peer_is_asked_at_once'', ''`p2p_tx_download.py` (noban)''),
    (''p2p_tx_download::test_a_txid_peer_is_asked_at_once_without_a_wtxid_peer'', ''`p2p_tx_download.py` (txid)''),
    (''p2p_tx_download::test_a_txid_peer_waits_beside_a_wtxid_peer'', ''`p2p_tx_download.py` (txid beside wtxid)''),
    (''p2p_tx_download::test_a_large_inv_is_capped_without_the_relay_permission'', ''`p2p_tx_download.py` (large inv)''),
    (''p2p_tx_download::test_duplicate_inv_entries_are_processed_once'', ''`p2p_tx_download.py` (duplicate inv)''),
    (''p2p_tx_download::test_a_spurious_notfound_is_ignored'', ''`p2p_tx_download.py` (spurious notfound)''),
    (''p2p_tx_download::test_requests_in_flight_are_capped'', ''`p2p_tx_download.py` (in flight)''),
    (''p2p_tx_download::test_a_tx_reaches_a_node_past_unresponsive_peers'', ''`p2p_tx_download.py` (inv block)''),
    (''p2p_tx_download::test_every_announcing_peer_is_asked_in_turn'', ''`p2p_tx_download.py` (tx requests)''),
    (''p2p_tx_download::test_a_rejected_tx_is_asked_for_again_after_a_block'', ''`p2p_tx_download.py` (rejects)''),
    (''p2p_tx_download::test_an_inv_of_the_wrong_kind_is_ignored'', ''`p2p_tx_download.py` (mismatch)''),
    (''p2p_blocksonly::test_a_blocksonly_node_refuses_transactions'', ''`p2p_blocksonly.py` (`-blocksonly`, wire)''),
    (''p2p_blocksonly::test_a_blocksonly_node_refusal_is_logged'', ''`p2p_blocksonly.py` (`-blocksonly`, log)''),
    (''p2p_blocksonly::test_a_block_relay_only_peer_is_refused_transactions'', ''`p2p_blocksonly.py` (block-relay-only, wire)''),
    (''p2p_blocksonly::test_a_block_relay_only_peer_refusal_is_logged'', ''`p2p_blocksonly.py` (block-relay-only, log)''),
    (''p2p_orphan_handling::test_parents_arriving_during_the_delay_are_not_requested'', ''`p2p_orphan_handling.py` (arrival timing)''),
    (''p2p_orphan_handling::test_a_rejected_parent_is_requested_only_under_another_witness'', ''`p2p_orphan_handling.py` (rejected parents)''),
    (''p2p_orphan_handling::test_parents_not_recently_confirmed_are_requested'', ''`p2p_orphan_handling.py` (multiple parents)''),
    (''p2p_orphan_handling::test_parents_already_requested_are_not_requested_again'', ''`p2p_orphan_handling.py` (overlapping parents)''),
    (''p2p_orphan_handling::test_a_parent_kept_as_an_orphan_is_not_requested'', ''`p2p_orphan_handling.py` (orphan of orphan)''),
    (''p2p_orphan_handling::test_an_orphan_is_reconsidered_once_its_parent_is_mined'', ''`p2p_orphan_handling.py` (parent confirmed)''),
    (''p2p_orphan_handling::test_descendants_of_a_rejected_parent_are_rejected_too'', ''`p2p_orphan_handling.py` (inherit rejection)''),
    (''p2p_orphan_handling::test_an_orphan_of_the_same_txid_is_kept_too'', ''`p2p_orphan_handling.py` (same txid)''),
    (''p2p_orphan_handling::test_a_parent_of_the_same_txid_is_requested_again'', ''`p2p_orphan_handling.py` (same txid parent)''),
    (''p2p_orphan_handling::test_an_inv_by_an_orphan_txid_is_requested'', ''`p2p_orphan_handling.py` (txid inv)''),
    (''p2p_orphan_handling::test_an_outbound_announcer_is_asked_for_parents_first'', ''`p2p_orphan_handling.py` (prefer outbound)''),
    (''p2p_orphan_handling::test_every_announcer_is_asked_for_parents'', ''`p2p_orphan_handling.py` (announcers)''),
    (''p2p_orphan_handling::test_a_parent_gone_missing_is_requested'', ''`p2p_orphan_handling.py` (parents change)''),
    (''p2p_orphan_handling::test_a_maximal_ancestor_package_is_protected_in_the_orphanage'', ''`p2p_orphan_handling.py` (maximal package)''),
    (''p2p_compactblocks::test_sendcmpct_negotiates_compact_announcements'', ''`p2p_compactblocks.py` (sendcmpct)''),
    (''p2p_compactblocks::test_a_compact_block_is_built_as_bip152_says'', ''`p2p_compactblocks.py` (construction)''),
    (''p2p_compactblocks::test_an_announced_block_is_asked_for_compact'', ''`p2p_compactblocks.py` (requests)''),
    (''p2p_compactblocks::test_only_missing_transactions_are_asked_for'', ''`p2p_compactblocks.py` (getblocktxn requests)''),
    (''p2p_compactblocks::test_getblocktxn_is_answered_near_the_tip'', ''`p2p_compactblocks.py` (getblocktxn handler)''),
    (''p2p_compactblocks::test_a_block_off_the_tip_is_not_sent_compact'', ''`p2p_compactblocks.py` (not at tip)''),
    (''p2p_compactblocks::test_a_wrong_blocktxn_falls_back_to_the_block'', ''`p2p_compactblocks.py` (incorrect blocktxn)''),
    (''p2p_compactblocks::test_a_submitted_block_is_announced_compact'', ''`p2p_compactblocks.py` (end to end)''),
    (''p2p_compactblocks::test_a_low_work_cmpctblock_is_ignored'', ''`p2p_compactblocks.py` (low work, wire)''),
    (''p2p_compactblocks::test_a_low_work_cmpctblock_is_logged'', ''`p2p_compactblocks.py` (low work, log)''),
    (''p2p_compactblocks::test_invalid_transactions_in_a_cmpctblock_keep_the_peer'', ''`p2p_compactblocks.py` (invalid tx)''),
    (''p2p_compactblocks::test_an_empty_getblocktxn_drops_the_peer'', ''`p2p_compactblocks.py` (empty getblocktxn, wire)''),
    (''p2p_compactblocks::test_an_empty_getblocktxn_is_logged'', ''`p2p_compactblocks.py` (empty getblocktxn, log)''),
    (''p2p_compactblocks::test_a_second_blocktxn_drops_the_peer'', ''`p2p_compactblocks.py` (multiple blocktxn, wire)''),
    (''p2p_compactblocks::test_a_second_blocktxn_is_logged'', ''`p2p_compactblocks.py` (multiple blocktxn, log)'')]"

definition ROWS_5 :: "(string \<times> string) list" where
  "ROWS_5 = [
    (''p2p_compactblocks::test_an_invalid_sendcmpct_announce_drops_the_peer'', ''`p2p_compactblocks.py` (invalid sendcmpct, wire)''),
    (''p2p_compactblocks::test_an_invalid_sendcmpct_announce_is_logged'', ''`p2p_compactblocks.py` (invalid sendcmpct, log)''),
    (''p2p_compactblocks::test_an_invalid_cmpctblock_drops_the_peer'', ''`p2p_compactblocks.py` (invalid cmpctblock)''),
    (''p2p_compactblocks::test_an_invalid_optimistic_cmpctblock_drops_the_peer'', ''`p2p_compactblocks.py` (invalid cmpctblock, optimistic)''),
    (''p2p_compactblocks::test_sendcmpct_negotiates_over_an_outbound_peer'', ''`p2p_compactblocks.py` (sendcmpct, outbound)''),
    (''p2p_compactblocks::test_a_stalling_peer_leaves_the_block_to_another'', ''`p2p_compactblocks.py` (stalling peer)''),
    (''p2p_compactblocks::test_the_last_reconstruction_is_kept_for_an_outbound_peer'', ''`p2p_compactblocks.py` (parallel reconstruction)''),
    (''p2p_compactblocks::test_getpeerinfo_reports_high_bandwidth_states'', ''`p2p_compactblocks.py` (high-bandwidth states)''),
    (''p2p_compactblocks::test_unsolicited_cmpctblocks_are_ignored'', ''`p2p_compactblocks.py` (ignored)''),
    (''wallet_miniscript_decaying_multisig_descriptor_psbt'', ''`wallet_miniscript_decaying_multisig_descriptor_psbt.py`''),
    (''wallet_anchor'', ''`wallet_anchor.py`''),
    (''feature_startupnotify'', ''`feature_startupnotify.py`''),
    (''rpc_dumptxoutset'', ''`rpc_dumptxoutset.py`''),
    (''feature_loadblock'', ''`feature_loadblock.py`''),
    (''feature_port'', ''`feature_port.py`''),
    (''p2p_opportunistic_1p1c::test_a_rejected_parent_is_taken_in_with_its_child'', ''`p2p_opportunistic_1p1c.py` (parent first)''),
    (''p2p_opportunistic_1p1c::test_a_rejected_parent_with_no_witness_is_taken_in_with_its_child'', ''`p2p_opportunistic_1p1c.py` (parent first, P2PK)''),
    (''p2p_opportunistic_1p1c::test_an_orphan_is_taken_in_with_its_low_fee_parent'', ''`p2p_opportunistic_1p1c.py` (child first)''),
    (''p2p_opportunistic_1p1c::test_a_rejected_parent_is_taken_in_only_with_a_child_paying_enough'', ''`p2p_opportunistic_1p1c.py` (low, high child)''),
    (''p2p_opportunistic_1p1c::test_a_rejected_parent_with_no_witness_is_taken_in_only_with_a_child_paying_enough'', ''`p2p_opportunistic_1p1c.py` (low, high, P2PK)''),
    (''p2p_opportunistic_1p1c::test_parent_and_child_are_evaluated_together_only_from_one_peer'', ''`p2p_opportunistic_1p1c.py` (orphan invalid)''),
    (''p2p_opportunistic_1p1c::test_an_invalid_parent_from_another_peer_leaves_the_orphan'', ''`p2p_opportunistic_1p1c.py` (parent invalid)''),
    (''p2p_opportunistic_1p1c::test_no_rejected_parent_of_a_two_parent_orphan_is_requested'', ''`p2p_opportunistic_1p1c.py` (multiple parents)''),
    (''p2p_opportunistic_1p1c::test_an_orphan_is_taken_in_with_one_parent_beside_another_in_the_mempool'', ''`p2p_opportunistic_1p1c.py` (parent in mempool)''),
    (''p2p_opportunistic_1p1c::test_a_package_is_taken_in_on_top_of_another'', ''`p2p_opportunistic_1p1c.py` (1p1c on 1p1c)''),
    (''p2p_opportunistic_1p1c::test_an_orphan_outlives_large_orphans_from_other_peers'', ''`p2p_opportunistic_1p1c.py` (DoS, large orphans)''),
    (''p2p_opportunistic_1p1c::test_an_orphan_outlives_many_orphans_from_other_peers'', ''`p2p_opportunistic_1p1c.py` (DoS, many orphans)''),
    (''p2p_block_times'', ''`p2p_block_times.py`''),
    (''p2p_outbound_eviction::test_lagging_unprotected_peers_are_evicted'', ''`p2p_outbound_eviction.py` (unprotected)''),
    (''p2p_outbound_eviction::test_protected_peer_is_not_evicted'', ''`p2p_outbound_eviction.py` (protected)''),
    (''p2p_outbound_eviction::test_only_misbehaving_unprotected_peers_are_evicted'', ''`p2p_outbound_eviction.py` (mixed)''),
    (''p2p_outbound_eviction::test_block_relay_only_peer_is_not_protected'', ''`p2p_outbound_eviction.py` (block-relay-only)''),
    (''p2p_tx_privacy'', ''`p2p_tx_privacy.py`''),
    (''p2p_invalid_block::test_invalid_blocks_are_refused'', ''`p2p_invalid_block.py` (wire)''),
    (''p2p_invalid_block::test_invalid_blocks_are_logged'', ''`p2p_invalid_block.py` (log)''),
    (''feature_maxtipage'', ''`feature_maxtipage.py`''),
    (''p2p_blockfilters'', ''`p2p_blockfilters.py`''),
    (''p2p_getaddr_caching'', ''`p2p_getaddr_caching.py`''),
    (''mempool_reorg::test_reorgs_evict_immature_and_non_final_spends'', ''`mempool_reorg.py` (coinbase)''),
    (''mempool_reorg::test_disconnected_transactions_are_available_for_relay'', ''`mempool_reorg.py` (relay)''),
    (''interface_rpc::test_getrpcinfo_names_the_call_running_and_the_log'', ''`interface_rpc.py` (getrpcinfo)''),
    (''interface_rpc::test_a_batch_is_answered_member_by_member'', ''`interface_rpc.py` (batch)''),
    (''interface_rpc::test_each_version_is_answered_with_its_own_status'', ''`interface_rpc.py` (status codes)''),
    (''interface_rpc::test_a_notification_runs_and_is_answered_with_no_content'', ''`interface_rpc.py` (notifications)''),
    (''interface_rpc::test_a_full_work_queue_refuses_the_request_beyond_it'', ''`interface_rpc.py` (work queue)''),
    (''p2p_ibd_txrelay::test_ibd_tx_relay_is_withheld'', ''`p2p_ibd_txrelay.py` (wire)''),
    (''p2p_ibd_txrelay::test_ibd_tx_relay_is_logged'', ''`p2p_ibd_txrelay.py` (log)''),
    (''feature_bip68_sequence'', ''`feature_bip68_sequence.py`''),
    (''mempool_accept'', ''`mempool_accept.py`''),
    (''mempool_cluster'', ''`mempool_cluster.py`''),
    (''feature_minchainwork'', ''`feature_minchainwork.py`''),
    (''feature_minchainwork::test_outbound_peers_with_too_little_work_are_dropped_in_ibd'', ''`feature_minchainwork.py` (outbound)''),
    (''mempool_packages'', ''`mempool_packages.py`''),
    (''feature_versionbits_warning'', ''`feature_versionbits_warning.py`''),
    (''mempool_package_rbf'', ''`mempool_package_rbf.py`''),
    (''p2p_headers_sync_with_minchainwork'', ''`p2p_headers_sync_with_minchainwork.py`''),
    (''p2p_unrequested_blocks'', ''`p2p_unrequested_blocks.py`''),
    (''p2p_1p1c_network'', ''`p2p_1p1c_network.py`''),
    (''mempool_ephemeral_dust'', ''`mempool_ephemeral_dust.py`''),
    (''mempool_ephemeral_dust::test_any_single_dust_output_is_allowed_alone'', ''`mempool_ephemeral_dust.py` (nonzero dust)''),
    (''mempool_ephemeral_dust::test_a_reorg_returns_dust_to_the_mempool_unchecked'', ''`mempool_ephemeral_dust.py` (reorg)''),
    (''feature_notifications::test_every_new_tip_is_notified'', ''`feature_notifications.py` (`-blocknotify`)''),
    (''feature_notifications::test_a_large_work_invalid_chain_is_alerted'', ''`feature_notifications.py` (`-alertnotify`)''),
    (''feature_notifications::test_the_shutdown_is_notified'', ''`feature_notifications.py` (`-shutdownnotify`)''),
    (''feature_settings'', ''`feature_settings.py`'')]"

definition ROWS_6 :: "(string \<times> string) list" where
  "ROWS_6 = [
    (''rpc_getchaintips'', ''`rpc_getchaintips.py`''),
    (''rpc_preciousblock'', ''`rpc_preciousblock.py`''),
    (''rpc_invalidateblock'', ''`rpc_invalidateblock.py`''),
    (''rpc_signmessagewithprivkey'', ''`rpc_signmessagewithprivkey.py`''),
    (''feature_chain_tiebreaks'', ''`feature_chain_tiebreaks.py`''),
    (''p2p_sendheaders'', ''`p2p_sendheaders.py`''),
    (''p2p_fingerprint'', ''`p2p_fingerprint.py`''),
    (''rpc_estimatefee'', ''`rpc_estimatefee.py`''),
    (''feature_assumevalid'', ''`feature_assumevalid.py`''),
    (''feature_rbf'', ''`feature_rbf.py`''),
    (''p2p_permissions'', ''`p2p_permissions.py`''),
    (''p2p_private_broadcast_cap'', ''`p2p_private_broadcast_cap.py`''),
    (''p2p_private_broadcast_retry_v1'', ''`p2p_private_broadcast_retry_v1.py`''),
    (''rpc_net::test_a_node_is_added_listed_and_removed'', ''`rpc_net.py` (`addnode`)''),
    (''rpc_net::test_a_peer_s_service_flags_are_named'', ''`rpc_net.py` (service flags)''),
    (''rpc_net::test_getnodeaddresses_answers_from_the_address_table'', ''`rpc_net.py` (`getnodeaddresses`)''),
    (''rpc_net::test_addpeeraddress_fills_the_address_tables'', ''`rpc_net.py` (`addpeeraddress`)''),
    (''rpc_net::test_getaddrmaninfo_counts_the_addresses_of_each_network'', ''`rpc_net.py` (`getaddrmaninfo`)''),
    (''rpc_net::test_getrawaddrman_lists_the_address_tables'', ''`rpc_net.py` (`getrawaddrman`)''),
    (''feature_config_args::test_a_proxy_without_a_value_is_refused'', ''`feature_config_args.py` (`-proxy`)''),
    (''feature_config_args::test_a_connect_node_ignores_the_seednode_and_the_dnsseed_beside_a_proxy'', ''`feature_config_args.py` (`-connect`)''),
    (''feature_config_args::test_private_broadcast_is_refused_without_a_proxy_and_warns_without_randomizing'', ''`feature_config_args.py` (`-privatebroadcast`)''),
    (''p2p_nobloomfilter_messages::test_filtered_block_request_disconnects_the_peer'', ''`p2p_nobloomfilter_messages.py` (filtered block, wire)''),
    (''p2p_nobloomfilter_messages::test_filtered_block_request_is_logged'', ''`p2p_nobloomfilter_messages.py` (filtered block, log)''),
    (''interface_http::test_excessive_request_size_is_refused'', ''`interface_http.py` (excessive request size, wire)''),
    (''interface_http::test_excessive_request_size_is_logged'', ''`interface_http.py` (excessive request size, log)''),
    (''feature_block::test_blocks_are_judged'', ''`feature_block.py` (wire)''),
    (''feature_block::test_blocks_are_judged_and_logged'', ''`feature_block.py` (log)'')]"

text \<open>\<open>_ROWS.get(key)\<close>: no key is there twice with two rows, so the first entry is the last.\<close>

definition ROWS :: "(string \<times> string) list" where
  "ROWS = ROWS_1 @ ROWS_2 @ ROWS_3 @ ROWS_4 @ ROWS_5 @ ROWS_6"

definition rows_get :: "string \<Rightarrow> string option" where
  "rows_get = map_of ROWS"

subsection \<open>Whose row a row is\<close>

text \<open>The module of a key, and the file a row names.\<close>

definition key_stem :: "string \<Rightarrow> string" where
  "key_stem = takeWhile (\<lambda>c. c \<noteq> CHR '':'')"

definition file_of_row :: "string \<Rightarrow> string" where
  "file_of_row row = takeWhile (\<lambda>c. c \<noteq> CHR ''.'') (tl row)"

text \<open>
  The rows of all modules but the three that split p2p_invalid_messages.py name the module's own file.
\<close>

fun own_file :: "string \<times> string \<Rightarrow> bool" where
  "own_file (key, row) = (key_stem key = file_of_row row \<and> file_of_row row \<noteq> ''p2p_invalid_messages'')"

definition split_rows :: "(string \<times> string) list" where
  "split_rows = [
    (''p2p_invalid_messages::test_wrong_magic_bytes_disconnects_the_peer'', ''`p2p_invalid_messages.py` (wire)''),
    (''p2p_invalid_messages::test_wrong_magic_bytes_is_logged'', ''`p2p_invalid_messages.py` (log)''),
    (''p2p_invalid_messages::test_oversized_message_disconnects_the_peer'', ''`p2p_invalid_messages.py` (size, wire)''),
    (''p2p_invalid_messages::test_oversized_message_is_logged'', ''`p2p_invalid_messages.py` (size, log)''),
    (''p2p_invalid_messages_misbehaving::test_oversized_inv_disconnects_the_peer'', ''`p2p_invalid_messages.py` (inv, wire)''),
    (''p2p_invalid_messages_misbehaving::test_oversized_inv_is_logged'', ''`p2p_invalid_messages.py` (inv, log)''),
    (''p2p_invalid_messages_misbehaving::test_oversized_getdata_disconnects_the_peer'', ''`p2p_invalid_messages.py` (getdata, wire)''),
    (''p2p_invalid_messages_misbehaving::test_oversized_getdata_is_logged'', ''`p2p_invalid_messages.py` (getdata, log)''),
    (''p2p_invalid_messages_misbehaving::test_oversized_headers_disconnects_the_peer'', ''`p2p_invalid_messages.py` (headers, wire)''),
    (''p2p_invalid_messages_misbehaving::test_oversized_headers_is_logged'', ''`p2p_invalid_messages.py` (headers, log)''),
    (''p2p_invalid_messages_misbehaving::test_invalid_pow_header_disconnects_the_peer'', ''`p2p_invalid_messages.py` (invalid pow, wire)''),
    (''p2p_invalid_messages_misbehaving::test_invalid_pow_header_is_logged'', ''`p2p_invalid_messages.py` (invalid pow, log)''),
    (''p2p_invalid_messages_misbehaving::test_noncontinuous_headers_disconnects_the_peer'', ''`p2p_invalid_messages.py` (noncontinuous, wire)''),
    (''p2p_invalid_messages_misbehaving::test_noncontinuous_headers_is_logged'', ''`p2p_invalid_messages.py` (noncontinuous, log)''),
    (''p2p_invalid_messages_dropped::test_duplicate_version_keeps_the_connection'', ''`p2p_invalid_messages.py` (dup version, wire)''),
    (''p2p_invalid_messages_dropped::test_duplicate_version_is_logged'', ''`p2p_invalid_messages.py` (dup version, log)''),
    (''p2p_invalid_messages_dropped::test_wrong_checksum_keeps_the_connection'', ''`p2p_invalid_messages.py` (checksum, wire)''),
    (''p2p_invalid_messages_dropped::test_wrong_checksum_is_logged'', ''`p2p_invalid_messages.py` (checksum, log)''),
    (''p2p_invalid_messages_dropped::test_invalid_msgtype_keeps_the_connection'', ''`p2p_invalid_messages.py` (msgtype, wire)''),
    (''p2p_invalid_messages_dropped::test_invalid_msgtype_is_logged'', ''`p2p_invalid_messages.py` (msgtype, log)''),
    (''p2p_invalid_messages_addrv2::test_addrv2_empty_keeps_the_connection'', ''`p2p_invalid_messages.py` (addrv2 empty, wire)''),
    (''p2p_invalid_messages_addrv2::test_addrv2_empty_is_logged'', ''`p2p_invalid_messages.py` (addrv2 empty, log)''),
    (''p2p_invalid_messages_addrv2::test_addrv2_no_addresses_keeps_the_connection'', ''`p2p_invalid_messages.py` (addrv2 no addr, wire)''),
    (''p2p_invalid_messages_addrv2::test_addrv2_no_addresses_is_logged'', ''`p2p_invalid_messages.py` (addrv2 no addr, log)''),
    (''p2p_invalid_messages_addrv2::test_addrv2_too_long_address_keeps_the_connection'', ''`p2p_invalid_messages.py` (addrv2 long, wire)''),
    (''p2p_invalid_messages_addrv2::test_addrv2_too_long_address_is_logged'', ''`p2p_invalid_messages.py` (addrv2 long, log)''),
    (''p2p_invalid_messages_addrv2::test_addrv2_unrecognized_network_keeps_the_connection'', ''`p2p_invalid_messages.py` (addrv2 net id, wire)''),
    (''p2p_invalid_messages_addrv2::test_addrv2_unrecognized_network_is_logged'', ''`p2p_invalid_messages.py` (addrv2 net id, log)'')]"

lemma own_files:
  "filter (\<lambda>kv. \<not> own_file kv) ROWS_1 = split_rows"
  "filter (\<lambda>kv. \<not> own_file kv) ROWS_2 = []"
  "filter (\<lambda>kv. \<not> own_file kv) ROWS_3 = []"
  "filter (\<lambda>kv. \<not> own_file kv) ROWS_4 = []"
  "filter (\<lambda>kv. \<not> own_file kv) ROWS_5 = []"
  "filter (\<lambda>kv. \<not> own_file kv) ROWS_6 = []"
  by code_simp+

lemma split_rows_apart: "distinct (map snd split_rows)"
  by (simp add: split_rows_def)

lemma split_rows_file: "list_all (\<lambda>kv. file_of_row (snd kv) = ''p2p_invalid_messages'') split_rows"
  by code_simp

lemma row_has_one_stem:
  assumes "(k, row) \<in> set ROWS" and "(l, row) \<in> set ROWS"
  shows "key_stem k = key_stem l"
proof -
  have "filter (\<lambda>kv. \<not> own_file kv) ROWS = split_rows" by (simp add: ROWS_def own_files)
  then have split: "kv \<in> set ROWS \<Longrightarrow> \<not> own_file kv \<Longrightarrow> kv \<in> set split_rows" for kv by (metis (mono_tags, lifting) mem_Collect_eq set_filter)
  show ?thesis
  proof (cases "file_of_row row = ''p2p_invalid_messages''")
    case True
    then have "(k, row) \<in> set split_rows" "(l, row) \<in> set split_rows" using assms split by auto
    then have "k = l" using split_rows_apart unfolding distinct_map by (metis Pair_inject inj_onD snd_conv)
    then show ?thesis by simp
  next
    case False
    then have "(k, row) \<notin> set split_rows" "(l, row) \<notin> set split_rows" using split_rows_file by (auto simp: list_all_iff)
    then have "own_file (k, row)" "own_file (l, row)" using assms split by blast+
    then show ?thesis by simp
  qed
qed

lemma rows_get_stem:
  assumes "row_of rows_get stem function = Some row" and "CHR '':'' \<notin> set stem"
  shows "\<exists>k. (k, row) \<in> set ROWS \<and> key_stem k = stem"
proof -
  have "key_stem stem = stem" "key_stem (stem @ ''::'' @ function) = stem"
    using assms(2) by (auto simp: key_stem_def takeWhile_eq_all_conv takeWhile_append)
  then show ?thesis using assms(1)
    by (auto simp: row_of_def rows_get_def dest: map_of_SomeD split: option.splits)
qed

subsection \<open>The testcases of the suite\<close>

text \<open>What pytest calls a test module of this repository.\<close>

definition port_module :: "string \<Rightarrow> string" where
  "port_module stem = ''tests.integration.'' @ stem @ ''_btclib_node_test''"

lemma split_once_at:
  assumes "CHR '':'' \<notin> set c"
  shows "split_once ''::'' (c @ ''::'' @ n) = (c, Some n)"
proof -
  have "py_find ''::'' (c @ ''::'' @ n) = Some (length c)" using assms
    by (induction c) (auto simp: py_startswith_Cons)
  then show ?thesis by (simp add: split_once_def)
qed

lemma locate_port:
  assumes "CHR ''.'' \<notin> set stem" and "CHR '':'' \<notin> set stem"
  shows "locate (port_module stem @ ''::'' @ name) = Inr (stem, before_char CHR ''['' name)"
    and "test_name (port_module stem @ ''::'' @ name) = name"
proof -
  have once: "split_once ''::'' (port_module stem @ ''::'' @ name) = (port_module stem, Some name)"
    using assms(2) by (intro split_once_at) (auto simp: port_module_def)
  then show "test_name (port_module stem @ ''::'' @ name) = name" by (simp add: test_name_def)
  let ?m = "stem @ ''_btclib_node_test''"
  have "py_split ''.'' (port_module stem) = [''tests'', ''integration'', ?m]"
    using py_split_append [of "''.''" "CHR ''.''" "[]" "''tests''" "''integration.'' @ ?m"]
      py_split_append [of "''.''" "CHR ''.''" "[]" "''integration''" ?m] py_split_single [of "''.''" "CHR ''.''" "[]" ?m] assms(1)
    by (simp add: port_module_def)
  then show "locate (port_module stem @ ''::'' @ name) = Inr (stem, before_char CHR ''['' name)"
    using once by (simp add: locate_def removesuffix_append)
qed

text \<open>Every testcase of the report is of a test module, whatever its function and parameters.\<close>

definition from_suite :: "testcase \<Rightarrow> bool" where
  "from_suite tc \<longleftrightarrow> (\<exists>stem. tc_classname tc = Some (port_module stem) \<and> CHR ''.'' \<notin> set stem \<and> CHR '':'' \<notin> set stem)"

lemma suite_names_apart:
  assumes "list_all from_suite report"
  shows "names_apart rows_get (case_key ` set report)"
proof -
  have key: "\<exists>stem name. case_key tc = port_module stem @ ''::'' @ name \<and> CHR ''.'' \<notin> set stem \<and> CHR '':'' \<notin> set stem"
    if "tc \<in> set report" for tc
    using assms that by (fastforce simp: list_all_iff from_suite_def case_key_def Let_def)
  show ?thesis unfolding names_apart_def
  proof (intro ballI impI)
    fix k l
    assume "k \<in> case_key ` set report" "l \<in> case_key ` set report" and some: "row_key rows_get k \<noteq> None"
      and row: "row_key rows_get k = row_key rows_get l" and name: "test_name k = test_name l"
    then obtain s m t n where k: "k = port_module s @ ''::'' @ m" "CHR ''.'' \<notin> set s" "CHR '':'' \<notin> set s"
      and l: "l = port_module t @ ''::'' @ n" "CHR ''.'' \<notin> set t" "CHR '':'' \<notin> set t" using key by blast
    obtain r where r: "row_of rows_get s (before_char CHR ''['' m) = Some r" "row_of rows_get t (before_char CHR ''['' n) = Some r"
      using some row locate_port(1) [OF k(2,3)] locate_port(1) [OF l(2,3)] by (auto simp: row_key_def k(1) l(1))
    from rows_get_stem [OF r(1) k(3)] rows_get_stem [OF r(2) l(3)] have "s = t" using row_has_one_stem by blast
    moreover have "m = n" using name locate_port(2) [OF k(2,3)] locate_port(2) [OF l(2,3)] by (simp add: k(1) l(1))
    ultimately show "k = l" by (simp add: k(1) l(1))
  qed
qed

text \<open>
  C10: a green verdict means the whole column holds. Of a report of the suite's own modules the
  script, with its table of rows, exits 0 exactly where every testcase is a row's, or a harness module's
  that did not fail, and the ledger reads, every cell reads, and for every row with a verdict for the
  build the report holds a testcase and the worst outcome of all the row's testcases, a teardown timeout
  aside, is the one the cell gives that build. No two testcases of a row are taken for one: the table
  never gives one row to two modules.
\<close>

theorem table_verdict_agrees:
  assumes "list_all from_suite report"
  shows "(\<exists>out. verdict_main rows_get ledger report build = Inr (out, 0)) \<longleftrightarrow>
    (\<forall>tc \<in> set report. row_key rows_get (case_key tc) \<noteq> None
       \<or> (\<exists>s f. locate (case_key tc) = Inr (s, f) \<and> s \<in> NO_ROW)
         \<and> outcome_of (statuses_of report (case_key tc)) \<noteq> Fail)
    \<and> (\<exists>cells. ledger_cells ledger = Inr cells \<and> (\<forall>(row, cell) \<in> set cells. \<exists>e. expected cell build = Inr e
       \<and> (\<forall>v. e = Some v \<longrightarrow> row_statuses rows_get report row \<noteq> []
            \<and> outcome_of (row_statuses rows_get report row) = ev_outcome v)))"
  by (rule verdict_main_agrees [OF suite_names_apart [OF assms]])

text \<open>
  One testcase of rpc_whitelist.py, the one its own row is given by the function, its teardown timeout
  left aside. The table is searched a sixth at a time.
\<close>

fun rows_or :: "string option \<Rightarrow> string \<Rightarrow> string option" where
  "rows_or (Some row) key = Some row"
| "rows_or None key = map_of (ROWS_2 @ ROWS_3 @ ROWS_4 @ ROWS_5 @ ROWS_6) key"

lemma rows_get_code [code]: "rows_get key = rows_or (map_of ROWS_1 key) key"
  by (cases "map_of ROWS_1 key") (simp_all add: rows_get_def ROWS_def map_add_def)

definition whitelist_case :: testcase where
  "whitelist_case = \<lparr>tc_classname = Some ''tests.integration.rpc_whitelist_btclib_node_test'',
     tc_name = Some ''test_a_rejected_method_is_logged_as_named'', tc_failure = False, tc_skipped = False,
     tc_errors = [Some ''failed on teardown with \"TimeoutError: node process ignored terminate for 60s\"'']\<rparr>"

definition whitelist_row :: string where
  "whitelist_row = ''`rpc_whitelist.py` (rejected method, log)''"

definition whitelist_ledger :: string where
  "whitelist_ledger = ''## The per-test ledger'' @ [CHR 0x0A] @ ''| '' @ whitelist_row @ '' | same | x | pass | pass |'' @ [CHR 0x0A]"

lemma table_verdict_agrees_witness:
  "(\<exists>out. verdict_main rows_get whitelist_ledger [whitelist_case] Release = Inr (out, 0))
     \<and> outcome_of (row_statuses rows_get [whitelist_case] whitelist_row) = Pass"
proof -
  have "list_all from_suite [whitelist_case]"
    by (auto simp: from_suite_def whitelist_case_def port_module_def intro!: exI [of _ "''rpc_whitelist''"])
  note iff = table_verdict_agrees [OF this, of whitelist_ledger Release]
  have "(case verdict_main rows_get whitelist_ledger [whitelist_case] Release of Inr (out, status) \<Rightarrow> status = 0 | _ \<Rightarrow> False)"
    by code_simp
  then have exit: "\<exists>out. verdict_main rows_get whitelist_ledger [whitelist_case] Release = Inr (out, 0)"
    by (auto split: sum.splits prod.splits)
  have cells: "ledger_cells whitelist_ledger = Inr [(whitelist_row, ''pass'')]"
    "expected ''pass'' Release = Inr (Some \<lparr>ev_text = ''pass'', ev_outcome = Pass\<rparr>)" by code_simp+
  from exit [unfolded iff] obtain e where "expected ''pass'' Release = Inr e"
    "\<forall>v. e = Some v \<longrightarrow> outcome_of (row_statuses rows_get [whitelist_case] whitelist_row) = ev_outcome v"
    unfolding cells(1) by fastforce
  moreover from this(1) have "e = Some \<lparr>ev_text = ''pass'', ev_outcome = Pass\<rparr>" using cells(2) by (metis sum.inject(2))
  ultimately show ?thesis using exit by simp
qed

end
