(* ===== verification/Startup_Report.thy ===== *)
theory Startup_Report
  imports Lifecycle Skip_Tally
begin

section \<open>What a failed start says\<close>

text \<open>
  The messages of \<open>_wait_for_rpc\<close>, which Lifecycle leaves out: the failures it waited out are counted as
  it goes, and what the node wrote, to its stderr and since this start to its log, is read where it
  raises (\<open>_read_output\<close>, \<open>_size\<close>, \<open>_log_since\<close>); and \<open>traced_transport\<close>, which prints what it carries.
  The counts and the message are a component of the state of their own, so that the loop of Lifecycle
  is this one with that component forgotten. A \<open>spelling\<close> says how Python spells an exception and a
  number of seconds, and what a file holds; malformed UTF-8, which the code replaces, is left as it is.
\<close>

subsection \<open>What a node wrote\<close>

record 'x spelling =
  sp_class :: "py_error \<Rightarrow> string"
  sp_str :: "py_error \<Rightarrow> string"
  sp_repr :: "py_error \<Rightarrow> string"
  sp_seconds :: "rat \<Rightarrow> string"
  sp_content :: "string \<Rightarrow> 'x host \<Rightarrow> string option"

definition read_output :: "'x spelling \<Rightarrow> string \<Rightarrow> nat \<Rightarrow> 'x host \<Rightarrow> string" where
  "read_output sp path offset h =
     (case sp_content sp path h of None \<Rightarrow> [] | Some content \<Rightarrow> py_strip (drop offset content))"

definition size_of_file :: "'x spelling \<Rightarrow> string \<Rightarrow> 'x host \<Rightarrow> nat" where
  "size_of_file sp path h = (case sp_content sp path h of None \<Rightarrow> 0 | Some content \<Rightarrow> length content)"

definition log_since :: "'x spelling \<Rightarrow> string option \<Rightarrow> nat \<Rightarrow> 'x host \<Rightarrow> string" where
  "log_since sp log_path log_offset h =
     (case log_path of None \<Rightarrow> []
      | Some path \<Rightarrow> [CHR 0x0A] @ ''-- '' @ path @ '' since this start:'' @ [CHR 0x0A] @ read_output sp path log_offset h)"

subsection \<open>The wait, with its messages\<close>

record startup_heard =
  hd_ignored :: "(string \<times> nat) list"
  hd_last :: "py_error option"
  hd_message :: string

definition nothing_heard :: startup_heard where
  "nothing_heard = \<lparr>hd_ignored = [], hd_last = None, hd_message = []\<rparr>"

record startup_asked =
  as_node :: nat
  as_process :: nat
  as_stderr :: string
  as_log :: "string option"
  as_offset :: nat
  as_log_on_exit :: bool

type_synonym 'x telling = "('x host \<times> startup_heard) timed"

definition forget_heard :: "'x telling \<Rightarrow> 'x host timed" where
  "forget_heard s = \<lparr>clock = clock s, world = fst (world s)\<rparr>"

definition all_ears :: "'x host timed \<Rightarrow> 'x telling" where
  "all_ears s = \<lparr>clock = clock s, world = (world s, nothing_heard)\<rparr>"

definition beside :: "('x host timed, 'a) act \<Rightarrow> ('x telling, 'a) act" where
  "beside m s = (case m (forget_heard s) of (r, t) \<Rightarrow> (r, \<lparr>clock = clock t, world = (world t, snd (world s))\<rparr>))"

definition hear :: "('x host \<Rightarrow> startup_heard \<Rightarrow> startup_heard) \<Rightarrow> ('x telling, unit) act" where
  "hear f s = (Inr (), s\<lparr>world := (fst (world s), f (fst (world s)) (snd (world s)))\<rparr>)"

definition telling_outside :: "'x fate \<Rightarrow> ('x host \<times> startup_heard) outside" where
  "telling_outside orc =
     \<lparr>o_sleep = (\<lambda>d (h, x). case o_sleep (host_outside orc) d h of (late, h') \<Rightarrow> (late, (h', x))),
      o_rpc = (\<lambda>node method params (h, x). case o_rpc (host_outside orc) node method params h of (r, d, h') \<Rightarrow> (r, d, (h', x)))\<rparr>"

text \<open>\<open>raise RuntimeError(err_msg)\<close>: the class and its opening words, the whole message beside them.\<close>

definition raise_telling :: "py_error \<Rightarrow> ('x host \<Rightarrow> startup_heard \<Rightarrow> string) \<Rightarrow> ('x telling, 'a) act" where
  "raise_telling e message = bind_a (hear (\<lambda>h x. x\<lparr>hd_message := message h x\<rparr>)) (\<lambda>_. raise e)"

text \<open>\<open>ignored[type(last_error).__name__] += 1\<close>, a \<open>Counter\<close> in the order its names were first counted.\<close>

definition count_up :: "string \<Rightarrow> (string \<times> nat) list \<Rightarrow> (string \<times> nat) list" where
  "count_up name kvs = AList.update name (case map_of kvs name of None \<Rightarrow> 1 | Some n \<Rightarrow> Suc n) kvs"

definition wait_on :: "'x spelling \<Rightarrow> py_error \<Rightarrow> ('x telling, unit option) act" where
  "wait_on sp e = bind_a (hear (\<lambda>_ x. x\<lparr>hd_ignored := count_up (sp_class sp e) (hd_ignored x), hd_last := Some e\<rparr>)) (\<lambda>_. ret None)"

definition rpc_failed :: "'x spelling \<Rightarrow> py_error \<Rightarrow> ('x telling, unit option) act" where
  "rpc_failed sp e =
     (case e of
        RpcError code \<Rightarrow>
          if code \<noteq> IN_WARMUP
          then raise_telling (RuntimeError ''node answered its RPC with an error'')
                 (\<lambda>_ _. ''node answered its RPC with an error: '' @ sp_str sp e)
          else wait_on sp e
      | HttpError status \<Rightarrow>
          if status \<in> {401, 403}
          then raise_telling (RuntimeError ''node refused its RPC'') (\<lambda>_ _. ''node refused its RPC: '' @ sp_str sp e)
          else wait_on sp e
      | KeyboardInterrupt \<Rightarrow> raise e
      | _ \<Rightarrow> wait_on sp e)"

definition exit_message :: "'x spelling \<Rightarrow> startup_asked \<Rightarrow> int \<Rightarrow> 'x host \<Rightarrow> string" where
  "exit_message sp a exit_code h =
     ''node process exited with '' @ py_str_int exit_code @ '' before its RPC answered -- stderr: ''
     @ read_output sp (as_stderr a) 0 h @ (if as_log_on_exit a then log_since sp (as_log a) (as_offset a) h else [])"

definition told_body :: "'x spelling \<Rightarrow> 'x fate \<Rightarrow> startup_asked \<Rightarrow> ('x telling, unit option) act" where
  "told_body sp orc a =
     bind_a (beside (outside_call (proc_poll orc (as_process a))))
       (\<lambda>exit_code. case exit_code of
           Some c \<Rightarrow> raise_telling (RuntimeError ''node process exited before its RPC answered'') (\<lambda>h _. exit_message sp a c h)
         | None \<Rightarrow> try_a
             (bind_a (beside (rpc_call (host_outside orc) (as_node a) ''getblockchaininfo'' [])) (\<lambda>_. ret (Some ())))
             (rpc_failed sp))"

definition spell_counts :: "(string \<times> nat) list \<Rightarrow> string" where
  "spell_counts kvs = ''{'' @ py_join '', '' (map (\<lambda>(name, n). CHR 0x27 # name @ CHR 0x27 # '': '' @ dec n) kvs) @ ''}''"

definition timeout_message :: "'x spelling \<Rightarrow> startup_asked \<Rightarrow> rat \<Rightarrow> 'x host \<Rightarrow> startup_heard \<Rightarrow> string" where
  "timeout_message sp a timeout h x =
     ''node did not answer its RPC within '' @ sp_seconds sp timeout @ '' s (ignored errors: '' @ spell_counts (hd_ignored x)
     @ (case hd_last x of None \<Rightarrow> [] | Some e \<Rightarrow> '', latest: '' @ sp_repr sp e)
     @ '') -- stderr: '' @ read_output sp (as_stderr a) 0 h @ log_since sp (as_log a) (as_offset a) h"

definition wait_for_rpc_told :: "'x spelling \<Rightarrow> 'x fate \<Rightarrow> startup_asked \<Rightarrow> rat \<Rightarrow> ('x telling, unit) loop" where
  "wait_for_rpc_told sp orc a timeout s =
     bind_l (poll (telling_outside orc) (told_body sp orc a) (clock s + timeout))
       (\<lambda>r. once (case r of
           Some x \<Rightarrow> ret x
         | None \<Rightarrow> raise_telling (TimeoutError ''within the wait'') (timeout_message sp a timeout))) s"

subsection \<open>The trace of a transport\<close>

text \<open>A transport answers a status and a body, or raises; what is printed is a list of lines.\<close>

record http_request =
  rq_url :: string
  rq_data :: string

type_synonym 'w transport = "http_request \<Rightarrow> rat \<Rightarrow> 'w \<Rightarrow> (int \<times> string) result \<times> 'w"

definition printing :: "string \<Rightarrow> (string list \<times> 'w, unit) act" where
  "printing line s = (Inr (), (fst s @ [line], snd s))"

definition traced_transport :: "(string \<Rightarrow> string) \<Rightarrow> 'w transport \<Rightarrow> (string list \<times> 'w) transport" where
  "traced_transport repr transport request timeout =
     bind_a (printing (''--> '' @ rq_url request @ '' '' @ repr (rq_data request)))
       (\<lambda>_. bind_a (\<lambda>s. case transport request timeout (snd s) of (r, w) \<Rightarrow> (r, (fst s, w)))
         (\<lambda>(status, body). bind_a (printing (''<-- '' @ py_str_int status @ '' '' @ repr body)) (\<lambda>_. ret (status, body))))"

definition untraced :: "'w transport \<Rightarrow> (string list \<times> 'w) transport" where
  "untraced transport request timeout s = (case transport request timeout (snd s) of (r, w) \<Rightarrow> (r, (fst s, w)))"

definition rpc_transport :: "(string \<Rightarrow> string) \<Rightarrow> bool \<Rightarrow> 'w transport \<Rightarrow> (string list \<times> 'w) transport" where
  "rpc_transport repr trace_rpc sessions = (if trace_rpc then traced_transport repr sessions else untraced sessions)"

text \<open>A trace changes nothing of what it carries, and prints one line for the request and one for an answer.\<close>

lemma traced_transport_carries:
  "traced_transport repr transport request timeout (printed, w) =
    (case transport request timeout w of
       (Inl e, w') \<Rightarrow> (Inl e, (printed @ [''--> '' @ rq_url request @ '' '' @ repr (rq_data request)], w'))
     | (Inr (status, body), w') \<Rightarrow>
         (Inr (status, body), (printed @ [''--> '' @ rq_url request @ '' '' @ repr (rq_data request),
            ''<-- '' @ py_str_int status @ '' '' @ repr body], w')))"
  by (simp add: traced_transport_def printing_def bind_a_def split: prod.splits sum.splits)

subsection \<open>Forgetting what was heard\<close>

lemma forget_clock [simp]: "clock (forget_heard s) = clock s"
  by (simp add: forget_heard_def)

lemma forget_sleep: "forget_heard (sleep (telling_outside orc) d s) = sleep (host_outside orc) d (forget_heard s)"
  by (simp add: sleep_def telling_outside_def forget_heard_def split: prod.splits)

lemma beside_forget: "beside m s = (r, t) \<Longrightarrow> m (forget_heard s) = (r, forget_heard t)"
  by (auto simp: beside_def forget_heard_def split: prod.splits)

lemma beside_heard: "beside m s = (r, t) \<Longrightarrow> snd (world t) = snd (world s)"
  by (auto simp: beside_def split: prod.splits)

lemma hear_simps:
  "bind_a (hear f) g s = g () (s\<lparr>world := (fst (world s), f (fst (world s)) (snd (world s)))\<rparr>)"
  "forget_heard (s\<lparr>world := (fst (world s), x)\<rparr>) = forget_heard s"
  by (simp_all add: bind_a_def hear_def forget_heard_def)

lemma rpc_failed_forget:
  "rpc_failed sp e s = (r, t) \<Longrightarrow> r = rpc_failure e \<and> forget_heard t = forget_heard s"
  by (cases e) (auto simp: rpc_failed_def rpc_failure_def raise_telling_def wait_on_def hear_simps split: if_splits)

lemma told_body_forget:
  assumes "told_body sp orc a s = (r, t)"
  shows "rpc_body orc (as_node a) (as_process a) (forget_heard s) = (r, forget_heard t)"
proof -
  obtain q u where poll: "beside (outside_call (proc_poll orc (as_process a))) s = (q, u)" by (metis surj_pair)
  obtain p v where rpc: "beside (rpc_call (host_outside orc) (as_node a) ''getblockchaininfo'' []) u = (p, v)" by (metis surj_pair)
  note outside = beside_forget [OF poll] beside_forget [OF rpc]
  show ?thesis using assms poll rpc outside
    by (auto simp: told_body_def rpc_body_def bind_a_def [of "beside _"] bind_a_def [of "outside_call _"] bind_a_def [of "rpc_call _ _ _ _"] try_a_def
        raise_telling_def hear_simps split: sum.splits option.splits dest!: rpc_failed_forget)
qed

lemma told_poll_forget:
  assumes "poll (telling_outside orc) (told_body sp orc a) deadline s = Some (r, t)"
  shows "poll (host_outside orc) (rpc_body orc (as_node a) (as_process a)) deadline (forget_heard s) = Some (r, forget_heard t)"
proof -
  from poll_result [OF assms] obtain n u where walk: "polled (telling_outside orc) (told_body sp orc a) deadline s n u"
    and stop: "if clock u < deadline then told_body sp orc a u = (r, t) \<and> r \<noteq> Inr None else r = Inr None \<and> t = u"
    unfolding fst_conv prod.inject by blast
  let ?run = "poll (host_outside orc) (rpc_body orc (as_node a) (as_process a)) deadline"
  from walk have "?run (forget_heard s) = ?run (forget_heard u)"
  proof induction
    case (again n u v)
    then show ?case by (simp add: poll.simps [of _ _ _ "forget_heard u"] told_body_forget forget_sleep)
  qed simp
  also have "\<dots> = Some (r, forget_heard t)" using stop
    by (auto simp: poll.simps [of _ _ _ "forget_heard u"] dest!: told_body_forget split: if_splits sum.splits option.splits)
  finally show ?thesis .
qed

lemma told_body_timely: "timely (told_body sp orc a)"
proof -
  have "clock s \<le> clock t" if "told_body sp orc a s = (r, t)" for s r t
    using timelyD [OF rpc_wait.body_timely told_body_forget [OF that]] by simp
  then show ?thesis unfolding timely_def by (metis prod.collapse)
qed

text \<open>One failure counted a round, its name's count going up by one.\<close>

lemma count_up_total: "sum_list (map snd (count_up name kvs)) = Suc (sum_list (map snd kvs))"
  unfolding count_up_def by (induction kvs) (auto split: option.splits)

definition failures :: "'x telling \<Rightarrow> nat" where
  "failures s = sum_list (map snd (hd_ignored (snd (world s))))"

lemma failures_sleep [simp]: "snd (world (sleep (telling_outside orc) d s)) = snd (world s)"
  by (simp add: sleep_def telling_outside_def split: prod.splits)

lemma told_body_counts:
  assumes "told_body sp orc a s = (Inr None, t)"
  shows "failures t = Suc (failures s) \<and> (\<exists>e. hd_last (snd (world t)) = Some e \<and> sp_class sp e \<in> fst ` set (hd_ignored (snd (world t))))"
proof -
  obtain q u where poll: "beside (outside_call (proc_poll orc (as_process a))) s = (q, u)" by (metis surj_pair)
  obtain p v where rpc: "beside (rpc_call (host_outside orc) (as_node a) ''getblockchaininfo'' []) u = (p, v)" by (metis surj_pair)
  have quiet: "rpc_failed sp e v = (Inr None, t) \<Longrightarrow> wait_on sp e v = (Inr None, t)" for e
    by (cases e) (auto simp: rpc_failed_def raise_telling_def hear_simps split: if_splits)
  have waited: "\<exists>e. wait_on sp e v = (Inr None, t)" using assms poll rpc quiet
    by (auto simp: told_body_def bind_a_def [of "beside _"] try_a_def raise_telling_def hear_simps split: sum.splits option.splits)
  have key: "name \<in> fst ` set (count_up name kvs)" for name kvs
    by (auto simp: count_up_def dom_map_of_conv_image_fst [symmetric] AList.update_conv' split: option.splits)
  show ?thesis using waited key beside_heard [OF poll] beside_heard [OF rpc]
    by (auto simp: wait_on_def hear_simps failures_def count_up_total)
qed

lemma told_polled_counts:
  assumes "polled (telling_outside orc) (told_body sp orc a) deadline s n u" and "snd (world s) = nothing_heard"
  shows "failures u = n \<and> (0 < n \<longrightarrow> (\<exists>e. hd_last (snd (world u)) = Some e \<and> sp_class sp e \<in> fst ` set (hd_ignored (snd (world u)))))
    \<and> (n = 0 \<longrightarrow> snd (world u) = nothing_heard)"
  using assms(1)
proof induction
  case start
  then show ?case using assms(2) by (simp add: failures_def nothing_heard_def)
next
  case (again n u v)
  then show ?case using told_body_counts [OF again.hyps(3)] by (simp add: failures_def)
qed

text \<open>What the body says where it raises.\<close>

definition told_failure :: "'x spelling \<Rightarrow> startup_asked \<Rightarrow> py_error \<Rightarrow> 'x telling \<Rightarrow> bool" where
  "told_failure sp a e t \<longleftrightarrow>
     e = RuntimeError ''node process exited before its RPC answered''
       \<and> (\<exists>c. hd_message (snd (world t)) = exit_message sp a c (fst (world t)))
     \<or> e = RuntimeError ''node answered its RPC with an error''
       \<and> (\<exists>code. code \<noteq> IN_WARMUP \<and> hd_message (snd (world t)) = ''node answered its RPC with an error: '' @ sp_str sp (RpcError code))
     \<or> e = RuntimeError ''node refused its RPC''
       \<and> (\<exists>status \<in> {401, 403}. hd_message (snd (world t)) = ''node refused its RPC: '' @ sp_str sp (HttpError status))
     \<or> e = KeyboardInterrupt"

lemma told_failureI:
  "hd_message (snd (world t)) = exit_message sp a c (fst (world t))
    \<Longrightarrow> told_failure sp a (RuntimeError ''node process exited before its RPC answered'') t"
  "hd_message (snd (world t)) = ''node answered its RPC with an error: '' @ sp_str sp (RpcError code) \<Longrightarrow> code \<noteq> IN_WARMUP
    \<Longrightarrow> told_failure sp a (RuntimeError ''node answered its RPC with an error'') t"
  "hd_message (snd (world t)) = ''node refused its RPC: '' @ sp_str sp (HttpError status) \<Longrightarrow> status \<in> {401, 403}
    \<Longrightarrow> told_failure sp a (RuntimeError ''node refused its RPC'') t"
  "told_failure sp a KeyboardInterrupt t"
  unfolding told_failure_def by blast+

lemma rpc_failed_told: "rpc_failed sp f v = (Inl e, t) \<Longrightarrow> told_failure sp a e t"
  by (cases f) (auto simp: rpc_failed_def raise_telling_def wait_on_def hear_simps intro: told_failureI split: if_splits)

lemma told_body_told:
  assumes "told_body sp orc a s = (Inl e, t)"
  shows "told_failure sp a e t"
proof -
  obtain q u where poll: "beside (outside_call (proc_poll orc (as_process a))) s = (q, u)" by (metis surj_pair)
  obtain p v where rpc: "beside (rpc_call (host_outside orc) (as_node a) ''getblockchaininfo'' []) u = (p, v)" by (metis surj_pair)
  have "\<exists>x. q = Inr x" using beside_forget [OF poll]
    by (auto simp: outside_call_def proc_poll_def split: proc_status.splits prod.splits option.splits)
  moreover have "rpc_failed sp f v = (Inl e, t) \<Longrightarrow> ?thesis" for f by (rule rpc_failed_told)
  ultimately show ?thesis using assms poll rpc
    by (auto simp: told_body_def bind_a_def [of "beside _"] try_a_def raise_telling_def hear_simps
        intro: told_failureI split: sum.splits option.splits)
qed

lemma failures_told [simp]: "failures (s\<lparr>world := (h, (snd (world s))\<lparr>hd_message := m\<rparr>)\<rparr>) = failures s"
  by (simp add: failures_def)

lemma timeout_message_heard [simp]: "timeout_message sp a d h (x\<lparr>hd_message := m\<rparr>) = timeout_message sp a d h x"
  by (simp add: timeout_message_def)

text \<open>The log section of a message is what this start wrote.\<close>

lemma log_since_appended:
  assumes "sp_content sp path h = Some (before @ written)" and "size_of_file sp path h0 = length before"
  shows "log_since sp (Some path) (size_of_file sp path h0) h
    = [CHR 0x0A] @ ''-- '' @ path @ '' since this start:'' @ [CHR 0x0A] @ py_strip written"
  using assms by (simp add: log_since_def read_output_def)


end
