(* ===== verification/Socks5_Open.thy ===== *)
theory Socks5_Open
  imports Socks5_Server Timeouts
begin

section \<open>Opening a SOCKS5 proxy\<close>

text \<open>
  \<open>Socks5Proxy.__init__\<close>, \<open>address\<close> and \<open>endpoint\<close>: what the constructor acquires, and what it releases
  where a later statement raises. A \<open>kernel\<close> says what each call to the operating system answers; the
  directories and the sockets of the process are numbered as they are made.
\<close>

subsection \<open>What the operating system holds\<close>

datatype family = AF_INET | AF_INET6 | AF_UNIX | OtherFamily int

record site_of_proxy =
  sp_sockets :: "nat set"
  sp_listening :: "nat set"
  sp_names :: "nat \<Rightarrow> (string \<times> nat) + string"
  sp_directories :: "nat set"
  sp_threads :: nat
  sp_next :: nat
  sp_time :: nat

text \<open>Each answer is the call's own at that time: an \<open>OSError\<close>, or what it returned.\<close>

record kernel =
  k_mkdtemp :: "nat \<Rightarrow> py_error option"
  k_rmtree :: "nat \<Rightarrow> py_error option"
  k_socket :: "nat \<Rightarrow> py_error option"
  k_bind :: "nat \<Rightarrow> py_error option"
  k_listen :: "nat \<Rightarrow> py_error option"
  k_server :: "nat \<Rightarrow> nat result"
  k_thread :: "nat \<Rightarrow> py_error option"
  k_path :: "nat \<Rightarrow> string"

type_synonym 'a os_act = "(site_of_proxy, 'a) act"

definition tick :: "(nat \<Rightarrow> 'a) \<Rightarrow> ('a \<Rightarrow> 'b os_act) \<Rightarrow> 'b os_act" where
  "tick answer f s = f (answer (sp_time s)) (s\<lparr>sp_time := Suc (sp_time s)\<rparr>)"

definition unless_refused :: "(nat \<Rightarrow> py_error option) \<Rightarrow> 'a os_act \<Rightarrow> 'a os_act" where
  "unless_refused answer m = tick answer (\<lambda>r. case r of Some e \<Rightarrow> raise e | None \<Rightarrow> m)"

definition mkdtemp :: "kernel \<Rightarrow> nat os_act" where
  "mkdtemp k = unless_refused (k_mkdtemp k)
     (\<lambda>s. (Inr (sp_next s), s\<lparr>sp_directories := insert (sp_next s) (sp_directories s), sp_next := Suc (sp_next s)\<rparr>))"

definition rmtree :: "kernel \<Rightarrow> nat \<Rightarrow> unit os_act" where
  "rmtree k d = unless_refused (k_rmtree k) (\<lambda>s. (Inr (), s\<lparr>sp_directories := sp_directories s - {d}\<rparr>))"

definition new_socket :: "kernel \<Rightarrow> nat os_act" where
  "new_socket k = unless_refused (k_socket k)
     (\<lambda>s. (Inr (sp_next s), s\<lparr>sp_sockets := insert (sp_next s) (sp_sockets s), sp_next := Suc (sp_next s)\<rparr>))"

definition bind_socket :: "kernel \<Rightarrow> nat \<Rightarrow> (string \<times> nat) + string \<Rightarrow> unit os_act" where
  "bind_socket k c name = unless_refused (k_bind k) (\<lambda>s. (Inr (), s\<lparr>sp_names := (sp_names s)(c := name)\<rparr>))"

definition listen :: "kernel \<Rightarrow> nat \<Rightarrow> unit os_act" where
  "listen k c = unless_refused (k_listen k) (\<lambda>s. (Inr (), s\<lparr>sp_listening := insert c (sp_listening s)\<rparr>))"

definition close_socket :: "nat \<Rightarrow> unit os_act" where
  "close_socket c s = (Inr (), s\<lparr>sp_sockets := sp_sockets s - {c}, sp_listening := sp_listening s - {c}\<rparr>)"

text \<open>\<open>socket.create_server((host, 0))\<close>: it keeps no socket where it raises, and the port is the system's.\<close>

definition create_server :: "kernel \<Rightarrow> string \<Rightarrow> nat os_act" where
  "create_server k host = tick (k_server k)
     (\<lambda>r s. case r of Inl e \<Rightarrow> (Inl e, s)
      | Inr port \<Rightarrow> (Inr (sp_next s),
          s\<lparr>sp_sockets := insert (sp_next s) (sp_sockets s), sp_listening := insert (sp_next s) (sp_listening s),
            sp_names := (sp_names s)(sp_next s := Inl (host, port)), sp_next := Suc (sp_next s)\<rparr>))"

definition start_thread :: "kernel \<Rightarrow> unit os_act" where
  "start_thread k = unless_refused (k_thread k) (\<lambda>s. (Inr (), s\<lparr>sp_threads := Suc (sp_threads s)\<rparr>))"

subsection \<open>The constructor\<close>

text \<open>
  \<open>contextlib.ExitStack\<close>: what was acquired is released in the opposite order where the body raises, a
  release that raises taking the exception's place and not stopping the releases before it;
  \<open>pop_all\<close> leaves a body that came to its end with nothing to release.
\<close>

fun unwind :: "unit os_act list \<Rightarrow> py_error \<Rightarrow> 'a os_act" where
  "unwind [] e s = (Inl e, s)"
| "unwind (release # releases) e s =
     (case release s of (Inl e', t) \<Rightarrow> unwind releases e' t | (Inr _, t) \<Rightarrow> unwind releases e t)"

definition or_unwind :: "'a os_act \<Rightarrow> unit os_act list \<Rightarrow> 'a os_act" where
  "or_unwind m releases = try_a m (unwind releases)"

record opened =
  op_family :: family
  op_authentication :: bool
  op_timeout :: rat
  op_socket :: nat
  op_directory :: "nat option"
  op_threads :: proxy

fun LOOPBACK :: "family \<Rightarrow> string option" where
  "LOOPBACK AF_INET = Some ''127.0.0.1''"
| "LOOPBACK AF_INET6 = Some ''::1''"
| "LOOPBACK _ = None"

definition open_socket :: "kernel \<Rightarrow> family \<Rightarrow> (nat \<times> nat option \<times> unit os_act list) os_act" where
  "open_socket k family =
     (if family = AF_UNIX
      then bind_a (mkdtemp k) (\<lambda>d.
        bind_a (or_unwind (new_socket k) [rmtree k d]) (\<lambda>c.
        bind_a (or_unwind (bind_socket k c (Inr (k_path k d @ ''/socks5''))) [close_socket c, rmtree k d]) (\<lambda>_.
        bind_a (or_unwind (listen k c) [close_socket c, rmtree k d]) (\<lambda>_.
        ret (c, Some d, [close_socket c, rmtree k d])))))
      else case LOOPBACK family of
        Some host \<Rightarrow> bind_a (create_server k host) (\<lambda>c. ret (c, None, [close_socket c]))
      | None \<Rightarrow> raise (ValueError ''no SOCKS5 proxy on''))"

definition open_proxy :: "kernel \<Rightarrow> factor_state \<Rightarrow> bool \<Rightarrow> family \<Rightarrow> rat \<Rightarrow> bool \<Rightarrow> opened os_act" where
  "open_proxy k factor authentication family timeout factory =
     bind_a (open_socket k family) (\<lambda>(c, directory, releases).
       bind_a (or_unwind (start_thread k) releases) (\<lambda>_.
         ret \<lparr>op_family = family, op_authentication = authentication, op_timeout = scaled factor timeout,
              op_socket = c, op_directory = directory, op_threads = proxy_init (directory \<noteq> None) factory\<rparr>))"

text \<open>\<open>address\<close>, off the socket's own name.\<close>

definition proxy_address :: "site_of_proxy \<Rightarrow> opened \<Rightarrow> (string \<times> nat) + string" where
  "proxy_address s p = sp_names s (op_socket p)"

subsection \<open>All or nothing\<close>

definition fresh_numbers :: "site_of_proxy \<Rightarrow> bool" where
  "fresh_numbers s \<longleftrightarrow> (\<forall>n \<in> sp_sockets s \<union> sp_listening s \<union> sp_directories s. n < sp_next s)"

text \<open>Nothing more is held than before, a directory its removal failed on aside.\<close>

definition released :: "kernel \<Rightarrow> site_of_proxy \<Rightarrow> py_error \<Rightarrow> site_of_proxy \<Rightarrow> bool" where
  "released k s e t \<longleftrightarrow> sp_sockets t = sp_sockets s \<and> sp_listening t = sp_listening s \<and> sp_threads t = sp_threads s
     \<and> (sp_directories t = sp_directories s
        \<or> (\<exists>now d. k_rmtree k now = Some e \<and> sp_directories t = insert d (sp_directories s)))"

lemmas os_simps = unless_refused_def tick_def mkdtemp_def rmtree_def new_socket_def bind_socket_def listen_def
  close_socket_def create_server_def start_thread_def or_unwind_def bind_a_def try_a_def

text \<open>Releasing what was acquired on top of \<open>s\<close>.\<close>

lemma unwind_socket:
  assumes "sp_sockets t = insert c (sp_sockets s)" and "sp_listening t - {c} = sp_listening s"
    and "sp_directories t = sp_directories s" and "sp_threads t = sp_threads s" and "c \<notin> sp_sockets s"
    and "unwind [close_socket c] e t = (r, u)"
  shows "r = Inl e \<and> released k s e u"
  using assms by (auto simp: close_socket_def released_def)

lemma unwind_unix:
  assumes "sp_sockets t - {c} = sp_sockets s" and "sp_listening t - {c} = sp_listening s"
    and "sp_directories t = insert d (sp_directories s)" and "sp_threads t = sp_threads s" and "d \<notin> sp_directories s"
    and "unwind [close_socket c, rmtree k d] e t = (r, u)"
  shows "\<exists>e'. r = Inl e' \<and> released k s e' u"
  using assms by (auto simp: os_simps released_def split: option.splits)

lemma fresh_next:
  "fresh_numbers s \<Longrightarrow> sp_next s \<le> n \<Longrightarrow> n \<notin> sp_sockets s \<and> n \<notin> sp_listening s \<and> n \<notin> sp_directories s"
  unfolding fresh_numbers_def by (meson UnI1 UnI2 leD)

definition holds_socket :: "kernel \<Rightarrow> family \<Rightarrow> site_of_proxy \<Rightarrow> nat \<Rightarrow> nat option \<Rightarrow> site_of_proxy \<Rightarrow> bool" where
  "holds_socket k family s c directory t \<longleftrightarrow>
     c \<notin> sp_sockets s \<and> sp_sockets t = insert c (sp_sockets s) \<and> c \<notin> sp_listening s \<and> sp_listening t = insert c (sp_listening s)
     \<and> sp_threads t = sp_threads s
     \<and> (case directory of
          None \<Rightarrow> family \<noteq> AF_UNIX \<and> sp_directories t = sp_directories s
            \<and> (\<exists>host port. LOOPBACK family = Some host \<and> sp_names t c = Inl (host, port))
        | Some d \<Rightarrow> family = AF_UNIX \<and> d \<notin> sp_directories s \<and> sp_directories t = insert d (sp_directories s)
            \<and> sp_names t c = Inr (k_path k d @ ''/socks5''))"

lemma open_socket_unix:
  assumes "fresh_numbers s" and "open_socket k AF_UNIX s = (r, t)"
  shows "case r of Inl e \<Rightarrow> released k s e t
    | Inr (c, directory, releases) \<Rightarrow> holds_socket k AF_UNIX s c directory t
        \<and> releases = (case directory of None \<Rightarrow> [] | Some d \<Rightarrow> [close_socket c, rmtree k d])"
proof -
  note new = fresh_next [OF assms(1), of "sp_next s"] fresh_next [OF assms(1), of "Suc (sp_next s)"]
  show ?thesis using assms(2) new
    by (auto simp: open_socket_def os_simps released_def holds_socket_def split: option.splits)
qed

lemma open_socket_tcp:
  assumes "fresh_numbers s" and "open_socket k family s = (r, t)" and "family \<noteq> AF_UNIX"
  shows "case r of Inl e \<Rightarrow> released k s e t
    | Inr (c, directory, releases) \<Rightarrow> holds_socket k family s c directory t \<and> directory = None \<and> releases = [close_socket c]"
  using assms fresh_next [OF assms(1), of "sp_next s"]
  by (auto simp: open_socket_def os_simps released_def holds_socket_def split: option.splits sum.splits)

lemma start_thread_cases:
  "start_thread k u = (q, v) \<Longrightarrow> (\<exists>e. q = Inl e \<and> v = u\<lparr>sp_time := Suc (sp_time u)\<rparr>)
     \<or> q = Inr () \<and> v = u\<lparr>sp_time := Suc (sp_time u), sp_threads := Suc (sp_threads u)\<rparr>"
  by (auto simp: start_thread_def unless_refused_def tick_def split: option.splits)

text \<open>The last statement that can raise: a thread that does not start releases the rest.\<close>

lemma open_proxy_cases:
  assumes "fresh_numbers s" and "open_proxy k factor authentication family timeout factory s = (r, t)"
  obtains (raised) e where "r = Inl e" "released k s e t"
    | (opened) p u where "r = Inr p" "holds_socket k family s (op_socket p) (op_directory p) u"
        "t = u\<lparr>sp_time := Suc (sp_time u), sp_threads := Suc (sp_threads u)\<rparr>"
        "op_threads p = proxy_init (op_directory p \<noteq> None) factory"
proof -
  obtain q u where sock: "open_socket k family s = (q, u)" by (metis surj_pair)
  show thesis
  proof (cases q)
    case (Inl e)
    then have "released k s e u" using open_socket_unix [OF assms(1)] open_socket_tcp [OF assms(1) sock] sock by (cases "family = AF_UNIX") force+
    moreover have "r = Inl e" "t = u" using assms(2) sock Inl by (simp_all add: open_proxy_def bind_a_def)
    ultimately show thesis using raised by blast
  next
    case (Inr x)
    obtain c directory releases where x: "x = (c, directory, releases)" by (cases x)
    have held: "holds_socket k family s c directory u"
      and frees: "releases = (case directory of None \<Rightarrow> [close_socket c] | Some d \<Rightarrow> [close_socket c, rmtree k d])"
      using open_socket_unix [OF assms(1)] open_socket_tcp [OF assms(1) sock] sock Inr x
      by (cases "family = AF_UNIX"; force simp: holds_socket_def split: option.splits)+
    obtain q' v where run: "start_thread k u = (q', v)" by (metis surj_pair)
    from start_thread_cases [OF run] show thesis
    proof (elim disjE exE conjE)
      fix e
      assume failed: "q' = Inl e" "v = u\<lparr>sp_time := Suc (sp_time u)\<rparr>"
      obtain y :: "unit result" and w where gone: "unwind releases e v = (y, w)" by (metis surj_pair)
      then have "\<exists>e'. y = Inl e' \<and> released k s e' w"
        using held frees failed(2) unwind_socket [of v c s e y w k] unwind_unix [of v c s _ k e y w]
        by (fastforce simp: holds_socket_def split: option.splits)
      then show thesis using raised assms(2) sock Inr x run failed(1) gone
        by (auto simp: open_proxy_def bind_a_def or_unwind_def try_a_def)
    next
      assume "q' = Inr ()" "v = u\<lparr>sp_time := Suc (sp_time u), sp_threads := Suc (sp_threads u)\<rparr>"
      then show thesis using opened [of _ u] held assms(2) sock Inr x run
        by (auto simp: open_proxy_def bind_a_def or_unwind_def try_a_def)
    qed
  qed
qed

text \<open>
  C17: opening a proxy is all or nothing. Where the constructor returns, the process holds exactly one
  socket more, listening, one thread more and, for a unix socket alone, one directory more, and
  \<open>endpoint\<close> spells the loopback address of its family, an IPv6 one in brackets, or the path in that
  directory behind \<open>unix:\<close>. Where it raises, at whatever statement, the process holds what it held,
  except that the directory stays where its removal is what raised.
\<close>

theorem open_proxy_all_or_nothing:
  assumes "fresh_numbers s" and "open_proxy k factor authentication family timeout factory s = (r, t)"
  shows "case r of
      Inl e \<Rightarrow> released k s e t
    | Inr p \<Rightarrow> op_socket p \<notin> sp_sockets s \<and> sp_sockets t = insert (op_socket p) (sp_sockets s)
        \<and> sp_listening t = insert (op_socket p) (sp_listening s) \<and> sp_threads t = Suc (sp_threads s)
        \<and> op_threads p = proxy_init (family = AF_UNIX) factory
        \<and> (case op_directory p of
             None \<Rightarrow> sp_directories t = sp_directories s
               \<and> (\<exists>port. family = AF_INET \<and> proxy_endpoint (proxy_address t p) = ''127.0.0.1:'' @ dec port
                    \<or> family = AF_INET6 \<and> proxy_endpoint (proxy_address t p) = ''[::1]:'' @ dec port)
           | Some d \<Rightarrow> family = AF_UNIX \<and> d \<notin> sp_directories s \<and> sp_directories t = insert d (sp_directories s)
               \<and> proxy_endpoint (proxy_address t p) = ''unix:'' @ k_path k d @ ''/socks5'')"
  using assms
proof (cases rule: open_proxy_cases)
  case (raised e)
  then show ?thesis by simp
next
  case (opened p u)
  have named: "LOOPBACK family = Some host \<Longrightarrow> family = AF_INET \<and> host = ''127.0.0.1'' \<or> family = AF_INET6 \<and> host = ''::1''" for host
    by (cases family) auto
  show ?thesis using opened named
    by (cases "op_directory p") (fastforce simp: holds_socket_def proxy_address_def proxy_endpoint_def spell_address_def)+
qed

text \<open>A unix socket on a system that refuses nothing but the thread, and one that refuses nothing.\<close>

definition kind_kernel :: "py_error option \<Rightarrow> kernel" where
  "kind_kernel thread =
     \<lparr>k_mkdtemp = (\<lambda>_. None), k_rmtree = (\<lambda>_. None), k_socket = (\<lambda>_. None), k_bind = (\<lambda>_. None), k_listen = (\<lambda>_. None),
      k_server = (\<lambda>_. Inr 49152), k_thread = (\<lambda>_. thread), k_path = (\<lambda>d. ''/tmp/'' @ dec d)\<rparr>"

definition bare_site :: site_of_proxy where
  "bare_site = \<lparr>sp_sockets = {}, sp_listening = {}, sp_names = (\<lambda>_. Inr []), sp_directories = {}, sp_threads = 0,
     sp_next = 0, sp_time = 0\<rparr>"

lemma open_proxy_all_or_nothing_witness:
  "(\<exists>p t. open_proxy (kind_kernel None) initial_factor True AF_UNIX 30 False bare_site = (Inr p, t)
      \<and> sp_sockets t = {op_socket p} \<and> sp_directories t = {0} \<and> proxy_endpoint (proxy_address t p) = ''unix:/tmp/0/socks5'')
   \<and> (\<exists>e t. open_proxy (kind_kernel (Some (RuntimeError ''cannot start''))) initial_factor True AF_UNIX 30 False bare_site = (Inl e, t)
      \<and> sp_sockets t = {} \<and> sp_directories t = {})"
proof -
  have fresh: "fresh_numbers bare_site" by (simp add: fresh_numbers_def bare_site_def)
  obtain p t where opened: "open_proxy (kind_kernel None) initial_factor True AF_UNIX 30 False bare_site = (Inr p, t)" and d: "op_directory p = Some 0"
    by (simp add: open_proxy_def open_socket_def os_simps kind_kernel_def bare_site_def)
  obtain e u where failed: "open_proxy (kind_kernel (Some (RuntimeError ''cannot start''))) initial_factor True AF_UNIX 30 False bare_site = (Inl e, u)"
    by (simp add: open_proxy_def open_socket_def os_simps kind_kernel_def bare_site_def)
  have path: "k_path (kind_kernel None) 0 = ''/tmp/0''" by (simp add: kind_kernel_def dec.simps char_of_def bit_0)
  have removes: "k_rmtree (kind_kernel x) now = None" for x now by (simp add: kind_kernel_def)
  have bare: "sp_sockets bare_site = {}" "sp_directories bare_site = {}" by (simp_all add: bare_site_def)
  have "sp_sockets t = {op_socket p} \<and> sp_directories t = {0} \<and> proxy_endpoint (proxy_address t p) = ''unix:/tmp/0/socks5''"
    using open_proxy_all_or_nothing [OF fresh opened] by (simp add: d path bare)
  moreover have "sp_sockets u = {} \<and> sp_directories u = {}"
    using open_proxy_all_or_nothing [OF fresh failed] by (simp add: released_def removes bare)
  ultimately show ?thesis using opened failed by blast
qed

end
