(* ===== verification/Command_Lines.thy ===== *)
theory Command_Lines
  imports Master_Verdict Ledger_Census Vendored_Vectors Ledger_Rows
begin

section \<open>The scripts' command lines\<close>

text \<open>
  \<open>main\<close> of the scripts that read a ledger, from \<open>sys.argv\<close> to the exit status: the arguments counted, a
  \<open>--dry-run\<close> taken out wherever it stands, the files read. A script comes to the lines it printed to
  stdout and to stderr, and its status. \<open>prog\<close> is the script's own name; what a file's text is, and
  what its JUnit report holds, are parameters.
\<close>

subsection \<open>The four scripts\<close>

record printed =
  pr_out :: "string list"
  pr_err :: "string list"
  pr_status :: int

definition usage_refused :: "string \<Rightarrow> string \<Rightarrow> printed" where
  "usage_refused prog usage = \<lparr>pr_out = [], pr_err = [''usage: '' @ prog @ usage], pr_status = 2\<rparr>"

definition said :: "string list \<Rightarrow> printed" where
  "said lines = \<lparr>pr_out = lines, pr_err = [], pr_status = 0\<rparr>"

text \<open>The arguments without the option, and whether it was one of them.\<close>

definition DRY_RUN :: string where "DRY_RUN = ''--dry-run''"

definition dry_run_of :: "string list \<Rightarrow> string list \<times> bool" where
  "dry_run_of argv = (let args = filter (\<lambda>a. a \<noteq> DRY_RUN) argv in (args, length args \<noteq> length argv))"

definition census_command ::
  "('w, 'z) github_scheme \<Rightarrow> (string \<Rightarrow> string result) \<Rightarrow> string \<Rightarrow> string list \<Rightarrow> ('w timed, printed) loop" where
  "census_command gh read_text prog argv =
     (case dry_run_of argv of
        ([path, title, pins_title], dry_run) \<Rightarrow>
          if title = pins_title
          then once (ret (usage_refused prog '' <ledger path> <census issue title> <per-test pins issue title> [--dry-run]''))
          else bind_l (once (lift_r (read_text path)))
            (\<lambda>ledger. bind_l (census_main gh ledger title pins_title dry_run) (\<lambda>lines. once (ret (said lines))))
      | _ \<Rightarrow> once (ret (usage_refused prog '' <ledger path> <census issue title> <per-test pins issue title> [--dry-run]'')))"

definition vendored_command ::
  "('w, 'z) github_scheme \<Rightarrow> (string \<Rightarrow> string result) \<Rightarrow> string \<Rightarrow> string list \<Rightarrow> ('w timed, printed) loop" where
  "vendored_command gh read_text prog argv =
     (case dry_run_of argv of
        ([path, title], dry_run) \<Rightarrow>
          bind_l (once (lift_r (read_text path)))
            (\<lambda>ledger. bind_l (vendored_main gh path ledger title dry_run) (\<lambda>lines. once (ret (said lines))))
      | _ \<Rightarrow> once (ret (usage_refused prog '' <ledger path> <issue title> [--dry-run]'')))"

definition master_command ::
  "('w, 'z) github_scheme \<Rightarrow> (string list \<Rightarrow> string option) \<Rightarrow> (string \<Rightarrow> string result) \<Rightarrow> (string \<Rightarrow> testcase list result)
    \<Rightarrow> string \<Rightarrow> string list \<Rightarrow> ('w timed, printed) loop" where
  "master_command gh module_text read_text parse prog args =
     (case args of
        [path, master, pinned] \<Rightarrow>
          bind_l (once (lift_r (parse master)))
            (\<lambda>m. bind_l (once (lift_r (parse pinned)))
            (\<lambda>p. bind_l (once (lift_r (read_text path)))
            (\<lambda>ledger. bind_l (verdicts gh module_text ledger (master_junit m) (master_junit p))
            (\<lambda>vs. once (ret (said (
               if vs = [] then [''No test fails against Core's master that does not already fail against the pinned release.'']
               else ''Failing only against Core's master, not against the pinned release:'' # '''' # map spell_verdict vs)))))))
      | _ \<Rightarrow> once (ret (usage_refused prog '' <TF2.md> <master junit.xml> <pinned junit.xml>'')))"

fun build_of :: "string \<Rightarrow> build option" where
  "build_of word = (if word = build_word Release then Some Release else if word = build_word Main then Some Main else None)"

definition node_command ::
  "(string \<Rightarrow> string result) \<Rightarrow> (string \<Rightarrow> testcase list result) \<Rightarrow> string \<Rightarrow> string list \<Rightarrow> printed result" where
  "node_command read_text parse prog args =
     (case args of
        [path, report, word] \<Rightarrow>
          (case build_of word of
             None \<Rightarrow> Inr (usage_refused prog '' <TF2.md> <junit.xml> <release|main>'')
           | Some build \<Rightarrow>
               bind_r (read_text path) (\<lambda>ledger. bind_r (parse report)
                 (\<lambda>tcs. bind_r (verdict_main rows_get ledger tcs build)
                   (\<lambda>(lines, status). Inr \<lparr>pr_out = lines, pr_err = [], pr_status = status\<rparr>))))
      | _ \<Rightarrow> Inr (usage_refused prog '' <TF2.md> <junit.xml> <release|main>''))"

subsection \<open>A dry run\<close>

text \<open>\<open>gh\<close> as it is for every \<open>gh api\<close> call, and as \<open>f\<close> says for any other.\<close>

definition apart_from_api ::
  "('w, 'z) github_scheme \<Rightarrow> (string list \<Rightarrow> 'w \<Rightarrow> (string + string) \<times> rat \<times> 'w) \<Rightarrow> ('w, 'z) github_scheme" where
  "apart_from_api gh f = gh\<lparr>gh_run := (\<lambda>args. if take 1 args = [''api''] then gh_run gh args else f args)\<rparr>"

lemma api_output [simp]: "gh_output (apart_from_api gh f) (''api'' # args) = gh_output gh (''api'' # args)"
proof
  fix s
  have once: "gh_once (apart_from_api gh f) (''api'' # args) = gh_once gh (''api'' # args)"
    by (simp add: gh_once_def apart_from_api_def fun_eq_iff)
  have nap: "sleep (apart_from_api gh f) d s = sleep gh d s" for d s
    by (simp add: sleep_def apart_from_api_def)
  show "gh_output (apart_from_api gh f) (''api'' # args) s = gh_output gh (''api'' # args) s"
    unfolding gh_output_unrolled once nap ..
qed

lemma api_json [simp]: "gh_json (apart_from_api gh f) (''api'' # args) = gh_json gh (''api'' # args)"
  by (simp add: gh_json_def) (simp add: apart_from_api_def)

lemma api_calls [simp]:
  "in_pin_history (apart_from_api gh f) repo pin commit = in_pin_history gh repo pin commit"
  "default_branch_tip (apart_from_api gh f) repo = default_branch_tip gh repo"
  "upstream_python_files (apart_from_api gh f) repo directory sha = upstream_python_files gh repo directory sha"
  "tip_of (apart_from_api gh f) repo path sha = tip_of gh repo path sha"
  "entry_tip (apart_from_api gh f) e = entry_tip gh e"
  "latest_commit (apart_from_api gh f) path = latest_commit gh path"
  by (simp_all add: in_pin_history_def default_branch_tip_def upstream_python_files_def tip_of_def entry_tip_def latest_commit_def)

lemma api_drift [simp]:
  "pin_drift (apart_from_api gh f) repo pins sha = pin_drift gh repo pins sha"
  "find_drift (apart_from_api gh f) ledger = find_drift gh ledger"
proof -
  have at: "at_tip (apart_from_api gh f) repo p tip = at_tip gh repo p tip" for p tip
    by (simp add: at_tip_def split: option.split)
  have "drifts (apart_from_api gh f) repo sha ps = drifts gh repo sha ps" for ps by (induction ps) (auto simp: at)
  then show "pin_drift (apart_from_api gh f) repo pins sha = pin_drift gh repo pins sha" by (simp add: pin_drift_def)
  have "entry_drifts (apart_from_api gh f) es = entry_drifts gh es" for es by (induction es) simp_all
  then show "find_drift (apart_from_api gh f) ledger = find_drift gh ledger" by (simp add: find_drift_def)
qed

lemma api_verdicts [simp]:
  "verdicts (apart_from_api gh f) module_text ledger master pinned = verdicts gh module_text ledger master pinned"
proof -
  have has: "has_moved (apart_from_api gh f) pin latest = has_moved gh pin latest" for pin latest by (simp add: has_moved_def)
  have tips: "read_tips (apart_from_api gh f) ps latest = read_tips gh ps latest" for ps latest
    by (induction ps arbitrary: latest) (simp_all cong: option.case_cong)
  have moved: "moved_paths (apart_from_api gh f) pin ps = moved_paths gh pin ps" for pin ps
    by (induction ps) (auto simp: has)
  have "judge_failure (apart_from_api gh f) module_text pins key = judge_failure gh module_text pins key" for pins key
    by (simp add: judge_failure_def tips moved cong: option.case_cong sum.case_cong)
  then have "judge_each (apart_from_api gh f) module_text pins keys = judge_each gh module_text pins keys" for pins keys
    by (induction keys) simp_all
  then show ?thesis by (simp add: verdicts_def)
qed

text \<open>
  C18: a dry run edits no issue. With \<open>--dry-run\<close> anywhere among its arguments the census script and the
  vendored-vectors script print, raise and leave the world the same whatever any \<open>gh\<close> call but
  \<open>gh api\<close> would do, for they make none; nor does the script that judges master, whatever its arguments.
\<close>

theorem dry_run_only_asks:
  "census_command (apart_from_api gh f) read_text prog (before @ DRY_RUN # after) = census_command gh read_text prog (before @ DRY_RUN # after)
   \<and> vendored_command (apart_from_api gh f) read_text prog (before @ DRY_RUN # after)
       = vendored_command gh read_text prog (before @ DRY_RUN # after)
   \<and> master_command (apart_from_api gh f) module_text read_text parse prog args = master_command gh module_text read_text parse prog args"
proof -
  have dry: "dry_run_of (before @ DRY_RUN # after) = (filter (\<lambda>a. a \<noteq> DRY_RUN) (before @ after), True)"
    using length_filter_le [of "\<lambda>a. a \<noteq> DRY_RUN" "before @ after"] by (simp add: dry_run_of_def Let_def del: length_filter_le)
  have census: "census_main (apart_from_api gh f) ledger title pins_title True = census_main gh ledger title pins_title True"
    for ledger title pins_title by (simp add: census_main_def)
  have vendored: "vendored_main (apart_from_api gh f) path ledger title True = vendored_main gh path ledger title True"
    for path ledger title by (simp add: vendored_main_def)
  show ?thesis
    unfolding census_command_def vendored_command_def master_command_def dry prod.case census vendored api_verdicts by simp
qed

end
