(* ===== verification/Script_Spends.thy ===== *)
theory Script_Spends
  imports Transfers
begin

section \<open>What the wallet's coins pay, and what spends them\<close>

text \<open>
  The scripts at the head of mini_wallet.py: the output every coin of \<open>MiniWallet\<close> pays and \<open>_witness\<close>,
  which spends it, and the pay-to-public-key output with \<open>raw_p2pk_script_sig\<close>. The keys, the taproot
  and script codecs, the sighash and the signature are btclib's, the record \<open>script_lib\<close>; \<open>wallet_lib\<close> puts what they
  come to in the record the wallet uses.
\<close>

datatype spend_item = OpCode string | PushData bytes

text \<open>A transaction of Transactions has no scriptSigs: the sighash blanks those it signs over.\<close>

type_synonym script_tree = "(int \<times> spend_item list) list"

record ('key, 'pub) script_lib =
  sl_prv_key :: "int \<Rightarrow> string \<Rightarrow> 'key"
  sl_scalar :: "'key \<Rightarrow> int"
  sl_pub :: "'key \<Rightarrow> 'pub"
  sl_pub_data :: "bytes \<Rightarrow> 'pub"
  sl_p2pk :: "'pub \<Rightarrow> bytes"
  sl_p2tr :: "'pub \<Rightarrow> script_tree \<Rightarrow> string \<Rightarrow> bytes"
  sl_input_script_sig :: "'pub \<Rightarrow> script_tree \<Rightarrow> nat \<Rightarrow> spend_item list \<times> bytes"
  sl_tapscript :: "spend_item list \<Rightarrow> bytes"
  sl_script :: "spend_item list \<Rightarrow> bytes"
  sl_legacy :: "bytes \<Rightarrow> tx \<Rightarrow> nat \<Rightarrow> octet \<Rightarrow> bytes"
  sl_sign :: "bytes \<Rightarrow> int \<Rightarrow> bytes"
  sl_all :: octet

definition INTERNAL_PUBKEY :: "('key, 'pub) script_lib \<Rightarrow> 'pub" where
  "INTERNAL_PUBKEY sl = sl_pub_data sl (0x02 # replicate 31 0 @ [1])"

definition SCRIPT_TREE :: script_tree where
  "SCRIPT_TREE = [(0xC0, [OpCode ''OP_TRUE''])]"

definition ANYONE_CAN_SPEND :: "('key, 'pub) script_lib \<Rightarrow> bytes" where
  "ANYONE_CAN_SPEND sl = sl_p2tr sl (INTERNAL_PUBKEY sl) SCRIPT_TREE ''regtest''"

definition witness_stack :: "('key, 'pub) script_lib \<Rightarrow> bytes list" where
  "witness_stack sl =
     (case sl_input_script_sig sl (INTERNAL_PUBKEY sl) SCRIPT_TREE 0 of
        (leaf_script, control_block) \<Rightarrow> [sl_tapscript sl leaf_script, control_block])"

definition RAW_P2PK_KEY :: "('key, 'pub) script_lib \<Rightarrow> 'key" where
  "RAW_P2PK_KEY sl = sl_prv_key sl 1 ''regtest''"

definition RAW_P2PK_SCRIPT_PUB_KEY :: "('key, 'pub) script_lib \<Rightarrow> bytes" where
  "RAW_P2PK_SCRIPT_PUB_KEY sl = sl_p2pk sl (sl_pub sl (RAW_P2PK_KEY sl))"

definition raw_p2pk_script_sig :: "('key, 'pub) script_lib \<Rightarrow> tx \<Rightarrow> nat \<Rightarrow> bytes" where
  "raw_p2pk_script_sig sl tx vin_i =
     (let digest = sl_legacy sl (RAW_P2PK_SCRIPT_PUB_KEY sl) tx vin_i (sl_all sl);
          signature = sl_sign sl digest (sl_scalar sl (RAW_P2PK_KEY sl))
      in sl_script sl [PushData (signature @ [sl_all sl])])"

definition wallet_lib :: "('key, 'pub) script_lib \<Rightarrow> btclib \<Rightarrow> btclib" where
  "wallet_lib sl lib = lib\<lparr>bl_anyone := ANYONE_CAN_SPEND sl, bl_witness := witness_stack sl\<rparr>"

text \<open>Each input of a self-transfer carries the leaf and its control block, and nothing else.\<close>

lemma self_transfer_spends:
  assumes "self_transfer_tx (wallet_lib sl lib) utxos amount n version locktime sequence = Inr tx" and "inp \<in> set (tx_vin tx)"
  shows "ti_witness inp = witness_stack sl \<and> length (ti_witness inp) = 2"
  using assms by (auto simp: self_transfer_tx_def wallet_lib_def witness_stack_def bind_r_Inr_iff Let_def split: prod.splits if_splits)

end
