(* ===== verification/Docs_Links.thy ===== *)
theory Docs_Links
  imports Node_Verdict
begin

section \<open>The links of the documentation\<close>

text \<open>
  docs/source/conf.py: \<open>included\<close>, the map \<open>INCLUDED\<close> it fills, and the post-transform \<open>RootFileLinks\<close>,
  which rewrites the links myst left for a file of the repository. The document is the list of its
  \<open>pending_xref\<close> nodes, each with the attributes the transform reads and writes; the settings of the file, which
  Sphinx reads, are left out. What the file system and the Sphinx environment answer is the record \<open>docs_site\<close>.
\<close>

subsection \<open>Paths\<close>

text \<open>A \<open>pathlib\<close> path is whether it is absolute, and its parts.\<close>

datatype path = Path bool "string list"

definition path_of :: "string \<Rightarrow> path" where
  "path_of s = Path (py_startswith s ''/'') (filter (\<lambda>p. p \<noteq> [] \<and> p \<noteq> ''.'') (py_split ''/'' s))"

fun path_join :: "path \<Rightarrow> string \<Rightarrow> path" where
  "path_join (Path rooted ps) s =
     (case path_of s of Path True qs \<Rightarrow> Path True qs | Path False qs \<Rightarrow> Path rooted (ps @ qs))"

fun path_parent :: "path \<Rightarrow> path" where
  "path_parent (Path rooted ps) = Path rooted (butlast ps)"

definition path_str :: "string list \<Rightarrow> string" where
  "path_str ps = (if ps = [] then ''.'' else py_join ''/'' ps)"

text \<open>\<open>str(path.relative_to(base))\<close>, of two absolute paths.\<close>

definition relative_to :: "string list \<Rightarrow> string list \<Rightarrow> string result" where
  "relative_to base ps =
     (if take (length base) ps = base then Inr (path_str (drop (length base) ps)) else Inl (ValueError ''is not in the subpath of''))"

record docs_site =
  ds_root :: "string list"
  ds_resolve :: "path \<Rightarrow> string list"
  ds_is_file :: "path \<Rightarrow> bool"
  ds_docs :: "string list"
  ds_doc_path :: "string \<Rightarrow> path"
  ds_blob :: string

subsection \<open>The shims\<close>

text \<open>
  \<open>INCLUDE\<close>, the fence of a myst include at the start of a line: white space, which may hold a line
  break, is skipped and given back one character at a time, the path is the shortest that ends at the
  end of a line, and the white space before that end is not the path's.
\<close>

definition FENCE :: string where "FENCE = ''```{include}''"

fun at_line_end :: "string \<Rightarrow> bool" where
  "at_line_end [] = True"
| "at_line_end (c # cs) = (c = CHR 0x0A)"

definition ends_line :: "string \<Rightarrow> nat option" where
  "ends_line s = List.find (\<lambda>j. at_line_end (drop j s)) (rev [0..<Suc (length (takeWhile is_space s))])"

text \<open>The path and how far past the skipped white space the match goes.\<close>

definition fenced_path :: "string \<Rightarrow> (string \<times> nat) option" where
  "fenced_path s =
     (case List.find (\<lambda>m. ends_line (drop m s) \<noteq> None) [1..<Suc (length (takeWhile (\<lambda>c. c \<noteq> CHR 0x0A) s))] of
        None \<Rightarrow> None
      | Some m \<Rightarrow> (case ends_line (drop m s) of None \<Rightarrow> None | Some j \<Rightarrow> Some (take m s, m + j)))"

definition include_match :: "string \<Rightarrow> (string \<times> nat) option" where
  "include_match s =
     (if \<not> py_startswith s FENCE then None
      else let rest = drop (length FENCE) s
        in case List.find (\<lambda>k. fenced_path (drop k rest) \<noteq> None) (rev [1..<Suc (length (takeWhile is_space rest))]) of
             None \<Rightarrow> None
           | Some k \<Rightarrow> map_option (\<lambda>(path, used). (path, length FENCE + k + used)) (fenced_path (drop k rest)))"

text \<open>\<open>INCLUDE.findall\<close>: \<open>start\<close> says a line starts here, \<open>left\<close> how much of a match is still to pass.\<close>

fun find_includes :: "bool \<Rightarrow> nat \<Rightarrow> string \<Rightarrow> string list" where
  "find_includes start left [] = []"
| "find_includes start left (c # cs) =
     (if 0 < left then find_includes (c = CHR 0x0A) (left - 1) cs
      else case (if start then include_match (c # cs) else None) of
             Some (path, used) \<Rightarrow> path # find_includes (c = CHR 0x0A) (used - 1) cs
           | None \<Rightarrow> find_includes (c = CHR 0x0A) 0 cs)"

text \<open>A shim is its directory and its name, which the glob ends in \<open>_link.md\<close>.\<close>

definition included :: "docs_site \<Rightarrow> path \<Rightarrow> string \<Rightarrow> string \<Rightarrow> (string \<times> string) result" where
  "included ds directory name text =
     (case find_includes True 0 text of
        [found] \<Rightarrow> bind_r (relative_to (ds_root ds) (ds_resolve ds (path_join directory found)))
                    (\<lambda>target. Inr (target, removesuffix name ''.md''))
      | _ \<Rightarrow> Inl (ValueError ''include fences, expected one''))"

fun included_all :: "docs_site \<Rightarrow> path \<Rightarrow> (string \<times> string) list \<Rightarrow> (string \<times> string) list \<Rightarrow> (string \<times> string) list result" where
  "included_all ds directory [] found = Inr found"
| "included_all ds directory ((name, text) # shims) found =
     bind_r (included ds directory name text) (\<lambda>(target, docname). included_all ds directory shims (dict_set target docname found))"

subsection \<open>The transform\<close>

record xref =
  xr_reftype :: "string option"
  xr_refdomain :: "string option"
  xr_reftarget :: string
  xr_refdoc :: "string option"
  xr_targetid :: "string option"
  xr_children :: "string list"

datatype link = Pending xref | Reference string "string list"

definition SUFFIXES :: "string list" where "SUFFIXES = [''.rst'', ''.md'']"

definition broken_doc_target :: "docs_site \<Rightarrow> xref \<Rightarrow> (path \<times> string option) option" where
  "broken_doc_target ds x =
     (if xr_reftarget x \<in> set (ds_docs ds) then None
      else map_option (\<lambda>found. (found, xr_targetid x))
             (List.find (ds_is_file ds) (map (\<lambda>suffix. path_of (xr_reftarget x @ suffix)) SUFFIXES)))"

definition unbound_target :: "docs_site \<Rightarrow> (string \<times> string) list \<Rightarrow> xref \<Rightarrow> string \<Rightarrow> path \<times> string option" where
  "unbound_target ds INCLUDED x refdoc =
     (case split_once ''#'' (xr_reftarget x) of
        (raw, anchor) \<Rightarrow>
          (path_join (if refdoc \<in> snd ` set INCLUDED then Path True (ds_root ds) else path_parent (ds_doc_path ds refdoc)) raw,
           if anchor = Some [] then None else anchor))"

definition target_of :: "docs_site \<Rightarrow> (string \<times> string) list \<Rightarrow> string \<Rightarrow> xref \<Rightarrow> (path \<times> string option) option" where
  "target_of ds INCLUDED docname x =
     (if xr_reftype x \<noteq> Some ''myst'' then None
      else if xr_refdomain x = Some ''doc'' then broken_doc_target ds x
      else if xr_refdomain x = None
      then Some (unbound_target ds INCLUDED x (case xr_refdoc x of None \<Rightarrow> docname | Some d \<Rightarrow> d))
      else None)"

definition rewrite_link :: "docs_site \<Rightarrow> (string \<times> string) list \<Rightarrow> string \<Rightarrow> link \<Rightarrow> link" where
  "rewrite_link ds INCLUDED docname l =
     (case l of
        Reference _ _ \<Rightarrow> l
      | Pending x \<Rightarrow>
          (case target_of ds INCLUDED docname x of
             None \<Rightarrow> l
           | Some (found, anchor) \<Rightarrow>
               (case relative_to (ds_root ds) (ds_resolve ds found) of
                  Inl _ \<Rightarrow> l
                | Inr target \<Rightarrow>
                    (case map_of INCLUDED target of
                       Some shim \<Rightarrow> Pending (x\<lparr>xr_refdomain := Some ''doc'', xr_reftarget := shim,
                                    xr_targetid := (if anchor = Some [] then None else anchor)\<rparr>)
                     | None \<Rightarrow>
                         if ds_is_file ds (path_join (Path True (ds_root ds)) target)
                         then Reference (ds_blob ds @ target @ (case anchor of None \<Rightarrow> [] | Some a \<Rightarrow> if a = [] then [] else CHR ''#'' # a))
                                (xr_children x)
                         else l))))"

definition rewrite_links :: "docs_site \<Rightarrow> (string \<times> string) list \<Rightarrow> string \<Rightarrow> link list \<Rightarrow> link list" where
  "rewrite_links ds INCLUDED docname = map (rewrite_link ds INCLUDED docname)"

subsection \<open>What is rewritten\<close>

text \<open>The shim of the change log, as it is.\<close>

lemma changelog_shim:
  "find_includes True 0
     (''<!-- markdownlint-disable MD041 -->'' @ [CHR 0x0A] @ ''```{include} ../../CHANGELOG.md'' @ [CHR 0x0A] @ ''```'' @ [CHR 0x0A]
      @ ''<!-- markdownlint-enable MD041 -->'' @ [CHR 0x0A])
   = [''../../CHANGELOG.md'']"
  by code_simp

text \<open>A link that leaves the repository, or names nothing in it, is left to myst as it was.\<close>

lemma rewrite_link_cases:
  assumes "rewrite_link ds INCLUDED docname (Pending x) = l"
  obtains (left) "l = Pending x"
    | (shim) found anchor target shim where "target_of ds INCLUDED docname x = Some (found, anchor)"
        "relative_to (ds_root ds) (ds_resolve ds found) = Inr target" "map_of INCLUDED target = Some shim"
        "l = Pending (x\<lparr>xr_refdomain := Some ''doc'', xr_reftarget := shim, xr_targetid := (if anchor = Some [] then None else anchor)\<rparr>)"
    | (blob) found anchor target where "target_of ds INCLUDED docname x = Some (found, anchor)"
        "relative_to (ds_root ds) (ds_resolve ds found) = Inr target" "map_of INCLUDED target = None"
        "ds_is_file ds (path_join (Path True (ds_root ds)) target)"
        "\<exists>fragment. l = Reference (ds_blob ds @ target @ fragment) (xr_children x)"
  using assms by (auto simp: rewrite_link_def split: option.splits prod.splits sum.splits if_splits)

text \<open>Where every shim is a document, a second run of the transform changes nothing.\<close>

lemma rewrite_links_settled:
  assumes "snd ` set INCLUDED \<subseteq> set (ds_docs ds)"
  shows "rewrite_links ds INCLUDED docname (rewrite_links ds INCLUDED docname links) = rewrite_links ds INCLUDED docname links"
proof -
  have "rewrite_link ds INCLUDED docname (rewrite_link ds INCLUDED docname l) = rewrite_link ds INCLUDED docname l" for l
  proof (cases l)
    case (Reference uri children)
    then show ?thesis by (simp add: rewrite_link_def)
  next
    case (Pending x)
    obtain l' where l': "rewrite_link ds INCLUDED docname (Pending x) = l'" by blast
    then show ?thesis
    proof (cases rule: rewrite_link_cases)
      case left
      then show ?thesis using l' Pending by simp
    next
      case (shim found anchor target shim)
      then have "shim \<in> set (ds_docs ds)" using assms by (force dest: map_of_SomeD)
      then show ?thesis using l' Pending shim(4) by (simp add: rewrite_link_def target_of_def broken_doc_target_def)
    next
      case (blob found anchor target)
      then show ?thesis using l' Pending by (auto simp: rewrite_link_def)
    qed
  qed
  then show ?thesis by (simp add: rewrite_links_def)
qed

end
