(* ===== verification/Spec2Isabelle.thy ===== *)
theory Spec2Isabelle
  imports Prelude Ports Options Timeouts Waiting Capabilities Skip_Tally Sessions Lifecycle Links
    Transactions Wallet Transfers Wire Peers Socks5 Socks5_Relay Socks5_Server Ledger_Text Github
    Node_Verdict Master_Verdict Ledger_Census Vendored_Vectors Adapters Btcd Bitcoind Btclib_Node
    Feature_Chain Feature_Runs Feature_Loops Feature_Late Feature_Plan Feature_Steps Feature_Forks Feature_Choice Feature_Promises Feature_Verdict
    Mempool_Fill Ledger_Rows
    Startup_Report Socks5_Open Command_Lines Script_Spends Docs_Links
begin

text \<open>
  Verification of bitcoin-node-tests: the Python package that starts a bitcoin node under test (bitcoind,
  btcd or btclib-node), drives it over RPC and over the peer-to-peer wire, and decides what its answers
  mean, and the scripts that judge a run of its tests. Paths below are under src/; without a directory they are in src/bitcoin_node_tests.

  \<^bold>\<open>The program's parts, and how they meet\<close>

  A test asks an adapter (bitcoind.py, btcd.py, btclib_node.py, all over \<open>NodeAdapter\<close> of node.py) to start a
  node. The adapter draws ports, checks the extra arguments against its own command line, spawns the process and
  polls its RPC until it answers or the deadline passes; every RPC of a thread goes over that thread's own
  connection; stop, restart and the waits of node.py end or follow the process. Over a running node a
  \<open>MiniWallet\<close> (mini_wallet.py) mines its own coins and spends them, \<open>fill_mempool\<close> (mempool_util.py) fills a mempool
  with such spends, a \<open>Peer\<close> or a \<open>Listener\<close> (peer.py) speaks the
  node's own protocol to it, a \<open>Socks5Proxy\<close> (socks5.py) is what its outbound connections go through, and
  feature_block.py builds the blocks of Core's own block test and says what a node must make of each.
  capability.py decides which tests a node can run and counts the others; the scripts of .github/scripts
  read the JUnit report of a run, the ledger and GitHub.

  \<^bold>\<open>Which theory models which part\<close>

  Prelude has the parts of Python the code rests on: \<open>py_error\<close>, the exceptions; \<open>act\<close>, a method that changes
  state and may raise, with what it wrote before the raise kept; strings, octets and JSON values. Waiting
  has \<open>loop\<close>, a method that may also not come back (\<open>None\<close>), the clock, and the world outside as the record \<open>outside\<close>.

    \<^item> node.py: Ports (\<open>free_port\<close>, \<open>free_ports\<close>, \<open>_worker_block\<close>, \<open>_PortCursor\<close>), Options (\<open>_check_extra_args\<close>
      and the functions it calls), Waiting (\<open>wait_until\<close>, and \<open>poll\<close>, the loop all its waits are), Sessions
      (\<open>_ThreadSessions\<close> as an interleaving of its threads), Lifecycle (\<open>_wait_for_rpc\<close>, \<open>NodeAdapter\<close>'s processes),
      Startup_Report (the counts and messages of \<open>_wait_for_rpc\<close>, \<open>_read_output\<close>, \<open>_log_since\<close>, \<open>traced_transport\<close>), Links
      (\<open>connect_nodes\<close>, \<open>disconnect_nodes\<close>, \<open>sync_all\<close> and what they wait for), Adapters (the configuration and client all adapters share);
    \<^item> timeout_factor.py: Timeouts; debug_log.py: Waiting; capability.py: Capabilities and Skip_Tally;
    \<^item> bitcoind.py, btcd.py, btclib_node.py: Bitcoind, Btcd, Btclib_Node (the command line, the capabilities a
      build declares with the probes that ask it, the client, the miner's wallet);
    \<^item> mini_wallet.py: Transactions (the functions outside the class), Script_Spends (its scripts and signatures), Wallet (the cache,
      mining and the choice of coins), Transfers (building and sending transactions); mempool_util.py: Mempool_Fill;
    \<^item> peer.py: Wire (what a socket answers, and reading off a buffer) and Peers (\<open>Peer\<close>, \<open>Listener\<close>, both transports);
    \<^item> socks5.py: Socks5 (one client's negotiation), Socks5_Relay (\<open>_forward\<close>), Socks5_Server (the threads of
      \<open>Socks5Proxy\<close> as an interleaving, \<open>close\<close> and \<open>next_request\<close> included), Socks5_Open (its constructor and address);
    \<^item> feature_block.py: Feature_Chain (\<open>_Chain\<close> and the builders of blocks and transactions), Feature_Runs, Feature_Loops and
      Feature_Late (every function of the sequence, one definition per function and per block it plans), up to \<open>steps\<close>;
    \<^item> .github/scripts: Ledger_Text (what they share), Github (\<open>gh\<close> and its repeats), Node_Verdict and Ledger_Rows
      (btclib_node_verdict.py and its table \<open>_ROWS\<close>), Master_Verdict (tf2_master_verdict.py), Ledger_Census (tf2_ledger_census.py),
      Vendored_Vectors (check_vendored_vectors.py), Command_Lines (\<open>main\<close> of these four), Skip_Tally (check_node_ran.py);
    \<^item> docs/source/conf.py: Docs_Links (the links of the documentation).

  An object is a record of its attributes, named with a short prefix (\<open>wl_\<close> for \<open>MiniWallet\<close>, \<open>pr_\<close> for \<open>Peer\<close>, \<open>ad_\<close> for \<open>NodeAdapter\<close>,
  \<open>px_\<close> for \<open>Socks5Proxy\<close>, \<open>ss_\<close> for \<open>_ThreadSessions\<close>), beside the world it acts on; a method is an \<open>act\<close> or a \<open>loop\<close> on the two, and its
  statements are composed with \<open>bind_a\<close>, \<open>try_a\<close> and \<open>finally_a\<close> in the order of the source. The classes whose threads interleave
  are step functions on a state with a program counter per thread, one event for each statement or
  locked block; \<open>sess_run\<close> and \<open>proxy_run\<close> run a list of events, and the invariants hold in every reachable state.

  \<^bold>\<open>What each group of lemmas shows\<close>

    \<^item> Sessions: no connection leaks in any interleaving (C1); Lifecycle and Startup_Report: no process is lost whatever raises, a start is all or
      nothing, and the wait with its messages refines the wait without (C2, C16, C23);
    \<^item> Feature_Plan to Feature_Verdict: the plan of the sequence. \<open>plan_run\<close> runs its operations on a tree of names;
      Feature_Steps has a triple for every method of \<open>_Chain\<close>, and Feature_Forks the plan each function follows, so that
      whatever \<open>steps\<close> returns was built, and is expected, as the plan says. Feature_Choice states what is expected without the sequence, as a node that
      follows the first seen of the highest blocks it has no reason to refuse, and Feature_Verdict evaluates that on the whole plan
      (C3). Feature_Promises shows what \<open>next_block\<close> builds and that the first run returns (C7, C9);
    \<^item> Peers and Wire: reading is parsing the stream however \<open>recv\<close> cuts it, a packet whose read fails is read by the
      next call, and \<open>wait_for\<close> answers what it hears (C4, C11, C29); Socks5, Socks5_Relay, Socks5_Server and Socks5_Open: the negotiation
      reads exactly what a client sends, \<open>close\<close> and the constructor leave nothing open (C6, C15, C17, C30, C31);
    \<^item> Ports, Options, Timeouts, Waiting, Links: disjoint ports, refused arguments, waits that end and what they saw
      (C5, C12, C19, C20, C21, C24, C25);
    \<^item> Transactions, Wallet, Transfers, Mempool_Fill: fees and sizes to the satoshi and the virtual byte, the cache after every
      block, choice and send (C8, C13, C26, C27, C28, C40);
    \<^item> the scripts: a green verdict means the whole column holds, verdicts follow the history, an issue is written only
      where it is one's own, a dry run writes none (C10, C14, C18, C32, C33, C34); Capabilities and Skip_Tally: what is skipped is counted and recognised (C22);
    \<^item> the adapters: no argument a test may pass overrides what the adapter sets (C35, C36, C39), a capability is declared exactly where
      the build has it (C37), the miner's wallet is loaded (C38).

  The locales state what one part relies on of another, and are interpreted on the model: \<open>port_source\<close> (Ports; the cursor and the
  process), \<open>polling\<close> (Waiting; the waits of Waiting, Lifecycle and Links), \<open>skip_tally\<close> (Skip_Tally), \<open>lifecycle\<close> (Lifecycle; what every
  operation of an adapter keeps), \<open>coin_spending\<close> (Transfers; a transfer and a payment), \<open>framing\<close> (Wire; what makes a decision
  about a buffer independent of how \<open>recv\<close> cuts the stream) and \<open>adapter_command\<close> (Adapters; a command line whose settings no extra argument may change).

  \<^bold>\<open>Loops, and why they end\<close>

  A loop that may not end is a \<open>partial_function (option)\<close>, so that not returning is a value; there is no fuel. The polling loops end
  because a round costs at least the tenth of a second it sleeps (\<open>clock_induct\<close>), the repeats of \<open>_gh_output\<close> after
  three calls, the reading loops of Socks5 and Peers with the octets still wanted or the socket's own failure. Two loops of feature_block.py end only
  as the weights of its transactions and the hashes of its headers have it (Feature_Loops); what is shown of them holds
  where they return. C3 is decided by evaluating the plan, every operation of it, with the names replaced by numbers, in the
  kernel; C9 is about the first run, which has no such loop.

  \<^bold>\<open>Parameters\<close>

  What is not in this repository is an argument: \<open>outside\<close>, \<open>fate\<close> and \<open>host\<close> (RPC answers, processes, sleep), \<open>wire\<close> (sockets and random draws),
  \<open>btclib\<close>, \<open>block_lib\<close>, \<open>p2p\<close> and \<open>script_lib\<close> (what btclib computes), \<open>github\<close> (\<open>gh\<close>), \<open>interpreter\<close> (the Python a build is installed
  into), \<open>kernel\<close> (the system calls of the proxy's constructor), \<open>select\<close> (which end is readable), \<open>sats_of\<close> (btclib's \<open>sats_from_btc\<close>), the
  parsers of XML and JSON, and the text of a file. A theorem that relies on one of them names what it relies on as a hypothesis, and its witness has an instance.

  \<^bold>\<open>What is simplified, and what is not modelled\<close>

    \<^item> floats are exact rationals, times among them: rounding, infinities and NaN are left out; strings are octets of UTF-8, and the
      classes of the regular expressions are ASCII, which all their literals are;
    \<^item> an exception keeps its class and the opening words of its message; a message is written out where other code
      reads it (\<open>require\<close>) and in Startup_Report; \<open>print\<close> is the list of the lines printed; \<open>lru_cache\<close> is left out, as the probes it caches answer the same again;
    \<^item> \<open>SessionTransport\<close> and \<open>BitcoinCoreRpcClient\<close> are code of another package: a connection opens, is used and is closed;
    \<^item> settings that another program reads (docs/source/conf.py's, pyproject.toml), the exports of the package, and the tests
      themselves, which call what is modelled here on a running node, are not modelled.

  \<^bold>\<open>What modelling showed\<close>

  \<open>pad_to_vsize_exactness\<close> has the five deficits at which \<open>_pad_to_vsize\<close> misses its target by two virtual bytes;
  \<open>close_can_miss_a_client\<close> a run in which \<open>Socks5Proxy.close\<close> misses a client it should shut; \<open>another_ledgers_issue_is_taken\<close>
  a search that hands check_vendored_vectors.py another ledger's issue; \<open>rpc_client_timeout_negative\<close> a timeout a negative factor makes negative. The deadline of
  \<open>Peer.wait_for\<close> bounds each \<open>recv\<close> and not the call.
\<close>

end
